(* ===== verification/Chronicle_Prelude.thy ===== *)
theory Chronicle_Prelude
  imports Main "HOL-Library.Word" "HOL-Library.List_Lexorder" "HOL-Library.Char_ord"
begin

text \<open>
  Shared vocabulary of the development: Go's integer types, byte strings, instants of
  \<^verbatim>\<open>time.Time\<close>, and the parts of \<^verbatim>\<open>strconv\<close>, \<^verbatim>\<open>strings\<close> and \<^verbatim>\<open>bytes\<close> that the modelled
  code calls, with the generic lemmas the component theories rely on.

  A Go \<^verbatim>\<open>string\<close> and a Go \<^verbatim>\<open>[]byte\<close> are both lists of 8-bit characters, ordered
  lexicographically by byte value, which is Go's \<^verbatim>\<open><\<close> on strings.  An unsigned 64-bit
  integer is a 64-bit word.  A signed integer is an \<^typ>\<open>int\<close>; arithmetic that can leave
  the range of its type is followed by the explicit wrap-around \<^verbatim>\<open>i64\<close> or \<^verbatim>\<open>i32\<close>.
\<close>

type_synonym bytes = string
type_synonym uint64 = "64 word"
type_synonym int64 = int
type_synonym int32 = int

named_theorems store_ops \<open>definitions of the store operations\<close>
named_theorems frame_rules \<open>which parts of a state an operation leaves alone\<close>

section \<open>Signed machine integers\<close>

definition wrap_signed :: "nat \<Rightarrow> int \<Rightarrow> int" where
  "wrap_signed w x = (x + 2 ^ (w - 1)) mod 2 ^ w - 2 ^ (w - 1)"

definition i64 :: "int \<Rightarrow> int64" where
  "i64 x = wrap_signed 64 x"

definition i32 :: "int \<Rightarrow> int32" where
  "i32 x = wrap_signed 32 x"

definition is_i64 :: "int \<Rightarrow> bool" where
  "is_i64 x \<longleftrightarrow> - (2 ^ 63) \<le> x \<and> x < 2 ^ 63"

definition is_i32 :: "int \<Rightarrow> bool" where
  "is_i32 x \<longleftrightarrow> - (2 ^ 31) \<le> x \<and> x < 2 ^ 31"

lemma i64_id: "is_i64 x \<Longrightarrow> i64 x = x"
  by (simp add: i64_def wrap_signed_def is_i64_def)

lemma i32_id: "is_i32 x \<Longrightarrow> i32 x = x"
  by (simp add: i32_def wrap_signed_def is_i32_def)

lemma is_i64_i64 [simp]: "is_i64 (i64 x)"
proof -
  have "0 \<le> (x + 2 ^ 63) mod 2 ^ 64" "(x + 2 ^ 63) mod 2 ^ 64 < (2 ^ 64 :: int)"
    by simp_all
  then show ?thesis by (simp add: is_i64_def i64_def wrap_signed_def)
qed

lemma is_i32_i32 [simp]: "is_i32 (i32 x)"
proof -
  have "0 \<le> (x + 2 ^ 31) mod 2 ^ 32" "(x + 2 ^ 31) mod 2 ^ 32 < (2 ^ 32 :: int)"
    by simp_all
  then show ?thesis by (simp add: is_i32_def i32_def wrap_signed_def)
qed

text \<open>Adding one wraps only at the top of the range.\<close>

lemma i64_Suc: "is_i64 x \<Longrightarrow> i64 (x + 1) = (if x = 2 ^ 63 - 1 then - (2 ^ 63) else x + 1)"
  by (auto simp: i64_def wrap_signed_def is_i64_def)

lemma unat_of_nat_less: "n < 2 ^ 64 \<Longrightarrow> unat (of_nat n :: uint64) = n"
  by (simp add: unat_of_nat)

lemma unat_uint64_less [simp]: "unat (w :: uint64) < 18446744073709551616"
  using unsigned_less [of w, where ?'a = nat] by simp

section \<open>Instants\<close>

text \<open>
  A \<^verbatim>\<open>time.Time\<close> as its Unix seconds and its nanosecond within the second
  (\<^verbatim>\<open>0 .. 999999999\<close>).  The monotonic reading is not represented.
\<close>

record gotime =
  tm_sec :: int64
  tm_nsec :: int64

definition time_wf :: "gotime \<Rightarrow> bool" where
  "time_wf t \<longleftrightarrow> 0 \<le> tm_nsec t \<and> tm_nsec t < 1000000000"

definition time_after :: "gotime \<Rightarrow> gotime \<Rightarrow> bool" where
  "time_after t u \<longleftrightarrow>
     tm_sec u < tm_sec t \<or> tm_sec t = tm_sec u \<and> tm_nsec u < tm_nsec t"

definition time_equal :: "gotime \<Rightarrow> gotime \<Rightarrow> bool" where
  "time_equal t u \<longleftrightarrow> tm_sec t = tm_sec u \<and> tm_nsec t = tm_nsec u"

definition time_unix_nano :: "gotime \<Rightarrow> int64" where
  "time_unix_nano t = i64 (tm_sec t * 1000000000 + tm_nsec t)"

definition time_unix_milli :: "gotime \<Rightarrow> int64" where
  "time_unix_milli t = i64 (tm_sec t * 1000 + tm_nsec t div 1000000)"

lemma time_equal_iff [simp]: "time_equal t u \<longleftrightarrow> t = u"
  by (cases t; cases u) (simp add: time_equal_def)

lemma time_after_irrefl [simp]: "\<not> time_after t t"
  by (simp add: time_after_def)

lemma time_after_trans: "time_after t u \<Longrightarrow> time_after u v \<Longrightarrow> time_after t v"
  by (auto simp: time_after_def)

text \<open>\<^verbatim>\<open>Time.Add\<close> of a duration in nanoseconds, renormalising the two fields.\<close>

definition time_add :: "gotime \<Rightarrow> int64 \<Rightarrow> gotime" where
  "time_add t d =
     \<lparr>tm_sec = i64 (tm_sec t + (tm_nsec t + d) div 1000000000),
      tm_nsec = (tm_nsec t + d) mod 1000000000\<rparr>"

section \<open>Decimal digits\<close>

definition digit_char :: "nat \<Rightarrow> char" where
  "digit_char d = char_of (48 + d)"

definition is_digit :: "char \<Rightarrow> bool" where
  "is_digit c \<longleftrightarrow> 48 \<le> (of_char c :: nat) \<and> (of_char c :: nat) \<le> 57"

definition digit_val :: "char \<Rightarrow> nat" where
  "digit_val c = of_char c - 48"

lemma of_digit_char [simp]: "d < 10 \<Longrightarrow> of_char (digit_char d) = 48 + d"
  by (simp add: digit_char_def)

lemma is_digit_digit_char [simp]: "d < 10 \<Longrightarrow> is_digit (digit_char d)"
  by (simp add: is_digit_def)

lemma digit_val_digit_char [simp]: "d < 10 \<Longrightarrow> digit_val (digit_char d) = d"
  by (simp add: digit_val_def)

lemma digit_val_less: "is_digit c \<Longrightarrow> digit_val c < 10"
  unfolding is_digit_def digit_val_def by linarith

lemma digit_char_digit_val: "is_digit c \<Longrightarrow> digit_char (digit_val c) = c"
  by (simp add: is_digit_def digit_val_def digit_char_def)

lemma digit_val_inject: "is_digit c \<Longrightarrow> is_digit d \<Longrightarrow> digit_val c = digit_val d \<longleftrightarrow> c = d"
  by (metis digit_char_digit_val)

lemma digit_less_iff: "is_digit c \<Longrightarrow> is_digit d \<Longrightarrow> c < d \<longleftrightarrow> digit_val c < digit_val d"
  by (auto simp: is_digit_def digit_val_def less_char_def)

text \<open>The decimal digits of a natural number, most significant first (\<^verbatim>\<open>strconv\<close>'s base 10).\<close>

fun dec_digits :: "nat \<Rightarrow> string" where
  "dec_digits n = (if n < 10 then [digit_char n] else dec_digits (n div 10) @ [digit_char (n mod 10)])"

declare dec_digits.simps [simp del]

text \<open>The value of a digit string.\<close>

definition dec_value :: "string \<Rightarrow> nat" where
  "dec_value s = foldl (\<lambda>acc c. acc * 10 + digit_val c) 0 s"

lemma dec_value_Nil [simp]: "dec_value [] = 0"
  by (simp add: dec_value_def)

lemma dec_value_snoc [simp]: "dec_value (s @ [c]) = dec_value s * 10 + digit_val c"
  by (simp add: dec_value_def)

lemma dec_value_dec_digits [simp]: "dec_value (dec_digits n) = n"
proof (induction n rule: dec_digits.induct)
  case (1 n)
  show ?case
  proof (cases "n < 10")
    case True
    then show ?thesis by (subst dec_digits.simps) (simp add: dec_value_def)
  next
    case False
    with "1" show ?thesis by (subst dec_digits.simps) simp
  qed
qed

lemma dec_digits_digits: "c \<in> set (dec_digits n) \<Longrightarrow> is_digit c"
proof (induction n rule: dec_digits.induct)
  case (1 n)
  show ?case
  proof (cases "n < 10")
    case True
    with "1.prems" show ?thesis by (simp add: dec_digits.simps [of n])
  next
    case False
    with "1.prems" have "c \<in> set (dec_digits (n div 10)) \<or> c = digit_char (n mod 10)"
      by (auto simp: dec_digits.simps [of n])
    with "1.IH" False show ?thesis by auto
  qed
qed

lemma dec_digits_not_Nil [simp]: "dec_digits n \<noteq> []"
  by (subst dec_digits.simps) simp

lemma length_dec_digits: "n < 10 ^ k \<Longrightarrow> 0 < k \<Longrightarrow> length (dec_digits n) \<le> k"
proof (induction k arbitrary: n)
  case 0
  then show ?case by simp
next
  case (Suc k)
  show ?case
  proof (cases "n < 10")
    case True
    then show ?thesis by (simp add: dec_digits.simps [of n])
  next
    case False
    then have "0 < k" using Suc.prems by (cases k) auto
    moreover have "n div 10 < 10 ^ k"
      using Suc.prems by (simp add: less_mult_imp_div_less mult.commute)
    ultimately have "length (dec_digits (n div 10)) \<le> k" by (rule Suc.IH [rotated])
    with False show ?thesis by (simp add: dec_digits.simps [of n])
  qed
qed

lemma dec_value_foldl:
  "foldl (\<lambda>acc c. acc * 10 + digit_val c) a s = a * 10 ^ length s + dec_value s"
proof (induction s rule: rev_induct)
  case Nil
  then show ?case by simp
next
  case (snoc c s)
  then show ?case by (simp add: algebra_simps)
qed

lemma dec_value_append: "dec_value (s @ t) = dec_value s * 10 ^ length t + dec_value t"
  using dec_value_foldl [of "dec_value s" t] by (simp add: dec_value_def)

lemma dec_value_Cons: "dec_value (c # s) = digit_val c * 10 ^ length s + dec_value s"
  using dec_value_append [of "[c]" s] by (simp add: dec_value_def)

lemma dec_value_less: "\<forall>c \<in> set s. is_digit c \<Longrightarrow> dec_value s < 10 ^ length s"
proof (induction s)
  case Nil
  then show ?case by simp
next
  case (Cons c s)
  then have "digit_val c \<le> 9" using digit_val_less [of c] by simp
  then have "digit_val c * 10 ^ length s \<le> 9 * 10 ^ length s" by (rule mult_le_mono1)
  moreover have "dec_value s < 10 ^ length s" using Cons by simp
  ultimately have "digit_val c * 10 ^ length s + dec_value s < 9 * 10 ^ length s + 10 ^ length s"
    by (rule add_le_less_mono)
  then show ?case by (simp add: dec_value_Cons)
qed

lemma dec_value_replicate_zero [simp]: "dec_value (replicate k (digit_char 0) @ s) = dec_value s"
proof -
  have "dec_value (replicate k (digit_char 0)) = 0"
    by (induction k) (simp_all add: dec_value_Cons)
  then show ?thesis by (simp add: dec_value_append)
qed

text \<open>
  Digit strings of one length compare, byte by byte, as the numbers they denote: the fact
  behind every "lexicographically sortable" decimal format.
\<close>

lemma dec_less_iff:
  assumes "length s = length t"
    and "\<forall>c \<in> set s. is_digit c" and "\<forall>c \<in> set t. is_digit c"
  shows "s < t \<longleftrightarrow> dec_value s < dec_value t"
  using assms
proof (induction s t rule: list_induct2)
  case Nil
  then show ?case by simp
next
  case (Cons c s d t)
  let ?n = "10 ^ length s :: nat"
  have bs: "dec_value s < ?n" and bt: "dec_value t < ?n"
    using Cons.prems Cons.hyps dec_value_less [of s] dec_value_less [of t] by auto
  have vals: "dec_value (c # s) = digit_val c * ?n + dec_value s"
    "dec_value (d # t) = digit_val d * ?n + dec_value t"
    using Cons.hyps by (simp_all add: dec_value_Cons)
  consider "digit_val c < digit_val d" | "digit_val c = digit_val d" | "digit_val d < digit_val c"
    by linarith
  then show ?case
  proof cases
    case 1
    then have "(digit_val c + 1) * ?n \<le> digit_val d * ?n" by (intro mult_le_mono1) simp
    with bs 1 vals Cons.prems show ?thesis by (simp add: digit_less_iff)
  next
    case 2
    with Cons vals show ?thesis by (simp add: digit_val_inject)
  next
    case 3
    then have "(digit_val d + 1) * ?n \<le> digit_val c * ?n" by (intro mult_le_mono1) simp
    with bt 3 vals Cons.prems have "dec_value (d # t) < dec_value (c # s)" by simp
    with 3 Cons.prems show ?thesis by (auto simp: digit_less_iff)
  qed
qed

section \<open>strconv\<close>

datatype num_error = ErrSyntax | ErrRange

text \<open>The digit loop of \<^verbatim>\<open>strconv.ParseUint(s, 10, 64)\<close>: it stops at the first bad byte or overflow.\<close>

fun parse_uint_loop :: "nat \<Rightarrow> string \<Rightarrow> num_error + uint64" where
  "parse_uint_loop acc [] = Inr (of_nat acc)"
| "parse_uint_loop acc (c # cs) =
     (if \<not> is_digit c then Inl ErrSyntax
      else if 2 ^ 64 \<le> acc * 10 + digit_val c then Inl ErrRange
      else parse_uint_loop (acc * 10 + digit_val c) cs)"

definition ParseUint :: "string \<Rightarrow> num_error + uint64" where
  "ParseUint s = (if s = [] then Inl ErrSyntax else parse_uint_loop 0 s)"

text \<open>\<^verbatim>\<open>strconv.ParseInt(s, 10, 64)\<close>: an optional sign, then \<^verbatim>\<open>ParseUint\<close> and a range check.\<close>

definition ParseInt :: "string \<Rightarrow> num_error + int64" where
  "ParseInt s =
     (case s of
        [] \<Rightarrow> Inl ErrSyntax
      | c # cs \<Rightarrow>
          (let neg = (c = CHR ''-'');
               digits = (if c = CHR ''+'' \<or> c = CHR ''-'' then cs else s)
           in case ParseUint digits of
                Inl e \<Rightarrow> Inl e
              | Inr un \<Rightarrow>
                  (if \<not> neg \<and> 2 ^ 63 \<le> unat un then Inl ErrRange
                   else if neg \<and> 2 ^ 63 < unat un then Inl ErrRange
                   else Inr (if neg then - int (unat un) else int (unat un)))))"

definition FormatInt :: "int64 \<Rightarrow> string" where
  "FormatInt n = (if n < 0 then CHR ''-'' # dec_digits (nat (- n)) else dec_digits (nat n))"

lemma parse_uint_loop_digits:
  assumes "\<forall>c \<in> set s. is_digit c" and "acc * 10 ^ length s + dec_value s < 2 ^ 64"
  shows "parse_uint_loop acc s = Inr (of_nat (acc * 10 ^ length s + dec_value s))"
  using assms
proof (induction s arbitrary: acc)
  case Nil
  then show ?case by simp
next
  case (Cons c s)
  have eq: "acc * 10 ^ length (c # s) + dec_value (c # s)
      = (acc * 10 + digit_val c) * 10 ^ length s + dec_value s"
    by (simp add: dec_value_Cons algebra_simps)
  have "acc * 10 + digit_val c \<le> (acc * 10 + digit_val c) * 10 ^ length s + dec_value s"
    by (rule trans_le_add1) simp
  also have "\<dots> < 2 ^ 64" using Cons.prems(2) by (simp only: eq)
  finally have "acc * 10 + digit_val c < 2 ^ 64" .
  moreover have "parse_uint_loop (acc * 10 + digit_val c) s
      = Inr (of_nat ((acc * 10 + digit_val c) * 10 ^ length s + dec_value s))"
    using Cons.prems eq by (intro Cons.IH) simp_all
  ultimately show ?case using Cons.prems(1) by (simp only: eq parse_uint_loop.simps) simp
qed

lemma ParseUint_digits:
  "s \<noteq> [] \<Longrightarrow> \<forall>c \<in> set s. is_digit c \<Longrightarrow> dec_value s < 2 ^ 64 \<Longrightarrow> ParseUint s = Inr (of_nat (dec_value s))"
  using parse_uint_loop_digits [of s 0] by (simp add: ParseUint_def)

text \<open>Conversely an accepted string is a non-empty run of digits whose value fits the word.\<close>

lemma parse_uint_loop_Inr:
  assumes "parse_uint_loop acc s = Inr w" and "acc < 2 ^ 64"
  shows "(\<forall>c \<in> set s. is_digit c) \<and> unat w = acc * 10 ^ length s + dec_value s"
  using assms
proof (induction s arbitrary: acc)
  case Nil
  then show ?case by (auto simp: unat_of_nat_less)
next
  case (Cons c s)
  then have "is_digit c" and lt: "acc * 10 + digit_val c < 2 ^ 64"
    and rest: "parse_uint_loop (acc * 10 + digit_val c) s = Inr w"
    by (simp_all split: if_splits)
  with Cons.IH [OF rest lt] show ?case by (simp add: dec_value_Cons algebra_simps)
qed

lemma ParseUint_InrD:
  assumes "ParseUint s = Inr w"
  shows "s \<noteq> []" and "\<forall>c \<in> set s. is_digit c" and "unat w = dec_value s"
  using assms parse_uint_loop_Inr [of 0 s w] by (auto simp: ParseUint_def split: if_splits)

lemma ParseUint_dec_digits [simp]: "ParseUint (dec_digits (unat (w :: uint64))) = Inr w"
proof -
  show ?thesis by (subst ParseUint_digits) (auto simp: dec_digits_digits)
qed

lemma not_sign_digit: "is_digit c \<Longrightarrow> c \<noteq> CHR ''-'' \<and> c \<noteq> CHR ''+''"
  by (auto simp: is_digit_def)

lemma ParseInt_digits:
  assumes "s \<noteq> []" and "\<forall>c \<in> set s. is_digit c" and "dec_value s < 2 ^ 63"
  shows "ParseInt s = Inr (int (dec_value s))"
proof -
  obtain c cs where s: "s = c # cs" using assms(1) by (cases s) auto
  have "c \<noteq> CHR ''-'' \<and> c \<noteq> CHR ''+''" using assms(2) s not_sign_digit [of c] by simp
  moreover have "ParseUint s = Inr (of_nat (dec_value s))"
    using assms by (intro ParseUint_digits) auto
  moreover have "unat (of_nat (dec_value s) :: uint64) = dec_value s"
    using assms(3) by (simp add: unat_of_nat_less)
  ultimately show ?thesis using assms(3) s by (simp add: ParseInt_def Let_def)
qed

lemma ParseInt_FormatInt [simp]:
  assumes "is_i64 n"
  shows "ParseInt (FormatInt n) = Inr n"
proof (cases "n < 0")
  case True
  define k where "k = nat (- n)"
  have n: "n = - int k" and k: "k \<le> 2 ^ 63" "k \<noteq> 0"
    using True assms by (auto simp: k_def is_i64_def)
  have "ParseUint (dec_digits k) = Inr (of_nat k)" and "unat (of_nat k :: uint64) = k"
    using k by (simp_all add: ParseUint_digits dec_digits_digits unat_of_nat_less)
  then show ?thesis
    using True k by (simp add: ParseInt_def FormatInt_def Let_def n)
next
  case False
  then have "nat n < 2 ^ 63" using assms by (simp add: is_i64_def)
  then show ?thesis
    using False by (simp add: FormatInt_def ParseInt_digits dec_digits_digits)
qed

section \<open>strings and bytes\<close>

definition is_ascii_upper :: "char \<Rightarrow> bool" where
  "is_ascii_upper c \<longleftrightarrow> 65 \<le> (of_char c :: nat) \<and> (of_char c :: nat) \<le> 90"

definition ascii_lower :: "char \<Rightarrow> char" where
  "ascii_lower c = (if is_ascii_upper c then char_of ((of_char c :: nat) + 32) else c)"

lemma ascii_lower_idem [simp]: "ascii_lower (ascii_lower c) = ascii_lower c"
  by (auto simp: ascii_lower_def is_ascii_upper_def)

text \<open>\<^verbatim>\<open>strings.Split(s, sep)\<close> for a one-byte separator: always at least one part.\<close>

fun split_on :: "char \<Rightarrow> string \<Rightarrow> string list" where
  "split_on sep [] = [[]]"
| "split_on sep (c # cs) =
     (if c = sep then [] # split_on sep cs
      else (case split_on sep cs of
              [] \<Rightarrow> [[c]]
            | p # ps \<Rightarrow> (c # p) # ps))"

text \<open>\<^verbatim>\<open>strings.Join(parts, sep)\<close>.\<close>

fun join_with :: "string \<Rightarrow> string list \<Rightarrow> string" where
  "join_with sep [] = []"
| "join_with sep [p] = p"
| "join_with sep (p # q # ps) = p @ sep @ join_with sep (q # ps)"

text \<open>\<^verbatim>\<open>strings.Trim(s, "/")\<close>.\<close>

definition trim_slashes :: "string \<Rightarrow> string" where
  "trim_slashes p =
     rev (dropWhile (\<lambda>c. c = CHR ''/'') (rev (dropWhile (\<lambda>c. c = CHR ''/'') p)))"

definition has_prefix :: "string \<Rightarrow> string \<Rightarrow> bool" where
  "has_prefix s p \<longleftrightarrow> take (length p) s = p"

lemma has_prefix_iff: "has_prefix s p \<longleftrightarrow> (\<exists>t. s = p @ t)"
  by (metis append_eq_conv_conj has_prefix_def append_take_drop_id)

lemma split_on_not_Nil [simp]: "split_on sep s \<noteq> []"
  by (induction s) (auto split: list.splits)

lemma split_on_no_sep: "sep \<notin> set s \<Longrightarrow> split_on sep s = [s]"
  by (induction s) auto

lemma split_on_append: "sep \<notin> set s \<Longrightarrow> split_on sep (s @ sep # t) = s # split_on sep t"
  by (induction s) auto

lemma split_on_parts: "p \<in> set (split_on sep s) \<Longrightarrow> sep \<notin> set p"
  by (induction s arbitrary: p) (fastforce split: if_splits list.splits)+

lemma join_with_Cons: "ps \<noteq> [] \<Longrightarrow> join_with sep (p # ps) = p @ sep @ join_with sep ps"
  by (cases ps) auto

lemma join_split_on [simp]: "join_with [sep] (split_on sep s) = s"
proof (induction s)
  case Nil
  then show ?case by simp
next
  case (Cons c s)
  obtain p ps where s: "split_on sep s = p # ps" by (cases "split_on sep s") auto
  with Cons show ?case by (cases ps) (auto simp: join_with_Cons)
qed

lemma split_on_join:
  "ps \<noteq> [] \<Longrightarrow> \<forall>p \<in> set ps. sep \<notin> set p \<Longrightarrow> split_on sep (join_with [sep] ps) = ps"
proof (induction ps)
  case Nil
  then show ?case by simp
next
  case (Cons p ps)
  then show ?case
    by (cases ps) (simp_all add: split_on_no_sep split_on_append join_with_Cons)
qed

lemma append_sep_inject:
  "c \<notin> set s \<Longrightarrow> c \<notin> set t \<Longrightarrow> s @ c # u = t @ c # v \<longleftrightarrow> s = t \<and> u = v"
proof (induction s arbitrary: t)
  case Nil
  then show ?case by (cases t) auto
next
  case (Cons a s)
  then show ?case by (cases t) auto
qed

lemma of_char_nat_less: "(of_char c :: nat) < 256"
  using nat_of_char_less_256 by blast

text \<open>\<^verbatim>\<open>hex.EncodeToString\<close>.\<close>

definition hex_digit :: "nat \<Rightarrow> char" where
  "hex_digit n = (if n < 10 then char_of (48 + n) else char_of (87 + n))"

definition hex_EncodeToString :: "bytes \<Rightarrow> string" where
  "hex_EncodeToString bs =
     concat (map (\<lambda>c. [hex_digit (of_char c div 16), hex_digit (of_char c mod 16)]) bs)"

section \<open>Interfaces\<close>

text \<open>
  A printer and a fallible parser that undo each other on the valid values.  Every textual
  encoding of the development (offsets, epochs, cursors) is an instance.
\<close>

locale codec =
  fixes enc :: "'a \<Rightarrow> string"
    and dec :: "string \<Rightarrow> 'e + 'a"
    and valid :: "'a \<Rightarrow> bool"
  assumes dec_enc: "valid x \<Longrightarrow> dec (enc x) = Inr x"
begin

lemma enc_inject: "valid x \<Longrightarrow> valid y \<Longrightarrow> enc x = enc y \<longleftrightarrow> x = y"
  by (metis dec_enc Inr_inject)

lemma inj_on_enc: "inj_on enc {x. valid x}"
  by (rule inj_onI) (simp add: enc_inject)

end

text \<open>
  A codec whose image sorts, as strings, in the order of the values.  This is what lets a
  component that only holds opaque offset strings compare positions.
\<close>

locale sortable_codec = codec enc dec valid
  for enc :: "'a::linorder \<Rightarrow> string" and dec :: "string \<Rightarrow> 'e + 'a" and valid +
  assumes enc_less: "valid x \<Longrightarrow> valid y \<Longrightarrow> enc x < enc y \<longleftrightarrow> x < y"
begin

lemma enc_le: "valid x \<Longrightarrow> valid y \<Longrightarrow> enc x \<le> enc y \<longleftrightarrow> x \<le> y"
  by (simp add: le_less enc_less enc_inject)

lemma enc_max: "valid x \<Longrightarrow> valid y \<Longrightarrow> max (enc x) (enc y) = enc (max x y)"
  by (simp add: max_def enc_le)

end

text \<open>Decimal integers are such an encoding.\<close>

interpretation int_codec: codec FormatInt ParseInt is_i64
  by unfold_locales simp

text \<open>
  A state machine given by a partial step function over labelled operations.  An invariant
  that holds initially and is kept by every step holds after every run; a relation that
  every step respects holds between the two ends of a run.
\<close>

locale step_machine =
  fixes init :: "'s \<Rightarrow> bool"
    and step :: "'s \<Rightarrow> 'op \<Rightarrow> 's \<Rightarrow> bool"
    and inv :: "'s \<Rightarrow> bool"
  assumes init_inv: "init s \<Longrightarrow> inv s"
    and step_inv: "inv s \<Longrightarrow> step s op t \<Longrightarrow> inv t"
begin

inductive run :: "'s \<Rightarrow> 'op list \<Rightarrow> 's \<Rightarrow> bool" where
  run_Nil: "run s [] s"
| run_Cons: "step s op t \<Longrightarrow> run t ops u \<Longrightarrow> run s (op # ops) u"

lemma run_inv: "run s ops t \<Longrightarrow> inv s \<Longrightarrow> inv t"
  by (induction rule: run.induct) (auto intro: step_inv)

lemma init_run_inv: "init s \<Longrightarrow> run s ops t \<Longrightarrow> inv t"
  by (blast intro: run_inv init_inv)

lemma run_snoc: "run s ops t \<Longrightarrow> step t op u \<Longrightarrow> run s (ops @ [op]) u"
  by (induction rule: run.induct) (auto intro: run.intros)

lemma run_relation:
  assumes "run s ops t" and "inv s"
    and "\<And>x. R x x" and "\<And>x y z. R x y \<Longrightarrow> R y z \<Longrightarrow> R x z"
    and "\<And>x op y. inv x \<Longrightarrow> step x op y \<Longrightarrow> R x y"
  shows "R s t"
  using assms(1,2)
proof (induction rule: run.induct)
  case (run_Nil s)
  then show ?case by (simp add: assms(3))
next
  case (run_Cons s op t ops u)
  then have "inv t" by (blast intro: step_inv)
  with run_Cons have "R t u" by blast
  moreover from run_Cons have "R s t" by (intro assms(5))
  ultimately show ?case by (blast intro: assms(4))
qed

end

end
