(* ===== verification/Stream_Offset.thy ===== *)
theory Stream_Offset
  imports Chronicle_Prelude
begin

text \<open>
  Stream positions: \<^verbatim>\<open>src/store/offset.go\<close>.  An offset is a pair of 64-bit words, printed
  as two zero-padded decimal fields and ordered lexicographically by \<^verbatim>\<open>Compare\<close>.  The
  theory gives the order as an instance of \<^verbatim>\<open>linorder\<close>, so that the library's
  automation applies to it, and the textual format as an instance of the codec interface.
\<close>

section \<open>The type and its operations\<close>

datatype Offset = Offset (ReadSeq: uint64) (ByteOffset: uint64)

definition ZeroOffset :: Offset where
  "ZeroOffset = Offset 0 0"

definition pad16 :: "string \<Rightarrow> string" where
  "pad16 s = replicate (16 - length s) (digit_char 0) @ s"

definition offset_String :: "Offset \<Rightarrow> string" where
  "offset_String off =
     pad16 (dec_digits (unat (ReadSeq off))) @ ''_'' @ pad16 (dec_digits (unat (ByteOffset off)))"

definition IsZero :: "Offset \<Rightarrow> bool" where
  "IsZero off \<longleftrightarrow> ReadSeq off = 0 \<and> ByteOffset off = 0"

definition Add :: "Offset \<Rightarrow> uint64 \<Rightarrow> Offset" where
  "Add off n = Offset (ReadSeq off) (ByteOffset off + n)"

definition NowOffset :: Offset where
  "NowOffset = Offset (- 1) (- 1)"

definition IsNow :: "Offset \<Rightarrow> bool" where
  "IsNow off \<longleftrightarrow> ReadSeq off = - 1 \<and> ByteOffset off = - 1"

text \<open>
  The scan of \<^verbatim>\<open>isValidOffsetFormat\<close>: position, underscores seen so far, and the position of
  the last one (\<^verbatim>\<open>-1\<close> before the first).  \<^const>\<open>None\<close> is the early \<^verbatim>\<open>return false\<close>.
\<close>

fun offset_format_scan :: "int \<Rightarrow> nat \<Rightarrow> int \<Rightarrow> string \<Rightarrow> (nat \<times> int) option" where
  "offset_format_scan i underscoreCount underscorePos [] = Some (underscoreCount, underscorePos)"
| "offset_format_scan i underscoreCount underscorePos (c # cs) =
     (if c = CHR ''_'' then
        (if underscoreCount + 1 > 1 then None
         else offset_format_scan (i + 1) (underscoreCount + 1) i cs)
      else if \<not> is_digit c then None
      else offset_format_scan (i + 1) underscoreCount underscorePos cs)"

definition isValidOffsetFormat :: "string \<Rightarrow> bool" where
  "isValidOffsetFormat s =
     (if length s < 3 then False
      else (case offset_format_scan 0 0 (- 1) s of
              None \<Rightarrow> False
            | Some (underscoreCount, underscorePos) \<Rightarrow>
                underscoreCount = 1 \<and> underscorePos > 0 \<and> underscorePos < int (length s) - 1))"

datatype offset_error =
    InvalidOffsetFormat
  | InvalidOffsetParts
  | InvalidReadSeq num_error
  | InvalidByteOffset num_error

definition ParseOffset :: "string \<Rightarrow> offset_error + Offset" where
  "ParseOffset s =
     (if s = '''' then Inr ZeroOffset
      else if s = ''-1'' then Inr ZeroOffset
      else if s = ''now'' then Inr NowOffset
      else if \<not> isValidOffsetFormat s then Inl InvalidOffsetFormat
      else (case split_on CHR ''_'' s of
              [p, q] \<Rightarrow>
                (case ParseUint p of
                   Inl e \<Rightarrow> Inl (InvalidReadSeq e)
                 | Inr readSeq \<Rightarrow>
                     (case ParseUint q of
                        Inl e \<Rightarrow> Inl (InvalidByteOffset e)
                      | Inr byteOffset \<Rightarrow> Inr (Offset readSeq byteOffset)))
            | _ \<Rightarrow> Inl InvalidOffsetParts))"

definition Compare :: "Offset \<Rightarrow> Offset \<Rightarrow> int" where
  "Compare a b =
     (if ReadSeq a < ReadSeq b then - 1
      else if ReadSeq a > ReadSeq b then 1
      else if ByteOffset a < ByteOffset b then - 1
      else if ByteOffset a > ByteOffset b then 1
      else 0)"

definition LessThan :: "Offset \<Rightarrow> Offset \<Rightarrow> bool" where
  "LessThan a b \<longleftrightarrow> Compare a b < 0"

definition LessThanOrEqual :: "Offset \<Rightarrow> Offset \<Rightarrow> bool" where
  "LessThanOrEqual a b \<longleftrightarrow> Compare a b \<le> 0"

definition offset_Equal :: "Offset \<Rightarrow> Offset \<Rightarrow> bool" where
  "offset_Equal a b \<longleftrightarrow> Compare a b = 0"

section \<open>The order\<close>

lemma Compare_self [simp]: "Compare a a = 0"
  by (simp add: Compare_def)

lemma Compare_eq_0 [simp]: "Compare a b = 0 \<longleftrightarrow> a = b"
  by (cases a; cases b) (auto simp: Compare_def)

lemma Compare_swap: "Compare b a = - Compare a b"
  by (auto simp: Compare_def)

lemma Compare_less_trans: "Compare a b < 0 \<Longrightarrow> Compare b c < 0 \<Longrightarrow> Compare a c < 0"
  by (auto simp: Compare_def split: if_splits)

text \<open>\<^const>\<open>Compare\<close> is a linear order; the library's order classes take it over.\<close>

instantiation Offset :: linorder
begin

definition less_eq_Offset :: "Offset \<Rightarrow> Offset \<Rightarrow> bool" where
  "a \<le> b \<longleftrightarrow> LessThanOrEqual a b"

definition less_Offset :: "Offset \<Rightarrow> Offset \<Rightarrow> bool" where
  "a < b \<longleftrightarrow> LessThan a b"

instance
proof
  fix a b c :: Offset
  show "a < b \<longleftrightarrow> a \<le> b \<and> \<not> b \<le> a"
    using Compare_swap [of a b]
    by (auto simp: less_Offset_def less_eq_Offset_def LessThan_def LessThanOrEqual_def)
  show "a \<le> a" by (simp add: less_eq_Offset_def LessThanOrEqual_def)
  show "a \<le> b \<Longrightarrow> b \<le> c \<Longrightarrow> a \<le> c"
    using Compare_less_trans [of a b c] Compare_eq_0 [of a b] Compare_eq_0 [of b c]
    by (auto simp: less_eq_Offset_def LessThanOrEqual_def le_less)
  show "a \<le> b \<Longrightarrow> b \<le> a \<Longrightarrow> a = b"
    using Compare_swap [of a b] Compare_eq_0 [of a b]
    by (simp add: less_eq_Offset_def LessThanOrEqual_def)
  show "a \<le> b \<or> b \<le> a"
    using Compare_swap [of a b] by (auto simp: less_eq_Offset_def LessThanOrEqual_def)
qed

end

lemma LessThan_iff [simp]: "LessThan a b \<longleftrightarrow> a < b"
  by (rule less_Offset_def [symmetric])

lemma LessThanOrEqual_iff [simp]: "LessThanOrEqual a b \<longleftrightarrow> a \<le> b"
  by (rule less_eq_Offset_def [symmetric])

lemma offset_Equal_iff [simp]: "offset_Equal a b \<longleftrightarrow> a = b"
  by (simp add: offset_Equal_def)

lemma offset_less_iff:
  "a < b \<longleftrightarrow> ReadSeq a < ReadSeq b \<or> ReadSeq a = ReadSeq b \<and> ByteOffset a < ByteOffset b"
  unfolding less_Offset_def LessThan_def by (auto simp: Compare_def)

lemma offset_le_iff:
  "a \<le> b \<longleftrightarrow> ReadSeq a < ReadSeq b \<or> ReadSeq a = ReadSeq b \<and> ByteOffset a \<le> ByteOffset b"
  by (cases a; cases b) (auto simp: le_less offset_less_iff)

lemma offset_less_same_seq: "ReadSeq a = ReadSeq b \<Longrightarrow> a < b \<longleftrightarrow> ByteOffset a < ByteOffset b"
  by (simp add: offset_less_iff)

lemma ZeroOffset_least [simp]: "ZeroOffset \<le> a"
  by (auto simp: offset_le_iff ZeroOffset_def word_gt_0)

lemma not_less_ZeroOffset [simp]: "\<not> a < ZeroOffset"
  by (simp add: not_less)

lemma NowOffset_greatest: "a \<le> NowOffset"
proof -
  have "x \<le> - 1" for x :: uint64 by (rule word_order.extremum)
  then show ?thesis by (auto simp: offset_le_iff NowOffset_def less_le)
qed

lemma IsNow_iff [simp]: "IsNow a \<longleftrightarrow> a = NowOffset"
  by (cases a) (simp add: IsNow_def NowOffset_def)

lemma IsZero_iff [simp]: "IsZero a \<longleftrightarrow> a = ZeroOffset"
  by (cases a) (simp add: IsZero_def ZeroOffset_def)

section \<open>Advancing\<close>

lemma Add_sel [simp]: "ReadSeq (Add a n) = ReadSeq a" "ByteOffset (Add a n) = ByteOffset a + n"
  by (simp_all add: Add_def)

lemma Add_0 [simp]: "Add a 0 = a"
  by (cases a) (simp add: Add_def)

lemma Add_Add [simp]: "Add (Add a m) n = Add a (m + n)"
  by (simp add: Add_def add.assoc)

text \<open>\<^const>\<open>Add\<close> moves forward exactly when the byte counter does not wrap.\<close>

lemma Add_ge_iff: "a \<le> Add a n \<longleftrightarrow> unat (ByteOffset a) + unat n < 2 ^ 64"
  using no_plus_overflow_unat_size [of "ByteOffset a" n]
  by (auto simp: offset_le_iff word_size)

lemma Add_less_iff: "a < Add a n \<longleftrightarrow> n \<noteq> 0 \<and> unat (ByteOffset a) + unat n < 2 ^ 64"
proof -
  have "Add a n = a \<longleftrightarrow> n = 0" by (cases a) (auto simp: Add_def)
  then show ?thesis by (auto simp: less_le Add_ge_iff)
qed

section \<open>The textual format\<close>

lemma pad16_digits: "c \<in> set (pad16 (dec_digits n)) \<Longrightarrow> is_digit c"
  by (auto simp: pad16_def dest: dec_digits_digits)

lemma dec_value_pad16 [simp]: "dec_value (pad16 s) = dec_value s"
  by (simp add: pad16_def)

lemma pad16_not_Nil [simp]: "pad16 (dec_digits n) \<noteq> []"
  by (simp add: pad16_def)

lemma length_pad16: "n < 10 ^ 16 \<Longrightarrow> length (pad16 (dec_digits n)) = 16"
  using length_dec_digits [of n 16] by (simp add: pad16_def)

lemma underscore_not_digit [simp]: "\<not> is_digit CHR ''_''"
  by (simp add: is_digit_def)

text \<open>The scan accepts exactly the strings with one underscore between two digit runs.\<close>

lemma offset_format_scan_digits:
  "\<forall>c \<in> set s. is_digit c \<Longrightarrow> offset_format_scan i k p s = Some (k, p)"
  by (induction s arbitrary: i) auto

lemma offset_format_scan_append:
  "\<forall>c \<in> set s. is_digit c \<Longrightarrow>
     offset_format_scan i k p (s @ t) = offset_format_scan (i + int (length s)) k p t"
proof (induction s arbitrary: i)
  case Nil
  then show ?case by simp
next
  case (Cons c s)
  then have "c \<noteq> CHR ''_''" by auto
  with Cons show ?case by (simp add: add.assoc)
qed

lemma offset_format_scan_one:
  assumes "offset_format_scan i 1 p s = Some r"
  shows "(\<forall>c \<in> set s. is_digit c) \<and> r = (1, p)"
  using assms by (induction s arbitrary: i) (auto split: if_splits)

lemma offset_format_scan_zero:
  assumes "offset_format_scan i 0 p s = Some (1, q)"
  shows "\<exists>s1 s2. s = s1 @ ''_'' @ s2 \<and> (\<forall>c \<in> set s1. is_digit c) \<and> (\<forall>c \<in> set s2. is_digit c)
           \<and> q = i + int (length s1)"
  using assms
proof (induction s arbitrary: i)
  case Nil
  then show ?case by simp
next
  case (Cons c s)
  show ?case
  proof (cases "c = CHR ''_''")
    case True
    with Cons.prems have "offset_format_scan (i + 1) 1 i s = Some (1, q)" by simp
    from offset_format_scan_one [OF this] True
    have "c # s = [] @ ''_'' @ s \<and> (\<forall>c \<in> set s. is_digit c) \<and> q = i + int (length ([] :: string))"
      by simp
    then show ?thesis by (metis empty_iff empty_set)
  next
    case False
    with Cons.prems have d: "is_digit c" and rest: "offset_format_scan (i + 1) 0 p s = Some (1, q)"
      by (simp_all split: if_splits)
    from Cons.IH [OF rest] obtain s1 s2 where "s = s1 @ ''_'' @ s2"
      "\<forall>c \<in> set s1. is_digit c" "\<forall>c \<in> set s2. is_digit c" "q = i + 1 + int (length s1)"
      by blast
    with d have "c # s = (c # s1) @ ''_'' @ s2 \<and> (\<forall>c \<in> set (c # s1). is_digit c)
        \<and> (\<forall>c \<in> set s2. is_digit c) \<and> q = i + int (length (c # s1))"
      by simp
    then show ?thesis by blast
  qed
qed

lemma isValidOffsetFormat_iff:
  "isValidOffsetFormat s \<longleftrightarrow>
     (\<exists>s1 s2. s = s1 @ ''_'' @ s2 \<and> s1 \<noteq> [] \<and> s2 \<noteq> [] \<and>
        (\<forall>c \<in> set s1. is_digit c) \<and> (\<forall>c \<in> set s2. is_digit c))"
proof
  assume "isValidOffsetFormat s"
  then obtain p where scan: "offset_format_scan 0 0 (- 1) s = Some (1, p)"
    and p: "0 < p" "p < int (length s) - 1"
    by (auto simp: isValidOffsetFormat_def split: if_splits option.splits)
  from offset_format_scan_zero [OF scan] obtain s1 s2 where
    "s = s1 @ ''_'' @ s2" "\<forall>c \<in> set s1. is_digit c" "\<forall>c \<in> set s2. is_digit c" "p = int (length s1)"
    by auto
  with p show "\<exists>s1 s2. s = s1 @ ''_'' @ s2 \<and> s1 \<noteq> [] \<and> s2 \<noteq> [] \<and>
      (\<forall>c \<in> set s1. is_digit c) \<and> (\<forall>c \<in> set s2. is_digit c)"
    by (intro exI [of _ s1] exI [of _ s2]) auto
next
  assume "\<exists>s1 s2. s = s1 @ ''_'' @ s2 \<and> s1 \<noteq> [] \<and> s2 \<noteq> [] \<and>
      (\<forall>c \<in> set s1. is_digit c) \<and> (\<forall>c \<in> set s2. is_digit c)"
  then obtain s1 s2 where s: "s = s1 @ ''_'' @ s2" "s1 \<noteq> []" "s2 \<noteq> []"
    and d: "\<forall>c \<in> set s1. is_digit c" "\<forall>c \<in> set s2. is_digit c"
    by blast
  have "offset_format_scan 0 0 (- 1) s = Some (1, int (length s1))"
    using d by (simp add: s(1) offset_format_scan_append offset_format_scan_digits)
  moreover have "\<not> length s < 3" using s by (cases s1; cases s2) auto
  ultimately show "isValidOffsetFormat s"
    using s by (simp add: isValidOffsetFormat_def Suc_le_eq)
qed

lemma ParseOffset_fields:
  assumes "s1 \<noteq> []" "s2 \<noteq> []" "\<forall>c \<in> set s1. is_digit c" "\<forall>c \<in> set s2. is_digit c"
  shows "ParseOffset (s1 @ ''_'' @ s2) =
    (case ParseUint s1 of Inl e \<Rightarrow> Inl (InvalidReadSeq e)
     | Inr a \<Rightarrow> (case ParseUint s2 of Inl e \<Rightarrow> Inl (InvalidByteOffset e) | Inr b \<Rightarrow> Inr (Offset a b)))"
proof -
  let ?s = "s1 @ ''_'' @ s2"
  have "?s \<noteq> t" if "CHR ''_'' \<notin> set t" for t using that by auto
  then have "?s \<noteq> ''''" "?s \<noteq> ''-1''" "?s \<noteq> ''now''" by simp_all
  moreover have "CHR ''_'' \<notin> set s1" "CHR ''_'' \<notin> set s2" using assms by auto
  then have "split_on CHR ''_'' ?s = [s1, s2]" by (simp add: split_on_append split_on_no_sep)
  moreover have "isValidOffsetFormat ?s" using assms by (auto simp: isValidOffsetFormat_iff)
  ultimately show ?thesis unfolding ParseOffset_def by (simp split: sum.splits)
qed

lemma ParseUint_pad16 [simp]: "ParseUint (pad16 (dec_digits (unat (w :: uint64)))) = Inr w"
  by (subst ParseUint_digits) (auto intro: pad16_digits)

text \<open>Printing and parsing an offset is an instance of the codec interface, for every offset.\<close>

lemma ParseOffset_offset_String: "ParseOffset (offset_String off) = Inr off"
  unfolding offset_String_def
  by (subst ParseOffset_fields) (auto intro: pad16_digits)

definition narrow_offset :: "Offset \<Rightarrow> bool" where
  "narrow_offset off \<longleftrightarrow> unat (ReadSeq off) < 10 ^ 16 \<and> unat (ByteOffset off) < 10 ^ 16"

lemma less_append_same_length:
  "length s = length t \<Longrightarrow> s @ u < t @ v \<longleftrightarrow> s < t \<or> s = t \<and> u < (v :: 'a::linorder list)"
  by (induction s t rule: list_induct2) auto

lemma pad16_less_iff:
  assumes "m < 10 ^ 16" "n < 10 ^ 16"
  shows "pad16 (dec_digits m) < pad16 (dec_digits n) \<longleftrightarrow> m < n"
proof -
  have "length (pad16 (dec_digits m)) = length (pad16 (dec_digits n))"
    using assms by (simp add: length_pad16)
  then show ?thesis by (subst dec_less_iff) (auto intro: pad16_digits)
qed

lemma pad16_eq_iff: "pad16 (dec_digits m) = pad16 (dec_digits n) \<longleftrightarrow> m = n"
  by (metis dec_value_dec_digits dec_value_pad16)

lemma offset_String_less_iff:
  assumes "narrow_offset a" "narrow_offset b"
  shows "offset_String a < offset_String b \<longleftrightarrow> a < b"
proof -
  let ?p = "\<lambda>w :: uint64. pad16 (dec_digits (unat w))"
  have len: "length (?p (ReadSeq a)) = length (?p (ReadSeq b))"
    using assms by (simp add: narrow_offset_def length_pad16)
  have "offset_String a < offset_String b \<longleftrightarrow>
      ?p (ReadSeq a) < ?p (ReadSeq b) \<or>
      ?p (ReadSeq a) = ?p (ReadSeq b) \<and> ?p (ByteOffset a) < ?p (ByteOffset b)"
    unfolding offset_String_def by (simp add: less_append_same_length [OF len])
  then show ?thesis
    using assms
    by (simp add: narrow_offset_def pad16_less_iff pad16_eq_iff offset_less_iff word_less_nat_alt
      word_unat_eq_iff)
qed

interpretation offset_codec: codec offset_String ParseOffset "\<lambda>_. True"
  by unfold_locales (rule ParseOffset_offset_String)

interpretation narrow_codec: sortable_codec offset_String ParseOffset narrow_offset
  by unfold_locales (simp_all add: ParseOffset_offset_String offset_String_less_iff)

end
