(* ===== verification/Auth_Fence.thy ===== *)
theory Auth_Fence
  imports Chronicle_Prelude
begin

text \<open>
  The authorization vocabulary the store shares with the HTTP layer: actions, denial
  reasons, decisions and the claim identity of a fenced write
  (\<^verbatim>\<open>src/auth/decision.go\<close>).
\<close>

datatype Action =
    ActionRead | ActionAppend | ActionCreate | ActionDelete
  | ActionSubscribe | ActionLink | ActionClaim

record AppendFence =
  af_SubscriptionID :: string
  af_SubscriptionIncarnation :: string
  af_Shard :: int
  af_Generation :: int64
  af_WakeID :: string
  af_Holder :: string
  af_LeaseUntilNs :: int64

definition fence_Complete :: "AppendFence \<Rightarrow> bool" where
  "fence_Complete f \<longleftrightarrow>
     af_SubscriptionID f \<noteq> '''' \<and> af_SubscriptionIncarnation f \<noteq> '''' \<and>
     0 \<le> af_Shard f \<and> 0 < af_Generation f \<and> af_WakeID f \<noteq> '''' \<and> af_Holder f \<noteq> ''''"

fun action_String :: "Action \<Rightarrow> string" where
  "action_String ActionRead = ''read''"
| "action_String ActionAppend = ''append''"
| "action_String ActionCreate = ''create''"
| "action_String ActionDelete = ''delete''"
| "action_String ActionSubscribe = ''subscribe''"
| "action_String ActionLink = ''link''"
| "action_String ActionClaim = ''claim''"

datatype DenyReason = ReasonNone | ReasonUnauthenticated | ReasonForbidden | ReasonFenced

fun reason_String :: "DenyReason \<Rightarrow> string" where
  "reason_String ReasonNone = ''none''"
| "reason_String ReasonUnauthenticated = ''unauthenticated''"
| "reason_String ReasonForbidden = ''forbidden''"
| "reason_String ReasonFenced = ''fenced''"

record Decision =
  dec_allowed :: bool
  dec_reason :: DenyReason
  dec_detail :: string

definition Allow :: Decision where
  "Allow = \<lparr>dec_allowed = True, dec_reason = ReasonNone, dec_detail = ''''\<rparr>"

definition Deny :: "DenyReason \<Rightarrow> string \<Rightarrow> Decision" where
  "Deny reason detail =
     \<lparr>dec_allowed = False,
      dec_reason = (if reason = ReasonNone then ReasonUnauthenticated else reason),
      dec_detail = detail\<rparr>"

text \<open>
  The decisions the two constructors build: an allowed one carries no reason, a denial
  always carries one.
\<close>

definition decision_wf :: "Decision \<Rightarrow> bool" where
  "decision_wf d \<longleftrightarrow> (dec_allowed d \<longleftrightarrow> dec_reason d = ReasonNone)"

lemma decision_wf_Allow [simp]: "decision_wf Allow"
  by (simp add: decision_wf_def Allow_def)

lemma decision_wf_Deny [simp]: "decision_wf (Deny r d)"
  by (simp add: decision_wf_def Deny_def)

lemma Allow_allowed [simp]: "dec_allowed Allow"
  by (simp add: Allow_def)

lemma Deny_denied [simp]: "\<not> dec_allowed (Deny r d)"
  by (simp add: Deny_def)

lemma action_String_inject: "action_String a = action_String b \<longleftrightarrow> a = b"
  by (cases a; cases b) simp_all

end
