(* ===== verification/Stream_Types.thy ===== *)
theory Stream_Types
  imports Stream_Offset Auth_Fence
begin

text \<open>
  The storage contract: errors, options, results, stream metadata and the pure predicates
  over them (\<^verbatim>\<open>src/store/store.go\<close>), and the read-side records
  (\<^verbatim>\<open>src/store/page.go\<close>).  A Go pointer that may be nil is an \<^typ>\<open>'a option\<close>; a pair
  \<^verbatim>\<open>(result, error)\<close> is a pair of the result and an optional error.
\<close>

section \<open>Errors and results\<close>

datatype store_error =
    ErrStreamNotFound | ErrStreamExpired | ErrStreamExists | ErrConfigMismatch
  | ErrSequenceConflict | ErrContentTypeMismatch | ErrEmptyBody | ErrInvalidOffset
  | ErrEmptyJSONArray | ErrInvalidJSON | ErrStreamClosed | ErrNotificationSubscriptionClosed
  | ErrAppendFenced | ErrWriteFenceUnsupported
  | ErrStaleEpoch | ErrInvalidEpochSeq | ErrProducerSeqGap | ErrPartialProducer
  | ErrStreamSoftDeleted | ErrInvalidForkOffset | ErrInvalidForkSubOffset | ErrRefCountUnderflow
  | ErrReadSnapshotChanged | ErrReadDataMissing
  | ErrContextCanceled | ErrContextDeadline | ErrNoProgress | ErrIncarnation | ErrDurable

record ProducerState =
  ps_Epoch :: int64
  ps_LastSeq :: int64
  ps_LastUpdated :: int64

datatype ProducerResult = ProducerResultNone | ProducerResultAccepted | ProducerResultDuplicate

datatype FenceReason =
    FenceNone | FenceSealed | FenceMarker | FenceProducerRequired | FenceEpoch | FenceBound

record AppendResult =
  ar_Offset :: Offset
  ar_ProducerResult :: ProducerResult
  ar_CurrentEpoch :: int64
  ar_ExpectedSeq :: int64
  ar_ReceivedSeq :: int64
  ar_LastSeq :: int64
  ar_StreamClosed :: bool
  ar_FenceReason :: FenceReason
  ar_FenceGeneration :: int64
  ar_FenceHolder :: string

text \<open>The zero value \<^verbatim>\<open>AppendResult{}\<close>, from which Go's composite literals start.\<close>

definition AppendResult0 :: AppendResult where
  "AppendResult0 = \<lparr>ar_Offset = ZeroOffset, ar_ProducerResult = ProducerResultNone,
     ar_CurrentEpoch = 0, ar_ExpectedSeq = 0, ar_ReceivedSeq = 0, ar_LastSeq = 0,
     ar_StreamClosed = False, ar_FenceReason = FenceNone, ar_FenceGeneration = 0,
     ar_FenceHolder = ''''\<rparr>"

record CloseResult =
  cr_FinalOffset :: Offset
  cr_AlreadyClosed :: bool
  cr_FenceReason :: FenceReason
  cr_FenceGeneration :: int64
  cr_FenceHolder :: string

definition CloseResult0 :: CloseResult where
  "CloseResult0 = \<lparr>cr_FinalOffset = ZeroOffset, cr_AlreadyClosed = False,
     cr_FenceReason = FenceNone, cr_FenceGeneration = 0, cr_FenceHolder = ''''\<rparr>"

record CloseProducerOptions =
  cpo_ProducerId :: string
  cpo_ProducerEpoch :: int64
  cpo_ProducerSeq :: int64
  cpo_Fence :: "AppendFence option"

record CloseProducerResult =
  cpr_FinalOffset :: Offset
  cpr_ProducerResult :: ProducerResult
  cpr_CurrentEpoch :: int64
  cpr_ExpectedSeq :: int64
  cpr_ReceivedSeq :: int64
  cpr_LastSeq :: int64
  cpr_StreamClosed :: bool
  cpr_AlreadyClosed :: bool
  cpr_FenceReason :: FenceReason
  cpr_FenceGeneration :: int64
  cpr_FenceHolder :: string

definition CloseProducerResult0 :: CloseProducerResult where
  "CloseProducerResult0 = \<lparr>cpr_FinalOffset = ZeroOffset, cpr_ProducerResult = ProducerResultNone,
     cpr_CurrentEpoch = 0, cpr_ExpectedSeq = 0, cpr_ReceivedSeq = 0, cpr_LastSeq = 0,
     cpr_StreamClosed = False, cpr_AlreadyClosed = False, cpr_FenceReason = FenceNone,
     cpr_FenceGeneration = 0, cpr_FenceHolder = ''''\<rparr>"

datatype SealOutcome = SealSealed | SealAlready | SealStale | SealNotFound | SealUnfenced

record SealResult =
  sr_Outcome :: SealOutcome
  sr_Generation :: int64
  sr_FinalOffset :: Offset

section \<open>Options and metadata\<close>

record ClosedByProducer =
  cb_ProducerId :: string
  cb_Epoch :: int64
  cb_Seq :: int64

record CreateOptions =
  co_ContentType :: string
  co_TTLSeconds :: "int64 option"
  co_ExpiresAt :: "gotime option"
  co_InitialData :: bytes
  co_Closed :: bool
  co_WriteFence :: bool
  co_ForkedFrom :: string
  co_ForkOffset :: "Offset option"
  co_ForkSubOffset :: "uint64 option"

record AppendOptions =
  ao_Seq :: string
  ao_ContentType :: string
  ao_Close :: bool
  ao_ProducerId :: string
  ao_ProducerEpoch :: "int64 option"
  ao_ProducerSeq :: "int64 option"
  ao_Fence :: "AppendFence option"
  ao_TailHint :: "Offset option"

definition HasProducerHeaders :: "AppendOptions \<Rightarrow> bool" where
  "HasProducerHeaders opts \<longleftrightarrow>
     ao_ProducerId opts \<noteq> '''' \<or> ao_ProducerEpoch opts \<noteq> None \<or> ao_ProducerSeq opts \<noteq> None"

definition HasAllProducerHeaders :: "AppendOptions \<Rightarrow> bool" where
  "HasAllProducerHeaders opts \<longleftrightarrow>
     ao_ProducerId opts \<noteq> '''' \<and> ao_ProducerEpoch opts \<noteq> None \<and> ao_ProducerSeq opts \<noteq> None"

record Message =
  msg_Data :: bytes
  msg_Offset :: Offset

record StreamMetadata =
  sm_Path :: string
  sm_Incarnation :: string
  sm_ContentType :: string
  sm_CurrentOffset :: Offset
  sm_LastSeq :: string
  sm_TTLSeconds :: "int64 option"
  sm_ExpiresAt :: "gotime option"
  sm_CreatedAt :: gotime
  sm_LastAccessedAt :: gotime
  sm_Producers :: "string \<rightharpoonup> ProducerState"
  sm_Closed :: bool
  sm_ClosedBy :: "ClosedByProducer option"
  sm_ForkedFrom :: string
  sm_ForkOffset :: Offset
  sm_ForkOffsetRequested :: "Offset option"
  sm_ForkSubOffset :: uint64
  sm_RefCount :: int32
  sm_SoftDeleted :: bool
  sm_WriteFence :: bool
  sm_SealedGeneration :: int64
  sm_SealedOffset :: "Offset option"

section \<open>Predicates over metadata\<close>

definition SameIncarnation :: "StreamMetadata option \<Rightarrow> StreamMetadata option \<Rightarrow> bool" where
  "SameIncarnation m other =
     (case (m, other) of
        (Some m, Some other) \<Rightarrow>
          (if sm_Incarnation m \<noteq> '''' \<or> sm_Incarnation other \<noteq> '''' then
             sm_Incarnation m \<noteq> '''' \<and> sm_Incarnation m = sm_Incarnation other
           else time_equal (sm_CreatedAt m) (sm_CreatedAt other))
      | _ \<Rightarrow> False)"

definition IsExpiredAt :: "StreamMetadata \<Rightarrow> gotime \<Rightarrow> bool" where
  "IsExpiredAt m now =
     (if (case sm_ExpiresAt m of None \<Rightarrow> False | Some t \<Rightarrow> time_after now t) then True
      else (case sm_TTLSeconds m of
              None \<Rightarrow> False
            | Some ttl \<Rightarrow>
                (let maxInt64 = 9223372036854775807;
                     lastSeconds = tm_sec (sm_LastAccessedAt m)
                 in if 0 < ttl \<and> i64 (maxInt64 - ttl) < lastSeconds then False
                    else (let expirySeconds = i64 (lastSeconds + ttl);
                              nowSeconds = tm_sec now
                          in if nowSeconds \<noteq> expirySeconds then expirySeconds < nowSeconds
                             else tm_nsec (sm_LastAccessedAt m) < tm_nsec now))))"

fun extractMediaType :: "string \<Rightarrow> string" where
  "extractMediaType [] = []"
| "extractMediaType (c # cs) = (if c = CHR '';'' then [] else c # extractMediaType cs)"

fun equalFold_loop :: "string \<Rightarrow> string \<Rightarrow> bool" where
  "equalFold_loop (a # as) (b # bs) =
     (if ascii_lower a \<noteq> ascii_lower b then False else equalFold_loop as bs)"
| "equalFold_loop _ _ = True"

definition equalFold :: "string \<Rightarrow> string \<Rightarrow> bool" where
  "equalFold a b = (if length a \<noteq> length b then False else equalFold_loop a b)"

definition ContentTypeMatches :: "string \<Rightarrow> string \<Rightarrow> bool" where
  "ContentTypeMatches a b =
     (let a' = (if a = '''' then ''application/octet-stream'' else a);
          b' = (if b = '''' then ''application/octet-stream'' else b)
      in equalFold (extractMediaType a') (extractMediaType b'))"

definition toLower :: "string \<Rightarrow> string" where
  "toLower s = map ascii_lower s"

definition IsJSONContentType :: "string \<Rightarrow> bool" where
  "IsJSONContentType ct \<longleftrightarrow> toLower (extractMediaType ct) = ''application/json''"

definition ConfigMatches :: "StreamMetadata \<Rightarrow> CreateOptions \<Rightarrow> bool" where
  "ConfigMatches m opts =
     (if \<not> ContentTypeMatches (sm_ContentType m) (co_ContentType opts) then False
      else if (sm_TTLSeconds m = None) \<noteq> (co_TTLSeconds opts = None) then False
      else if (case (sm_TTLSeconds m, co_TTLSeconds opts) of
                 (Some a, Some b) \<Rightarrow> a \<noteq> b | _ \<Rightarrow> False) then False
      else if (sm_ExpiresAt m = None) \<noteq> (co_ExpiresAt opts = None) then False
      else if (case (sm_ExpiresAt m, co_ExpiresAt opts) of
                 (Some a, Some b) \<Rightarrow> \<not> time_equal a b | _ \<Rightarrow> False) then False
      else if sm_Closed m \<noteq> co_Closed opts then False
      else if sm_WriteFence m \<noteq> co_WriteFence opts then False
      else if sm_ForkedFrom m \<noteq> co_ForkedFrom opts then False
      else if co_ForkedFrom opts \<noteq> '''' then
        (if (case co_ForkOffset opts of
               None \<Rightarrow> False
             | Some off \<Rightarrow>
                 (let storedRequested =
                        (case sm_ForkOffsetRequested m of None \<Rightarrow> sm_ForkOffset m | Some r \<Rightarrow> r)
                  in \<not> offset_Equal storedRequested off)) then False
         else (let requestedSub = (case co_ForkSubOffset opts of None \<Rightarrow> 0 | Some n \<Rightarrow> n)
               in sm_ForkSubOffset m = requestedSub))
      else True)"

text \<open>\<^verbatim>\<open>FormatJSONResponse\<close>: the frames between brackets, separated by commas.\<close>

fun json_join :: "bytes list \<Rightarrow> bytes" where
  "json_join [] = []"
| "json_join [d] = d"
| "json_join (d # e # ds) = d @ '','' @ json_join (e # ds)"

definition FormatJSONResponse :: "Message list \<Rightarrow> bytes" where
  "FormatJSONResponse messages =
     (if messages = [] then ''[]'' else ''['' @ json_join (map msg_Data messages) @ '']'')"

section \<open>Read pages\<close>

definition DefaultReadPageBytes :: int where
  "DefaultReadPageBytes = 1048576"

definition DefaultReadPageFrames :: int where
  "DefaultReadPageFrames = 1024"

record ReadSnapshot =
  rs_Tail :: Offset
  rs_ContentType :: string
  rs_Closed :: bool
  rs_Incarnation :: string
  rs_TTLSeconds :: "int64 option"
  rs_ExpiresAt :: "gotime option"
  rs_CreatedAt :: gotime
  rs_ForkedFrom :: string
  rs_ForkOffset :: Offset
  rs_ForkOffsetRequested :: "Offset option"
  rs_ForkSubOffset :: uint64
  rs_WriteFence :: bool
  rs_SealedGeneration :: int64
  rs_SealedOffset :: "Offset option"
  rs_StoreToken :: string

datatype RootReadRange = RootReadRangeEmpty | RootReadRangeInherited | RootReadRangeOwned

definition ClassifyRootReadRange :: "Offset \<Rightarrow> Offset \<Rightarrow> string \<Rightarrow> Offset \<Rightarrow> RootReadRange" where
  "ClassifyRootReadRange off tail forkedFrom forkOffset =
     (if IsNow off \<or> \<not> LessThan off tail then RootReadRangeEmpty
      else if forkedFrom \<noteq> '''' \<and> LessThan off forkOffset then RootReadRangeInherited
      else RootReadRangeOwned)"

fun RootReadRange_String :: "RootReadRange \<Rightarrow> string" where
  "RootReadRange_String RootReadRangeEmpty = ''empty''"
| "RootReadRange_String RootReadRangeInherited = ''inherited''"
| "RootReadRange_String RootReadRangeOwned = ''root''"

definition zero_time :: gotime where
  "zero_time = \<lparr>tm_sec = - 62135596800, tm_nsec = 0\<rparr>"

definition ReadSnapshotFromMetadata :: "StreamMetadata option \<Rightarrow> ReadSnapshot" where
  "ReadSnapshotFromMetadata meta =
     (case meta of
        None \<Rightarrow> \<lparr>rs_Tail = ZeroOffset, rs_ContentType = '''', rs_Closed = False,
                 rs_Incarnation = '''', rs_TTLSeconds = None, rs_ExpiresAt = None,
                 rs_CreatedAt = zero_time, rs_ForkedFrom = '''', rs_ForkOffset = ZeroOffset,
                 rs_ForkOffsetRequested = None, rs_ForkSubOffset = 0, rs_WriteFence = False,
                 rs_SealedGeneration = 0, rs_SealedOffset = None, rs_StoreToken = ''''\<rparr>
      | Some m \<Rightarrow> \<lparr>rs_Tail = sm_CurrentOffset m, rs_ContentType = sm_ContentType m,
                 rs_Closed = sm_Closed m, rs_Incarnation = sm_Incarnation m,
                 rs_TTLSeconds = sm_TTLSeconds m, rs_ExpiresAt = sm_ExpiresAt m,
                 rs_CreatedAt = sm_CreatedAt m, rs_ForkedFrom = sm_ForkedFrom m,
                 rs_ForkOffset = sm_ForkOffset m,
                 rs_ForkOffsetRequested = sm_ForkOffsetRequested m,
                 rs_ForkSubOffset = sm_ForkSubOffset m, rs_WriteFence = sm_WriteFence m,
                 rs_SealedGeneration = sm_SealedGeneration m,
                 rs_SealedOffset = sm_SealedOffset m, rs_StoreToken = ''''\<rparr>)"

definition SameReadStream :: "ReadSnapshot \<Rightarrow> ReadSnapshot \<Rightarrow> bool" where
  "SameReadStream left right \<longleftrightarrow>
     rs_Incarnation left \<noteq> '''' \<and> rs_Incarnation left = rs_Incarnation right \<and>
     ContentTypeMatches (rs_ContentType left) (rs_ContentType right)"

definition ShouldRenewReadAccess :: "StreamMetadata option \<Rightarrow> bool" where
  "ShouldRenewReadAccess meta =
     (case meta of None \<Rightarrow> False | Some m \<Rightarrow> sm_TTLSeconds m \<noteq> None)"

record ReadPageOptions =
  rpo_TargetBytes :: int
  rpo_MaxFrames :: int
  rpo_Snapshot :: "ReadSnapshot option"
  rpo_NoTouch :: bool

definition Normalize :: "ReadPageOptions \<Rightarrow> ReadPageOptions" where
  "Normalize opts =
     (let opts = (if rpo_TargetBytes opts \<le> 0
                  then opts\<lparr>rpo_TargetBytes := DefaultReadPageBytes\<rparr> else opts)
      in if rpo_MaxFrames opts \<le> 0 then opts\<lparr>rpo_MaxFrames := DefaultReadPageFrames\<rparr> else opts)"

record ReadPageStats =
  rst_RequestedBytes :: int
  rst_FetchedBytes :: int
  rst_ReturnedBytes :: int
  rst_DiscardedBytes :: int

record ReadPage =
  rp_Messages :: "Message list"
  rp_NextOffset :: Offset
  rp_Snapshot :: ReadSnapshot
  rp_UpToDate :: bool
  rp_Stats :: ReadPageStats

record ReadWaitResult =
  rw_Page :: ReadPage
  rw_TimedOut :: bool

section \<open>Media types\<close>

lemma equalFold_loop_iff:
  "length a = length b \<Longrightarrow> equalFold_loop a b \<longleftrightarrow> map ascii_lower a = map ascii_lower b"
  by (induction a b rule: list_induct2) auto

lemma equalFold_iff: "equalFold a b \<longleftrightarrow> map ascii_lower a = map ascii_lower b"
proof (cases "length a = length b")
  case True
  then show ?thesis by (simp add: equalFold_def equalFold_loop_iff)
next
  case False
  then show ?thesis by (auto simp: equalFold_def dest: arg_cong [where f = length])
qed

text \<open>The media type a content type is compared by: its base, lower-cased, with the default.\<close>

definition media_key :: "string \<Rightarrow> string" where
  "media_key ct =
     toLower (extractMediaType (if ct = '''' then ''application/octet-stream'' else ct))"

lemma ContentTypeMatches_iff: "ContentTypeMatches a b \<longleftrightarrow> media_key a = media_key b"
  by (simp add: ContentTypeMatches_def media_key_def equalFold_iff toLower_def Let_def)

lemma ContentTypeMatches_refl [simp]: "ContentTypeMatches a a"
  by (simp add: ContentTypeMatches_iff)

lemma toLower_idem [simp]: "toLower (toLower s) = toLower s"
  by (simp add: toLower_def)

lemma extractMediaType_takeWhile: "extractMediaType s = takeWhile (\<lambda>c. c \<noteq> CHR '';'') s"
  by (induction s) auto

lemma IsJSONContentType_key: "IsJSONContentType c \<longleftrightarrow> media_key c = ''application/json''"
proof (cases "c = ''''")
  case True
  then show ?thesis
    by (simp add: IsJSONContentType_def media_key_def toLower_def ascii_lower_def is_ascii_upper_def)
next
  case False
  then show ?thesis by (simp add: IsJSONContentType_def media_key_def)
qed

lemma IsJSONContentType_match:
  "ContentTypeMatches a b \<Longrightarrow> IsJSONContentType a \<longleftrightarrow> IsJSONContentType b"
  by (simp add: ContentTypeMatches_iff IsJSONContentType_key)

section \<open>Expiry\<close>

text \<open>
  The instant a stream expires, over the unbounded integers: strictly after its absolute
  deadline, or strictly after its last access plus its time to live.
\<close>

definition expired_spec :: "StreamMetadata \<Rightarrow> gotime \<Rightarrow> bool" where
  "expired_spec m now \<longleftrightarrow>
     (\<exists>t. sm_ExpiresAt m = Some t \<and> time_after now t) \<or>
     (\<exists>ttl. sm_TTLSeconds m = Some ttl \<and>
        time_after now \<lparr>tm_sec = tm_sec (sm_LastAccessedAt m) + ttl,
                        tm_nsec = tm_nsec (sm_LastAccessedAt m)\<rparr>)"

definition meta_times_ok :: "StreamMetadata \<Rightarrow> bool" where
  "meta_times_ok m \<longleftrightarrow> is_i64 (tm_sec (sm_LastAccessedAt m)) \<and>
     (case sm_TTLSeconds m of None \<Rightarrow> True | Some ttl \<Rightarrow> 0 \<le> ttl \<and> is_i64 ttl)"

lemma IsExpiredAt_no_ttl:
  "sm_TTLSeconds m = None \<Longrightarrow> IsExpiredAt m now \<longleftrightarrow> expired_spec m now"
  by (simp add: IsExpiredAt_def expired_spec_def split: option.splits)

lemma IsExpiredAt_ttl:
  assumes "sm_TTLSeconds m = Some ttl" and "0 \<le> ttl" and "is_i64 ttl"
    and "is_i64 (tm_sec (sm_LastAccessedAt m))" and "is_i64 (tm_sec now)"
  shows "IsExpiredAt m now \<longleftrightarrow> expired_spec m now"
proof -
  let ?last = "tm_sec (sm_LastAccessedAt m)"
  have cut: "i64 (9223372036854775807 - ttl) = 9223372036854775807 - ttl"
    using assms by (intro i64_id) (simp add: is_i64_def)
  show ?thesis
  proof (cases "9223372036854775807 - ttl < ?last")
    case True
    then have "\<not> time_after now \<lparr>tm_sec = ?last + ttl, tm_nsec = tm_nsec (sm_LastAccessedAt m)\<rparr>"
      using assms by (simp add: time_after_def is_i64_def)
    moreover have "0 < ttl" using True assms by (simp add: is_i64_def)
    ultimately show ?thesis
      using True assms(1) cut by (auto simp: IsExpiredAt_def expired_spec_def Let_def split: option.splits)
  next
    case False
    then have "i64 (?last + ttl) = ?last + ttl"
      using assms by (intro i64_id) (simp add: is_i64_def)
    with False show ?thesis
      using assms(1) cut
      by (auto simp: IsExpiredAt_def expired_spec_def Let_def time_after_def split: option.splits)
  qed
qed

lemma IsExpiredAt_spec:
  "meta_times_ok m \<Longrightarrow> is_i64 (tm_sec now) \<Longrightarrow> IsExpiredAt m now \<longleftrightarrow> expired_spec m now"
  by (cases "sm_TTLSeconds m") (auto simp: meta_times_ok_def IsExpiredAt_no_ttl IsExpiredAt_ttl)

lemma expired_spec_mono: "expired_spec m t \<Longrightarrow> time_after u t \<Longrightarrow> expired_spec m u"
  unfolding expired_spec_def by (blast intro: time_after_trans)

section \<open>Page bounds\<close>

lemma Normalize_positive [simp]:
  "0 < rpo_TargetBytes (Normalize opts)" "0 < rpo_MaxFrames (Normalize opts)"
  by (auto simp: Normalize_def DefaultReadPageBytes_def DefaultReadPageFrames_def Let_def)

lemma Normalize_keeps [simp]:
  "rpo_Snapshot (Normalize opts) = rpo_Snapshot opts" "rpo_NoTouch (Normalize opts) = rpo_NoTouch opts"
  by (simp_all add: Normalize_def Let_def)

lemma SameReadStream_sym: "SameReadStream a b \<Longrightarrow> SameReadStream b a"
  by (auto simp: SameReadStream_def ContentTypeMatches_iff)

lemma SameReadStream_trans: "SameReadStream a b \<Longrightarrow> SameReadStream b c \<Longrightarrow> SameReadStream a c"
  by (auto simp: SameReadStream_def ContentTypeMatches_iff)

end
