(* ===== verification/Write_Fence.thy ===== *)
theory Write_Fence
  imports Stream_Types
begin

text \<open>
  The pure write-fence rung of the append ladder (\<^verbatim>\<open>src/store/write_fence.go\<close>): claim
  markers, per-authority seals, the decision over them, and the authority identity a marker
  and a seal share.  \<^verbatim>\<open>base64.RawURLEncoding\<close> is written out over byte values.
\<close>

datatype MarkerState = WriteFenceMarkerNone | WriteFenceMarkerLive | WriteFenceMarkerRevoked

record WriteFenceMarker =
  wm_Present :: bool
  wm_State :: MarkerState
  wm_Generation :: int64
  wm_WakeID :: string
  wm_Holder :: string
  wm_LeaseUntilNs :: int64
  wm_StreamIncarnation :: string

definition WriteFenceMarker0 :: WriteFenceMarker where
  "WriteFenceMarker0 = \<lparr>wm_Present = False, wm_State = WriteFenceMarkerNone, wm_Generation = 0,
     wm_WakeID = '''', wm_Holder = '''', wm_LeaseUntilNs = 0, wm_StreamIncarnation = ''''\<rparr>"

record WriteFenceSeal =
  ws_Present :: bool
  ws_Generation :: int64
  ws_WakeID :: string
  ws_Offset :: Offset

definition WriteFenceSeal0 :: WriteFenceSeal where
  "WriteFenceSeal0 = \<lparr>ws_Present = False, ws_Generation = 0, ws_WakeID = '''', ws_Offset = ZeroOffset\<rparr>"

record WriteFenceInput =
  wi_StreamFenced :: bool
  wi_StreamIncarnation :: string
  wi_Fence :: "AppendFence option"
  wi_Marker :: WriteFenceMarker
  wi_Seal :: WriteFenceSeal
  wi_NowNs :: int64
  wi_HasProducer :: bool
  wi_ProducerEpoch :: int64
  wi_BoundGeneration :: int64

record WriteFenceOutcome =
  wo_Reason :: FenceReason
  wo_Generation :: int64
  wo_Holder :: string

definition WriteFenceOutcome0 :: WriteFenceOutcome where
  "WriteFenceOutcome0 = \<lparr>wo_Reason = FenceNone, wo_Generation = 0, wo_Holder = ''''\<rparr>"

definition EvaluateWriteFence :: "WriteFenceInput \<Rightarrow> WriteFenceOutcome" where
  "EvaluateWriteFence inp =
     (case wi_Fence inp of
        None \<Rightarrow>
          (let out = WriteFenceOutcome0\<lparr>wo_Generation := wi_BoundGeneration inp\<rparr>
           in if wi_StreamFenced inp \<and> wi_HasProducer inp \<and> 0 < wi_BoundGeneration inp
              then out\<lparr>wo_Reason := FenceBound\<rparr> else out)
      | Some f \<Rightarrow>
          (let m = wi_Marker inp;
               out = WriteFenceOutcome0;
               out = (if wm_Present m then out\<lparr>wo_Generation := wm_Generation m\<rparr>
                      else if ws_Present (wi_Seal inp)
                      then out\<lparr>wo_Generation := ws_Generation (wi_Seal inp)\<rparr>
                      else out);
               leaseLive = (wm_Present m \<and> wi_NowNs inp < wm_LeaseUntilNs m);
               out = (if wm_Present m \<and> wm_State m = WriteFenceMarkerLive \<and> leaseLive
                      then out\<lparr>wo_Holder := wm_Holder m\<rparr> else out)
           in if wi_StreamFenced inp \<and> ws_Present (wi_Seal inp) \<and>
                 af_Generation f \<le> ws_Generation (wi_Seal inp)
              then out\<lparr>wo_Reason := FenceSealed\<rparr>
              else if \<not> wm_Present m \<or> wm_State m \<noteq> WriteFenceMarkerLive \<or>
                 wm_Generation m \<noteq> af_Generation f \<or> wm_WakeID m \<noteq> af_WakeID f \<or>
                 wm_Holder m \<noteq> af_Holder f \<or> \<not> leaseLive \<or>
                 wm_StreamIncarnation m \<noteq> wi_StreamIncarnation inp
              then out\<lparr>wo_Reason := FenceMarker\<rparr>
              else if wi_StreamFenced inp \<and> \<not> wi_HasProducer inp
              then out\<lparr>wo_Reason := FenceProducerRequired\<rparr>
              else if wi_StreamFenced inp \<and> wi_ProducerEpoch inp \<noteq> af_Generation f
              then out\<lparr>wo_Reason := FenceEpoch\<rparr>
              else out))"

section \<open>The decision, rule by rule\<close>

definition marker_matches :: "WriteFenceInput \<Rightarrow> AppendFence \<Rightarrow> bool" where
  "marker_matches inp f \<longleftrightarrow>
     (let m = wi_Marker inp
      in wm_Present m \<and> wm_State m = WriteFenceMarkerLive \<and> wm_Generation m = af_Generation f \<and>
         wm_WakeID m = af_WakeID f \<and> wm_Holder m = af_Holder f \<and>
         wi_NowNs inp < wm_LeaseUntilNs m \<and> wm_StreamIncarnation m = wi_StreamIncarnation inp)"

definition sealed_for :: "WriteFenceInput \<Rightarrow> AppendFence \<Rightarrow> bool" where
  "sealed_for inp f \<longleftrightarrow>
     wi_StreamFenced inp \<and> ws_Present (wi_Seal inp) \<and> af_Generation f \<le> ws_Generation (wi_Seal inp)"

lemma EvaluateWriteFence_fenced:
  assumes "wi_Fence inp = Some f"
  shows "wo_Reason (EvaluateWriteFence inp) =
    (if sealed_for inp f then FenceSealed
     else if \<not> marker_matches inp f then FenceMarker
     else if wi_StreamFenced inp \<and> \<not> wi_HasProducer inp then FenceProducerRequired
     else if wi_StreamFenced inp \<and> wi_ProducerEpoch inp \<noteq> af_Generation f then FenceEpoch
     else FenceNone)"
  using assms
  by (auto simp: EvaluateWriteFence_def sealed_for_def marker_matches_def WriteFenceOutcome0_def Let_def)

lemma EvaluateWriteFence_open:
  "wi_Fence inp = None \<Longrightarrow> wo_Reason (EvaluateWriteFence inp) =
     (if wi_StreamFenced inp \<and> wi_HasProducer inp \<and> 0 < wi_BoundGeneration inp
      then FenceBound else FenceNone)"
  by (simp add: EvaluateWriteFence_def WriteFenceOutcome0_def Let_def)

text \<open>What an accepted fenced-class write proves about the stream's fence state.\<close>

lemma EvaluateWriteFence_accept_fenced:
  assumes "wi_Fence inp = Some f"
  shows "wo_Reason (EvaluateWriteFence inp) = FenceNone \<longleftrightarrow>
    \<not> sealed_for inp f \<and> marker_matches inp f \<and>
    (wi_StreamFenced inp \<longrightarrow> wi_HasProducer inp \<and> wi_ProducerEpoch inp = af_Generation f)"
  using EvaluateWriteFence_fenced [OF assms] by auto

text \<open>A refusal discloses a holder only when that holder's marker is live and unexpired.\<close>

lemma EvaluateWriteFence_holder:
  assumes "wo_Holder (EvaluateWriteFence inp) \<noteq> ''''"
  shows "wm_Present (wi_Marker inp) \<and> wm_State (wi_Marker inp) = WriteFenceMarkerLive \<and>
    wi_NowNs inp < wm_LeaseUntilNs (wi_Marker inp) \<and>
    wo_Holder (EvaluateWriteFence inp) = wm_Holder (wi_Marker inp)"
  using assms
  by (auto simp: EvaluateWriteFence_def WriteFenceOutcome0_def Let_def split: option.splits if_splits)

section \<open>Authorities\<close>

definition b64_alphabet :: string where
  "b64_alphabet = ''ABCDEFGHIJKLMNOPQRSTUVWXYZabcdefghijklmnopqrstuvwxyz0123456789-_''"

fun b64_sextets :: "nat list \<Rightarrow> nat list" where
  "b64_sextets (a # b # c # rest) =
     (a div 4) # (a mod 4 * 16 + b div 16) # (b mod 16 * 4 + c div 64) # (c mod 64) # b64_sextets rest"
| "b64_sextets [a, b] = [a div 4, a mod 4 * 16 + b div 16, b mod 16 * 4]"
| "b64_sextets [a] = [a div 4, a mod 4 * 16]"
| "b64_sextets [] = []"

definition RawURLEncoding :: "bytes \<Rightarrow> string" where
  "RawURLEncoding s = map (\<lambda>i. b64_alphabet ! i) (b64_sextets (map of_char s))"

definition FenceAuthority :: "AppendFence \<Rightarrow> string" where
  "FenceAuthority f =
     (let identity = af_SubscriptionID f @ [char_of (0 :: nat)] @ af_SubscriptionIncarnation f
      in RawURLEncoding identity @ '':'' @ FormatInt (af_Shard f))"

lemma b64_sextets_bound: "\<forall>x \<in> set xs. x < 256 \<Longrightarrow> \<forall>y \<in> set (b64_sextets xs). y < 64"
  by (induction xs rule: b64_sextets.induct) auto

lemma digit_pair_inject:
  assumes "x * k + p = y * k + q" and "p < k" and "q < (k :: nat)"
  shows "x = y \<and> p = q"
proof -
  have "(x * k + p) div k = x" "(y * k + q) div k = y" using assms(2,3) by simp_all
  with assms(1) show ?thesis by simp
qed

lemma div_mod_inject: "a div k = b div k \<Longrightarrow> a mod k = b mod k \<Longrightarrow> a = (b :: nat)"
  by (metis div_mult_mod_eq)

lemma sextet_inject:
  assumes "b < 256" "b' < (256 :: nat)"
    and "a div 4 = a' div 4" and "a mod 4 * 16 + b div 16 = a' mod 4 * 16 + b' div 16"
  shows "a = a'" and "b div 16 = b' div 16"
  using digit_pair_inject [OF assms(4)] assms(1,2) div_mod_inject [OF assms(3)] by simp_all

lemma sextet_inject2:
  assumes "c < 256" "c' < (256 :: nat)"
    and "b div 16 = b' div 16" and "b mod 16 * 4 + c div 64 = b' mod 16 * 4 + c' div 64"
  shows "b = b'" and "c div 64 = c' div 64"
  using digit_pair_inject [OF assms(4)] assms(1,2) div_mod_inject [OF assms(3)] by simp_all

lemma b64_sextets_length: "length (b64_sextets xs) = (length xs * 4 + 2) div 3"
  by (induction xs rule: b64_sextets.induct) auto

lemma b64_sextets_inject:
  assumes "\<forall>x \<in> set xs. x < 256" and "\<forall>y \<in> set ys. y < 256" and "b64_sextets xs = b64_sextets ys"
  shows "xs = ys"
  using assms
proof (induction xs arbitrary: ys rule: b64_sextets.induct)
  case (1 a b c rest)
  have len: "(length ys * 4 + 2) div 3 = (length (a # b # c # rest) * 4 + 2) div 3"
    using 1 b64_sextets_length by metis
  then have "3 \<le> length ys" by simp
  then obtain a' b' c' rest' where ys: "ys = a' # b' # c' # rest'"
    by (metis (no_types) Suc_le_length_iff numeral_3_eq_3)
  have eqs: "a div 4 = a' div 4" "a mod 4 * 16 + b div 16 = a' mod 4 * 16 + b' div 16"
    "b mod 16 * 4 + c div 64 = b' mod 16 * 4 + c' div 64" "c mod 64 = c' mod 64"
    "b64_sextets rest = b64_sextets rest'"
    using 1 ys by simp_all
  have lt: "b < 256" "b' < 256" "c < 256" "c' < 256" using "1.prems"(1,2) ys by simp_all
  note ab = sextet_inject [OF lt(1,2) eqs(1,2)]
  note bc = sextet_inject2 [OF lt(3,4) ab(2) eqs(3)]
  have "c = c'" by (rule div_mod_inject [OF bc(2) eqs(4)])
  moreover have "rest = rest'" using "1.IH" [of rest'] "1.prems"(1,2) ys eqs(5) by simp
  ultimately show ?case using ys ab bc by simp
next
  case (2 a b)
  have len: "(length ys * 4 + 2) div 3 = (length [a, b] * 4 + 2) div 3"
    using 2 b64_sextets_length by metis
  then have "length ys = 2" by simp
  then obtain a' b' where ys: "ys = [a', b']"
    by (metis (no_types) length_0_conv length_Suc_conv numeral_2_eq_2)
  have eqs: "a div 4 = a' div 4" "a mod 4 * 16 + b div 16 = a' mod 4 * 16 + b' div 16"
    "b mod 16 = b' mod 16"
    using 2 ys by simp_all
  have lt: "b < 256" "b' < 256" using "2.prems"(1,2) ys by simp_all
  note ab = sextet_inject [OF lt eqs(1,2)]
  have "b = b'" by (rule div_mod_inject [OF ab(2) eqs(3)])
  then show ?case using ys ab by simp
next
  case (3 a)
  have len: "(length ys * 4 + 2) div 3 = (length [a] * 4 + 2) div 3"
    using 3 b64_sextets_length by metis
  then have "length ys = 1" by simp
  then obtain a' where ys: "ys = [a']"
    by (metis (no_types) length_0_conv length_Suc_conv One_nat_def)
  have "a div 4 = a' div 4" "a mod 4 = a' mod 4" using 3 ys by simp_all
  then have "a = a'" by (rule div_mod_inject)
  then show ?case using ys by simp
next
  case 4
  then have "length (b64_sextets ys) = 0" by simp
  then have "length ys = 0" unfolding b64_sextets_length by linarith
  then show ?case by simp
qed

lemma b64_alphabet_distinct: "distinct b64_alphabet"
  by (simp add: b64_alphabet_def)

lemma b64_alphabet_length: "length b64_alphabet = 64"
  by (simp add: b64_alphabet_def)

lemma b64_of_char_bound: "\<forall>y \<in> set (b64_sextets (map of_char s)). y < 64"
  by (rule b64_sextets_bound) (auto simp: of_char_nat_less)

lemma RawURLEncoding_inject: "RawURLEncoding s = RawURLEncoding t \<longleftrightarrow> s = t"
proof
  assume eq: "RawURLEncoding s = RawURLEncoding t"
  let ?xs = "map (of_char :: char \<Rightarrow> nat) s" and ?ys = "map (of_char :: char \<Rightarrow> nat) t"
  have bs: "\<forall>y \<in> set (b64_sextets ?xs). y < 64" "\<forall>y \<in> set (b64_sextets ?ys). y < 64"
    by (rule b64_of_char_bound)+
  have "inj_on (\<lambda>i. b64_alphabet ! i) {..<64}"
    using b64_alphabet_distinct b64_alphabet_length by (auto simp: inj_on_def nth_eq_iff_index_eq)
  then have "inj_on (\<lambda>i. b64_alphabet ! i) (set (b64_sextets ?xs) \<union> set (b64_sextets ?ys))"
    by (rule inj_on_subset) (use bs in auto)
  with eq have "b64_sextets ?xs = b64_sextets ?ys"
    by (simp add: RawURLEncoding_def inj_on_map_eq_map)
  then have "?xs = ?ys" by (rule b64_sextets_inject [rotated 2]) (auto simp: of_char_nat_less)
  then show "s = t" by (simp add: inj_map_eq_map inj_on_def)
qed simp

lemma colon_not_b64: "CHR '':'' \<notin> set (RawURLEncoding s)"
proof -
  have "set (RawURLEncoding s) \<subseteq> set b64_alphabet"
  proof
    fix c assume "c \<in> set (RawURLEncoding s)"
    then obtain i where i: "i \<in> set (b64_sextets (map of_char s))" "c = b64_alphabet ! i"
      by (auto simp: RawURLEncoding_def)
    with b64_of_char_bound [of s] show "c \<in> set b64_alphabet" by (simp add: b64_alphabet_length)
  qed
  moreover have "CHR '':'' \<notin> set b64_alphabet" by (simp add: b64_alphabet_def)
  ultimately show ?thesis by blast
qed

text \<open>
  The authority string determines the subscription, its incarnation and the shard, as long
  as no subscription id contains a NUL byte.
\<close>

definition nul_free :: "string \<Rightarrow> bool" where
  "nul_free s \<longleftrightarrow> char_of (0 :: nat) \<notin> set s"

lemma FenceAuthority_inject:
  assumes "nul_free (af_SubscriptionID f)" "nul_free (af_SubscriptionID g)"
    and "is_i64 (af_Shard f)" "is_i64 (af_Shard g)"
  shows "FenceAuthority f = FenceAuthority g \<longleftrightarrow>
    af_SubscriptionID f = af_SubscriptionID g \<and>
    af_SubscriptionIncarnation f = af_SubscriptionIncarnation g \<and> af_Shard f = af_Shard g"
  using assms
  by (auto simp: FenceAuthority_def Let_def append_sep_inject colon_not_b64 RawURLEncoding_inject
      int_codec.enc_inject nul_free_def)

end
