(* ===== verification/Lua_Decimals.thy ===== *)
theory Lua_Decimals
  imports Stream_Offset Stream_Types
begin

text \<open>
  Decimal arithmetic on strings, as the prelude of the stream scripts does it
  (\<^verbatim>\<open>store/redis/scripts/common.lua\<close>): Lua numbers are doubles, so epochs, sequence numbers,
  generations and offsets stay decimal texts and are compared and incremented digit by digit.
  Each routine is shown to compute the integer operation on every text Go writes.
\<close>

section \<open>The routines\<close>

definition drop_zeros :: "string \<Rightarrow> string" where
  "drop_zeros s = dropWhile (\<lambda>c. c = CHR ''0'') s"

definition int_parts :: "string \<Rightarrow> bool \<times> string" where
  "int_parts s =
     (let neg = (take 1 s = ''-'');
          s = (if neg then drop 1 s else s);
          s = drop_zeros s
      in if s = '''' then (False, ''0'') else (neg, s))"

definition int_cmp :: "string \<Rightarrow> string \<Rightarrow> int" where
  "int_cmp a b =
     (case int_parts a of (an, ad) \<Rightarrow> case int_parts b of (bn, bd) \<Rightarrow>
        if an \<and> \<not> bn then - 1
        else if \<not> an \<and> bn then 1
        else (let c = (if length ad < length bd then - 1 else if length ad > length bd then 1
                       else if ad < bd then - 1 else if ad > bd then 1 else 0)
              in if an \<and> bn then - c else c))"

text \<open>The pattern \<^verbatim>\<open>^(%d+)_(%d+)$\<close>; \<^const>\<open>None\<close> is the error the script raises without a match.\<close>

definition match_offset :: "string \<Rightarrow> (string \<times> string) option" where
  "match_offset s =
     (let r = takeWhile is_digit s; rest = drop (length r) s
      in if r \<noteq> '''' \<and> take 1 rest = ''_'' \<and> tl rest \<noteq> '''' \<and> list_all is_digit (tl rest)
         then Some (r, tl rest) else None)"

definition offset_cmp :: "string \<Rightarrow> string \<Rightarrow> int option" where
  "offset_cmp a b =
     (case (match_offset a, match_offset b) of
        (Some (ar, ab), Some (br, bb)) \<Rightarrow>
          (let read_seq_cmp = int_cmp ar br
           in Some (if read_seq_cmp \<noteq> 0 then read_seq_cmp else int_cmp ab bb))
      | _ \<Rightarrow> None)"

definition classify_root_read_range ::
    "(string \<rightharpoonup> string) \<Rightarrow> string \<Rightarrow> string \<Rightarrow> bool \<Rightarrow> string option" where
  "classify_root_read_range m requested page_tail is_now =
     (if is_now then Some ''empty''
      else Option.bind (offset_cmp requested page_tail) (\<lambda>c.
        if c \<ge> 0 then Some ''empty''
        else if m ''forkedFrom'' \<noteq> None \<and> m ''forkedFrom'' \<noteq> Some '''' then
          Option.bind
            (offset_cmp requested
              (case m ''forkOff'' of Some x \<Rightarrow> x | None \<Rightarrow> ''0000000000000000_0000000000000000''))
            (\<lambda>c. Some (if c < 0 then ''inherited'' else ''root''))
        else Some ''root''))"

definition int_is_zero :: "string \<Rightarrow> bool" where
  "int_is_zero s \<longleftrightarrow> snd (int_parts s) = ''0''"

text \<open>The loops over the digits from the last one, on the reversed text.\<close>

fun add_carry :: "nat \<Rightarrow> string \<Rightarrow> string" where
  "add_carry carry [] = (if carry = 1 then ''1'' else '''')"
| "add_carry carry (d # ds) =
     (let n = digit_val d + carry
      in if n = 10 then CHR ''0'' # add_carry 1 ds else digit_char n # add_carry 0 ds)"

definition abs_add_one :: "string \<Rightarrow> string" where
  "abs_add_one d = rev (add_carry 1 (rev d))"

fun sub_borrow :: "nat \<Rightarrow> string \<Rightarrow> string" where
  "sub_borrow borrow [] = ''''"
| "sub_borrow borrow (d # ds) =
     (if digit_val d < borrow then CHR ''9'' # sub_borrow 1 ds
      else digit_char (digit_val d - borrow) # sub_borrow 0 ds)"

definition abs_sub_one :: "string \<Rightarrow> string" where
  "abs_sub_one d =
     (let s = drop_zeros (rev (sub_borrow 1 (rev d))) in if s = '''' then ''0'' else s)"

definition int_add_one :: "string \<Rightarrow> string" where
  "int_add_one s =
     (case int_parts s of (neg, d) \<Rightarrow>
        if \<not> neg then abs_add_one d else if d = ''1'' then ''0'' else CHR ''-'' # abs_sub_one d)"

section \<open>Canonical digit strings\<close>

definition canonical :: "string \<Rightarrow> bool" where
  "canonical s \<longleftrightarrow> s \<noteq> '''' \<and> (\<forall>c \<in> set s. is_digit c) \<and> (s = ''0'' \<or> 10 ^ (length s - 1) \<le> dec_value s)"

lemma digit_val_0 [simp]: "digit_val CHR ''0'' = 0" "is_digit CHR ''0''" "digit_val CHR ''9'' = 9" "is_digit CHR ''9''"
  "digit_val CHR ''1'' = 1" "is_digit CHR ''1''"
  by (simp_all add: digit_val_def is_digit_def)

lemma small_digits: "digit_char 0 = CHR ''0''" "dec_digits 0 = ''0''" "dec_digits 1 = ''1''" "dec_digits (Suc 0) = ''1''"
  by code_simp+

lemma zero_digit: "is_digit c \<Longrightarrow> digit_val c = 0 \<longleftrightarrow> c = CHR ''0''"
  using digit_val_inject [of c "CHR ''0''"] by simp

lemma canonical_less:
  assumes "canonical s" and "canonical t" and "length s < length t"
  shows "dec_value s < dec_value t"
proof -
  have "t \<noteq> ''0''" using assms by (cases s) (auto simp: canonical_def)
  then have "10 ^ (length t - 1) \<le> dec_value t" using assms(2) by (auto simp: canonical_def)
  moreover have "dec_value s < 10 ^ length s" using assms(1) by (auto simp: canonical_def intro: dec_value_less)
  moreover have "(10::nat) ^ length s \<le> 10 ^ (length t - 1)" using assms(3) by (intro power_increasing) auto
  ultimately show ?thesis by linarith
qed

lemma canonical_order:
  assumes "canonical s" and "canonical t"
  shows "length s < length t \<or> length s = length t \<and> s < t \<longleftrightarrow> dec_value s < dec_value t"
proof -
  consider "length s < length t" | "length t < length s" | "length s = length t" by linarith
  then show ?thesis
  proof cases
    case 3
    then show ?thesis using assms dec_less_iff [of s t] by (auto simp: canonical_def)
  qed (use assms canonical_less [of s t] canonical_less [of t s] in auto)
qed

lemma canonical_inject: "canonical s \<Longrightarrow> canonical t \<Longrightarrow> dec_value s = dec_value t \<Longrightarrow> s = t"
  using canonical_order [of s t] canonical_order [of t s] linorder_less_linear [of s t] linorder_less_linear [of "length s" "length t"]
  by auto

lemma canonical_Cons: "is_digit c \<Longrightarrow> c \<noteq> CHR ''0'' \<Longrightarrow> \<forall>d \<in> set s. is_digit d \<Longrightarrow> canonical (c # s)"
  using zero_digit [of c] by (auto simp: canonical_def dec_value_Cons intro: trans_le_add1)

lemma canonical_dec_digits: "canonical (dec_digits n)"
proof (induction n rule: dec_digits.induct)
  case (1 n)
  have dig: "\<forall>c \<in> set (dec_digits n). is_digit c" by (simp add: dec_digits_digits)
  show ?case
  proof (cases "n < 10")
    case True
    then have "dec_digits n = [digit_char n]" by (simp add: dec_digits.simps [of n])
    with True show ?thesis by (cases "n = 0") (auto simp: canonical_def dec_value_Cons small_digits)
  next
    case False
    let ?s = "dec_digits (n div 10)"
    have "?s \<noteq> ''0''" using False dec_value_dec_digits [of "n div 10"] by (auto simp: dec_value_def)
    then have le: "10 ^ (length ?s - 1) \<le> n div 10" using "1" False by (auto simp: canonical_def)
    have "10 ^ length ?s = 10 * 10 ^ (length ?s - 1)" by (cases ?s) auto
    also have "\<dots> \<le> 10 * (n div 10)" using le by simp
    also have "\<dots> \<le> n" by simp
    finally show ?thesis using dig False by (auto simp: canonical_def dec_digits.simps [of n])
  qed
qed

lemma canonical_eq: "canonical s \<Longrightarrow> s = dec_digits (dec_value s)"
  using canonical_inject [OF _ canonical_dec_digits] by simp

lemma dec_value_drop_zeros: "dec_value (drop_zeros s) = dec_value s"
  by (induction s) (auto simp: drop_zeros_def dec_value_Cons)

lemma set_drop_zeros: "c \<in> set (drop_zeros s) \<Longrightarrow> c \<in> set s"
  unfolding drop_zeros_def by (rule set_dropWhileD)

lemma drop_zeros_digits:
  assumes "\<forall>c \<in> set s. is_digit c"
  shows "(if drop_zeros s = '''' then ''0'' else drop_zeros s) = dec_digits (dec_value s)"
proof (cases "drop_zeros s")
  case Nil
  then have "dec_value s = 0" using dec_value_drop_zeros [of s] by simp
  then show ?thesis using Nil by (simp add: small_digits)
next
  case (Cons c r)
  then have "c \<noteq> CHR ''0''" unfolding drop_zeros_def by (auto simp: dropWhile_eq_Cons_conv)
  moreover have "\<forall>d \<in> set (c # r). is_digit d" using assms set_drop_zeros [of _ s] Cons by auto
  ultimately have "canonical (drop_zeros s)" using canonical_Cons Cons by auto
  then show ?thesis using canonical_eq [of "drop_zeros s"] dec_value_drop_zeros [of s] Cons by simp
qed

section \<open>Integers\<close>

lemma int_parts_digits:
  assumes "s \<noteq> ''''" and "\<forall>c \<in> set s. is_digit c"
  shows "int_parts s = (False, dec_digits (dec_value s))"
proof -
  have "take 1 s \<noteq> ''-''" using assms by (cases s) (auto simp: is_digit_def)
  then have "int_parts s = (False, if drop_zeros s = '''' then ''0'' else drop_zeros s)"
    unfolding int_parts_def Let_def by simp
  then show ?thesis by (simp only: drop_zeros_digits [OF assms(2)])
qed

lemma int_parts_FormatInt: "int_parts (FormatInt x) = (x < 0, dec_digits (nat \<bar>x\<bar>))"
proof (cases "x < 0")
  case True
  have d: "\<forall>c \<in> set (dec_digits (nat (- x))). is_digit c" by (simp add: dec_digits_digits)
  have "drop_zeros (dec_digits (nat (- x))) \<noteq> ''''"
    using dec_value_drop_zeros [of "dec_digits (nat (- x))"] True by auto
  then show ?thesis using True drop_zeros_digits [OF d] by (simp add: int_parts_def FormatInt_def Let_def)
next
  case False
  then show ?thesis by (simp add: FormatInt_def int_parts_digits dec_digits_digits)
qed

lemma canonical_cmp:
  assumes "canonical s" and "canonical t"
  shows "(if length s < length t then - 1 else if length s > length t then 1
      else if s < t then - 1 else if s > t then 1 else 0) = sgn (int (dec_value s) - int (dec_value t))"
proof -
  consider "dec_value s < dec_value t" | "dec_value t < dec_value s" | "s = t"
    using canonical_inject [OF assms] by linarith
  then show ?thesis
  proof cases
    case 1
    then have "length s < length t \<or> length s = length t \<and> s < t" using canonical_order [OF assms] by simp
    with 1 show ?thesis by (elim disjE conjE) simp_all
  next
    case 2
    then have "length t < length s \<or> length t = length s \<and> t < s" using canonical_order [OF assms(2,1)] by simp
    with 2 show ?thesis by (elim disjE conjE) (simp_all add: less_not_sym)
  qed simp
qed

lemma int_cmp_parts:
  assumes "int_parts a = (x < 0, dec_digits (nat \<bar>x\<bar>))" and "int_parts b = (y < 0, dec_digits (nat \<bar>y\<bar>))"
  shows "int_cmp a b = sgn (x - y)"
  unfolding int_cmp_def assms prod.case Let_def canonical_cmp [OF canonical_dec_digits canonical_dec_digits]
  by (auto simp: sgn_if)

lemma int_cmp_FormatInt [simp]: "int_cmp (FormatInt x) (FormatInt y) = sgn (x - y)"
  by (rule int_cmp_parts; rule int_parts_FormatInt)

lemma FormatInt_eq_iff [simp]: "FormatInt x = FormatInt y \<longleftrightarrow> x = y"
proof
  assume "FormatInt x = FormatInt y"
  then have "sgn (x - y) = sgn (x - x)" by (metis int_cmp_FormatInt)
  then show "x = y" by (simp add: sgn_if split: if_splits)
qed simp

lemma int_cmp_digits:
  assumes "s \<noteq> ''''" "\<forall>c \<in> set s. is_digit c" "t \<noteq> ''''" "\<forall>c \<in> set t. is_digit c"
  shows "int_cmp s t = sgn (int (dec_value s) - int (dec_value t))"
  by (rule int_cmp_parts) (simp_all add: int_parts_digits assms)

lemma int_is_zero_FormatInt [simp]: "int_is_zero (FormatInt x) \<longleftrightarrow> x = 0"
proof -
  have "dec_digits (nat \<bar>x\<bar>) = dec_digits 0 \<longleftrightarrow> nat \<bar>x\<bar> = 0" by (metis dec_value_dec_digits)
  then show ?thesis by (simp add: int_is_zero_def int_parts_FormatInt small_digits)
qed

section \<open>Increment\<close>

lemma add_carry_value:
  assumes "\<forall>c \<in> set ds. is_digit c" and "carry \<le> 1"
  shows "dec_value (rev (add_carry carry ds)) = dec_value (rev ds) + carry \<and>
    (\<forall>c \<in> set (add_carry carry ds). is_digit c) \<and>
    (length (add_carry carry ds) = length ds \<or>
     length (add_carry carry ds) = Suc (length ds) \<and> 10 ^ length ds \<le> dec_value (rev (add_carry carry ds)))"
  using assms
proof (induction carry ds rule: add_carry.induct)
  case (1 carry)
  then show ?case by (auto simp: dec_value_Cons)
next
  case (2 carry d ds)
  have d: "digit_val d < 10" using "2.prems" by (auto intro: digit_val_less)
  show ?case
  proof (cases "digit_val d + carry = 10")
    case True
    with "2.IH"(1) [of "digit_val d + carry"] "2.prems" show ?thesis by auto
  next
    case False
    with d "2.prems" have "digit_val d + carry < 10" by linarith
    with "2.IH"(2) [of "digit_val d + carry"] "2.prems" False show ?thesis by auto
  qed
qed

lemma abs_add_one_dec_digits [simp]: "abs_add_one (dec_digits n) = dec_digits (n + 1)"
proof -
  let ?s = "rev (add_carry 1 (rev (dec_digits n)))"
  have f: "dec_value ?s = n + 1" "\<forall>c \<in> set ?s. is_digit c"
    "length ?s = length (dec_digits n) \<or> length ?s = Suc (length (dec_digits n)) \<and> 10 ^ length (dec_digits n) \<le> n + 1"
    using add_carry_value [of "rev (dec_digits n)" 1] by (auto simp: dec_digits_digits)
  have "dec_digits n = ''0'' \<or> 10 ^ (length (dec_digits n) - 1) \<le> n"
    using canonical_dec_digits [of n] by (auto simp: canonical_def)
  then have "10 ^ (length ?s - 1) \<le> n + 1" using f(3) by auto
  moreover have "?s \<noteq> ''''" using f(3) by auto
  ultimately have "canonical ?s" using f by (auto simp: canonical_def)
  then show ?thesis using canonical_eq [of ?s] f(1) by (simp add: abs_add_one_def)
qed

lemma sub_borrow_value:
  assumes "\<forall>c \<in> set ds. is_digit c" and "borrow \<le> 1" and "borrow \<le> dec_value (rev ds)"
  shows "dec_value (rev (sub_borrow borrow ds)) + borrow = dec_value (rev ds) \<and> (\<forall>c \<in> set (sub_borrow borrow ds). is_digit c)"
  using assms
proof (induction borrow ds rule: sub_borrow.induct)
  case (2 borrow d ds)
  have d: "digit_val d < 10" using "2.prems" by (auto intro: digit_val_less)
  show ?case
  proof (cases "digit_val d < borrow")
    case True
    then have "digit_val d = 0" "borrow = 1" using "2.prems"(2) by auto
    with "2.IH"(1) "2.prems" True show ?thesis by auto
  next
    case False
    with "2.IH"(2) "2.prems" d show ?thesis by auto
  qed
qed simp

lemma abs_sub_one_dec_digits: "0 < n \<Longrightarrow> abs_sub_one (dec_digits n) = dec_digits (n - 1)"
proof -
  assume "0 < n"
  then have f: "dec_value (rev (sub_borrow 1 (rev (dec_digits n)))) = n - 1"
    "\<forall>c \<in> set (rev (sub_borrow 1 (rev (dec_digits n)))). is_digit c"
    using sub_borrow_value [of "rev (dec_digits n)" 1] by (auto simp: dec_digits_digits)
  show ?thesis using drop_zeros_digits [OF f(2)] f(1) by (auto simp: abs_sub_one_def Let_def)
qed

lemma int_add_one_FormatInt [simp]: "int_add_one (FormatInt x) = FormatInt (x + 1)"
proof -
  have one: "dec_digits k = ''1'' \<longleftrightarrow> k = 1" for k
    using small_digits(3) by (metis dec_value_dec_digits)
  consider "0 \<le> x" | "x = - 1" | "x < - 1" by linarith
  then show ?thesis
  proof cases
    case 1
    then show ?thesis unfolding int_add_one_def int_parts_FormatInt by (simp add: FormatInt_def nat_add_distrib)
  next
    case 2
    then show ?thesis unfolding int_add_one_def int_parts_FormatInt by (simp add: FormatInt_def one small_digits)
  next
    case 3
    then have "nat (- x) - 1 = nat (- (x + 1))" by simp
    with 3 show ?thesis unfolding int_add_one_def int_parts_FormatInt
      by (simp add: FormatInt_def one abs_sub_one_dec_digits)
  qed
qed

section \<open>Offsets\<close>

lemma match_offset_String:
  "match_offset (offset_String off) = Some (pad16 (dec_digits (unat (ReadSeq off))), pad16 (dec_digits (unat (ByteOffset off))))"
proof -
  let ?r = "pad16 (dec_digits (unat (ReadSeq off)))" and ?b = "pad16 (dec_digits (unat (ByteOffset off)))"
  have "takeWhile is_digit (?r @ ''_'' @ ?b) = ?r" using pad16_digits by (subst takeWhile_append2) auto
  moreover have "list_all is_digit ?b" using pad16_digits by (auto simp: list_all_iff)
  ultimately show ?thesis by (simp add: match_offset_def offset_String_def Let_def)
qed

lemma offset_cmp_String [simp]: "offset_cmp (offset_String a) (offset_String b) = Some (Compare a b)"
proof -
  have c: "int_cmp (pad16 (dec_digits (unat v))) (pad16 (dec_digits (unat w))) = (if v < w then - 1 else if w < v then 1 else 0)" for v w :: uint64
    using pad16_digits by (subst int_cmp_digits) (auto simp: sgn_if word_less_def)
  show ?thesis
    unfolding offset_cmp_def match_offset_String option.case prod.case Let_def c
    by (auto simp: Compare_def)
qed

lemma ZeroOffset_String: "offset_String ZeroOffset = ''0000000000000000_0000000000000000''"
  by code_simp

text \<open>
  The script's classification of a root read is Go's, for the fields Go stores for a stream: the
  fork offset is there exactly when the stream is a fork.
\<close>

lemma classify_root_read_range_mirror:
  assumes "m ''forkedFrom'' = (if src = '''' then None else Some src)"
    and "src \<noteq> '''' \<Longrightarrow> m ''forkOff'' = Some (offset_String fork)"
  shows "classify_root_read_range m (offset_String off) (offset_String tail) (IsNow off) =
    Some (RootReadRange_String (ClassifyRootReadRange off tail src fork))"
proof -
  have "(0 \<le> Compare a b) = (\<not> a < b)" "(Compare a b < 0) = (a < b)" for a b
    unfolding less_Offset_def LessThan_def by linarith+
  with assms show ?thesis
    by (cases "IsNow off"; cases "off < tail"; cases "src = ''''"; cases "off < fork")
      (simp_all add: classify_root_read_range_def ClassifyRootReadRange_def)
qed

end
