(* ===== verification/Lua_Numbers.thy ===== *)
theory Lua_Numbers
  imports Chronicle_Prelude
begin

text \<open>
  The numbers of the Lua scripts (\<^verbatim>\<open>webhook/scripts/*.lua\<close>) and the decimal texts that carry them
  between Go, Redis and Lua.  A Lua number is an IEEE double; every number the scripts compute is an
  integer (nanoseconds, generations, counters), so a number is the \<^typ>\<open>int\<close> it is exactly equal to,
  rounded to 53 significant bits after every operation.  \<^verbatim>\<open>tostring\<close> prints with \<^verbatim>\<open>%.14g\<close>, so a
  timestamp in nanoseconds loses its last digits when a script stores it.
\<close>

section \<open>Rounding to a double\<close>

fun bit_length :: "nat \<Rightarrow> nat" where
  "bit_length n = (if n = 0 then 0 else Suc (bit_length (n div 2)))"

declare bit_length.simps [simp del]

text \<open>Division rounded to the nearest integer, ties to even.\<close>

definition round_div :: "nat \<Rightarrow> nat \<Rightarrow> nat" where
  "round_div a b =
     (let q = a div b; r = a mod b
      in if 2 * r < b \<or> (2 * r = b \<and> even q) then q else q + 1)"

definition double_nat :: "nat \<Rightarrow> nat" where
  "double_nat n = (let e = bit_length n - 53 in round_div n (2 ^ e) * 2 ^ e)"

definition to_double :: "int \<Rightarrow> int" where
  "to_double x = (if x < 0 then - int (double_nat (nat (- x))) else int (double_nat (nat x)))"

definition lua_add :: "int \<Rightarrow> int \<Rightarrow> int" where
  "lua_add x y = to_double (x + y)"

definition lua_mult :: "int \<Rightarrow> int \<Rightarrow> int" where
  "lua_mult x y = to_double (x * y)"

section \<open>Printing and reading\<close>

definition strip_zeros :: "string \<Rightarrow> string" where
  "strip_zeros s = rev (dropWhile (\<lambda>c. c = CHR ''0'') (rev s))"

text \<open>\<^verbatim>\<open>%.14g\<close> of a natural number: up to fourteen digits in full, beyond that a rounded mantissa.\<close>

definition fmt_14g :: "nat \<Rightarrow> string" where
  "fmt_14g n =
     (let k = length (dec_digits n)
      in if k \<le> 14 then dec_digits n
         else let m = round_div n (10 ^ (k - 14));
                  (m, x) = (if m = 10 ^ 14 then (10 ^ 13, k) else (m, k - 1));
                  d = dec_digits m; frac = strip_zeros (tl d); e = dec_digits x
              in hd d # (if frac = [] then [] else CHR ''.'' # frac) @ ''e+'' @ (if length e < 2 then CHR ''0'' # e else e))"

definition lua_tostring :: "int \<Rightarrow> string" where
  "lua_tostring x = (if x < 0 then CHR ''-'' # fmt_14g (nat (- x)) else fmt_14g (nat x))"

text \<open>
  A decimal numeral with an optional sign, fraction and exponent, when it denotes an integer; no
  modelled writer stores a fraction.  \<^verbatim>\<open>parse_exponent\<close> reads what follows the letter.
\<close>

definition parse_exponent :: "string \<Rightarrow> int option" where
  "parse_exponent s =
     (let neg = (s \<noteq> [] \<and> hd s = CHR ''-'');
          ds = (if s \<noteq> [] \<and> (hd s = CHR ''-'' \<or> hd s = CHR ''+'') then tl s else s)
      in if ds = [] \<or> \<not> list_all is_digit ds then None
         else Some (if neg then - int (dec_value ds) else int (dec_value ds)))"

definition scale10 :: "nat \<Rightarrow> int \<Rightarrow> nat option" where
  "scale10 m e =
     (if 0 \<le> e then Some (m * 10 ^ nat e)
      else if m mod 10 ^ nat (- e) = 0 then Some (m div 10 ^ nat (- e)) else None)"

definition parse_unsigned :: "string \<Rightarrow> nat option" where
  "parse_unsigned s =
     (let mant = takeWhile (\<lambda>c. c \<noteq> CHR ''e'' \<and> c \<noteq> CHR ''E'') s;
          rest = drop (length mant) s;
          whole = takeWhile (\<lambda>c. c \<noteq> CHR ''.'') mant;
          frac = drop (length whole + 1) mant
      in if whole @ frac = [] \<or> \<not> list_all is_digit (whole @ frac) then None
         else case (if rest = [] then Some 0 else parse_exponent (tl rest)) of
                None \<Rightarrow> None
              | Some e \<Rightarrow> scale10 (dec_value (whole @ frac)) (e - int (length frac)))"

definition parse_double :: "string \<Rightarrow> int option" where
  "parse_double s =
     (let neg = (s \<noteq> [] \<and> hd s = CHR ''-'');
          u = (if s \<noteq> [] \<and> (hd s = CHR ''-'' \<or> hd s = CHR ''+'') then tl s else s)
      in case parse_unsigned u of
           None \<Rightarrow> None
         | Some n \<Rightarrow> Some (if neg then - int (double_nat n) else int (double_nat n)))"

text \<open>Lua's \<^verbatim>\<open>tonumber\<close> on a reply of Redis, where an absent field is \<^verbatim>\<open>false\<close>, and with the default \<^verbatim>\<open>or 0\<close>.\<close>

definition tonumber :: "string option \<Rightarrow> int option" where
  "tonumber v = (case v of None \<Rightarrow> None | Some s \<Rightarrow> parse_double s)"

definition tonumber_or_0 :: "string option \<Rightarrow> int" where
  "tonumber_or_0 v = (case tonumber v of None \<Rightarrow> 0 | Some x \<Rightarrow> x)"

text \<open>Go's \<^verbatim>\<open>int64(f)\<close> of a double; out of range the conversion gives the least integer.\<close>

definition int64_of_double :: "int \<Rightarrow> int64" where
  "int64_of_double f = (if is_i64 f then f else - (2 ^ 63))"

section \<open>Small numbers are exact\<close>

lemma bit_length_less: "n < 2 ^ k \<Longrightarrow> bit_length n \<le> k"
proof (induction k arbitrary: n)
  case 0
  then show ?case by (simp add: bit_length.simps)
next
  case (Suc k)
  then have "bit_length (n div 2) \<le> k" by (intro Suc.IH) auto
  then show ?case by (subst bit_length.simps) simp
qed

lemma round_div_1 [simp]: "round_div a (Suc 0) = a"
  by (simp add: round_div_def)

lemma double_nat_exact: "n < 2 ^ 53 \<Longrightarrow> double_nat n = n"
  using bit_length_less [of n 53] by (simp add: double_nat_def)

lemma to_double_exact: "\<bar>x\<bar> < 2 ^ 53 \<Longrightarrow> to_double x = x"
  using double_nat_exact [of "nat (- x)"] double_nat_exact [of "nat x"] by (auto simp: to_double_def)

lemma parse_unsigned_digits:
  assumes "s \<noteq> []" and "\<forall>c \<in> set s. is_digit c"
  shows "parse_unsigned s = Some (dec_value s)"
proof -
  have w: "takeWhile (\<lambda>c. c \<noteq> CHR ''e'' \<and> c \<noteq> CHR ''E'') s = s" "takeWhile (\<lambda>c. c \<noteq> CHR ''.'') s = s"
    using assms(2) by (auto simp: is_digit_def takeWhile_eq_all_conv)
  show ?thesis unfolding parse_unsigned_def w Let_def using assms by (simp add: w scale10_def list_all_iff)
qed

text \<open>An integer printed by Go is read by a script as its nearest double.\<close>

lemma parse_double_FormatInt: "parse_double (FormatInt x) = Some (to_double x)"
proof -
  have d: "dec_digits n \<noteq> []" "\<forall>c \<in> set (dec_digits n). is_digit c" for n by (simp_all add: dec_digits_digits)
  have "hd (dec_digits n) \<noteq> CHR ''-'' \<and> hd (dec_digits n) \<noteq> CHR ''+''" for n
    using d [of n] not_sign_digit by (metis hd_in_set)
  then show ?thesis
    using d by (simp add: parse_double_def FormatInt_def Let_def parse_unsigned_digits to_double_def dec_value_dec_digits)
qed

section \<open>What a script prints\<close>

lemma lua_tostring_small: "\<bar>x\<bar> < 10 ^ 14 \<Longrightarrow> lua_tostring x = FormatInt x"
proof -
  assume "\<bar>x\<bar> < 10 ^ 14"
  then have "length (dec_digits (nat (- x))) \<le> 14" if "x < 0" using that by (subst length_dec_digits) auto
  moreover have "length (dec_digits (nat x)) \<le> 14" if "\<not> x < 0" using that \<open>\<bar>x\<bar> < 10 ^ 14\<close> by (subst length_dec_digits) auto
  ultimately show ?thesis by (auto simp: lua_tostring_def fmt_14g_def FormatInt_def)
qed

text \<open>Beyond fourteen digits the text has an exponent, which \<^verbatim>\<open>strconv.ParseInt\<close> rejects.\<close>

lemma ParseInt_InrD: "ParseInt s = Inr m \<Longrightarrow> \<forall>c \<in> set (tl s). is_digit c"
  by (auto simp: ParseInt_def Let_def split: list.splits sum.splits if_splits dest!: ParseUint_InrD(2))

lemma fmt_14g_exponent: "10 ^ 14 \<le> n \<Longrightarrow> CHR ''e'' \<in> set (tl (fmt_14g n))"
proof -
  assume n: "10 ^ 14 \<le> n"
  have "\<not> length (dec_digits n) \<le> 14"
  proof
    assume "length (dec_digits n) \<le> 14"
    then have "(10::nat) ^ length (dec_digits n) \<le> 10 ^ 14" by (intro power_increasing) auto
    then show False using dec_value_less [of "dec_digits n"] n by (simp add: dec_digits_digits)
  qed
  then show ?thesis by (simp add: fmt_14g_def Let_def split: prod.split)
qed

lemma ParseInt_lua_tostring: "ParseInt (lua_tostring x) = Inr m \<Longrightarrow> m = x"
proof (cases "\<bar>x\<bar> < 10 ^ 14")
  case True
  then have "is_i64 x" by (auto simp: is_i64_def)
  moreover assume "ParseInt (lua_tostring x) = Inr m"
  ultimately show ?thesis using True by (simp add: lua_tostring_small)
next
  case False
  assume p: "ParseInt (lua_tostring x) = Inr m"
  have "x < 0 \<Longrightarrow> 10 ^ 14 \<le> nat (- x)" "\<not> x < 0 \<Longrightarrow> 10 ^ 14 \<le> nat x" using False by auto
  then have "CHR ''e'' \<in> set (tl (lua_tostring x))"
    using fmt_14g_exponent [of "nat (- x)"] fmt_14g_exponent [of "nat x"]
    by (cases "fmt_14g (nat (- x))") (auto simp: lua_tostring_def abs_if split: if_splits)
  then show ?thesis using ParseInt_InrD [OF p] by (auto simp: is_digit_def)
qed

end
