(* ===== verification/Redis_Server.thy ===== *)
theory Redis_Server
  imports Lua_Numbers
begin

text \<open>
  Redis as the control plane uses it.  The server is not part of the repository, so it is a
  parameter: a \<^verbatim>\<open>redis\<close> gives the outcome of one command on a server state and the value each key
  has in a state.  What the scripts rely on is the documented effect of each command on the value
  of its key, \<^verbatim>\<open>cmd_rel\<close>, and that a command touches no other key; both are the assumptions of the
  locale \<^verbatim>\<open>redis_server\<close>.  A command may always fail (wrong type, out of memory, lost connection),
  and then changes nothing.

  A Lua script, and a Go operation that issues several commands, is a program over commands.  It
  stops at the first failing command and keeps the effects made so far, as Redis does.
\<close>

section \<open>Values, commands and replies\<close>

datatype rvalue =
    RNone
  | RHash "string \<rightharpoonup> string"
  | RString string
  | RSet "string set"
  | RZSet "string \<rightharpoonup> int"

datatype rcmd =
    EXISTS string | DEL string
  | HGET string string | HEXISTS string string | HLEN string | HGETALL string
  | HSET string "(string \<times> string) list" | HDEL string string | HINCRBY string string int
  | INCR string | SETBIT string nat | GET string
  | SADD string string | SREM string string | SMEMBERS string
  | ZADD string int string | ZREM string string | ZRANGEBYSCORE string int int | ZRANGE string
  | HMGET string "string list" | HSETNX string string string
  | ZADDS string "(int \<times> string) list" | ZCARD string | ZRANGEBYLEX string string string nat
  | PERSIST string | PEXPIRE string int | PUBLISH string string

datatype rreply =
    RepInt int | RepNil | RepBulk string | RepList "string list" | RepMap "(string \<times> string) list"
  | RepOpts "string option list"

fun cmd_key :: "rcmd \<Rightarrow> string" where
  "cmd_key (EXISTS k) = k" | "cmd_key (DEL k) = k"
| "cmd_key (HGET k _) = k" | "cmd_key (HEXISTS k _) = k" | "cmd_key (HLEN k) = k" | "cmd_key (HGETALL k) = k"
| "cmd_key (HSET k _) = k" | "cmd_key (HDEL k _) = k" | "cmd_key (HINCRBY k _ _) = k"
| "cmd_key (INCR k) = k" | "cmd_key (SETBIT k _) = k" | "cmd_key (GET k) = k"
| "cmd_key (SADD k _) = k" | "cmd_key (SREM k _) = k" | "cmd_key (SMEMBERS k) = k"
| "cmd_key (ZADD k _ _) = k" | "cmd_key (ZREM k _) = k" | "cmd_key (ZRANGEBYSCORE k _ _) = k" | "cmd_key (ZRANGE k) = k"
| "cmd_key (HMGET k _) = k" | "cmd_key (HSETNX k _ _) = k" | "cmd_key (ZADDS k _) = k" | "cmd_key (ZCARD k) = k"
| "cmd_key (ZRANGEBYLEX k _ _ _) = k" | "cmd_key (PERSIST k) = k" | "cmd_key (PEXPIRE k _) = k" | "cmd_key (PUBLISH k _) = k"

text \<open>The hash, set or sorted set a value stands for; an absent key is the empty one.\<close>

fun hash_of :: "rvalue \<Rightarrow> (string \<rightharpoonup> string) option" where
  "hash_of RNone = Some Map.empty"
| "hash_of (RHash h) = Some h"
| "hash_of _ = None"

fun set_of :: "rvalue \<Rightarrow> string set option" where
  "set_of RNone = Some {}"
| "set_of (RSet x) = Some x"
| "set_of _ = None"

fun zset_of :: "rvalue \<Rightarrow> (string \<rightharpoonup> int) option" where
  "zset_of RNone = Some Map.empty"
| "zset_of (RZSet z) = Some z"
| "zset_of _ = None"

text \<open>Redis removes a key whose last element is gone.\<close>

definition mk_hash :: "(string \<rightharpoonup> string) \<Rightarrow> rvalue" where
  "mk_hash h = (if h = Map.empty then RNone else RHash h)"

definition mk_set :: "string set \<Rightarrow> rvalue" where
  "mk_set x = (if x = {} then RNone else RSet x)"

definition mk_zset :: "(string \<rightharpoonup> int) \<Rightarrow> rvalue" where
  "mk_zset z = (if z = Map.empty then RNone else RZSet z)"

text \<open>
  The bounds of \<^verbatim>\<open>ZRANGEBYLEX\<close>: an opening parenthesis excludes the bound, an opening bracket includes
  it, and members compare as byte strings.
\<close>

definition lex_above :: "string \<Rightarrow> string \<Rightarrow> bool" where
  "lex_above bound member =
     (if take 1 bound = ''('' then tl bound < member else if take 1 bound = ''['' then tl bound \<le> member else False)"

definition lex_below :: "string \<Rightarrow> string \<Rightarrow> bool" where
  "lex_below bound member =
     (if take 1 bound = ''('' then member < tl bound else if take 1 bound = ''['' then member \<le> tl bound else False)"

definition zadd_all :: "(int \<times> string) list \<Rightarrow> (string \<rightharpoonup> int) \<Rightarrow> (string \<rightharpoonup> int)" where
  "zadd_all ms z = fold (\<lambda>(sc, m) z. z(m \<mapsto> sc)) ms z"

text \<open>
  The documented effect of a successful command: from the value of its key before, the reply and
  the value after.  \<^verbatim>\<open>HINCRBY\<close> and \<^verbatim>\<open>INCR\<close> start at zero and require a canonical signed 64-bit
  decimal; \<^verbatim>\<open>SETBIT\<close> is left open in the bits it produces.  \<^verbatim>\<open>ZRANGEBYLEX\<close> is specified when all
  members have one score.  \<^verbatim>\<open>PEXPIRE\<close> with a positive delay and \<^verbatim>\<open>PERSIST\<close> change when a key is
  removed, not its value; \<^verbatim>\<open>PUBLISH\<close> names a channel, whose value as a key it leaves alone.
\<close>

fun cmd_rel :: "rcmd \<Rightarrow> rvalue \<Rightarrow> rreply \<Rightarrow> rvalue \<Rightarrow> bool" where
  "cmd_rel (EXISTS k) v r w \<longleftrightarrow> w = v \<and> r = RepInt (if v = RNone then 0 else 1)"
| "cmd_rel (DEL k) v r w \<longleftrightarrow> w = RNone \<and> (\<exists>n. r = RepInt n)"
| "cmd_rel (HGET k f) v r w \<longleftrightarrow>
     w = v \<and> (\<exists>h. hash_of v = Some h \<and> r = (case h f of None \<Rightarrow> RepNil | Some x \<Rightarrow> RepBulk x))"
| "cmd_rel (HEXISTS k f) v r w \<longleftrightarrow> w = v \<and> (\<exists>h. hash_of v = Some h \<and> r = RepInt (if h f = None then 0 else 1))"
| "cmd_rel (HLEN k) v r w \<longleftrightarrow> w = v \<and> (\<exists>h. hash_of v = Some h \<and> r = RepInt (int (card (dom h))))"
| "cmd_rel (HGETALL k) v r w \<longleftrightarrow>
     w = v \<and> (\<exists>h xs. hash_of v = Some h \<and> r = RepMap xs \<and> map_of xs = h \<and> distinct (map fst xs))"
| "cmd_rel (HSET k fvs) v r w \<longleftrightarrow>
     (\<exists>h n. hash_of v = Some h \<and> w = mk_hash (h ++ map_of (rev fvs)) \<and> r = RepInt n)"
| "cmd_rel (HDEL k f) v r w \<longleftrightarrow> (\<exists>h n. hash_of v = Some h \<and> w = mk_hash (h(f := None)) \<and> r = RepInt n)"
| "cmd_rel (HINCRBY k f n) v r w \<longleftrightarrow>
     (\<exists>h old. hash_of v = Some h \<and> (h f = None \<and> old = 0 \<or> h f = Some (FormatInt old)) \<and> is_i64 old \<and>
        is_i64 (old + n) \<and> r = RepInt (old + n) \<and> w = RHash (h(f \<mapsto> FormatInt (old + n))))"
| "cmd_rel (INCR k) v r w \<longleftrightarrow>
     (\<exists>old. (v = RNone \<and> old = 0 \<or> v = RString (FormatInt old)) \<and> is_i64 old \<and> is_i64 (old + 1) \<and>
        r = RepInt (old + 1) \<and> w = RString (FormatInt (old + 1)))"
| "cmd_rel (SETBIT k n) v r w \<longleftrightarrow> (v = RNone \<or> (\<exists>b. v = RString b)) \<and> (\<exists>b. w = RString b) \<and> (\<exists>n. r = RepInt n)"
| "cmd_rel (GET k) v r w \<longleftrightarrow>
     w = v \<and> (v = RNone \<and> r = RepNil \<or> (\<exists>b. v = RString b \<and> r = RepBulk b))"
| "cmd_rel (SADD k m) v r w \<longleftrightarrow> (\<exists>x n. set_of v = Some x \<and> w = RSet (insert m x) \<and> r = RepInt n)"
| "cmd_rel (SREM k m) v r w \<longleftrightarrow>
     (\<exists>x. set_of v = Some x \<and> w = mk_set (x - {m}) \<and> r = RepInt (if m \<in> x then 1 else 0))"
| "cmd_rel (SMEMBERS k) v r w \<longleftrightarrow> w = v \<and> (\<exists>x xs. set_of v = Some x \<and> r = RepList xs \<and> set xs = x \<and> distinct xs)"
| "cmd_rel (ZADD k sc m) v r w \<longleftrightarrow> (\<exists>z n. zset_of v = Some z \<and> w = RZSet (z(m \<mapsto> sc)) \<and> r = RepInt n)"
| "cmd_rel (ZREM k m) v r w \<longleftrightarrow> (\<exists>z n. zset_of v = Some z \<and> w = mk_zset (z(m := None)) \<and> r = RepInt n)"
| "cmd_rel (ZRANGEBYSCORE k mx lim) v r w \<longleftrightarrow>
     w = v \<and> (\<exists>z xs. zset_of v = Some z \<and> r = RepList xs \<and> distinct xs \<and> (lim < 0 \<or> int (length xs) \<le> lim) \<and>
       (\<forall>m \<in> set xs. \<exists>sc. z m = Some sc \<and> sc \<le> mx))"
| "cmd_rel (ZRANGE k) v r w \<longleftrightarrow> w = v \<and> (\<exists>z xs. zset_of v = Some z \<and> r = RepList xs \<and> set xs = dom z \<and> distinct xs)"
| "cmd_rel (HMGET k fs) v r w \<longleftrightarrow> w = v \<and> (\<exists>h. hash_of v = Some h \<and> r = RepOpts (map h fs))"
| "cmd_rel (HSETNX k f x) v r w \<longleftrightarrow>
     (\<exists>h n. hash_of v = Some h \<and> w = RHash (if h f = None then h(f \<mapsto> x) else h) \<and> r = RepInt n)"
| "cmd_rel (ZADDS k ms) v r w \<longleftrightarrow> (\<exists>z n. zset_of v = Some z \<and> w = mk_zset (zadd_all ms z) \<and> r = RepInt n)"
| "cmd_rel (ZCARD k) v r w \<longleftrightarrow> w = v \<and> (\<exists>z. zset_of v = Some z \<and> r = RepInt (int (card (dom z))))"
| "cmd_rel (ZRANGEBYLEX k lo hi n) v r w \<longleftrightarrow>
     w = v \<and> (\<exists>z xs. zset_of v = Some z \<and> r = RepList xs \<and>
       ((\<exists>sc. ran z \<subseteq> {sc}) \<longrightarrow>
          (\<exists>ys. sorted ys \<and> distinct ys \<and> set ys = {m \<in> dom z. lex_above lo m \<and> lex_below hi m} \<and> xs = take n ys)))"
| "cmd_rel (PERSIST k) v r w \<longleftrightarrow> w = v \<and> (\<exists>n. r = RepInt n)"
| "cmd_rel (PEXPIRE k ms) v r w \<longleftrightarrow> w = (if ms \<le> 0 then RNone else v) \<and> (\<exists>n. r = RepInt n)"
| "cmd_rel (PUBLISH ch x) v r w \<longleftrightarrow> w = v \<and> (\<exists>n. r = RepInt n)"

section \<open>The server\<close>

record 's redis =
  rd_call :: "rcmd \<Rightarrow> 's \<Rightarrow> rreply option \<times> 's"
  rd_val :: "'s \<Rightarrow> string \<Rightarrow> rvalue"

locale redis_server =
  fixes R :: "'s redis"
  assumes call_ok: "rd_call R c s = (Some r, t) \<Longrightarrow>
      cmd_rel c (rd_val R s (cmd_key c)) r (rd_val R t (cmd_key c)) \<and> (\<forall>k. k \<noteq> cmd_key c \<longrightarrow> rd_val R t k = rd_val R s k)"
    and call_failed: "rd_call R c s = (None, t) \<Longrightarrow> rd_val R t = rd_val R s"

text \<open>A server that executes every command the keys have the type for.\<close>

definition reliable :: "'s redis \<Rightarrow> bool" where
  "reliable R \<longleftrightarrow> (\<forall>c s r w. cmd_rel c (rd_val R s (cmd_key c)) r w \<longrightarrow> fst (rd_call R c s) \<noteq> None)"

section \<open>Programs over commands\<close>

text \<open>\<^verbatim>\<open>Fail\<close> is an error raised by the script itself, such as arithmetic on \<^verbatim>\<open>nil\<close>.\<close>

datatype 'a rprog = Ret 'a | Fail | Call rcmd "rreply \<Rightarrow> 'a rprog"

primrec rbind :: "'a rprog \<Rightarrow> ('a \<Rightarrow> 'b rprog) \<Rightarrow> 'b rprog" where
  "rbind (Ret a) f = f a"
| "rbind Fail f = Fail"
| "rbind (Call c g) f = Call c (\<lambda>r. rbind (g r) f)"

text \<open>Running a program on a server; \<^const>\<open>None\<close> when a command failed.\<close>

primrec rexec :: "'s redis \<Rightarrow> 'a rprog \<Rightarrow> 's \<Rightarrow> 'a option \<times> 's" where
  "rexec R (Ret a) = (\<lambda>s. (Some a, s))"
| "rexec R Fail = (\<lambda>s. (None, s))"
| "rexec R (Call c g) = (\<lambda>s. case rd_call R c s of (None, t) \<Rightarrow> (None, t) | (Some r, t) \<Rightarrow> rexec R (g r) t)"

text \<open>
  Every outcome a program can have from the values of the keys, by weakest preconditions: the
  postcondition must hold after each command that may fail, and for every documented reply.
\<close>

primrec wp :: "'a rprog \<Rightarrow> ('a option \<Rightarrow> (string \<Rightarrow> rvalue) \<Rightarrow> bool) \<Rightarrow> (string \<Rightarrow> rvalue) \<Rightarrow> bool" where
  "wp (Ret a) Q = (\<lambda>V. Q (Some a) V)"
| "wp Fail Q = (\<lambda>V. Q None V)"
| "wp (Call c g) Q =
     (\<lambda>V. Q None V \<and> (\<forall>r w. cmd_rel c (V (cmd_key c)) r w \<longrightarrow> wp (g r) Q (V(cmd_key c := w))))"

lemma wp_bind: "wp (rbind m f) Q V \<longleftrightarrow> wp m (\<lambda>r W. case r of None \<Rightarrow> Q None W | Some a \<Rightarrow> wp (f a) Q W) V"
  by (induction m arbitrary: V) auto

lemma wp_mono: "wp m Q V \<Longrightarrow> (\<And>r W. Q r W \<Longrightarrow> Q' r W) \<Longrightarrow> wp m Q' V"
  by (induction m arbitrary: V) auto

lemma wp_conj: "wp m (\<lambda>r W. Q r W \<and> Q' r W) V \<longleftrightarrow> wp m Q V \<and> wp m Q' V"
  by (induction m arbitrary: V) auto

context redis_server
begin

lemma rexec_wp: "wp m Q (rd_val R s) \<Longrightarrow> rexec R m s = (r, t) \<Longrightarrow> Q r (rd_val R t)"
proof (induction m arbitrary: s)
  case (Ret a)
  then show ?case by auto
next
  case Fail
  then show ?case by auto
next
  case (Call c g)
  show ?case
  proof (cases "rd_call R c s")
    case (Pair q u)
    show ?thesis
    proof (cases q)
      case None
      with Call.prems Pair call_failed [of c s u] show ?thesis by auto
    next
      case (Some x)
      with Pair have cx: "rd_call R c s = (Some x, u)" by simp
      from call_ok [OF this] have rel: "cmd_rel c (rd_val R s (cmd_key c)) x (rd_val R u (cmd_key c))"
        and fr: "rd_val R u = (rd_val R s)(cmd_key c := rd_val R u (cmd_key c))" by auto
      from Call.prems(1) rel have "wp (g x) Q ((rd_val R s)(cmd_key c := rd_val R u (cmd_key c)))" by auto
      then have "wp (g x) Q (rd_val R u)" using fr by simp
      moreover have "rexec R (g x) u = (r, t)" using Call.prems(2) cx by simp
      ultimately show ?thesis using Call.IH [of "g x" u] by blast
    qed
  qed
qed

end

section \<open>What scripts see of a reply\<close>

text \<open>Lua's view of a reply: a missing field is \<^verbatim>\<open>false\<close>, here \<^const>\<open>None\<close>.\<close>

definition lua_string :: "rreply \<Rightarrow> string option" where
  "lua_string r = (case r of RepBulk x \<Rightarrow> Some x | _ \<Rightarrow> None)"

definition lua_int :: "rreply \<Rightarrow> int" where
  "lua_int r = (case r of RepInt n \<Rightarrow> n | _ \<Rightarrow> 0)"

definition lua_list :: "rreply \<Rightarrow> string list" where
  "lua_list r = (case r of RepList xs \<Rightarrow> xs | _ \<Rightarrow> [])"

definition lua_pairs :: "rreply \<Rightarrow> (string \<times> string) list" where
  "lua_pairs r = (case r of RepMap xs \<Rightarrow> xs | _ \<Rightarrow> [])"

definition lua_opts :: "rreply \<Rightarrow> string option list" where
  "lua_opts r = (case r of RepOpts xs \<Rightarrow> xs | _ \<Rightarrow> [])"

lemma lua_opts_RepOpts [simp]: "lua_opts (RepOpts xs) = xs"
  by (simp add: lua_opts_def)

lemma lua_views [simp]:
  "lua_string (RepBulk x) = Some x" "lua_string RepNil = None" "lua_int (RepInt n) = n"
  "lua_list (RepList xs) = xs" "lua_pairs (RepMap ps) = ps"
  by (simp_all add: lua_string_def lua_int_def lua_list_def lua_pairs_def)

abbreviation hget :: "string \<Rightarrow> string \<Rightarrow> (string option \<Rightarrow> 'a rprog) \<Rightarrow> 'a rprog" where
  "hget k f g \<equiv> Call (HGET k f) (\<lambda>r. g (lua_string r))"

abbreviation exists_key :: "string \<Rightarrow> (bool \<Rightarrow> 'a rprog) \<Rightarrow> 'a rprog" where
  "exists_key k g \<equiv> Call (EXISTS k) (\<lambda>r. g (lua_int r = 1))"

abbreviation hset :: "string \<Rightarrow> (string \<times> string) list \<Rightarrow> 'a rprog \<Rightarrow> 'a rprog" where
  "hset k fvs p \<equiv> Call (HSET k fvs) (\<lambda>_. p)"

end
