(* ===== verification/Redis_Codec.thy ===== *)
theory Redis_Codec
  imports Write_Fence Lua_Decimals Redis_Server
begin

text \<open>
  How the Redis stream store lays a stream out: the key schema and the lexicographic frames of
  \<^verbatim>\<open>store/redis/keys.go\<close>, and the hash fields of \<^verbatim>\<open>store/redis/meta.go\<close>.  Keys of distinct paths are
  distinct, frames sort as the offsets they end at and the two range bounds select exactly the
  frames between two offsets, and metadata survive the trip through the hash.
\<close>

section \<open>Keys\<close>

definition escape_byte :: "char \<Rightarrow> string" where
  "escape_byte c =
     (if c = CHR ''%'' then ''%25'' else if c = CHR ''{'' then ''%7B'' else if c = CHR ''}'' then ''%7D'' else [c])"

definition escapePath :: "string \<Rightarrow> string" where
  "escapePath path = concat (map escape_byte path)"

definition tag :: "string \<Rightarrow> string" where
  "tag path = ''{'' @ escapePath path @ ''}''"

definition metaKey :: "string \<Rightarrow> string" where
  "metaKey path = ''ds:'' @ tag path @ '':meta''"

definition msgKey :: "string \<Rightarrow> string" where
  "msgKey path = ''ds:'' @ tag path @ '':msg''"

definition prodKey :: "string \<Rightarrow> string" where
  "prodKey path = ''ds:'' @ tag path @ '':prod''"

definition forksKey :: "string \<Rightarrow> string" where
  "forksKey path = ''ds:'' @ tag path @ '':forks''"

definition appendFenceKey :: "string \<Rightarrow> AppendFence \<Rightarrow> string" where
  "appendFenceKey path fence = ''ds:'' @ tag path @ '':append-fence:'' @ FenceAuthority fence"

definition notifyChannel :: "string \<Rightarrow> string" where
  "notifyChannel path = ''ds:notify:'' @ tag path"

definition keysFor :: "string \<Rightarrow> string list" where
  "keysFor path = (let tagged = tag path
     in [''ds:'' @ tagged @ '':meta'', ''ds:'' @ tagged @ '':msg'', ''ds:'' @ tagged @ '':prod'', ''ds:'' @ tagged @ '':forks''])"

lemma keysFor_keys: "keysFor path = [metaKey path, msgKey path, prodKey path, forksKey path]"
  by (simp add: keysFor_def Let_def metaKey_def msgKey_def prodKey_def forksKey_def)

text \<open>The hash tag Redis Cluster reads off a key: between the first opening brace and the next closing one.\<close>

definition hash_tag :: "string \<Rightarrow> string" where
  "hash_tag key = takeWhile (\<lambda>c. c \<noteq> CHR ''}'') (tl (dropWhile (\<lambda>c. c \<noteq> CHR ''{'') key))"

lemma escape_byte_cases:
  "escape_byte c = [c] \<and> c \<noteq> CHR ''%'' \<and> c \<noteq> CHR ''{'' \<and> c \<noteq> CHR ''}'' \<or>
   (\<exists>x. escape_byte c = CHR ''%'' # x)"
  by (auto simp: escape_byte_def)

lemma escapePath_inject: "escapePath p = escapePath q \<Longrightarrow> p = q"
proof (induction p arbitrary: q)
  case Nil
  then show ?case by (cases q) (auto simp: escapePath_def escape_byte_def split: if_splits)
next
  case (Cons c p)
  then show ?case
    by (cases q) (auto simp: escapePath_def escape_byte_def split: if_splits)
qed

lemma escapePath_no_brace: "c \<in> set (escapePath p) \<Longrightarrow> c \<noteq> CHR ''{'' \<and> c \<noteq> CHR ''}''"
  by (auto simp: escapePath_def escape_byte_def split: if_splits)

lemma hash_tag_tagged: "hash_tag (''ds:'' @ tag path @ suffix) = escapePath path"
  using escapePath_no_brace [of _ path]
  by (auto simp: hash_tag_def tag_def intro: takeWhile_eq_all_conv [THEN iffD2] simp: takeWhile_append)

lemma tagged_inject:
  "''ds:'' @ tag p @ s = ''ds:'' @ tag q @ t \<longleftrightarrow> p = q \<and> s = t"
proof
  assume "''ds:'' @ tag p @ s = ''ds:'' @ tag q @ t"
  then have k: "tag p @ s = tag q @ t" by simp
  have "escapePath p = escapePath q" using hash_tag_tagged [of p s] hash_tag_tagged [of q t] k by simp
  then have "p = q" by (rule escapePath_inject)
  with k show "p = q \<and> s = t" by simp
qed simp

lemmas stream_key_defs = metaKey_def msgKey_def prodKey_def forksKey_def appendFenceKey_def

lemma stream_keys_distinct [simp]:
  "metaKey p \<noteq> msgKey q" "metaKey p \<noteq> prodKey q" "metaKey p \<noteq> forksKey q" "msgKey p \<noteq> prodKey q"
  "msgKey p \<noteq> forksKey q" "prodKey p \<noteq> forksKey q" "msgKey p \<noteq> metaKey q" "prodKey p \<noteq> metaKey q" "forksKey p \<noteq> metaKey q"
  "prodKey p \<noteq> msgKey q" "forksKey p \<noteq> msgKey q" "forksKey p \<noteq> prodKey q"
  "appendFenceKey p f \<noteq> metaKey q" "appendFenceKey p f \<noteq> msgKey q" "appendFenceKey p f \<noteq> prodKey q" "appendFenceKey p f \<noteq> forksKey q"
  "metaKey q \<noteq> appendFenceKey p f" "msgKey q \<noteq> appendFenceKey p f" "prodKey q \<noteq> appendFenceKey p f" "forksKey q \<noteq> appendFenceKey p f"
  unfolding stream_key_defs tagged_inject by simp_all

lemma stream_key_inject [simp]:
  "metaKey p = metaKey q \<longleftrightarrow> p = q" "msgKey p = msgKey q \<longleftrightarrow> p = q" "prodKey p = prodKey q \<longleftrightarrow> p = q"
  "forksKey p = forksKey q \<longleftrightarrow> p = q"
  "appendFenceKey p f = appendFenceKey q g \<longleftrightarrow> p = q \<and> FenceAuthority f = FenceAuthority g"
  unfolding stream_key_defs tagged_inject by simp_all

lemma notifyChannel_distinct [simp]:
  "notifyChannel p \<noteq> metaKey q" "notifyChannel p \<noteq> msgKey q" "notifyChannel p \<noteq> prodKey q" "notifyChannel p \<noteq> forksKey q"
  "notifyChannel p \<noteq> appendFenceKey q f"
  by (simp_all add: notifyChannel_def stream_key_defs tag_def)

section \<open>Frames\<close>

datatype frame_error = Malformed_member | Malformed_offset offset_error

definition encodeFrame :: "Offset \<Rightarrow> bytes \<Rightarrow> string" where
  "encodeFrame offset data = offset_String offset @ ''|'' @ data"

definition decodeFrame :: "string \<Rightarrow> frame_error + Offset \<times> bytes" where
  "decodeFrame member =
     (if length member < 34 \<or> member ! 33 \<noteq> CHR ''|'' then Inl Malformed_member
      else (case ParseOffset (take 33 member) of
              Inl err \<Rightarrow> Inl (Malformed_offset err)
            | Inr off \<Rightarrow> Inr (off, drop 34 member)))"

definition lexLowerBound :: "Offset \<Rightarrow> string" where
  "lexLowerBound offset = ''('' @ offset_String offset @ [CHR 0xFF]"

definition lexUpperBoundInclusive :: "Offset \<Rightarrow> string" where
  "lexUpperBoundInclusive offset = ''['' @ offset_String offset @ [CHR 0xFF]"


lemma length_offset_String: "narrow_offset off \<Longrightarrow> length (offset_String off) = 33"
  by (simp add: offset_String_def narrow_offset_def length_pad16)

lemma decodeFrame_encodeFrame: "narrow_offset off \<Longrightarrow> decodeFrame (encodeFrame off data) = Inr (off, data)"
  by (simp add: decodeFrame_def encodeFrame_def length_offset_String ParseOffset_offset_String nth_append)

lemma encodeFrame_inject:
  "narrow_offset a \<Longrightarrow> narrow_offset b \<Longrightarrow> encodeFrame a x = encodeFrame b y \<longleftrightarrow> a = b \<and> x = y"
  by (metis decodeFrame_encodeFrame Inr_inject Pair_inject)

lemma bound_less:
  assumes "narrow_offset a" and "narrow_offset b"
  shows "offset_String a @ [CHR 0xFF] < encodeFrame b data \<longleftrightarrow> a < b"
    and "encodeFrame b data < offset_String a @ [CHR 0xFF] \<longleftrightarrow> b \<le> a"
    and "encodeFrame b data \<noteq> offset_String a @ [CHR 0xFF]"
proof -
  have len: "length (offset_String a) = length (offset_String b)" using assms by (simp add: length_offset_String)
  have bar: "CHR ''|'' < CHR 0xFF" by (simp add: less_char_def)
  show "offset_String a @ [CHR 0xFF] < encodeFrame b data \<longleftrightarrow> a < b"
    using bar by (auto simp: encodeFrame_def less_append_same_length [OF len] narrow_codec.enc_less [OF assms])
  show "encodeFrame b data < offset_String a @ [CHR 0xFF] \<longleftrightarrow> b \<le> a"
    using bar narrow_codec.enc_inject [OF assms(2,1)]
    by (auto simp: encodeFrame_def less_append_same_length [OF len [symmetric]] narrow_codec.enc_less [OF assms(2,1)])
  show "encodeFrame b data \<noteq> offset_String a @ [CHR 0xFF]"
    using len bar by (simp add: encodeFrame_def append_eq_append_conv)
qed

lemma frame_in_range:
  assumes "narrow_offset lower" and "narrow_offset upper" and "narrow_offset off"
  shows "lex_above (lexLowerBound lower) (encodeFrame off data) \<and> lex_below (lexUpperBoundInclusive upper) (encodeFrame off data) \<longleftrightarrow>
    lower < off \<and> off \<le> upper"
  using bound_less [OF assms(1,3)] bound_less [OF assms(2,3)]
  by (auto simp: lex_above_def lex_below_def lexLowerBound_def lexUpperBoundInclusive_def le_less)

lemma encodeFrame_less:
  assumes "narrow_offset a" and "narrow_offset b" and "a < b"
  shows "encodeFrame a x < encodeFrame b y"
proof -
  have len: "length (offset_String a) = length (offset_String b)" using assms by (simp add: length_offset_String)
  show ?thesis using assms by (simp add: encodeFrame_def less_append_same_length [OF len] narrow_codec.enc_less)
qed


section \<open>Metadata fields\<close>

text \<open>\<^verbatim>\<open>time.Unix(0, ns)\<close>.\<close>

definition time_of_nano :: "int64 \<Rightarrow> gotime" where
  "time_of_nano ns = \<lparr>tm_sec = ns div 1000000000, tm_nsec = ns mod 1000000000\<rparr>"

lemma time_of_nano_wf [simp]: "time_wf (time_of_nano ns)"
  by (simp add: time_wf_def time_of_nano_def)

lemma time_unix_nano_of_nano: "is_i64 ns \<Longrightarrow> time_unix_nano (time_of_nano ns) = ns"
  by (simp add: time_unix_nano_def time_of_nano_def i64_id)

definition nano_range :: "gotime \<Rightarrow> bool" where
  "nano_range t \<longleftrightarrow> time_wf t \<and> is_i64 (tm_sec t * 1000000000 + tm_nsec t)"

lemma time_of_nano_unix_nano: "nano_range t \<Longrightarrow> time_of_nano (time_unix_nano t) = t"
  by (cases t) (auto simp: nano_range_def time_wf_def time_unix_nano_def time_of_nano_def i64_id)

text \<open>Adding an optional field to the Go map.\<close>

definition put_if :: "bool \<Rightarrow> string \<Rightarrow> string \<Rightarrow> (string \<rightharpoonup> string) \<Rightarrow> (string \<rightharpoonup> string)" where
  "put_if c f v h = (if c then h(f \<mapsto> v) else h)"

lemma put_if_at [simp]: "put_if c f v h k = (if c \<and> k = f then Some v else h k)"
  by (simp add: put_if_def)

definition metaToFields :: "StreamMetadata \<Rightarrow> (string \<rightharpoonup> string)" where
  "metaToFields m =
     (let f = [''ct'' \<mapsto> sm_ContentType m,
               ''tail'' \<mapsto> offset_String (sm_CurrentOffset m),
               ''createdAtNs'' \<mapsto> FormatInt (time_unix_nano (sm_CreatedAt m)),
               ''accessedAtNs'' \<mapsto> FormatInt (time_unix_nano (sm_LastAccessedAt m))];
          f = put_if (sm_Incarnation m \<noteq> '''') ''incarnation'' (sm_Incarnation m) f;
          f = put_if (sm_LastSeq m \<noteq> '''') ''lastSeq'' (sm_LastSeq m) f;
          f = put_if (sm_Closed m) ''closed'' ''1'' f;
          f = put_if (sm_WriteFence m) ''wf'' ''1'' f;
          f = put_if (sm_TTLSeconds m \<noteq> None) ''ttl'' (FormatInt (the (sm_TTLSeconds m))) f;
          f = put_if (sm_ExpiresAt m \<noteq> None) ''expAtNs'' (FormatInt (time_unix_nano (the (sm_ExpiresAt m)))) f;
          fork = (sm_ForkedFrom m \<noteq> '''');
          f = put_if fork ''forkedFrom'' (sm_ForkedFrom m) f;
          f = put_if fork ''forkOff'' (offset_String (sm_ForkOffset m)) f;
          f = put_if (fork \<and> sm_ForkOffsetRequested m \<noteq> None) ''forkOffReq''
                (offset_String (the (sm_ForkOffsetRequested m))) f;
          f = put_if (fork \<and> sm_ForkSubOffset m \<noteq> 0) ''forkSubOff'' (dec_digits (unat (sm_ForkSubOffset m))) f;
          f = put_if (sm_RefCount m \<noteq> 0) ''refCount'' (FormatInt (sm_RefCount m)) f;
          f = put_if (sm_SoftDeleted m) ''softDel'' ''1'' f
      in case sm_ClosedBy m of
           None \<Rightarrow> f
         | Some c \<Rightarrow> f(''cbId'' \<mapsto> cb_ProducerId c, ''cbEpoch'' \<mapsto> FormatInt (cb_Epoch c), ''cbSeq'' \<mapsto> FormatInt (cb_Seq c)))"

datatype meta_error =
    Bad_offset string offset_error
  | Missing_field string
  | Bad_number string

definition and_then :: "'e + 'a \<Rightarrow> ('a \<Rightarrow> 'e + 'b) \<Rightarrow> 'e + 'b" where
  "and_then r f = (case r of Inl e \<Rightarrow> Inl e | Inr a \<Rightarrow> f a)"

lemma and_then_simps [simp]: "and_then (Inr a) f = f a" "and_then (Inl e) f = Inl e"
  by (simp_all add: and_then_def)

definition field :: "(string \<rightharpoonup> string) \<Rightarrow> string \<Rightarrow> string" where
  "field h f = (case h f of None \<Rightarrow> '''' | Some v \<Rightarrow> v)"

definition offset_field :: "string \<Rightarrow> string \<Rightarrow> meta_error + Offset" where
  "offset_field f v = (case ParseOffset v of Inl e \<Rightarrow> Inl (Bad_offset f e) | Inr off \<Rightarrow> Inr off)"

definition int_field :: "string \<Rightarrow> string \<Rightarrow> meta_error + int64" where
  "int_field f v = (case ParseInt v of Inl _ \<Rightarrow> Inl (Bad_number f) | Inr n \<Rightarrow> Inr n)"

definition uint_field :: "string \<Rightarrow> string \<Rightarrow> meta_error + uint64" where
  "uint_field f v = (case ParseUint v of Inl _ \<Rightarrow> Inl (Bad_number f) | Inr n \<Rightarrow> Inr n)"

text \<open>\<^verbatim>\<open>strconv.ParseInt(v, 10, 32)\<close>.\<close>

definition int32_field :: "string \<Rightarrow> string \<Rightarrow> meta_error + int32" where
  "int32_field f v =
     (case ParseInt v of Inl _ \<Rightarrow> Inl (Bad_number f) | Inr n \<Rightarrow> if is_i32 n then Inr n else Inl (Bad_number f))"

definition opt_field :: "(string \<rightharpoonup> string) \<Rightarrow> string \<Rightarrow> (string \<Rightarrow> string \<Rightarrow> 'e + 'a) \<Rightarrow> 'e + 'a option" where
  "opt_field h f parse = (case h f of None \<Rightarrow> Inr None | Some v \<Rightarrow> and_then (parse f v) (\<lambda>a. Inr (Some a)))"

definition parseNanoTime :: "(string \<rightharpoonup> string) \<Rightarrow> string \<Rightarrow> meta_error + gotime" where
  "parseNanoTime h f =
     (case h f of
        None \<Rightarrow> Inl (Missing_field f)
      | Some v \<Rightarrow> and_then (int_field f v) (\<lambda>ns. Inr (time_of_nano ns)))"

definition fork_fields ::
    "(string \<rightharpoonup> string) \<Rightarrow> meta_error + Offset \<times> Offset option \<times> uint64" where
  "fork_fields h =
     (if field h ''forkedFrom'' = '''' then Inr (ZeroOffset, None, 0)
      else and_then (offset_field ''forkOff'' (field h ''forkOff'')) (\<lambda>off.
           and_then (opt_field h ''forkOffReq'' offset_field) (\<lambda>req.
           and_then (opt_field h ''forkSubOff'' uint_field) (\<lambda>sub.
             Inr (off, req, case sub of None \<Rightarrow> 0 | Some n \<Rightarrow> n)))))"

definition closed_by_fields :: "(string \<rightharpoonup> string) \<Rightarrow> meta_error + ClosedByProducer option" where
  "closed_by_fields h =
     (case h ''cbEpoch'' of
        None \<Rightarrow> Inr None
      | Some v \<Rightarrow>
          and_then (int_field ''cbEpoch'' v) (\<lambda>ep.
          and_then (int_field ''cbSeq'' (field h ''cbSeq'')) (\<lambda>seq.
            Inr (Some \<lparr>cb_ProducerId = field h ''cbId'', cb_Epoch = ep, cb_Seq = seq\<rparr>))))"

definition metaFromFields :: "string \<Rightarrow> (string \<rightharpoonup> string) \<Rightarrow> meta_error + StreamMetadata option" where
  "metaFromFields path h =
     (case h ''tail'' of
        None \<Rightarrow> Inr None
      | Some tail \<Rightarrow>
          and_then (offset_field ''tail'' tail) (\<lambda>cur.
          and_then (parseNanoTime h ''createdAtNs'') (\<lambda>created.
          and_then (parseNanoTime h ''accessedAtNs'') (\<lambda>accessed.
          and_then (opt_field h ''ttl'' int_field) (\<lambda>ttl.
          and_then (opt_field h ''expAtNs'' int_field) (\<lambda>exp.
          and_then (fork_fields h) (\<lambda>(forkOff, forkReq, forkSub).
          and_then (opt_field h ''refCount'' int32_field) (\<lambda>rc.
          and_then (closed_by_fields h) (\<lambda>closedBy.
          and_then (opt_field h ''wfSealGen'' int_field) (\<lambda>sealGen.
          and_then (opt_field h ''wfSealOff'' offset_field) (\<lambda>sealOff.
            Inr (Some
              \<lparr>sm_Path = path,
               sm_Incarnation = (if field h ''incarnation'' = '''' then field h ''createdAtNs'' else field h ''incarnation''),
               sm_ContentType = field h ''ct'', sm_CurrentOffset = cur, sm_LastSeq = field h ''lastSeq'',
               sm_TTLSeconds = ttl, sm_ExpiresAt = map_option time_of_nano exp,
               sm_CreatedAt = created, sm_LastAccessedAt = accessed, sm_Producers = Map.empty,
               sm_Closed = (field h ''closed'' = ''1''), sm_ClosedBy = closedBy,
               sm_ForkedFrom = field h ''forkedFrom'', sm_ForkOffset = forkOff, sm_ForkOffsetRequested = forkReq,
               sm_ForkSubOffset = forkSub, sm_RefCount = (case rc of None \<Rightarrow> 0 | Some n \<Rightarrow> n),
               sm_SoftDeleted = (field h ''softDel'' = ''1''), sm_WriteFence = (field h ''wf'' = ''1''),
               sm_SealedGeneration = (case sealGen of None \<Rightarrow> 0 | Some g \<Rightarrow> g), sm_SealedOffset = sealOff\<rparr>))))))))))))"

definition encodeProducerState :: "ProducerState \<Rightarrow> string" where
  "encodeProducerState s = FormatInt (ps_Epoch s) @ '':'' @ FormatInt (ps_LastSeq s) @ '':'' @ FormatInt (ps_LastUpdated s)"

text \<open>\<^verbatim>\<open>strings.SplitN(v, ":", 3)\<close>.\<close>

definition splitN3 :: "string \<Rightarrow> string list" where
  "splitN3 v =
     (case split_on CHR '':'' v of
        a # b # c # rest \<Rightarrow> [a, b, join_with '':'' (c # rest)]
      | parts \<Rightarrow> parts)"

definition decodeProducerState :: "string \<Rightarrow> meta_error + ProducerState" where
  "decodeProducerState v =
     (case splitN3 v of
        [a, b, c] \<Rightarrow>
          and_then (int_field ''epoch'' a) (\<lambda>epoch.
          and_then (int_field ''lastSeq'' b) (\<lambda>lastSeq.
          and_then (int_field ''lastUpdated'' c) (\<lambda>lastUpdated.
            Inr \<lparr>ps_Epoch = epoch, ps_LastSeq = lastSeq, ps_LastUpdated = lastUpdated\<rparr>)))
      | _ \<Rightarrow> Inl (Bad_number ''producer''))"

section \<open>Round trips\<close>

text \<open>
  Metadata as \<^verbatim>\<open>Create\<close> writes them: numbers in range, an incarnation, fork fields only on a fork,
  no producers (they have a hash of their own) and no seal (the scripts write it).
\<close>

definition storable :: "StreamMetadata \<Rightarrow> bool" where
  "storable m \<longleftrightarrow>
     sm_Incarnation m \<noteq> '''' \<and> nano_range (sm_CreatedAt m) \<and> nano_range (sm_LastAccessedAt m) \<and>
     pred_option is_i64 (sm_TTLSeconds m) \<and> pred_option nano_range (sm_ExpiresAt m) \<and>
     (sm_ForkedFrom m = '''' \<longrightarrow> sm_ForkOffset m = ZeroOffset \<and> sm_ForkOffsetRequested m = None \<and> sm_ForkSubOffset m = 0) \<and>
     is_i32 (sm_RefCount m) \<and> pred_option (\<lambda>c. is_i64 (cb_Epoch c) \<and> is_i64 (cb_Seq c)) (sm_ClosedBy m) \<and>
     sm_Producers m = Map.empty \<and> sm_SealedGeneration m = 0 \<and> sm_SealedOffset m = None"

lemma i32_i64: "is_i32 x \<Longrightarrow> is_i64 x"
  by (simp add: is_i32_def is_i64_def)

lemma is_i64_unix_nano [simp]: "is_i64 (time_unix_nano t)"
  by (simp add: time_unix_nano_def)

lemma fields_read [simp]:
  "is_i64 n \<Longrightarrow> int_field f (FormatInt n) = Inr n" "offset_field f (offset_String off) = Inr off"
  "uint_field f (dec_digits (unat w)) = Inr w" "is_i32 n \<Longrightarrow> int32_field f (FormatInt n) = Inr n"
  by (simp_all add: int_field_def offset_field_def uint_field_def int32_field_def ParseOffset_offset_String i32_i64)

lemma metaToFields_cb [simp]:
  "metaToFields m ''cbEpoch'' = map_option (\<lambda>c. FormatInt (cb_Epoch c)) (sm_ClosedBy m)"
  "metaToFields m ''cbSeq'' = map_option (\<lambda>c. FormatInt (cb_Seq c)) (sm_ClosedBy m)"
  "metaToFields m ''cbId'' = map_option cb_ProducerId (sm_ClosedBy m)"
  by (simp_all add: metaToFields_def Let_def split: option.split)

lemma metaToFields_at [simp]:
  "metaToFields m ''ct'' = Some (sm_ContentType m)"
  "metaToFields m ''tail'' = Some (offset_String (sm_CurrentOffset m))"
  "metaToFields m ''createdAtNs'' = Some (FormatInt (time_unix_nano (sm_CreatedAt m)))"
  "metaToFields m ''accessedAtNs'' = Some (FormatInt (time_unix_nano (sm_LastAccessedAt m)))"
  "metaToFields m ''incarnation'' = (if sm_Incarnation m = '''' then None else Some (sm_Incarnation m))"
  "metaToFields m ''lastSeq'' = (if sm_LastSeq m = '''' then None else Some (sm_LastSeq m))"
  "metaToFields m ''closed'' = (if sm_Closed m then Some ''1'' else None)"
  "metaToFields m ''wf'' = (if sm_WriteFence m then Some ''1'' else None)"
  "metaToFields m ''softDel'' = (if sm_SoftDeleted m then Some ''1'' else None)"
  "metaToFields m ''ttl'' = map_option FormatInt (sm_TTLSeconds m)"
  "metaToFields m ''expAtNs'' = map_option (\<lambda>t. FormatInt (time_unix_nano t)) (sm_ExpiresAt m)"
  "metaToFields m ''forkedFrom'' = (if sm_ForkedFrom m = '''' then None else Some (sm_ForkedFrom m))"
  "metaToFields m ''forkOff'' = (if sm_ForkedFrom m = '''' then None else Some (offset_String (sm_ForkOffset m)))"
  "metaToFields m ''forkOffReq'' = (if sm_ForkedFrom m = '''' then None else map_option offset_String (sm_ForkOffsetRequested m))"
  "metaToFields m ''forkSubOff'' = (if sm_ForkedFrom m = '''' \<or> sm_ForkSubOffset m = 0 then None else Some (dec_digits (unat (sm_ForkSubOffset m))))"
  "metaToFields m ''refCount'' = (if sm_RefCount m = 0 then None else Some (FormatInt (sm_RefCount m)))"
  "metaToFields m ''wfSealGen'' = None" "metaToFields m ''wfSealOff'' = None"
  by (cases "sm_ClosedBy m"; simp add: metaToFields_def Let_def; cases "sm_TTLSeconds m"; cases "sm_ExpiresAt m"; cases "sm_ForkOffsetRequested m"; simp)+

lemma field_Some [simp]: "h f = Some v \<Longrightarrow> field h f = v" "h f = None \<Longrightarrow> field h f = ''''"
  by (simp_all add: field_def)

lemma fork_fields_read:
  assumes "sm_ForkedFrom m = '''' \<longrightarrow> sm_ForkOffset m = ZeroOffset \<and> sm_ForkOffsetRequested m = None \<and> sm_ForkSubOffset m = 0"
  shows "fork_fields (metaToFields m) = Inr (sm_ForkOffset m, sm_ForkOffsetRequested m, sm_ForkSubOffset m)"
  using assms by (cases "sm_ForkOffsetRequested m") (auto simp: fork_fields_def field_def opt_field_def)

lemma metaFromFields_metaToFields:
  assumes "storable m"
  shows "metaFromFields (sm_Path m) (metaToFields m) = Inr (Some m)"
proof -
  have t: "parseNanoTime (metaToFields m) ''createdAtNs'' = Inr (sm_CreatedAt m)"
    "parseNanoTime (metaToFields m) ''accessedAtNs'' = Inr (sm_LastAccessedAt m)"
    using assms by (simp_all add: parseNanoTime_def storable_def time_of_nano_unix_nano)
  have o: "opt_field (metaToFields m) ''ttl'' int_field = Inr (sm_TTLSeconds m)"
    "opt_field (metaToFields m) ''expAtNs'' int_field = Inr (map_option time_unix_nano (sm_ExpiresAt m))"
    "opt_field (metaToFields m) ''refCount'' int32_field = Inr (if sm_RefCount m = 0 then None else Some (sm_RefCount m))"
    "opt_field (metaToFields m) ''wfSealGen'' int_field = Inr None" "opt_field (metaToFields m) ''wfSealOff'' offset_field = Inr None"
    using assms by (auto simp: opt_field_def storable_def split: option.splits)
  have c: "closed_by_fields (metaToFields m) = Inr (sm_ClosedBy m)"
    using assms by (cases "sm_ClosedBy m") (auto simp: closed_by_fields_def storable_def field_def)
  have e: "map_option time_of_nano (map_option time_unix_nano (sm_ExpiresAt m)) = sm_ExpiresAt m"
    using assms by (cases "sm_ExpiresAt m") (auto simp: storable_def time_of_nano_unix_nano)
  have f: "field (metaToFields m) ''incarnation'' = sm_Incarnation m" "field (metaToFields m) ''ct'' = sm_ContentType m"
    "field (metaToFields m) ''lastSeq'' = sm_LastSeq m" "(field (metaToFields m) ''closed'' = ''1'') = sm_Closed m"
    "field (metaToFields m) ''forkedFrom'' = sm_ForkedFrom m" "(field (metaToFields m) ''softDel'' = ''1'') = sm_SoftDeleted m"
    "(field (metaToFields m) ''wf'' = ''1'') = sm_WriteFence m"
    by (simp_all add: field_def)
  have g: "fork_fields (metaToFields m) = Inr (sm_ForkOffset m, sm_ForkOffsetRequested m, sm_ForkSubOffset m)"
    using assms by (intro fork_fields_read) (simp add: storable_def)
  show ?thesis
    using assms unfolding metaFromFields_def
    by (simp add: t o c e f g storable_def)
qed

lemma FormatInt_no_colon: "CHR '':'' \<notin> set (FormatInt n)"
  using dec_digits_digits [of "CHR '':''"] by (auto simp: FormatInt_def is_digit_def)

lemma decodeProducerState_encode:
  assumes "is_i64 (ps_Epoch s)" and "is_i64 (ps_LastSeq s)" and "is_i64 (ps_LastUpdated s)"
  shows "decodeProducerState (encodeProducerState s) = Inr s"
proof -
  have "split_on CHR '':'' (encodeProducerState s) = [FormatInt (ps_Epoch s), FormatInt (ps_LastSeq s), FormatInt (ps_LastUpdated s)]"
    by (simp add: encodeProducerState_def split_on_append split_on_no_sep FormatInt_no_colon)
  then show ?thesis using assms by (simp add: decodeProducerState_def splitN3_def)
qed

end
