(* ===== verification/Redis_Frames.thy ===== *)
theory Redis_Frames
  imports Redis_Server
begin

text \<open>
  What a program over Redis commands can do to one key, read off its syntax: which keys it writes,
  which fields of a hash it keeps, and the two disciplines the control plane's fences follow.  A
  fence is a hash with a decimal \<^emph>\<open>counter\<close> field; a program either leaves the counter alone and
  only closes the fence, or increments it once before anything else about the fence changes.
\<close>

section \<open>The hash at a key\<close>

definition hash_at :: "(string \<Rightarrow> rvalue) \<Rightarrow> string \<Rightarrow> (string \<rightharpoonup> string)" where
  "hash_at V k = (case hash_of (V k) of None \<Rightarrow> Map.empty | Some h \<Rightarrow> h)"

lemma hash_at_upd [simp]: "hash_at (V(k := w)) j = (if j = k then (case hash_of w of None \<Rightarrow> Map.empty | Some h \<Rightarrow> h) else hash_at V j)"
  by (simp add: hash_at_def)

lemma hash_of_mk_hash [simp]: "hash_of (mk_hash h) = Some h"
  by (simp add: mk_hash_def)

lemma hash_at_Some: "hash_of (V k) = Some h \<Longrightarrow> hash_at V k = h"
  by (simp add: hash_at_def)

section \<open>Reads and writes\<close>

fun is_read :: "rcmd \<Rightarrow> bool" where
  "is_read (EXISTS _) = True" | "is_read (HGET _ _) = True" | "is_read (HEXISTS _ _) = True"
| "is_read (HLEN _) = True" | "is_read (HGETALL _) = True" | "is_read (GET _) = True" | "is_read (SMEMBERS _) = True"
| "is_read (ZRANGEBYSCORE _ _ _) = True" | "is_read (ZRANGE _) = True" | "is_read (HMGET _ _) = True" | "is_read (ZCARD _) = True"
| "is_read (ZRANGEBYLEX _ _ _ _) = True" | "is_read (PERSIST _) = True" | "is_read (PUBLISH _ _) = True"
| "is_read _ = False"

lemma is_read_same: "is_read c \<Longrightarrow> cmd_rel c v r w \<Longrightarrow> w = v"
  by (cases c) auto

text \<open>A program all of whose commands satisfy a predicate, whatever the replies.\<close>

primrec all_cmds :: "(rcmd \<Rightarrow> bool) \<Rightarrow> 'a rprog \<Rightarrow> bool" where
  "all_cmds P (Ret a) = True"
| "all_cmds P Fail = True"
| "all_cmds P (Call c g) = (P c \<and> (\<forall>r. all_cmds P (g r)))"

lemma all_cmds_bind: "all_cmds P m \<Longrightarrow> (\<And>a. all_cmds P (f a)) \<Longrightarrow> all_cmds P (rbind m f)"
  by (induction m) auto

lemma all_cmds_mono: "all_cmds P m \<Longrightarrow> (\<And>c. P c \<Longrightarrow> Q c) \<Longrightarrow> all_cmds Q m"
  by (induction m) auto

text \<open>An invariant of the values that every command of a program keeps holds at every outcome.\<close>

lemma wp_invariant:
  assumes "all_cmds P m" and "I V"
    and "\<And>c W r w. P c \<Longrightarrow> I W \<Longrightarrow> cmd_rel c (W (cmd_key c)) r w \<Longrightarrow> I (W(cmd_key c := w))"
  shows "wp m (\<lambda>_ W. I W) V"
  using assms(1,2) by (induction m arbitrary: V) (auto intro: assms(3))

section \<open>Keeping the fields of a hash\<close>

text \<open>A command that leaves the given fields of the hash at the key alone.\<close>

fun keeps_fields :: "string \<Rightarrow> string set \<Rightarrow> rcmd \<Rightarrow> bool" where
  "keeps_fields k F (DEL j) = (j \<noteq> k)"
| "keeps_fields k F (HSET j fvs) = (j \<noteq> k \<or> F \<inter> fst ` set fvs = {})"
| "keeps_fields k F (HDEL j f) = (j \<noteq> k \<or> f \<notin> F)"
| "keeps_fields k F (HINCRBY j f n) = (j \<noteq> k \<or> f \<notin> F)"
| "keeps_fields k F (HSETNX j f x) = (j \<noteq> k)"
| "keeps_fields k F (PEXPIRE j ms) = (j \<noteq> k)"
| "keeps_fields k F _ = True"

lemma map_of_rev_None: "f \<notin> fst ` set fvs \<Longrightarrow> map_of (rev fvs) f = None"
  by (simp add: map_of_eq_None_iff)

lemma non_hash_cmd:
  assumes "cmd_rel c v r w"
    and "(\<exists>k. c = INCR k) \<or> (\<exists>k n. c = SETBIT k n) \<or> (\<exists>k m. c = SADD k m) \<or> (\<exists>k m. c = SREM k m) \<or> (\<exists>k s m. c = ZADD k s m) \<or>
      (\<exists>k m. c = ZREM k m) \<or> (\<exists>k ms. c = ZADDS k ms)"
  shows "(case hash_of w of None \<Rightarrow> Map.empty | Some h \<Rightarrow> h) = (case hash_of v of None \<Rightarrow> Map.empty | Some h \<Rightarrow> h)"
  using assms by (cases v) (auto simp: mk_set_def mk_zset_def)

lemma keeps_fields_cmd:
  assumes "keeps_fields k F c" and "cmd_rel c (W (cmd_key c)) r w" and "f \<in> F"
  shows "hash_at (W(cmd_key c := w)) k f = hash_at W k f"
proof (cases "is_read c \<or> cmd_key c \<noteq> k")
  case True
  then show ?thesis using is_read_same [of c "W (cmd_key c)" r w] assms(2) by (auto simp: hash_at_def)
next
  case False
  then have c: "\<not> is_read c" "cmd_key c = k" by auto
  show ?thesis
  proof (cases c)
    case (HSET j fvs)
    with assms c have "f \<notin> fst ` set fvs" by auto
    with HSET assms(2) c show ?thesis by (auto simp: hash_at_def map_of_rev_None map_add_def)
  next
    case (HDEL j x)
    with assms c show ?thesis by (auto simp: hash_at_def)
  next
    case (HINCRBY j x n)
    with assms c show ?thesis by (auto simp: hash_at_def)
  qed (use assms c non_hash_cmd [of c "W k" r w] in \<open>auto simp: hash_at_def\<close>)
qed

lemma wp_keeps_fields:
  assumes "all_cmds (keeps_fields k F) m"
  shows "wp m (\<lambda>_ W. \<forall>f \<in> F. hash_at W k f = hash_at V k f) V"
  using assms by (rule wp_invariant [where I = "\<lambda>W. \<forall>f \<in> F. hash_at W k f = hash_at V k f"]) (auto dest: keeps_fields_cmd)

section \<open>Fences\<close>

text \<open>
  The state of a fence: its counter, and whether its token field still has the value it had.  A
  counter is canonical when it is the decimal text of a 64-bit integer.
\<close>

definition counter_at :: "(string \<Rightarrow> rvalue) \<Rightarrow> string \<Rightarrow> string \<Rightarrow> int option" where
  "counter_at V k f =
     (case hash_at V k f of
        None \<Rightarrow> None
      | Some x \<Rightarrow> (case ParseInt x of Inr n \<Rightarrow> if x = FormatInt n \<and> is_i64 n then Some n else None | Inl _ \<Rightarrow> None))"

lemma counter_at_iff: "counter_at V k f = Some n \<longleftrightarrow> hash_at V k f = Some (FormatInt n) \<and> is_i64 n"
  by (auto simp: counter_at_def int_codec.enc_inject split: option.splits sum.splits)

lemma counter_at_field: "hash_at V k f = hash_at W k f \<Longrightarrow> counter_at V k f = counter_at W k f"
  by (simp add: counter_at_def)

lemma HINCRBY_counter:
  assumes "cmd_rel (HINCRBY k f 1) (W k) r w" and "counter_at W k f = Some n"
  shows "r = RepInt (n + 1) \<and> is_i64 (n + 1) \<and> counter_at (W(k := w)) k f = Some (n + 1) \<and>
    (\<forall>x. x \<noteq> f \<longrightarrow> hash_at (W(k := w)) k x = hash_at W k x)"
proof -
  from assms(1) obtain h old where h: "hash_of (W k) = Some h" and old: "h f = None \<and> old = 0 \<or> h f = Some (FormatInt old)"
    and i: "is_i64 old" "is_i64 (old + 1)" and r: "r = RepInt (old + 1)" and w: "w = RHash (h(f \<mapsto> FormatInt (old + 1)))"
    by auto
  from h assms(2) have "h f = Some (FormatInt n)" "is_i64 n" by (auto simp: counter_at_iff hash_at_def)
  with old i have "old = n" using int_codec.enc_inject [of old n] by auto
  with i r w h show ?thesis by (auto simp: counter_at_iff hash_at_def)
qed

text \<open>
  A fence command is soft when it keeps the counter and can only blank the token or move the phase
  to one that is not the open one.  A program respects the fence when its commands are soft until
  it increments the counter, after which it keeps the counter.
\<close>

record fence_fields =
  fc_counter :: string
  fc_token :: string
  fc_phase :: string
  fc_open :: string

fun soft_cmd :: "fence_fields \<Rightarrow> string \<Rightarrow> rcmd \<Rightarrow> bool" where
  "soft_cmd F k (DEL j) = (j \<noteq> k)"
| "soft_cmd F k (HSET j fvs) = (j \<noteq> k \<or>
     fc_counter F \<notin> fst ` set fvs \<and> (\<forall>(f, v) \<in> set fvs. (f = fc_token F \<longrightarrow> v = '''') \<and> (f = fc_phase F \<longrightarrow> v \<noteq> fc_open F)))"
| "soft_cmd F k (HDEL j f) = (j \<noteq> k)"
| "soft_cmd F k (HSETNX j f x) = (j \<noteq> k)"
| "soft_cmd F k (PEXPIRE j ms) = (j \<noteq> k)"
| "soft_cmd F k (HINCRBY j f n) = (j \<noteq> k \<or> f \<noteq> fc_counter F \<and> f \<noteq> fc_token F \<and> f \<noteq> fc_phase F)"
| "soft_cmd F k _ = True"

primrec fence_prog :: "fence_fields \<Rightarrow> string \<Rightarrow> 'a rprog \<Rightarrow> bool" where
  "fence_prog F k (Ret a) = True"
| "fence_prog F k Fail = True"
| "fence_prog F k (Call c g) =
     (if c = HINCRBY k (fc_counter F) 1 then \<forall>r. all_cmds (keeps_fields k {fc_counter F}) (g r)
      else soft_cmd F k c \<and> (\<forall>r. fence_prog F k (g r)))"

text \<open>An open fence is one whose token a claim may still take over.\<close>

definition fence_open :: "fence_fields \<Rightarrow> (string \<Rightarrow> rvalue) \<Rightarrow> string \<Rightarrow> bool" where
  "fence_open F V k \<longleftrightarrow> hash_at V k (fc_phase F) = Some (fc_open F) \<and> hash_at V k (fc_token F) \<noteq> Some ''''"

text \<open>The order in which a fence moves.\<close>

definition fence_later :: "fence_fields \<Rightarrow> string \<Rightarrow> (string \<Rightarrow> rvalue) \<Rightarrow> (string \<Rightarrow> rvalue) \<Rightarrow> bool" where
  "fence_later F k V W \<longleftrightarrow>
     (\<exists>n m. counter_at V k (fc_counter F) = Some n \<and> counter_at W k (fc_counter F) = Some m \<and>
        (n < m \<or> n = m \<and> (hash_at W k (fc_token F) = hash_at V k (fc_token F) \<or> hash_at W k (fc_token F) = Some '''') \<and>
           (fence_open F W k \<longrightarrow> fence_open F V k)))"

lemma fence_later_refl: "counter_at V k (fc_counter F) = Some n \<Longrightarrow> fence_later F k V V"
  by (simp add: fence_later_def)

lemma fence_later_trans: "fence_later F k U V \<Longrightarrow> fence_later F k V W \<Longrightarrow> fence_later F k U W"
  by (auto simp: fence_later_def)

lemma soft_cmd_later:
  assumes "soft_cmd F k c" and "cmd_rel c (W (cmd_key c)) r w" and "counter_at W k (fc_counter F) = Some n"
    and "fc_counter F \<noteq> fc_token F"
  shows "fence_later F k W (W(cmd_key c := w))"
proof (cases "keeps_fields k {fc_counter F, fc_token F, fc_phase F} c")
  case True
  have "hash_at (W(cmd_key c := w)) k f = hash_at W k f" if "f \<in> {fc_counter F, fc_token F, fc_phase F}" for f
    using keeps_fields_cmd [of k _ c W r w f, OF True assms(2) that] .
  then show ?thesis using assms(3) counter_at_field [of "W(cmd_key c := w)" k "fc_counter F" W]
    by (simp add: fence_later_def fence_open_def)
next
  case False
  with assms(1) obtain fvs where c: "c = HSET k fvs" by (cases c) auto
  with assms(1) have nc: "fc_counter F \<notin> fst ` set fvs"
    and tok: "(fc_token F, v) \<in> set fvs \<Longrightarrow> v = ''''"
    and ph: "(fc_phase F, fc_open F) \<notin> set fvs" for v by auto
  from assms(2) c obtain h where h: "hash_of (W k) = Some h" and w: "w = mk_hash (h ++ map_of (rev fvs))" by auto
  have at: "hash_at (W(k := w)) k f = (case map_of (rev fvs) f of None \<Rightarrow> hash_at W k f | Some v \<Rightarrow> Some v)" for f
    using h w by (simp add: hash_at_Some [of W k, OF h] map_add_def split: option.split)
  have "counter_at (W(k := w)) k (fc_counter F) = Some n"
    using assms(3) at [of "fc_counter F"] nc by (simp add: counter_at_iff map_of_rev_None)
  moreover have "hash_at (W(k := w)) k (fc_token F) = hash_at W k (fc_token F) \<or> hash_at (W(k := w)) k (fc_token F) = Some ''''"
    using at [of "fc_token F"] tok by (auto split: option.splits dest: map_of_SomeD)
  moreover have "hash_at (W(k := w)) k (fc_phase F) = Some (fc_open F) \<Longrightarrow> hash_at W k (fc_phase F) = Some (fc_open F)"
    using at [of "fc_phase F"] ph map_of_SomeD [of "rev fvs" "fc_phase F" "fc_open F"] by (auto split: option.splits)
  ultimately show ?thesis using assms(3) c by (auto simp: fence_later_def fence_open_def)
qed

text \<open>What every program that follows the discipline does to the fence.\<close>

lemma wp_fence:
  assumes "fence_prog F k m" and "fence_later F k V W" and "fc_counter F \<noteq> fc_token F"
  shows "wp m (\<lambda>_. fence_later F k V) W"
  using assms(1,2)
proof (induction m arbitrary: W)
  case (Call c g)
  obtain n where n: "counter_at W k (fc_counter F) = Some n" using Call.prems(2) by (auto simp: fence_later_def)
  show ?case
  proof (cases "c = HINCRBY k (fc_counter F) 1")
    case True
    have "wp (g r) (\<lambda>_. fence_later F k V) (W(k := w))" if "cmd_rel c (W k) r w" for r w
    proof -
      have n1: "counter_at (W(k := w)) k (fc_counter F) = Some (n + 1)" using HINCRBY_counter [OF _ n] that True by blast
      have "all_cmds (keeps_fields k {fc_counter F}) (g r)" using Call.prems(1) True by simp
      from wp_keeps_fields [OF this, of "W(k := w)"] show ?thesis
      proof (rule wp_mono)
        fix x U assume "\<forall>f \<in> {fc_counter F}. hash_at U k f = hash_at (W(k := w)) k f"
        then have "counter_at U k (fc_counter F) = Some (n + 1)" using n1 counter_at_field by (metis singletonI)
        moreover have "n < n + 1" by simp
        ultimately have "fence_later F k W U" using n unfolding fence_later_def by blast
        then show "fence_later F k V U" using Call.prems(2) fence_later_trans by blast
      qed
    qed
    then show ?thesis using True Call.prems(2) by simp
  next
    case False
    then have soft: "soft_cmd F k c" and g: "\<And>r. fence_prog F k (g r)" using Call.prems(1) by simp_all
    have "wp (g r) (\<lambda>_. fence_later F k V) (W(cmd_key c := w))" if "cmd_rel c (W (cmd_key c)) r w" for r w
    proof -
      have "fence_later F k V (W(cmd_key c := w))"
        using soft_cmd_later [OF soft that n assms(3)] Call.prems(2) fence_later_trans by blast
      then show ?thesis using Call.IH [of "g r"] g by blast
    qed
    then show ?thesis using Call.prems(2) by simp
  qed
qed simp_all

lemma fence_prog_soft: "all_cmds (soft_cmd F k) m \<Longrightarrow> fence_prog F k m"
proof (induction m)
  case (Call c g)
  then have "c \<noteq> HINCRBY k (fc_counter F) 1" by auto
  with Call show ?case by auto
qed auto

lemma fence_prog_bind:
  "fence_prog F k m \<Longrightarrow> (\<And>a. all_cmds (soft_cmd F k) (f a) \<and> all_cmds (keeps_fields k {fc_counter F}) (f a)) \<Longrightarrow>
   fence_prog F k (rbind m f)"
  by (induction m) (auto simp: fence_prog_soft intro: all_cmds_bind)

lemma fence_prog_soft_bind:
  "all_cmds (soft_cmd F k) m \<Longrightarrow> (\<And>a. fence_prog F k (f a)) \<Longrightarrow> fence_prog F k (rbind m f)"
proof (induction m)
  case (Call c g)
  then have "c \<noteq> HINCRBY k (fc_counter F) 1" by auto
  with Call show ?case by auto
qed auto

section \<open>Reading in a weakest precondition\<close>

lemma wp_read:
  assumes "is_read c" and "Q None V" and "\<And>r. cmd_rel c (V (cmd_key c)) r (V (cmd_key c)) \<Longrightarrow> wp (g r) Q V"
  shows "wp (Call c g) Q V"
proof -
  have "wp (g r) Q (V(cmd_key c := w))" if "cmd_rel c (V (cmd_key c)) r w" for r w
    using is_read_same [OF assms(1) that] assms(3) that by simp
  then show ?thesis using assms(2) by simp
qed

lemma wp_hget:
  assumes "Q None V" and "wp (g (hash_at V k f)) Q V"
  shows "wp (hget k f g) Q V"
  using assms(1)
proof (rule wp_read [rotated])
  fix r assume "cmd_rel (HGET k f) (V (cmd_key (HGET k f))) r (V (cmd_key (HGET k f)))"
  then have "lua_string r = hash_at V k f" by (auto simp: hash_at_def split: option.split)
  then show "wp (g (lua_string r)) Q V" using assms(2) by simp
qed simp

lemma wp_exists:
  assumes "Q None V" and "wp (g (V k \<noteq> RNone)) Q V"
  shows "wp (exists_key k g) Q V"
  using assms(1)
proof (rule wp_read [rotated])
  fix r assume "cmd_rel (EXISTS k) (V (cmd_key (EXISTS k))) r (V (cmd_key (EXISTS k)))"
  then have "(lua_int r = 1) = (V k \<noteq> RNone)" by auto
  then show "wp (g (lua_int r = 1)) Q V" using assms(2) by simp
qed simp

lemma wp_reads: "all_cmds is_read m \<Longrightarrow> wp m (\<lambda>_ W. W = V) V"
proof (rule wp_invariant [where I = "\<lambda>W. W = V"])
  fix c W r w
  assume "is_read c" "W = V" "cmd_rel c (W (cmd_key c)) r w"
  then show "W(cmd_key c := w) = V" using is_read_same [of c] by auto
qed simp_all

section \<open>Writing in a weakest precondition\<close>

lemma wp_hset:
  assumes "Q None V"
    and "\<And>W. hash_at W = (hash_at V)(k := hash_at V k ++ map_of (rev fvs)) \<Longrightarrow> wp p Q W"
  shows "wp (hset k fvs p) Q V"
proof -
  have "wp p Q (V(k := w))" if "cmd_rel (HSET k fvs) (V k) r w" for r w
    using that by (intro assms(2)) (auto simp: hash_at_def)
  then show ?thesis using assms(1) by simp
qed

lemma wp_hincrby:
  assumes "Q None V"
    and "\<And>W n. (hash_at V k f = None \<and> n = 0 \<or> counter_at V k f = Some n) \<Longrightarrow> is_i64 (n + 1) \<Longrightarrow>
      hash_at W = (hash_at V)(k := (hash_at V k)(f \<mapsto> FormatInt (n + 1))) \<Longrightarrow> wp (g (RepInt (n + 1))) Q W"
  shows "wp (Call (HINCRBY k f 1) g) Q V"
proof -
  have "wp (g r) Q (V(k := w))" if rel: "cmd_rel (HINCRBY k f 1) (V k) r w" for r w
  proof -
    from rel obtain h n where h: "hash_of (V k) = Some h" "h f = None \<and> n = 0 \<or> h f = Some (FormatInt n)"
      and n: "is_i64 n" "is_i64 (n + 1)" and r: "r = RepInt (n + 1)" and w: "w = RHash (h(f \<mapsto> FormatInt (n + 1)))" by auto
    have "hash_at V k = h" using h(1) by (rule hash_at_Some)
    with h(2) n w show ?thesis unfolding r by (intro assms(2)) (auto simp: counter_at_iff)
  qed
  then show ?thesis using assms(1) by simp
qed

text \<open>The commands on strings, sets and sorted sets leave every hash alone.\<close>

fun hashless :: "rcmd \<Rightarrow> bool" where
  "hashless (INCR _) = True" | "hashless (SETBIT _ _) = True" | "hashless (SADD _ _) = True" | "hashless (SREM _ _) = True"
| "hashless (ZADD _ _ _) = True" | "hashless (ZREM _ _) = True" | "hashless (ZADDS _ _) = True"
| "hashless _ = False"

lemma wp_hashless:
  assumes "hashless c" and "Q None V" and "\<And>W r. hash_at W = hash_at V \<Longrightarrow> wp (g r) Q W"
  shows "wp (Call c g) Q V"
proof -
  have "wp (g r) Q (V(cmd_key c := w))" if rel: "cmd_rel c (V (cmd_key c)) r w" for r w
  proof (rule assms(3))
    have "(\<exists>k. c = INCR k) \<or> (\<exists>k n. c = SETBIT k n) \<or> (\<exists>k m. c = SADD k m) \<or> (\<exists>k m. c = SREM k m) \<or> (\<exists>k s m. c = ZADD k s m) \<or>
      (\<exists>k m. c = ZREM k m) \<or> (\<exists>k ms. c = ZADDS k ms)" using assms(1) by (cases c) auto
    from non_hash_cmd [OF rel this] show "hash_at (V(cmd_key c := w)) = hash_at V" by (auto simp: hash_at_def)
  qed
  then show ?thesis using assms(2) by simp
qed

end
