(* ===== verification/Stream_Scripts.thy ===== *)
theory Stream_Scripts
  imports Redis_Codec Redis_Frames
begin

text \<open>
  The Lua scripts of the Redis stream store (\<^verbatim>\<open>store/redis/scripts/*.lua\<close>) as programs over Redis
  commands, with the helpers of their \<^verbatim>\<open>common.lua\<close>.  \<^verbatim>\<open>KEYS\<close> and \<^verbatim>\<open>ARGV\<close> are lists read by position
  from one.  A value that is \<^verbatim>\<open>nil\<close> or \<^verbatim>\<open>false\<close> is \<^const>\<open>None\<close>; an operation Lua refuses, such as
  arithmetic on \<^verbatim>\<open>nil\<close>, is \<^const>\<open>None\<close> in a pure helper and \<^const>\<open>Fail\<close> in a script.
\<close>

section \<open>Values\<close>

datatype reply_item = Str string | Arr "string list"

definition at1 :: "string list \<Rightarrow> nat \<Rightarrow> string" where
  "at1 xs i = (if 1 \<le> i \<and> i \<le> length xs then xs ! (i - 1) else '''')"

definition need :: "'a option \<Rightarrow> ('a \<Rightarrow> 'b rprog) \<Rightarrow> 'b rprog" where
  "need v f = (case v of None \<Rightarrow> Fail | Some a \<Rightarrow> f a)"

lemma need_simps [simp]: "need (Some a) f = f a" "need None f = Fail"
  by (simp_all add: need_def)

text \<open>
  \<^verbatim>\<open>math.floor\<close> and \<^verbatim>\<open>math.ceil\<close> of a quotient: the quotient is rounded to 53 significant bits first.
  Below one the rounding only matters where it reaches one, for which 53 binary places decide.
\<close>

definition floor_quot :: "nat \<Rightarrow> nat \<Rightarrow> nat" where
  "floor_quot x y =
     (let b = bit_length (x div y)
      in if b \<le> 53 then round_div (x * 2 ^ (53 - b)) y div 2 ^ (53 - b)
         else round_div x (y * 2 ^ (b - 53)) * 2 ^ (b - 53))"

definition ceil_quot :: "nat \<Rightarrow> nat \<Rightarrow> nat" where
  "ceil_quot x y =
     (let b = bit_length (x div y)
      in if b \<le> 53 then (round_div (x * 2 ^ (53 - b)) y + 2 ^ (53 - b) - 1) div 2 ^ (53 - b)
         else round_div x (y * 2 ^ (b - 53)) * 2 ^ (b - 53))"

definition lua_floor_div :: "int \<Rightarrow> nat \<Rightarrow> int" where
  "lua_floor_div x y = (if x < 0 then - int (ceil_quot (nat (- x)) y) else int (floor_quot (nat x) y))"

definition lua_ceil_div :: "int \<Rightarrow> nat \<Rightarrow> int" where
  "lua_ceil_div x y = (if x < 0 then - int (floor_quot (nat (- x)) y) else int (ceil_quot (nat x) y))"

section \<open>Helpers over the metadata table\<close>

type_synonym meta = "string \<rightharpoonup> string"

definition meta_map :: "string \<Rightarrow> (meta option \<Rightarrow> 'a rprog) \<Rightarrow> 'a rprog" where
  "meta_map key f =
     Call (HGETALL key) (\<lambda>flat.
       let m = map_of (lua_pairs flat)
       in f (if lua_pairs flat = [] \<or> m ''tail'' = None then None else Some m))"

definition is_expired :: "meta \<Rightarrow> int \<Rightarrow> bool option" where
  "is_expired m now_ns =
     (let by_ttl =
            (case m ''ttl'' of
               None \<Rightarrow> Some False
             | Some t \<Rightarrow> (case (tonumber (m ''accessedAtNs''), parse_double t) of
                            (Some a, Some ttl) \<Rightarrow> Some (now_ns > lua_add a (lua_mult ttl 1000000000))
                          | _ \<Rightarrow> None))
      in case m ''expAtNs'' of
           None \<Rightarrow> by_ttl
         | Some e \<Rightarrow> (case parse_double e of
                        None \<Rightarrow> None
                      | Some x \<Rightarrow> if now_ns > x then Some True else by_ttl))"

definition should_touch_read :: "meta \<Rightarrow> bool" where
  "should_touch_read m \<longleftrightarrow> m ''ttl'' \<noteq> None"

definition ref_count :: "meta \<Rightarrow> int option" where
  "ref_count m = tonumber (Some (case m ''refCount'' of None \<Rightarrow> ''0'' | Some v \<Rightarrow> v))"

fun persist_all :: "string list \<Rightarrow> 'a rprog \<Rightarrow> 'a rprog" where
  "persist_all [] p = p"
| "persist_all (k # ks) p = Call (PERSIST k) (\<lambda>_. persist_all ks p)"

fun del_all :: "string list \<Rightarrow> 'a rprog \<Rightarrow> 'a rprog" where
  "del_all [] p = p"
| "del_all (k # ks) p = Call (DEL k) (\<lambda>_. del_all ks p)"

fun pexpire_all :: "string list \<Rightarrow> int \<Rightarrow> 'a rprog \<Rightarrow> 'a rprog" where
  "pexpire_all [] ms p = p"
| "pexpire_all (k # ks) ms p = Call (PEXPIRE k ms) (\<lambda>_. pexpire_all ks ms p)"

definition expire_cleanup :: "string list \<Rightarrow> meta \<Rightarrow> 'a rprog \<Rightarrow> 'a rprog" where
  "expire_cleanup keys m p =
     need (ref_count m) (\<lambda>n.
       if n > 0 then hset (at1 keys 1) [(''softDel'', ''1'')] (persist_all (take 4 keys) p)
       else del_all (take 4 keys) p)"

definition max_backstop_ttl_seconds :: int where
  "max_backstop_ttl_seconds = 9000000000000000"

text \<open>The key TTL in milliseconds, \<^const>\<open>None\<close> inside for a key that stays.\<close>

definition backstop_ms :: "meta \<Rightarrow> int \<Rightarrow> int option option" where
  "backstop_ms m now_ns =
     (case (case m ''ttl'' of
              None \<Rightarrow> Some None
            | Some t \<Rightarrow> (case parse_double t of
                           None \<Rightarrow> None
                         | Some ttl \<Rightarrow> Some (if ttl \<le> max_backstop_ttl_seconds
                                             then Some (lua_add (lua_mult ttl 1000) 60000) else None))) of
        None \<Rightarrow> None
      | Some pttl \<Rightarrow>
          (case m ''expAtNs'' of
             None \<Rightarrow> Some pttl
           | Some e \<Rightarrow>
               (case parse_double e of
                  None \<Rightarrow> None
                | Some x \<Rightarrow>
                    (let rem = lua_add (lua_floor_div (lua_add x (- now_ns)) 1000000) 60000;
                         rem = (if rem < 1 then 1 else rem)
                     in Some (case pttl of None \<Rightarrow> Some rem | Some p \<Rightarrow> Some (if rem < p then rem else p))))))"

definition refresh_backstop :: "string list \<Rightarrow> meta \<Rightarrow> int \<Rightarrow> 'a rprog \<Rightarrow> 'a rprog" where
  "refresh_backstop keys m now_ns p =
     need (ref_count m) (\<lambda>n.
       if n > 0 \<or> m ''softDel'' = Some ''1'' then persist_all (take 4 keys) p
       else need (backstop_ms m now_ns) (\<lambda>pttl.
         case pttl of
           None \<Rightarrow> persist_all (take 4 keys) p
         | Some ms \<Rightarrow> pexpire_all (take 4 keys) ms p))"

definition norm_ct :: "string option \<Rightarrow> string" where
  "norm_ct ct =
     (case ct of
        None \<Rightarrow> ''application/octet-stream''
      | Some c \<Rightarrow> if c = '''' then ''application/octet-stream'' else map ascii_lower (takeWhile (\<lambda>x. x \<noteq> CHR '';'') c))"

definition or_zero :: "string option \<Rightarrow> string" where
  "or_zero v = (case v of None \<Rightarrow> ''0'' | Some x \<Rightarrow> x)"

text \<open>
  The reply of the mutation scripts: status, tail, producer result, current epoch, expected,
  received and last sequence number, closed, already closed.
\<close>

definition make_reply ::
    "string \<Rightarrow> string option \<Rightarrow> string option \<Rightarrow> string option \<Rightarrow> string option \<Rightarrow> string option \<Rightarrow> string option \<Rightarrow>
       string option \<Rightarrow> string option \<Rightarrow> reply_item list" where
  "make_reply status tail presult cur_epoch exp_seq rcv_seq last_seq closed already =
     map Str [status, (case tail of None \<Rightarrow> '''' | Some t \<Rightarrow> t), or_zero presult, or_zero cur_epoch,
              or_zero exp_seq, or_zero rcv_seq, or_zero last_seq, or_zero closed, or_zero already]"

section \<open>Producers\<close>

text \<open>The pattern \<^verbatim>\<open>-?%d+\<close> at the start of a text: what it matches and what follows.\<close>

definition match_int :: "string \<Rightarrow> (string \<times> string) option" where
  "match_int s =
     (let sign = takeWhile (\<lambda>c. c = CHR ''-'') (take 1 s);
          rest = drop (length sign) s;
          d = takeWhile is_digit rest
      in if d = '''' then None else Some (sign @ d, drop (length d) rest))"

text \<open>The pattern \<^verbatim>\<open>^(-?%d+):(-?%d+):\<close>.\<close>

definition match_producer :: "string \<Rightarrow> (string \<times> string) option" where
  "match_producer s =
     (case match_int s of
        Some (e, r) \<Rightarrow>
          (if take 1 r = '':'' then
             (case match_int (tl r) of
                Some (q, r') \<Rightarrow> if take 1 r' = '':'' then Some (e, q) else None
              | None \<Rightarrow> None)
           else None)
      | None \<Rightarrow> None)"

definition validate_producer ::
    "string option \<Rightarrow> string \<Rightarrow> string \<Rightarrow> (string \<times> string option \<times> string option) option" where
  "validate_producer state_str epoch seq =
     (case state_str of
        None \<Rightarrow>
          (if \<not> int_is_zero seq then Some (''SEQ_GAP'', Some ''0'', Some seq) else Some (''ACCEPT'', None, None))
      | Some st \<Rightarrow>
          (case match_producer st of
             None \<Rightarrow> None
           | Some (s_epoch_s, s_seq_s) \<Rightarrow>
               (let epoch_cmp = int_cmp epoch s_epoch_s
                in if epoch_cmp < 0 then Some (''STALE_EPOCH'', Some s_epoch_s, None)
                   else if epoch_cmp > 0 then
                     (if \<not> int_is_zero seq then Some (''EPOCH_SEQ'', None, None) else Some (''ACCEPT'', None, None))
                   else if int_cmp seq s_seq_s \<le> 0 then Some (''DUP'', Some s_seq_s, None)
                   else (let expected = int_add_one s_seq_s
                         in if seq = expected then Some (''ACCEPT'', None, None)
                            else Some (''SEQ_GAP'', Some expected, Some seq)))))"

section \<open>The write fence\<close>

definition b64_char :: "char \<Rightarrow> bool" where
  "b64_char c \<longleftrightarrow>
     is_digit c \<or> CHR ''A'' \<le> c \<and> c \<le> CHR ''Z'' \<or> CHR ''a'' \<le> c \<and> c \<le> CHR ''z'' \<or> c = CHR ''-'' \<or> c = CHR ''_''"

text \<open>The pattern \<^verbatim>\<open>:append%-fence:([%w%-_]+:%d+)$\<close>, tried at every position from the left.\<close>

definition match_authority :: "string \<Rightarrow> string option" where
  "match_authority s =
     (if has_prefix s '':append-fence:'' then
        (let a = drop 14 s; w = takeWhile b64_char a; r = drop (length w) a
         in if w \<noteq> '''' \<and> take 1 r = '':'' \<and> tl r \<noteq> '''' \<and> list_all is_digit (tl r) then Some a else None)
      else None)"

fun fence_auth :: "string \<Rightarrow> string option" where
  "fence_auth [] = None"
| "fence_auth (c # cs) = (case match_authority (c # cs) of Some a \<Rightarrow> Some a | None \<Rightarrow> fence_auth cs)"

text \<open>The pattern \<^verbatim>\<open>^(-?%d+):([^:]*):(.*)$\<close>.\<close>

definition seal_parts :: "string \<Rightarrow> (string \<times> string \<times> string) option" where
  "seal_parts v =
     (case match_int v of
        Some (g, r) \<Rightarrow>
          (if take 1 r = '':'' then
             (let w = takeWhile (\<lambda>c. c \<noteq> CHR '':'') (tl r); r' = drop (length w) (tl r)
              in if take 1 r' = '':'' then Some (g, w, tl r') else None)
           else None)
      | None \<Rightarrow> None)"

definition evaluate_write_fence ::
    "bool \<Rightarrow> string option \<Rightarrow> bool \<Rightarrow> string \<Rightarrow> string \<Rightarrow> string \<Rightarrow> string option list \<Rightarrow> bool \<Rightarrow> string \<Rightarrow> int \<Rightarrow>
       bool \<Rightarrow> string \<Rightarrow> string \<Rightarrow> (string \<times> string \<times> string) option" where
  "evaluate_write_fence stream_fenced incarnation has_fence f_gen f_wake f_holder fence_row seal_present seal_gen now
       has_producer p_epoch bound_gen =
     (if \<not> has_fence then
        (if stream_fenced \<and> has_producer \<and> int_cmp bound_gen ''0'' > 0 then Some (''bound'', bound_gen, '''')
         else Some ('''', bound_gen, ''''))
      else
        (let row = (\<lambda>i. if i \<le> length fence_row then fence_row ! (i - 1) else None);
             present = (row 1 \<noteq> None \<and> row 2 \<noteq> None);
             text = (\<lambda>i. if present then (case row i of None \<Rightarrow> '''' | Some x \<Rightarrow> x) else '''');
             state = text 1; gen = (if present then text 2 else ''0''); wake = text 3; holder = text 4; m_inc = text 6
         in case (if present \<and> row 5 \<noteq> None then map_option (\<lambda>l. l > now) (tonumber (row 5)) else Some False) of
              None \<Rightarrow> None
            | Some lease_live \<Rightarrow>
                (let d_gen = (if present then gen else if seal_present then seal_gen else ''0'');
                     d_holder = (if present \<and> state = ''live'' \<and> lease_live then holder else '''')
                 in if stream_fenced \<and> seal_present \<and> int_cmp f_gen seal_gen \<le> 0 then Some (''sealed'', d_gen, d_holder)
                    else if \<not> present \<or> state \<noteq> ''live'' \<or> int_cmp gen f_gen \<noteq> 0 \<or> wake \<noteq> f_wake \<or> holder \<noteq> f_holder \<or>
                            \<not> lease_live \<or> Some m_inc \<noteq> incarnation
                    then Some (''marker'', d_gen, d_holder)
                    else if stream_fenced \<and> \<not> has_producer then Some (''producer_required'', d_gen, d_holder)
                    else if stream_fenced \<and> int_cmp p_epoch f_gen \<noteq> 0 then Some (''epoch'', d_gen, d_holder)
                    else Some ('''', d_gen, d_holder))))"

text \<open>
  The gathering of the inputs.  A seal that \<^verbatim>\<open>seal_parts\<close> cannot split stops the script here; no
  script writes one.
\<close>

definition marker_fields :: "string list" where
  "marker_fields = [''state'', ''generation'', ''wake_id'', ''holder'', ''lease_until_ns'', ''stream_incarnation'']"

definition fence_rung ::
    "string list \<Rightarrow> meta \<Rightarrow> bool \<Rightarrow> string \<Rightarrow> string \<Rightarrow> string \<Rightarrow> int \<Rightarrow> bool \<Rightarrow> string \<Rightarrow> string \<Rightarrow>
       (string \<times> string \<times> string \<Rightarrow> 'a rprog) \<Rightarrow> 'a rprog" where
  "fence_rung keys m has_fence f_gen f_wake f_holder now has_producer producer_id p_epoch p =
     (let stream_fenced = (m ''wf'' = Some ''1'')
      in if \<not> has_fence \<and> \<not> stream_fenced then p ('''', ''0'', '''')
         else
           (let bound_gen = (if stream_fenced \<and> has_producer \<and> \<not> has_fence then or_zero (m (''wfbind:'' @ producer_id)) else ''0'');
                evaluate = (\<lambda>row seal_present seal_gen.
                  need (evaluate_write_fence stream_fenced (m ''incarnation'') has_fence f_gen f_wake f_holder row
                          seal_present seal_gen now has_producer p_epoch bound_gen) p)
            in if \<not> has_fence then evaluate [] False ''0''
               else Call (HMGET (at1 keys 5) marker_fields) (\<lambda>r.
                 need (fence_auth (at1 keys 5)) (\<lambda>auth.
                   case m (''wfseal:'' @ auth) of
                     None \<Rightarrow> evaluate (lua_opts r) False ''0''
                   | Some seal \<Rightarrow> need (seal_parts seal) (\<lambda>(g, _, _). evaluate (lua_opts r) True g)))))"

definition fence_bind :: "meta \<Rightarrow> bool \<Rightarrow> string \<Rightarrow> string \<Rightarrow> string \<Rightarrow> (string \<times> string) list" where
  "fence_bind m has_fence producer_id f_gen off =
     (if has_fence \<and> m ''wf'' = Some ''1''
      then [(''wfLastOff'', off), (''wfbind:'' @ producer_id, f_gen)] else [])"

definition fence_reply :: "string \<Rightarrow> string option \<Rightarrow> string \<Rightarrow> string \<Rightarrow> reply_item list" where
  "fence_reply reason tail gen holder =
     make_reply ''FENCED'' tail None None None None None None None @ map Str [reason, gen, holder]"


section \<open>append.lua\<close>

function zadd_chunks :: "string \<Rightarrow> string list \<Rightarrow> 'a rprog \<Rightarrow> 'a rprog" where
  "zadd_chunks k frames p =
     (if frames = [] then p
      else Call (ZADDS k (map (\<lambda>f. (0, f)) (take 1000 frames))) (\<lambda>_. zadd_chunks k (drop 1000 frames) p))"
  by pat_completeness auto
termination
  by (relation "measure (\<lambda>(_, frames, _). length frames)") auto

declare zadd_chunks.simps [simp del]

text \<open>The decimal text of a number, \<^verbatim>\<open>string.format('%.0f', x)\<close>, is that of \<^verbatim>\<open>FormatInt\<close>.\<close>

definition producer_text :: "string \<Rightarrow> string \<Rightarrow> int \<Rightarrow> string" where
  "producer_text epoch seq now = epoch @ '':'' @ seq @ '':'' @ FormatInt (lua_floor_div now 1000000000)"

text \<open>Steps 12 on: the frames, the metadata, the producer and the notification.\<close>

definition append_write :: "string list \<Rightarrow> string list \<Rightarrow> int \<Rightarrow> meta \<Rightarrow> reply_item list rprog" where
  "append_write keys argv now m =
     (let stream_seq = at1 argv 4; closing = (at1 argv 5 = ''1''); has_producer = (at1 argv 6 = ''1'');
          producer_id = at1 argv 7; new_tail = at1 argv 11; has_fence = (at1 argv 13 = ''1'');
          fields = (if stream_seq \<noteq> '''' then [(''lastSeq'', stream_seq)] else []) @
                   (if closing then [(''closed'', ''1'')] @
                      (if has_producer then [(''cbId'', producer_id), (''cbEpoch'', at1 argv 8), (''cbSeq'', at1 argv 9)] else [])
                    else []) @
                   fence_bind m has_fence producer_id (at1 argv 14) new_tail;
          publish = Call (PUBLISH (at1 argv 2) (if closing then ''c'' else ''a'')) (\<lambda>_.
            Ret (make_reply ''OK'' (Some new_tail) (Some (if has_producer then ''1'' else ''0'')) None None None
                   (Some (if has_producer then at1 argv 9 else ''0'')) (Some (if closing then ''1'' else ''0'')) None));
          producer = (if has_producer
                      then hset (at1 keys 3) [(producer_id, producer_text (at1 argv 8) (at1 argv 9) now)]
                             (refresh_backstop keys m now publish)
                      else publish);
          commit = (if fields \<noteq> [] then hset (at1 keys 1) fields producer else producer)
      in if 17 \<le> length argv
         then zadd_chunks (at1 keys 2) (drop 16 argv) (hset (at1 keys 1) [(''tail'', new_tail)] commit)
         else commit)"

text \<open>Steps 9 to 11.\<close>

definition append_checked :: "string list \<Rightarrow> string list \<Rightarrow> int \<Rightarrow> meta \<Rightarrow> reply_item list rprog" where
  "append_checked keys argv now m =
     (let stream_seq = at1 argv 4; tail = m ''tail''
      in if stream_seq \<noteq> '''' \<and> (case m ''lastSeq'' of None \<Rightarrow> False | Some l \<Rightarrow> l \<noteq> '''' \<and> stream_seq \<le> l)
         then Ret (make_reply ''SEQCONFLICT'' tail None None None None None None None)
         else if at1 argv 12 = ''1'' then Ret (make_reply ''VALONLY'' tail None None None None None None None)
         else if tail \<noteq> Some (at1 argv 10) then Ret (make_reply ''RETRY'' tail None None None None None None None)
         else append_write keys argv now m)"

text \<open>Steps 6 to 8.\<close>

definition append_ladder :: "string list \<Rightarrow> string list \<Rightarrow> int \<Rightarrow> meta \<Rightarrow> reply_item list rprog" where
  "append_ladder keys argv now m =
     (let req_ct = at1 argv 3; has_producer = (at1 argv 6 = ''1''); producer_id = at1 argv 7; tail = m ''tail''
      in if m ''closed'' = Some ''1'' then
           (if has_producer \<and> m ''cbEpoch'' \<noteq> None \<and> m ''cbId'' = Some producer_id \<and>
               m ''cbEpoch'' = Some (at1 argv 8) \<and> m ''cbSeq'' = Some (at1 argv 9)
            then Ret (make_reply ''OK'' tail (Some ''2'') None None None (Some (at1 argv 9)) (Some ''1'') None)
            else Ret (make_reply ''CLOSED'' tail None None None None None (Some ''1'') None))
         else if req_ct \<noteq> '''' \<and> norm_ct (m ''ct'') \<noteq> req_ct
         then Ret (make_reply ''CTMISMATCH'' tail None None None None None None None)
         else if has_producer then
           hget (at1 keys 3) producer_id (\<lambda>state.
             need (validate_producer state (at1 argv 8) (at1 argv 9)) (\<lambda>(outcome, d1, d2).
               if outcome = ''DUP'' then Ret (make_reply ''OK'' tail (Some ''2'') None None None d1 (Some ''0'') None)
               else if outcome = ''STALE_EPOCH'' then Ret (make_reply ''STALE_EPOCH'' tail None d1 None None None None None)
               else if outcome = ''EPOCH_SEQ'' then Ret (make_reply ''EPOCH_SEQ'' tail None None None None None None None)
               else if outcome = ''SEQ_GAP'' then Ret (make_reply ''SEQ_GAP'' tail None None d1 d2 None None None)
               else append_checked keys argv now m))
         else append_checked keys argv now m)"

definition append_lua :: "string list \<Rightarrow> string list \<Rightarrow> reply_item list rprog" where
  "append_lua keys argv =
     need (parse_double (at1 argv 1)) (\<lambda>now.
       meta_map (at1 keys 1) (\<lambda>m.
         case m of
           None \<Rightarrow> Ret (make_reply ''NOTFOUND'' None None None None None None None None)
         | Some m \<Rightarrow>
             if m ''softDel'' = Some ''1'' then Ret (make_reply ''SOFTDEL'' None None None None None None None None)
             else need (is_expired m now) (\<lambda>expired.
               if expired then
                 expire_cleanup keys m (Ret (make_reply ''NOTFOUND'' None None None None None None None None))
               else
                 fence_rung keys m (at1 argv 13 = ''1'') (at1 argv 14) (at1 argv 15) (at1 argv 16) now
                   (at1 argv 6 = ''1'') (at1 argv 7) (at1 argv 8) (\<lambda>(reason, d_gen, d_holder).
                     if reason \<noteq> '''' then Ret (fence_reply reason (m ''tail'') d_gen d_holder)
                     else
                       (let m = m(''accessedAtNs'' \<mapsto> FormatInt now)
                        in hset (at1 keys 1) [(''accessedAtNs'', FormatInt now)]
                             (refresh_backstop keys m now (append_ladder keys argv now m)))))))"

section \<open>close.lua\<close>

definition close_commit :: "string list \<Rightarrow> string list \<Rightarrow> int \<Rightarrow> meta \<Rightarrow> reply_item list rprog" where
  "close_commit keys argv now m =
     (let producer_id = at1 argv 4
      in hset (at1 keys 3) [(producer_id, producer_text (at1 argv 5) (at1 argv 6) now)]
           (hset (at1 keys 1)
              ([(''closed'', ''1''), (''cbId'', producer_id), (''cbEpoch'', at1 argv 5), (''cbSeq'', at1 argv 6)] @
               fence_bind m (at1 argv 7 = ''1'') producer_id (at1 argv 8) (field m ''tail''))
              (refresh_backstop keys m now
                (Call (PUBLISH (at1 argv 2) ''c'') (\<lambda>_.
                  Ret (make_reply ''OK'' (m ''tail'') (Some ''1'') None None None (Some (at1 argv 6)) (Some ''1'') (Some ''0'')))))))"

definition close_ladder :: "string list \<Rightarrow> string list \<Rightarrow> int \<Rightarrow> meta \<Rightarrow> reply_item list rprog" where
  "close_ladder keys argv now m =
     (let has_producer = (at1 argv 3 = ''1''); producer_id = at1 argv 4; tail = m ''tail''
      in if m ''closed'' = Some ''1'' then
           (if has_producer then
              (if m ''cbEpoch'' \<noteq> None \<and> m ''cbId'' = Some producer_id \<and> m ''cbEpoch'' = Some (at1 argv 5) \<and>
                  m ''cbSeq'' = Some (at1 argv 6)
               then Ret (make_reply ''OK'' tail (Some ''2'') None None None (Some (at1 argv 6)) (Some ''1'') (Some ''1''))
               else Ret (make_reply ''CLOSED'' tail None None None None None (Some ''1'') (Some ''1'')))
            else Call (PUBLISH (at1 argv 2) ''c'') (\<lambda>_.
              Ret (make_reply ''OK'' tail (Some ''0'') None None None None (Some ''1'') (Some ''1''))))
         else if has_producer then
           hget (at1 keys 3) producer_id (\<lambda>state.
             need (validate_producer state (at1 argv 5) (at1 argv 6)) (\<lambda>(outcome, d1, d2).
               if outcome = ''DUP'' then Ret (make_reply ''OK'' tail (Some ''2'') None None None d1 (Some ''0'') (Some ''0''))
               else if outcome = ''STALE_EPOCH'' then Ret (make_reply ''STALE_EPOCH'' tail None d1 None None None None None)
               else if outcome = ''EPOCH_SEQ'' then Ret (make_reply ''EPOCH_SEQ'' tail None None None None None None None)
               else if outcome = ''SEQ_GAP'' then Ret (make_reply ''SEQ_GAP'' tail None None d1 d2 None None None)
               else close_commit keys argv now m))
         else hset (at1 keys 1) [(''closed'', ''1'')]
           (Call (PUBLISH (at1 argv 2) ''c'') (\<lambda>_.
             Ret (make_reply ''OK'' tail (Some ''0'') None None None None (Some ''1'') (Some ''0'')))))"

definition close_lua :: "string list \<Rightarrow> string list \<Rightarrow> reply_item list rprog" where
  "close_lua keys argv =
     need (parse_double (at1 argv 1)) (\<lambda>now.
       meta_map (at1 keys 1) (\<lambda>m.
         case m of
           None \<Rightarrow> Ret (make_reply ''NOTFOUND'' None None None None None None None None)
         | Some m \<Rightarrow>
             need (is_expired m now) (\<lambda>expired.
               if expired then
                 expire_cleanup keys m (Ret (make_reply ''NOTFOUND'' None None None None None None None None))
               else
                 fence_rung keys m (at1 argv 7 = ''1'') (at1 argv 8) (at1 argv 9) (at1 argv 10) now
                   (at1 argv 3 = ''1'') (at1 argv 4) (at1 argv 5) (\<lambda>(reason, d_gen, d_holder).
                     if reason \<noteq> '''' then Ret (fence_reply reason (m ''tail'') d_gen d_holder)
                     else close_ladder keys argv now m))))"

section \<open>create.lua\<close>

definition config_matches :: "string list \<Rightarrow> meta \<Rightarrow> bool" where
  "config_matches argv m =
     (let get = (\<lambda>f. case m f of None \<Rightarrow> '''' | Some v \<Rightarrow> v)
      in if norm_ct (m ''ct'') \<noteq> at1 argv 3 then False
         else if get ''ttl'' \<noteq> at1 argv 4 then False
         else if get ''expAtNs'' \<noteq> at1 argv 5 then False
         else if (if m ''closed'' = Some ''1'' then ''1'' else ''0'') \<noteq> at1 argv 6 then False
         else if (if m ''wf'' = Some ''1'' then ''1'' else ''0'') \<noteq> at1 argv 10 then False
         else if get ''forkedFrom'' \<noteq> at1 argv 7 then False
         else if at1 argv 7 \<noteq> '''' then
           (if at1 argv 8 \<noteq> '''' \<and> (case m ''forkOffReq'' of None \<Rightarrow> m ''forkOff'' | Some x \<Rightarrow> Some x) \<noteq> Some (at1 argv 8)
            then False
            else (case m ''forkSubOff'' of None \<Rightarrow> ''0'' | Some x \<Rightarrow> x) = at1 argv 9)
         else True)"

fun pairs_of :: "string list \<Rightarrow> (string \<times> string) list" where
  "pairs_of (a # b # xs) = (a, b) # pairs_of xs"
| "pairs_of _ = []"

definition flat_pairs :: "(string \<times> string) list \<Rightarrow> string list" where
  "flat_pairs ps = concat (map (\<lambda>(a, b). [a, b]) ps)"

definition create_fresh :: "string list \<Rightarrow> string list \<Rightarrow> int \<Rightarrow> reply_item list rprog" where
  "create_fresh keys argv now =
     del_all (take 4 keys)
       (need (parse_double (at1 argv 11)) (\<lambda>n.
         (let pairs = pairs_of (take (2 * nat n) (drop 11 argv));
              frames = drop (11 + 2 * nat n) argv;
              finish = meta_map (at1 keys 1) (\<lambda>nm. need nm (\<lambda>nm. refresh_backstop keys nm now (Ret [Str ''CREATED''])))
          in hset (at1 keys 1) pairs
               (if frames \<noteq> []
                then zadd_chunks (at1 keys 2) frames (Call (PUBLISH (at1 argv 2) ''a'') (\<lambda>_. finish))
                else finish))))"

definition create_lua :: "string list \<Rightarrow> string list \<Rightarrow> reply_item list rprog" where
  "create_lua keys argv =
     need (parse_double (at1 argv 1)) (\<lambda>now.
       meta_map (at1 keys 1) (\<lambda>m.
         case m of
           None \<Rightarrow> create_fresh keys argv now
         | Some m \<Rightarrow>
             need (is_expired m now) (\<lambda>expired.
               if expired then
                 expire_cleanup keys m
                   (need (ref_count m) (\<lambda>n. if n > 0 then Ret [Str ''EXISTS''] else create_fresh keys argv now))
               else if m ''softDel'' = Some ''1'' then Ret [Str ''EXISTS'']
               else if config_matches argv m then
                 Call (HGETALL (at1 keys 1)) (\<lambda>r1. Call (HGETALL (at1 keys 3)) (\<lambda>r2.
                   Ret [Str ''MATCHED'', Arr (flat_pairs (lua_pairs r1)), Arr (flat_pairs (lua_pairs r2))]))
               else Ret [Str ''MISMATCH''])))"

section \<open>The fence scripts\<close>

definition opt_at :: "string option list \<Rightarrow> nat \<Rightarrow> string option" where
  "opt_at xs i = (if 1 \<le> i \<and> i \<le> length xs then xs ! (i - 1) else None)"

text \<open>Installing the marker at the end of a grant.\<close>

definition grant_install ::
    "string list \<Rightarrow> string list \<Rightarrow> string \<Rightarrow> string \<Rightarrow> string option \<Rightarrow> int \<Rightarrow> int \<Rightarrow> reply_item list rprog" where
  "grant_install keys argv lease_until_ns incarnation superseded now_ns retention_ms =
     hset (at1 keys 2)
       [(''state'', ''live''), (''generation'', at1 argv 1), (''wake_id'', at1 argv 2), (''holder'', at1 argv 3),
        (''lease_until_ns'', lease_until_ns), (''stream_incarnation'', incarnation)]
       (need (parse_double lease_until_ns) (\<lambda>lease.
         Call (PEXPIRE (at1 keys 2) (lua_add (lua_ceil_div (lua_add lease (- now_ns)) 1000000) retention_ms)) (\<lambda>_.
           Ret (case superseded of
                  None \<Rightarrow> [Str ''OK'']
                | Some g \<Rightarrow> [Str ''OK'', Str ''SUPERSEDED'', Str g]))))"

definition grant_append_fence :: "string list \<Rightarrow> string list \<Rightarrow> reply_item list rprog" where
  "grant_append_fence keys argv =
     (let generation = at1 argv 1; wake_id = at1 argv 2; holder = at1 argv 3; lease_until_ns = at1 argv 4
      in need (parse_double (at1 argv 5)) (\<lambda>now_ns. need (parse_double (at1 argv 6)) (\<lambda>retention_ms.
         need (parse_double lease_until_ns) (\<lambda>lease.
         if lease \<le> now_ns then Ret [Str ''FENCED'']
         else meta_map (at1 keys 1) (\<lambda>m.
           case m of
             None \<Rightarrow> Ret [Str ''NOTFOUND'']
           | Some m \<Rightarrow>
               (case m ''incarnation'' of
                  None \<Rightarrow> Ret [Str ''NOTFOUND'']
                | Some incarnation \<Rightarrow>
                    need (fence_auth (at1 keys 2)) (\<lambda>auth.
                    (let seal_gen = Option.bind (m (''wfseal:'' @ auth)) (\<lambda>v. map_option fst (seal_parts v))
                     in if seal_gen \<noteq> None \<and> int_cmp generation (the seal_gen) \<le> 0 then Ret [Str ''FENCED'']
                        else Call (HMGET (at1 keys 2) [''state'', ''generation'', ''wake_id'', ''holder'', ''lease_until_ns'']) (\<lambda>r.
                          (let current = opt_at (lua_opts r)
                           in case current 2 of
                                None \<Rightarrow> grant_install keys argv lease_until_ns incarnation None now_ns retention_ms
                              | Some cur_gen \<Rightarrow>
                                  (if int_cmp generation cur_gen < 0 then Ret [Str ''FENCED'']
                                   else if int_cmp generation cur_gen = 0 then
                                     (if current 1 \<noteq> Some ''live'' \<or> current 3 \<noteq> Some wake_id \<or> current 4 \<noteq> Some holder
                                      then Ret [Str ''FENCED'']
                                      else need (tonumber (current 5)) (\<lambda>cur_lease.
                                        grant_install keys argv (if cur_lease > lease then the (current 5) else lease_until_ns)
                                          incarnation None now_ns retention_ms))
                                   else if m ''wf'' = Some ''1'' \<and> (seal_gen = None \<or> int_cmp cur_gen (the seal_gen) > 0) then
                                     need (current 3) (\<lambda>cur_wake.
                                     (let off = (case m ''wfLastOff'' of Some x \<Rightarrow> x | None \<Rightarrow> field m ''tail'')
                                      in hset (at1 keys 1)
                                           [(''wfseal:'' @ auth, cur_gen @ '':'' @ cur_wake @ '':'' @ off),
                                            (''wfSealGen'', cur_gen), (''wfSealOff'', off)]
                                           (grant_install keys argv lease_until_ns incarnation (Some cur_gen) now_ns retention_ms)))
                                   else grant_install keys argv lease_until_ns incarnation None now_ns retention_ms)))))))))))"

text \<open>The tombstone \<^verbatim>\<open>seal_append_fence.lua\<close> and \<^verbatim>\<open>revoke_append_fence.lua\<close> write, or \<^verbatim>\<open>STALE\<close>.\<close>

definition tombstone_marker :: "string \<Rightarrow> string list \<Rightarrow> reply_item list rprog \<Rightarrow> reply_item list rprog" where
  "tombstone_marker key argv p =
     (let generation = at1 argv 1; wake_id = at1 argv 2; holder = at1 argv 3;
          write = hset key [(''state'', ''revoked''), (''generation'', generation), (''wake_id'', wake_id),
                            (''holder'', holder), (''lease_until_ns'', ''0'')]
                    (need (parse_double (at1 argv 4)) (\<lambda>ms. Call (PEXPIRE key ms) (\<lambda>_. p)))
      in Call (HMGET key [''generation'', ''wake_id'', ''holder'']) (\<lambda>r.
           case opt_at (lua_opts r) 1 of
             None \<Rightarrow> write
           | Some g \<Rightarrow>
               (if int_cmp generation g < 0 \<or>
                   int_cmp generation g = 0 \<and> (opt_at (lua_opts r) 2 \<noteq> Some wake_id \<or> opt_at (lua_opts r) 3 \<noteq> Some holder)
                then Ret [Str ''STALE''] else write)))"

definition seal_append_fence :: "string list \<Rightarrow> string list \<Rightarrow> reply_item list rprog" where
  "seal_append_fence keys argv =
     (let generation = at1 argv 1
      in meta_map (at1 keys 1) (\<lambda>m.
         tombstone_marker (at1 keys 2) argv
           (case m of
              None \<Rightarrow> Ret [Str ''NOTFOUND'']
            | Some m \<Rightarrow>
                (if m ''wf'' \<noteq> Some ''1'' then Ret [Str ''OK'', Str ''unfenced'', Str ''0'', Str '''']
                 else need (fence_auth (at1 keys 2)) (\<lambda>auth.
                   (let off = (case m ''wfLastOff'' of Some x \<Rightarrow> x | None \<Rightarrow> field m ''tail'');
                        seal = hset (at1 keys 1)
                          [(''wfseal:'' @ auth, generation @ '':'' @ at1 argv 2 @ '':'' @ off),
                           (''wfSealGen'', generation), (''wfSealOff'', off)]
                          (Ret [Str ''OK'', Str ''sealed'', Str generation, Str off])
                    in case m (''wfseal:'' @ auth) of
                         None \<Rightarrow> seal
                       | Some v \<Rightarrow>
                           need (seal_parts v) (\<lambda>(seal_gen, _, seal_off).
                             if int_cmp generation seal_gen \<le> 0
                             then Ret [Str ''OK'', Str ''already'', Str seal_gen, Str seal_off] else seal)))))))"

definition revoke_append_fence :: "string list \<Rightarrow> string list \<Rightarrow> reply_item list rprog" where
  "revoke_append_fence keys argv = tombstone_marker (at1 keys 1) argv (Ret [Str ''OK''])"

section \<open>References and deletion\<close>

definition incr_ref :: "string list \<Rightarrow> string list \<Rightarrow> reply_item list rprog" where
  "incr_ref keys argv =
     need (parse_double (at1 argv 1)) (\<lambda>now.
       meta_map (at1 keys 1) (\<lambda>m.
         case m of
           None \<Rightarrow> Ret [Str ''NOTFOUND'']
         | Some m \<Rightarrow>
             if m ''softDel'' = Some ''1'' then Ret [Str ''SOFTDEL'']
             else need (is_expired m now) (\<lambda>expired.
               if expired then expire_cleanup keys m (Ret [Str ''NOTFOUND''])
               else Call (HINCRBY (at1 keys 1) ''refCount'' 1) (\<lambda>rc.
                 Call (SADD (at1 keys 4) (at1 argv 2)) (\<lambda>_.
                 persist_all (take 4 keys) (Ret [Str ''OK'', Str (lua_tostring (lua_int rc))]))))))"

definition decr_ref :: "string list \<Rightarrow> string list \<Rightarrow> reply_item list rprog" where
  "decr_ref keys argv =
     need (parse_double (at1 argv 1)) (\<lambda>now.
       meta_map (at1 keys 1) (\<lambda>m.
         case m of
           None \<Rightarrow> Ret [Str ''GONE'']
         | Some m \<Rightarrow>
             Call (HINCRBY (at1 keys 1) ''refCount'' (- 1)) (\<lambda>r.
             Call (SREM (at1 keys 4) (at1 argv 3)) (\<lambda>_.
             (let rc = lua_int r
              in if rc < 0 then hset (at1 keys 1) [(''refCount'', ''0'')] (Ret [Str ''UNDERFLOW''])
                 else if rc = 0 \<and> m ''softDel'' = Some ''1'' then
                   del_all (take 4 keys)
                     (Call (PUBLISH (at1 argv 2) ''d'') (\<lambda>_. Ret [Str ''CASCADE'', Str (field m ''forkedFrom'')]))
                 else if rc = 0 then
                   refresh_backstop keys (m(''refCount'' \<mapsto> ''0'')) now (Ret [Str ''OK'', Str (lua_tostring rc)])
                 else Ret [Str ''OK'', Str (lua_tostring rc)])))))"

definition delete_lua :: "string list \<Rightarrow> string list \<Rightarrow> reply_item list rprog" where
  "delete_lua keys argv =
     meta_map (at1 keys 1) (\<lambda>m.
       case m of
         None \<Rightarrow> Ret [Str ''NOTFOUND'']
       | Some m \<Rightarrow>
           if m ''softDel'' = Some ''1'' then Ret [Str ''SOFTDEL'']
           else need (ref_count m) (\<lambda>n.
             if n > 0 then
               hset (at1 keys 1) [(''softDel'', ''1'')] (persist_all (take 4 keys) (Ret [Str ''SOFTDELETED'']))
             else del_all (take 4 keys)
               (Call (PUBLISH (at1 argv 1) ''d'') (\<lambda>_. Ret [Str ''DELETED'', Str (field m ''forkedFrom'')]))))"


section \<open>read.lua\<close>

text \<open>\<^verbatim>\<open>add_offset_bytes\<close>: the digits from the last one, on the reversed field.\<close>

fun add_digits :: "nat \<Rightarrow> string \<Rightarrow> (string \<times> nat) option" where
  "add_digits carry [] = Some ('''', carry)"
| "add_digits carry (c # cs) =
     (if \<not> is_digit c then None
      else (let sum = digit_val c + carry
            in map_option (\<lambda>(ds, k). (digit_char (sum mod 10) # ds, k)) (add_digits (sum div 10) cs)))"

definition add_offset_bytes :: "string \<Rightarrow> nat \<Rightarrow> string option" where
  "add_offset_bytes offset delta =
     (if length offset \<noteq> 33 \<or> offset ! 16 \<noteq> CHR ''_'' then None
      else (case add_digits delta (rev (drop 17 offset)) of
              None \<Rightarrow> None
            | Some (ds, carry) \<Rightarrow> if 0 < carry then None else Some (take 17 offset @ rev ds)))"

text \<open>
  The page being collected: the members accepted so far, the bytes fetched and the bytes returned.
  Sizes stay below 2 to the power 53, where doubles are exact.
\<close>

type_synonym page_acc = "string list \<times> nat \<times> nat"

definition accept_frame :: "nat \<Rightarrow> bool \<Rightarrow> string \<Rightarrow> page_acc \<Rightarrow> bool \<times> page_acc" where
  "accept_frame target_bytes allow_oversized member acc =
     (case acc of (members, fetched, returned) \<Rightarrow>
        (let payload = length member - 34; fetched = fetched + payload
         in if returned + payload \<le> target_bytes \<or> members = [] \<and> allow_oversized
            then (returned + payload < target_bytes, (members @ [member], fetched, returned + payload))
            else (False, (members, fetched, returned))))"

fun accept_all :: "nat \<Rightarrow> bool \<Rightarrow> string list \<Rightarrow> page_acc \<Rightarrow> page_acc" where
  "accept_all target allow [] acc = acc"
| "accept_all target allow (x # xs) acc =
     (case accept_frame target allow x acc of (go, acc) \<Rightarrow> if go then accept_all target allow xs acc else acc)"

text \<open>The second range call, once the first frame is known.\<close>

definition read_more ::
    "string list \<Rightarrow> string \<Rightarrow> nat \<Rightarrow> nat \<Rightarrow> bool \<Rightarrow> string \<Rightarrow> page_acc \<Rightarrow> (page_acc \<Rightarrow> 'a rprog) \<Rightarrow> 'a rprog" where
  "read_more keys range_max target max_frames allow first acc p =
     (case acc of (members, fetched, returned) \<Rightarrow>
        (let first_offset = take 33 first; segment_upper = butlast (tl range_max)
         in if first_offset < segment_upper then
              (case add_offset_bytes first_offset (target - returned) of
                 None \<Rightarrow> p acc
               | Some byte_max_offset \<Rightarrow>
                   (let byte_max = ''['' @ byte_max_offset @ [CHR 0xFF];
                        byte_max = (if byte_max > range_max then range_max else byte_max)
                    in Call (ZRANGEBYLEX (at1 keys 2) (''('' @ first_offset @ [CHR 0xFF]) byte_max (max_frames - length members))
                         (\<lambda>r. p (accept_all target allow (lua_list r) acc))))
            else p acc))"

definition read_frames ::
    "string list \<Rightarrow> meta \<Rightarrow> string \<Rightarrow> string \<Rightarrow> nat \<Rightarrow> nat \<Rightarrow> bool \<Rightarrow> bool \<Rightarrow> (page_acc \<Rightarrow> reply_item list rprog) \<Rightarrow>
       reply_item list rprog" where
  "read_frames keys m lex_min range_max target max_frames allow require_candidate p =
     Call (ZRANGEBYLEX (at1 keys 2) lex_min range_max 1) (\<lambda>r.
       case lua_list r of
         [] \<Rightarrow>
           (if require_candidate then Ret [Str ''MISSING'']
            else if m ''tail'' \<noteq> Some ''0000000000000000_0000000000000000'' then
              Call (ZCARD (at1 keys 2)) (\<lambda>n. if lua_int n = 0 then Ret [Str ''MISSING''] else p ([], 0, 0))
            else p ([], 0, 0))
       | first # _ \<Rightarrow>
           (case accept_frame target allow first ([], 0, 0) of (accepting, acc) \<Rightarrow>
              if accepting \<and> length (fst acc) < max_frames
              then read_more keys range_max target max_frames allow first acc p
              else p acc))"

text \<open>The metadata table as a flat list, over the fields it has.\<close>

definition meta_flat :: "string list \<Rightarrow> meta \<Rightarrow> string list" where
  "meta_flat fs m = flat_pairs (map (\<lambda>f. (f, field m f)) fs)"

definition read_page ::
    "string list \<Rightarrow> string list \<Rightarrow> string list \<Rightarrow> meta \<Rightarrow> nat \<Rightarrow> nat \<Rightarrow> reply_item list rprog" where
  "read_page keys argv fs m target max_frames =
     (let root_read = (at1 argv 7 = ''1'');
          page_tail = (if at1 argv 14 = '''' then field m ''tail'' else at1 argv 14);
          reply = (\<lambda>root_range (members, fetched, returned).
            Ret [Str ''OK'', Arr (meta_flat fs m), Arr members, Str (lua_tostring (int fetched)),
                 Str (lua_tostring (int returned)), Str root_range]);
          fetch = (\<lambda>fetch_frames require_candidate range_max root_range.
            if fetch_frames \<and> 0 < max_frames \<and> 0 < target
            then read_frames keys m (at1 argv 2) range_max target max_frames (at1 argv 9 = ''1'') require_candidate
                   (reply root_range)
            else reply root_range ([], 0, 0))
      in if \<not> root_read then fetch (at1 argv 8 = ''1'') (at1 argv 10 = ''1'') (at1 argv 3) ''segment''
         else need (classify_root_read_range m (at1 argv 13) page_tail (at1 argv 15 = ''1'')) (\<lambda>root_range.
           if root_range = ''root'' then fetch True True (''['' @ page_tail @ [CHR 0xFF]) root_range
           else fetch False (at1 argv 10 = ''1'') (at1 argv 3) root_range))"

text \<open>The check of the snapshot and the sliding-TTL touch.\<close>

definition read_snapshot ::
    "string list \<Rightarrow> string list \<Rightarrow> int \<Rightarrow> string list \<Rightarrow> meta \<Rightarrow> string option \<Rightarrow> nat \<Rightarrow> nat \<Rightarrow> reply_item list rprog" where
  "read_snapshot keys argv now fs m incarnation target max_frames =
     (if at1 argv 6 \<noteq> '''' \<and> incarnation \<noteq> Some (at1 argv 6) then Ret [Str ''SNAPSHOT'']
      else if at1 argv 7 = ''1'' \<and> at1 argv 11 = ''1'' \<and> should_touch_read m then
        (let m = m(''accessedAtNs'' \<mapsto> FormatInt now)
         in hset (at1 keys 1) [(''accessedAtNs'', FormatInt now)]
              (refresh_backstop keys m now (read_page keys argv fs m target max_frames)))
      else read_page keys argv fs m target max_frames)"

definition read_lua :: "string list \<Rightarrow> string list \<Rightarrow> reply_item list rprog" where
  "read_lua keys argv =
     need (parse_double (at1 argv 1)) (\<lambda>now. need (parse_double (at1 argv 4)) (\<lambda>target. need (parse_double (at1 argv 5)) (\<lambda>max_frames.
       Call (HGETALL (at1 keys 1)) (\<lambda>flat.
         (let fs = map fst (lua_pairs flat); m = map_of (lua_pairs flat); root_read = (at1 argv 7 = ''1'');
              visible =
                (if m ''incarnation'' = None \<or> m ''incarnation'' = Some '''' then
                   (if root_read then
                      Call (HSETNX (at1 keys 1) ''incarnation'' (at1 argv 12)) (\<lambda>_.
                      hget (at1 keys 1) ''incarnation'' (\<lambda>inc.
                        read_snapshot keys argv now (remdups (fs @ [''incarnation''])) (m(''incarnation'' := inc)) inc
                          (nat target) (nat max_frames)))
                    else read_snapshot keys argv now fs m (m ''createdAtNs'') (nat target) (nat max_frames))
                 else read_snapshot keys argv now fs m (m ''incarnation'') (nat target) (nat max_frames))
          in if m ''tail'' = None then Ret [Str ''NOTFOUND'']
             else if root_read then
               need (is_expired m now) (\<lambda>expired.
                 if expired then expire_cleanup keys m (Ret [Str ''NOTFOUND''])
                 else if m ''softDel'' = Some ''1'' then Ret [Str ''SOFTDEL''] else visible)
             else visible)))))"

end
