(* ===== verification/Durable_Externalization.thy ===== *)
theory Durable_Externalization
  imports Chronicle_Prelude
begin

text \<open>
  The typed outbox contract of \<^verbatim>\<open>src/internal/durable/externalization.go\<close>: a durable
  marker, the external action it drives, the idempotence key that makes a duplicate safe,
  and the scanner that recovers it.  Constructors that panic return \<^const>\<open>None\<close>.  A
  scanner is code over the narrow \<^verbatim>\<open>ScanRuntime\<close> interface; the model runs it, as
  \<^verbatim>\<open>Verify\<close> does, against the in-memory probe.  The last section is the one
  externalization the stream store declares (\<^verbatim>\<open>src/store/durable_externalization.go\<close>).
\<close>

type_synonym Marker = string
type_synonym Action_name = string
type_synonym IdempotenceKey = string

datatype durable_error =
    ScannerIncomplete | ScannerMissingRun
  | DidNotQuery string Marker | DidNotRedrive string Action_name
  | ExternalizationIncomplete | NilExternalAction | ActionFailed string

record scanProbe =
  queried :: "Marker \<Rightarrow> bool"
  redriven :: "Action_name \<Rightarrow> bool"

definition newScanProbe :: scanProbe where
  "newScanProbe = \<lparr>queried = (\<lambda>_. False), redriven = (\<lambda>_. False)\<rparr>"

definition QueryMarker :: "Marker \<Rightarrow> scanProbe \<Rightarrow> durable_error option \<times> scanProbe" where
  "QueryMarker m p = (None, p\<lparr>queried := (queried p)(m := True)\<rparr>)"

definition RedriveAction :: "Action_name \<Rightarrow> scanProbe \<Rightarrow> durable_error option \<times> scanProbe" where
  "RedriveAction a p = (None, p\<lparr>redriven := (redriven p)(a := True)\<rparr>)"

type_synonym ScannerFunc = "scanProbe \<Rightarrow> durable_error option \<times> scanProbe"

record Scanner =
  sc_name :: string
  sc_marker :: Marker
  sc_action :: Action_name
  sc_run :: "ScannerFunc option"

definition NewScanner :: "string \<Rightarrow> Marker \<Rightarrow> Action_name \<Rightarrow> ScannerFunc option \<Rightarrow> Scanner option" where
  "NewScanner name marker action run =
     (if name = '''' \<or> marker = '''' \<or> action = '''' \<or> run = None then None
      else Some \<lparr>sc_name = name, sc_marker = marker, sc_action = action, sc_run = run\<rparr>)"

definition scanner_Run :: "Scanner \<Rightarrow> ScannerFunc" where
  "scanner_Run s rt =
     (case sc_run s of None \<Rightarrow> (Some ScannerMissingRun, rt) | Some run \<Rightarrow> run rt)"

definition Verify :: "Scanner \<Rightarrow> durable_error option" where
  "Verify s =
     (if sc_name s = '''' \<or> sc_marker s = '''' \<or> sc_action s = '''' then Some ScannerIncomplete
      else (case sc_run s of
              None \<Rightarrow> Some ScannerIncomplete
            | Some run \<Rightarrow>
                (case run newScanProbe of
                   (Some err, _) \<Rightarrow> Some err
                 | (None, probe) \<Rightarrow>
                     (if \<not> queried probe (sc_marker s) then Some (DidNotQuery (sc_name s) (sc_marker s))
                      else if \<not> redriven probe (sc_action s)
                      then Some (DidNotRedrive (sc_name s) (sc_action s))
                      else None))))"

definition NonVacuous :: "Scanner \<Rightarrow> bool" where
  "NonVacuous s \<longleftrightarrow> Verify s = None"

record Externalization =
  ex_marker :: Marker
  ex_action :: Action_name
  ex_key :: IdempotenceKey
  ex_scanner :: Scanner

definition NewExternalization ::
    "Marker \<Rightarrow> Action_name \<Rightarrow> IdempotenceKey \<Rightarrow> Scanner \<Rightarrow> Externalization option" where
  "NewExternalization marker action key scanner =
     (if marker = '''' \<or> action = '''' \<or> key = '''' then None
      else if Verify scanner \<noteq> None then None
      else if sc_marker scanner \<noteq> marker then None
      else if sc_action scanner \<noteq> action then None
      else Some \<lparr>ex_marker = marker, ex_action = action, ex_key = key, ex_scanner = scanner\<rparr>)"

definition Complete_externalization :: "Externalization \<Rightarrow> bool" where
  "Complete_externalization e \<longleftrightarrow>
     ex_marker e \<noteq> '''' \<and> ex_action e \<noteq> '''' \<and> ex_key e \<noteq> '''' \<and> NonVacuous (ex_scanner e) \<and>
     sc_marker (ex_scanner e) = ex_marker e \<and> sc_action (ex_scanner e) = ex_action e"

text \<open>The action's own outcome is the argument: \<^const>\<open>None\<close> is a nil function value.\<close>

definition RunExternalAction ::
    "Externalization \<Rightarrow> durable_error option option \<Rightarrow> durable_error option" where
  "RunExternalAction e run =
     (if \<not> Complete_externalization e then Some ExternalizationIncomplete
      else (case run of None \<Rightarrow> Some NilExternalAction | Some outcome \<Rightarrow> outcome))"

section \<open>The producer replay declaration\<close>

definition MarkerProducerSequence :: Marker where
  "MarkerProducerSequence = ''store:producer-sequence''"

definition ActionReplayProducer :: Action_name where
  "ActionReplayProducer = ''replay producer append''"

definition KeyProducerEpochSeq :: IdempotenceKey where
  "KeyProducerEpochSeq = ''stream_path + producer_id + epoch + seq''"

definition scanProducerReplay :: ScannerFunc where
  "scanProducerReplay rt =
     (case QueryMarker MarkerProducerSequence rt of
        (Some err, rt') \<Rightarrow> (Some err, rt')
      | (None, rt') \<Rightarrow> RedriveAction ActionReplayProducer rt')"

definition producerReplayExternalization :: "Externalization option" where
  "producerReplayExternalization =
     (case NewScanner ''ValidateProducer duplicate replay scan''
             MarkerProducerSequence ActionReplayProducer (Some scanProducerReplay) of
        None \<Rightarrow> None
      | Some scanner \<Rightarrow>
          NewExternalization MarkerProducerSequence ActionReplayProducer KeyProducerEpochSeq scanner)"

section \<open>What construction guarantees\<close>

lemma NewExternalization_Complete:
  "NewExternalization m a k s = Some e \<Longrightarrow> Complete_externalization e"
  by (auto simp: NewExternalization_def Complete_externalization_def NonVacuous_def split: if_splits)

lemma Complete_NewExternalization:
  "Complete_externalization e \<Longrightarrow>
     NewExternalization (ex_marker e) (ex_action e) (ex_key e) (ex_scanner e) = Some e"
  by (cases e) (auto simp: NewExternalization_def Complete_externalization_def NonVacuous_def)

lemma RunExternalAction_built:
  "NewExternalization m a k s = Some e \<Longrightarrow> RunExternalAction e (Some outcome) = outcome"
  by (simp add: RunExternalAction_def NewExternalization_Complete)

text \<open>The package initialisation does not panic, and the declared action can run.\<close>

lemma producerReplay_defined: "\<exists>e. producerReplayExternalization = Some e"
  by (simp add: producerReplayExternalization_def NewScanner_def NewExternalization_def Verify_def
      scanProducerReplay_def QueryMarker_def RedriveAction_def newScanProbe_def
      MarkerProducerSequence_def ActionReplayProducer_def KeyProducerEpochSeq_def)

definition durableProducerReplay :: "durable_error option option \<Rightarrow> durable_error option" where
  "durableProducerReplay run =
     (case producerReplayExternalization of
        None \<Rightarrow> Some ExternalizationIncomplete
      | Some e \<Rightarrow> RunExternalAction e run)"

lemma durableProducerReplay_run [simp]: "durableProducerReplay (Some outcome) = outcome"
proof -
  obtain e where e: "producerReplayExternalization = Some e" using producerReplay_defined by blast
  then have "Complete_externalization e"
    by (auto simp: producerReplayExternalization_def split: option.splits
        dest: NewExternalization_Complete)
  then show ?thesis unfolding durableProducerReplay_def e by (simp add: RunExternalAction_def)
qed

end
