(* ===== verification/Producer.thy ===== *)
theory Producer
  imports Stream_Types Durable_Externalization
begin

text \<open>
  The idempotent-producer state machine of \<^verbatim>\<open>src/store/producer.go\<close>: one request either
  advances the producer by exactly one sequence number, opens a new epoch at zero, is
  recognised as a duplicate, or is refused without touching the state.
\<close>

definition ValidateProducer ::
    "ProducerState option \<Rightarrow> int64 \<Rightarrow> int64 \<Rightarrow> int64 \<Rightarrow>
       AppendResult \<times> ProducerState option \<times> store_error option" where
  "ValidateProducer state epoch seq nowUnix =
     (case state of
        None \<Rightarrow>
          (if seq \<noteq> 0 then
             (AppendResult0\<lparr>ar_ProducerResult := ProducerResultNone,
                ar_ExpectedSeq := 0, ar_ReceivedSeq := seq\<rparr>, None, Some ErrProducerSeqGap)
           else
             (AppendResult0\<lparr>ar_ProducerResult := ProducerResultAccepted, ar_LastSeq := 0\<rparr>,
              Some \<lparr>ps_Epoch = epoch, ps_LastSeq = 0, ps_LastUpdated = nowUnix\<rparr>, None))
      | Some st \<Rightarrow>
          (if epoch < ps_Epoch st then
             (AppendResult0\<lparr>ar_ProducerResult := ProducerResultNone,
                ar_CurrentEpoch := ps_Epoch st\<rparr>, None, Some ErrStaleEpoch)
           else if epoch > ps_Epoch st then
             (if seq \<noteq> 0 then
                (AppendResult0\<lparr>ar_ProducerResult := ProducerResultNone\<rparr>, None, Some ErrInvalidEpochSeq)
              else
                (AppendResult0\<lparr>ar_ProducerResult := ProducerResultAccepted, ar_LastSeq := 0\<rparr>,
                 Some \<lparr>ps_Epoch = epoch, ps_LastSeq = 0, ps_LastUpdated = nowUnix\<rparr>, None))
           else if seq \<le> ps_LastSeq st then
             (case durableProducerReplay (Some None) of
                Some _ \<Rightarrow> (AppendResult0, None, Some ErrDurable)
              | None \<Rightarrow>
                  (AppendResult0\<lparr>ar_ProducerResult := ProducerResultDuplicate,
                     ar_LastSeq := ps_LastSeq st\<rparr>, None, None))
           else if seq = i64 (ps_LastSeq st + 1) then
             (AppendResult0\<lparr>ar_ProducerResult := ProducerResultAccepted, ar_LastSeq := seq\<rparr>,
              Some \<lparr>ps_Epoch = epoch, ps_LastSeq = seq, ps_LastUpdated = nowUnix\<rparr>, None)
           else
             (AppendResult0\<lparr>ar_ProducerResult := ProducerResultNone,
                ar_ExpectedSeq := i64 (ps_LastSeq st + 1), ar_ReceivedSeq := seq\<rparr>,
              None, Some ErrProducerSeqGap)))"

section \<open>Outcomes\<close>

text \<open>The three outcomes are exclusive, and the state moves exactly on acceptance.\<close>

lemma ValidateProducer_cases:
  assumes "ValidateProducer st e q now = (res, st', err)"
  shows "(err = None \<and> ar_ProducerResult res = ProducerResultAccepted \<and>
            st' = Some \<lparr>ps_Epoch = e, ps_LastSeq = q, ps_LastUpdated = now\<rparr> \<and> ar_LastSeq res = q) \<or>
         (err = None \<and> ar_ProducerResult res = ProducerResultDuplicate \<and> st' = None \<and>
            (\<exists>p. st = Some p \<and> ps_Epoch p = e \<and> q \<le> ps_LastSeq p \<and> ar_LastSeq res = ps_LastSeq p)) \<or>
         (err \<noteq> None \<and> ar_ProducerResult res = ProducerResultNone \<and> st' = None)"
  using assms
  by (auto simp: ValidateProducer_def AppendResult0_def split: option.splits if_splits)

definition producer_accepts :: "ProducerState option \<Rightarrow> int64 \<Rightarrow> int64 \<Rightarrow> bool" where
  "producer_accepts st e q \<longleftrightarrow>
     (case st of
        None \<Rightarrow> q = 0
      | Some p \<Rightarrow> ps_Epoch p < e \<and> q = 0 \<or>
                  ps_Epoch p = e \<and> ps_LastSeq p < q \<and> q = i64 (ps_LastSeq p + 1))"

lemma ValidateProducer_accepts_iff:
  "fst (snd (ValidateProducer st e q now)) \<noteq> None \<longleftrightarrow> producer_accepts st e q"
  by (auto simp: ValidateProducer_def producer_accepts_def split: option.splits)

lemma ValidateProducer_accept:
  "producer_accepts st e q \<Longrightarrow>
     ValidateProducer st e q now =
       (AppendResult0\<lparr>ar_ProducerResult := ProducerResultAccepted, ar_LastSeq := q\<rparr>,
        Some \<lparr>ps_Epoch = e, ps_LastSeq = q, ps_LastUpdated = now\<rparr>, None)"
  by (auto simp: ValidateProducer_def producer_accepts_def split: option.splits)

lemma ValidateProducer_duplicate:
  "ps_Epoch p = e \<Longrightarrow> q \<le> ps_LastSeq p \<Longrightarrow>
     ValidateProducer (Some p) e q now =
       (AppendResult0\<lparr>ar_ProducerResult := ProducerResultDuplicate, ar_LastSeq := ps_LastSeq p\<rparr>,
        None, None)"
  by (simp add: ValidateProducer_def)

section \<open>Runs of requests\<close>

text \<open>
  A run of requests against one producer id.  The state is replaced only when the machine
  returns a new one, as every caller does; the result lists the accepted (epoch, sequence)
  pairs in order.
\<close>

fun producer_run ::
    "ProducerState option \<Rightarrow> (int64 \<times> int64 \<times> int64) list \<Rightarrow>
       (int64 \<times> int64) list \<times> ProducerState option" where
  "producer_run st [] = ([], st)"
| "producer_run st ((e, q, now) # reqs) =
     (case ValidateProducer st e q now of
        (_, Some st', _) \<Rightarrow> (let (acc, fin) = producer_run (Some st') reqs in ((e, q) # acc, fin))
      | (_, None, _) \<Rightarrow> producer_run st reqs)"

text \<open>Each accepted pair follows the one before it without a gap.\<close>

definition follows :: "int64 \<times> int64 \<Rightarrow> int64 \<times> int64 \<Rightarrow> bool" where
  "follows a b \<longleftrightarrow> fst b = fst a \<and> snd b = snd a + 1 \<or> fst a < fst b \<and> snd b = 0"

definition state_pair :: "ProducerState option \<Rightarrow> (int64 \<times> int64) option" where
  "state_pair st = map_option (\<lambda>p. (ps_Epoch p, ps_LastSeq p)) st"

fun gapless_from :: "(int64 \<times> int64) option \<Rightarrow> (int64 \<times> int64) list \<Rightarrow> bool" where
  "gapless_from prev [] = True"
| "gapless_from prev (a # as) =
     ((case prev of None \<Rightarrow> snd a = 0 | Some b \<Rightarrow> follows b a) \<and> gapless_from (Some a) as)"

lemma producer_accepts_follows:
  assumes "producer_accepts (Some p) e q" and "is_i64 (ps_LastSeq p)"
  shows "follows (ps_Epoch p, ps_LastSeq p) (e, q)"
  using assms by (auto simp: producer_accepts_def follows_def i64_Suc is_i64_def split: if_splits)

definition requests_ok :: "(int64 \<times> int64 \<times> int64) list \<Rightarrow> bool" where
  "requests_ok reqs \<longleftrightarrow> (\<forall>(e, q, now) \<in> set reqs. is_i64 e \<and> is_i64 q)"

lemma producer_run_gapless:
  assumes "requests_ok reqs" and "\<And>p. st = Some p \<Longrightarrow> is_i64 (ps_LastSeq p)"
    and "producer_run st reqs = (acc, fin)"
  shows "gapless_from (state_pair st) acc \<and>
         state_pair fin = (if acc = [] then state_pair st else Some (last acc))"
  using assms
proof (induction reqs arbitrary: st acc)
  case Nil
  then show ?case by simp
next
  case (Cons req reqs)
  obtain e q now where req: "req = (e, q, now)" by (cases req) auto
  have ok: "requests_ok reqs" "is_i64 q" using Cons.prems(1) req by (auto simp: requests_ok_def)
  show ?case
  proof (cases "producer_accepts st e q")
    case True
    let ?p = "\<lparr>ps_Epoch = e, ps_LastSeq = q, ps_LastUpdated = now\<rparr>"
    from Cons.prems(3) True req obtain acc' where
      run: "producer_run (Some ?p) reqs = (acc', fin)" and acc: "acc = (e, q) # acc'"
      by (auto simp: ValidateProducer_accept Let_def split: prod.splits)
    have IH: "gapless_from (Some (e, q)) acc' \<and>
        state_pair fin = (if acc' = [] then Some (e, q) else Some (last acc'))"
      using Cons.IH [OF ok(1) _ run] ok(2) by (simp add: state_pair_def)
    have "case state_pair st of None \<Rightarrow> q = 0 | Some b \<Rightarrow> follows b (e, q)"
      using True Cons.prems(2)
      by (cases st) (auto simp: state_pair_def producer_accepts_follows, simp add: producer_accepts_def)
    with IH acc show ?thesis by (cases "state_pair st") simp_all
  next
    case False
    then have "fst (snd (ValidateProducer st e q now)) = None"
      using ValidateProducer_accepts_iff [of st e q now] by simp
    with Cons.prems(3) req have "producer_run st reqs = (acc, fin)"
      by (auto split: prod.splits option.splits)
    with Cons.IH [OF ok(1) Cons.prems(2)] show ?thesis by blast
  qed
qed

text \<open>A gapless list is strictly increasing, so nothing is accepted twice.\<close>

definition pair_less :: "int64 \<times> int64 \<Rightarrow> int64 \<times> int64 \<Rightarrow> bool" where
  "pair_less a b \<longleftrightarrow> fst a < fst b \<or> fst a = fst b \<and> snd a < snd b"

lemma follows_pair_less: "follows a b \<Longrightarrow> pair_less a b"
  by (auto simp: follows_def pair_less_def)

lemma pair_less_trans: "pair_less a b \<Longrightarrow> pair_less b c \<Longrightarrow> pair_less a c"
  by (auto simp: pair_less_def)

lemma gapless_above: "gapless_from (Some a) as \<Longrightarrow> b \<in> set as \<Longrightarrow> pair_less a b"
  by (induction as arbitrary: a) (auto dest: follows_pair_less intro: pair_less_trans)

lemma gapless_distinct: "gapless_from prev as \<Longrightarrow> distinct as"
proof (induction as arbitrary: prev)
  case Nil
  then show ?case by simp
next
  case (Cons a as)
  then have "gapless_from (Some a) as" by simp
  moreover from this have "a \<notin> set as" using gapless_above [of a as a] by (auto simp: pair_less_def)
  ultimately show ?case using Cons.IH [of "Some a"] by simp
qed

text \<open>Every sequence number below an accepted one of the same epoch was accepted before it.\<close>

lemma gapless_initial_segment:
  assumes "gapless_from prev as" and "(e, q) \<in> set as" and "0 \<le> r" and "r \<le> q"
    and "\<And>b. prev = Some b \<Longrightarrow> fst b < e"
  shows "(e, r) \<in> set as"
  using assms
proof (induction as arbitrary: q rule: rev_induct)
  case Nil
  then show ?case by simp
next
  case (snoc a as)
  have split: "gapless_from prev as" "snd a = 0 \<and> (as = [] \<longrightarrow> True) \<or> as \<noteq> [] \<and> follows (last as) a
      \<or> as = [] \<and> (\<exists>b. prev = Some b \<and> follows b a)"
    using snoc.prems(1) by (induction as arbitrary: prev) (auto split: option.splits)
  show ?case
  proof (cases "(e, q) \<in> set as")
    case True
    with snoc split(1) show ?thesis by auto
  next
    case False
    with snoc.prems have a: "a = (e, q)" by simp
    show ?thesis
    proof (cases "r = q")
      case True
      with a show ?thesis by simp
    next
      case neq: False
      then have "q \<noteq> 0" using snoc.prems by simp
      with split(2) a snoc.prems(5) have "as \<noteq> []" "last as = (e, q - 1)"
        by (auto simp: follows_def prod_eq_iff)
      then have "(e, q - 1) \<in> set as" by (metis last_in_set)
      with snoc split(1) neq have "(e, r) \<in> set as" by auto
      then show ?thesis by simp
    qed
  qed
qed

end
