(* ===== verification/Json_Frames.thy ===== *)
theory Json_Frames
  imports Stream_Types
begin

text \<open>
  JSON-mode framing (\<^verbatim>\<open>src/store/json.go\<close>): \<^verbatim>\<open>ProcessJSONAppend\<close> validates a body and
  flattens a top-level array one level.  What it uses of \<^verbatim>\<open>encoding/json\<close> is written out: the
  byte-level scanner (a state and a stack of open containers) behind \<^verbatim>\<open>json.Valid\<close>, and the
  exact byte ranges a \<^verbatim>\<open>[]json.RawMessage\<close> receives.  The nesting limit of the scanner is a
  parameter \<open>lim\<close>, which the library fixes to 10000.
\<close>

section \<open>The scanner\<close>

datatype scan_state =
    stateBeginValueOrEmpty | stateBeginValue | stateBeginStringOrEmpty | stateBeginString
  | stateEndValue | stateEndTop | stateInString | stateInStringEsc | stateInStringEscU
  | stateInStringEscU1 | stateInStringEscU12 | stateInStringEscU123
  | stateNeg | state1 | state0 | stateDot | stateDot0 | stateE | stateESign | stateE0
  | stateT | stateTr | stateTru | stateF | stateFa | stateFal | stateFals
  | stateN | stateNu | stateNul | stateError

datatype parse_state = parseObjectKey | parseObjectValue | parseArrayValue

datatype scan_op =
    scanContinue | scanBeginLiteral | scanBeginObject | scanObjectKey | scanObjectValue
  | scanEndObject | scanBeginArray | scanArrayValue | scanEndArray | scanSkipSpace
  | scanEnd | scanError

type_synonym scanner = "scan_state \<times> parse_state list"

definition maxNestingDepth :: nat where
  "maxNestingDepth = 10000"

definition isSpace :: "char \<Rightarrow> bool" where
  "isSpace c \<longleftrightarrow> c = CHR '' '' \<or> c = CHR 0x09 \<or> c = CHR 0x0D \<or> c = CHR 0x0A"

definition is_hex :: "char \<Rightarrow> bool" where
  "is_hex c \<longleftrightarrow> is_digit c \<or> (97 \<le> (of_char c :: nat) \<and> (of_char c :: nat) \<le> 102) \<or>
     (65 \<le> (of_char c :: nat) \<and> (of_char c :: nat) \<le> 70)"

definition scan_error :: "parse_state list \<Rightarrow> scanner \<times> scan_op" where
  "scan_error stk = ((stateError, stk), scanError)"

definition pushParseState ::
    "nat \<Rightarrow> scan_state \<Rightarrow> parse_state \<Rightarrow> parse_state list \<Rightarrow> scan_op \<Rightarrow> scanner \<times> scan_op" where
  "pushParseState lim st new stk success =
     (if length (new # stk) \<le> lim then ((st, new # stk), success) else scan_error (new # stk))"

definition popParseState :: "parse_state list \<Rightarrow> scan_op \<Rightarrow> scanner \<times> scan_op" where
  "popParseState stk op =
     (let stk' = tl stk in ((if stk' = [] then stateEndTop else stateEndValue, stk'), op))"

definition step_EndTop :: "parse_state list \<Rightarrow> char \<Rightarrow> scanner \<times> scan_op" where
  "step_EndTop stk c = (if isSpace c then ((stateEndTop, stk), scanEnd) else scan_error stk)"

definition step_EndValue :: "parse_state list \<Rightarrow> char \<Rightarrow> scanner \<times> scan_op" where
  "step_EndValue stk c =
     (case stk of
        [] \<Rightarrow> step_EndTop stk c
      | ps # rest \<Rightarrow>
          (if isSpace c then ((stateEndValue, stk), scanSkipSpace)
           else (case ps of
                   parseObjectKey \<Rightarrow>
                     (if c = CHR '':'' then ((stateBeginValue, parseObjectValue # rest), scanObjectKey)
                      else scan_error stk)
                 | parseObjectValue \<Rightarrow>
                     (if c = CHR '','' then ((stateBeginString, parseObjectKey # rest), scanObjectValue)
                      else if c = CHR ''}'' then popParseState stk scanEndObject
                      else scan_error stk)
                 | parseArrayValue \<Rightarrow>
                     (if c = CHR '','' then ((stateBeginValue, stk), scanArrayValue)
                      else if c = CHR '']'' then popParseState stk scanEndArray
                      else scan_error stk))))"

definition step_BeginValue :: "nat \<Rightarrow> parse_state list \<Rightarrow> char \<Rightarrow> scanner \<times> scan_op" where
  "step_BeginValue lim stk c =
     (if isSpace c then ((stateBeginValue, stk), scanSkipSpace)
      else if c = CHR ''{'' then pushParseState lim stateBeginStringOrEmpty parseObjectKey stk scanBeginObject
      else if c = CHR ''['' then pushParseState lim stateBeginValueOrEmpty parseArrayValue stk scanBeginArray
      else if c = CHR 0x22 then ((stateInString, stk), scanBeginLiteral)
      else if c = CHR ''-'' then ((stateNeg, stk), scanBeginLiteral)
      else if c = CHR ''0'' then ((state0, stk), scanBeginLiteral)
      else if c = CHR ''t'' then ((stateT, stk), scanBeginLiteral)
      else if c = CHR ''f'' then ((stateF, stk), scanBeginLiteral)
      else if c = CHR ''n'' then ((stateN, stk), scanBeginLiteral)
      else if is_digit c then ((state1, stk), scanBeginLiteral)
      else scan_error stk)"

definition step_BeginString :: "parse_state list \<Rightarrow> char \<Rightarrow> scanner \<times> scan_op" where
  "step_BeginString stk c =
     (if isSpace c then ((stateBeginString, stk), scanSkipSpace)
      else if c = CHR 0x22 then ((stateInString, stk), scanBeginLiteral)
      else scan_error stk)"

definition expect :: "bool \<Rightarrow> scan_state \<Rightarrow> parse_state list \<Rightarrow> scanner \<times> scan_op" where
  "expect ok st stk = (if ok then ((st, stk), scanContinue) else scan_error stk)"

definition step_0 :: "parse_state list \<Rightarrow> char \<Rightarrow> scanner \<times> scan_op" where
  "step_0 stk c =
     (if c = CHR ''.'' then ((stateDot, stk), scanContinue)
      else if c = CHR ''e'' \<or> c = CHR ''E'' then ((stateE, stk), scanContinue)
      else step_EndValue stk c)"

fun scan_step :: "nat \<Rightarrow> scanner \<Rightarrow> char \<Rightarrow> scanner \<times> scan_op" where
  "scan_step lim (stateBeginValueOrEmpty, stk) c =
     (if isSpace c then ((stateBeginValueOrEmpty, stk), scanSkipSpace)
      else if c = CHR '']'' then step_EndValue stk c
      else step_BeginValue lim stk c)"
| "scan_step lim (stateBeginValue, stk) c = step_BeginValue lim stk c"
| "scan_step lim (stateBeginStringOrEmpty, stk) c =
     (if isSpace c then ((stateBeginStringOrEmpty, stk), scanSkipSpace)
      else if c = CHR ''}'' then step_EndValue (parseObjectValue # tl stk) c
      else step_BeginString stk c)"
| "scan_step lim (stateBeginString, stk) c = step_BeginString stk c"
| "scan_step lim (stateEndValue, stk) c = step_EndValue stk c"
| "scan_step lim (stateEndTop, stk) c = step_EndTop stk c"
| "scan_step lim (stateInString, stk) c =
     (if c = CHR 0x22 then ((stateEndValue, stk), scanContinue)
      else if c = CHR 0x5C then ((stateInStringEsc, stk), scanContinue)
      else expect (\<not> (of_char c :: nat) < 32) stateInString stk)"
| "scan_step lim (stateInStringEsc, stk) c =
     (if c = CHR ''u'' then ((stateInStringEscU, stk), scanContinue)
      else expect (c \<in> {CHR ''b'', CHR ''f'', CHR ''n'', CHR ''r'', CHR ''t'', CHR 0x5C, CHR ''/'', CHR 0x22})
        stateInString stk)"
| "scan_step lim (stateInStringEscU, stk) c = expect (is_hex c) stateInStringEscU1 stk"
| "scan_step lim (stateInStringEscU1, stk) c = expect (is_hex c) stateInStringEscU12 stk"
| "scan_step lim (stateInStringEscU12, stk) c = expect (is_hex c) stateInStringEscU123 stk"
| "scan_step lim (stateInStringEscU123, stk) c = expect (is_hex c) stateInString stk"
| "scan_step lim (stateNeg, stk) c =
     (if c = CHR ''0'' then ((state0, stk), scanContinue) else expect (is_digit c) state1 stk)"
| "scan_step lim (state1, stk) c =
     (if is_digit c then ((state1, stk), scanContinue) else step_0 stk c)"
| "scan_step lim (state0, stk) c = step_0 stk c"
| "scan_step lim (stateDot, stk) c = expect (is_digit c) stateDot0 stk"
| "scan_step lim (stateDot0, stk) c =
     (if is_digit c then ((stateDot0, stk), scanContinue)
      else if c = CHR ''e'' \<or> c = CHR ''E'' then ((stateE, stk), scanContinue)
      else step_EndValue stk c)"
| "scan_step lim (stateE, stk) c =
     (if c = CHR ''+'' \<or> c = CHR ''-'' then ((stateESign, stk), scanContinue)
      else expect (is_digit c) stateE0 stk)"
| "scan_step lim (stateESign, stk) c = expect (is_digit c) stateE0 stk"
| "scan_step lim (stateE0, stk) c =
     (if is_digit c then ((stateE0, stk), scanContinue) else step_EndValue stk c)"
| "scan_step lim (stateT, stk) c = expect (c = CHR ''r'') stateTr stk"
| "scan_step lim (stateTr, stk) c = expect (c = CHR ''u'') stateTru stk"
| "scan_step lim (stateTru, stk) c = expect (c = CHR ''e'') stateEndValue stk"
| "scan_step lim (stateF, stk) c = expect (c = CHR ''a'') stateFa stk"
| "scan_step lim (stateFa, stk) c = expect (c = CHR ''l'') stateFal stk"
| "scan_step lim (stateFal, stk) c = expect (c = CHR ''s'') stateFals stk"
| "scan_step lim (stateFals, stk) c = expect (c = CHR ''e'') stateEndValue stk"
| "scan_step lim (stateN, stk) c = expect (c = CHR ''u'') stateNu stk"
| "scan_step lim (stateNu, stk) c = expect (c = CHR ''l'') stateNul stk"
| "scan_step lim (stateNul, stk) c = expect (c = CHR ''l'') stateEndValue stk"
| "scan_step lim (stateError, stk) c = scan_error stk"

text \<open>Running the scanner: the loop of \<^verbatim>\<open>checkValid\<close>, stopping at the first error.\<close>

fun scan_run :: "nat \<Rightarrow> scanner \<Rightarrow> bytes \<Rightarrow> scanner option" where
  "scan_run lim s [] = Some s"
| "scan_run lim s (c # cs) =
     (case scan_step lim s c of (s', op) \<Rightarrow> if op = scanError then None else scan_run lim s' cs)"

definition scan_eof :: "nat \<Rightarrow> scanner \<Rightarrow> bool" where
  "scan_eof lim s \<longleftrightarrow> fst s = stateEndTop \<or> fst (fst (scan_step lim s (CHR '' ''))) = stateEndTop"

definition json_valid_upto :: "nat \<Rightarrow> bytes \<Rightarrow> bool" where
  "json_valid_upto lim data =
     (case scan_run lim (stateBeginValue, []) data of None \<Rightarrow> False | Some s \<Rightarrow> scan_eof lim s)"

definition json_Valid :: "bytes \<Rightarrow> bool" where
  "json_Valid data = json_valid_upto maxNestingDepth data"

section \<open>Framing\<close>

text \<open>
  \<^verbatim>\<open>json.Unmarshal(trimmed, &arr)\<close> with \<^verbatim>\<open>arr []json.RawMessage\<close>: each element is the byte range
  of one value directly inside the outer array; the white space around it is skipped.  \<open>cur\<close>
  is the element being read, \<open>acc\<close> the finished ones.
\<close>

fun raw_elements :: "nat \<Rightarrow> scanner \<Rightarrow> bytes \<Rightarrow> bytes list \<Rightarrow> bytes \<Rightarrow> bytes list option" where
  "raw_elements lim s cur acc [] = (if scan_eof lim s then Some acc else None)"
| "raw_elements lim s cur acc (c # cs) =
     (case scan_step lim s c of (s', op) \<Rightarrow>
        if op = scanError then None
        else if length (snd s) = 1 then
          (if op = scanSkipSpace then raw_elements lim s' cur acc cs
           else if op = scanArrayValue then raw_elements lim s' [] (acc @ [cur]) cs
           else if op = scanEndArray
           then raw_elements lim s' [] (if cur = [] then acc else acc @ [cur]) cs
           else raw_elements lim s' (cur @ [c]) acc cs)
        else if length (snd s) = 0 then raw_elements lim s' [] acc cs
        else raw_elements lim s' (cur @ [c]) acc cs)"

definition Unmarshal_raw :: "bytes \<Rightarrow> bytes list option" where
  "Unmarshal_raw data = raw_elements maxNestingDepth (stateBeginValue, []) [] [] data"

text \<open>\<^verbatim>\<open>bytes.TrimSpace\<close> on the ASCII white space bytes.\<close>

definition ascii_space :: "char \<Rightarrow> bool" where
  "ascii_space c \<longleftrightarrow> isSpace c \<or> c = CHR 0x0B \<or> c = CHR 0x0C"

definition TrimSpace :: "bytes \<Rightarrow> bytes" where
  "TrimSpace s = rev (dropWhile ascii_space (rev (dropWhile ascii_space s)))"

definition ProcessJSONAppend :: "bytes \<Rightarrow> bool \<Rightarrow> store_error + bytes list" where
  "ProcessJSONAppend data allowEmpty =
     (if \<not> json_Valid data then Inl ErrInvalidJSON
      else (let trimmed = TrimSpace data
            in if trimmed \<noteq> [] \<and> hd trimmed = CHR ''['' then
                 (case Unmarshal_raw trimmed of
                    None \<Rightarrow> Inl ErrInvalidJSON
                  | Some arr \<Rightarrow>
                      (if arr = [] then (if \<not> allowEmpty then Inl ErrEmptyJSONArray else Inr [])
                       else Inr arr))
               else Inr [trimmed]))"

section \<open>Frames carry bytes\<close>

definition begin_states :: "scan_state set" where
  "begin_states = {stateBeginValue, stateBeginValueOrEmpty, stateBeginString, stateBeginStringOrEmpty}"

lemmas scan_step_defs =
  scan_error_def pushParseState_def popParseState_def step_EndTop_def step_EndValue_def
  step_BeginValue_def step_BeginString_def expect_def step_0_def

lemma step_EndValue_shape:
  assumes "step_EndValue stk c = ((st', stk'), op)" and "op \<noteq> scanError"
  shows "(op = scanArrayValue \<longrightarrow> c = CHR '','' \<and> stk' = stk \<and> st' = stateBeginValue) \<and>
    (op = scanSkipSpace \<longrightarrow> isSpace c \<and> stk \<noteq> [] \<and> stk' = stk \<and> st' = stateEndValue) \<and>
    (op = scanEndArray \<longrightarrow> stk' = tl stk) \<and> (stk = [] \<longrightarrow> stk' = [])"
  using assms
  by (cases stk) (auto simp: step_EndValue_def step_EndTop_def scan_error_def popParseState_def Let_def
      split: if_splits parse_state.splits)

lemma step_EndValue_brace [simp]:
  "step_EndValue (parseObjectValue # stk) CHR ''}'' = popParseState (parseObjectValue # stk) scanEndObject"
  by (simp add: step_EndValue_def isSpace_def)

lemma scan_step_shape:
  assumes "scan_step lim (st, stk) c = ((st', stk'), op)" and "op \<noteq> scanError"
  shows "(op = scanArrayValue \<longrightarrow> st \<notin> begin_states \<and> stk' = stk \<and> st' = stateBeginValue) \<and>
    (op = scanSkipSpace \<longrightarrow> stk' = stk \<and> (st \<notin> begin_states \<longrightarrow> stk \<noteq> []) \<and> (st' \<notin> begin_states \<longrightarrow> st \<notin> begin_states)) \<and>
    (op = scanEndArray \<longrightarrow> stk' = tl stk) \<and>
    (stk = [] \<longrightarrow> stk' = [] \<or> length stk' = 1 \<and> st' \<in> begin_states)"
  using assms
  by (cases st)
     (auto simp: begin_states_def pushParseState_def scan_error_def step_BeginValue_def
        step_BeginString_def expect_def step_0_def step_EndTop_def popParseState_def Let_def
        split: if_splits dest!: step_EndValue_shape)

lemma raw_elements_nonempty:
  assumes "raw_elements lim s cur acc cs = Some els" and "\<forall>e \<in> set acc. e \<noteq> []"
    and "length (snd s) = 1 \<and> fst s \<notin> begin_states \<longrightarrow> cur \<noteq> []"
    and "2 \<le> length (snd s) \<longrightarrow> cur \<noteq> []"
  shows "\<forall>e \<in> set els. e \<noteq> []"
  using assms
proof (induction lim s cur acc cs rule: raw_elements.induct)
  case (1 lim s cur acc)
  then show ?case by (auto split: if_splits)
next
  case (2 lim s cur acc c cs)
  obtain st stk where s: "s = (st, stk)" by fastforce
  obtain st' stk' op where step: "scan_step lim s c = ((st', stk'), op)" by (metis prod.collapse)
  have nerr: "op \<noteq> scanError" using "2.prems"(1) step by auto
  note shape = scan_step_shape [OF step [unfolded s] nerr]
  note IH = "2.IH" [OF step [symmetric] nerr]
  consider (skip) "length stk = 1" "op = scanSkipSpace" | (comma) "length stk = 1" "op = scanArrayValue"
    | (close) "length stk = 1" "op = scanEndArray"
    | (byte) "length stk = 1" "op \<noteq> scanSkipSpace" "op \<noteq> scanArrayValue" "op \<noteq> scanEndArray"
    | (top) "stk = []" | (deep) "2 \<le> length stk"
    by (cases stk; cases "tl stk") auto
  then show ?case
  proof cases
    case skip
    show ?thesis by (rule IH(1)) (use skip "2.prems" step s shape nerr in auto)
  next
    case comma
    show ?thesis
      by (rule IH(2)) (use comma "2.prems" step s shape nerr in \<open>auto simp: begin_states_def\<close>)
  next
    case close
    then have "stk' = []" using shape by (cases stk) auto
    then show ?thesis
      by - (rule IH(3), use close "2.prems" step s nerr in \<open>auto split: if_splits\<close>)
  next
    case byte
    show ?thesis by (rule IH(4)) (use byte "2.prems" step s nerr in auto)
  next
    case top
    then have "raw_elements lim (st', stk') [] acc cs = Some els"
      using "2.prems"(1) step s nerr by simp
    moreover have "stk' = [] \<or> length stk' = 1 \<and> st' \<in> begin_states" using shape top by blast
    ultimately show ?thesis by - (rule IH(5), use top "2.prems"(2) s in auto)
  next
    case deep
    then have "stk \<noteq> []" by auto
    then show ?thesis by - (rule IH(6), use deep "2.prems" step s nerr in auto)
  qed
qed

lemma scan_run_blank:
  "\<forall>c \<in> set cs. ascii_space c \<Longrightarrow>
     scan_run lim (stateBeginValue, []) cs \<in> {None, Some (stateBeginValue, [])}"
proof (induction cs)
  case (Cons c cs)
  show ?case
  proof (cases "isSpace c")
    case True
    with Cons show ?thesis by (simp add: step_BeginValue_def)
  next
    case False
    with Cons.prems have "c = CHR 0x0B \<or> c = CHR 0x0C" by (auto simp: ascii_space_def)
    then have "scan_step lim (stateBeginValue, []) c = scan_error []"
      by (elim disjE) (simp_all add: step_BeginValue_def isSpace_def is_digit_def)
    then show ?thesis by (simp add: scan_error_def)
  qed
qed simp

lemma json_Valid_not_blank: "json_Valid data \<Longrightarrow> TrimSpace data \<noteq> []"
proof
  assume v: "json_Valid data" and "TrimSpace data = []"
  then have "\<forall>c \<in> set (dropWhile ascii_space data). ascii_space c"
    by (simp add: TrimSpace_def)
  then have "dropWhile ascii_space data = []"
    using hd_dropWhile [of ascii_space data] by (cases "dropWhile ascii_space data") auto
  then have "\<forall>c \<in> set data. ascii_space c" by simp
  from scan_run_blank [OF this, of maxNestingDepth] v show False
    by (auto simp: json_Valid_def json_valid_upto_def scan_eof_def step_BeginValue_def isSpace_def)
qed

lemma ProcessJSONAppend_nonempty:
  assumes "ProcessJSONAppend data allow = Inr frames" and "d \<in> set frames"
  shows "d \<noteq> []"
proof -
  have "\<forall>e \<in> set arr. e \<noteq> []" if "Unmarshal_raw x = Some arr" for x arr
    using raw_elements_nonempty [OF that [unfolded Unmarshal_raw_def]] by simp
  with assms json_Valid_not_blank [of data] show ?thesis
    by (auto simp: ProcessJSONAppend_def Let_def split: if_splits option.splits)
qed

section \<open>Round trip\<close>

text \<open>
  A value that the scanner accepts on its own is accepted inside an array, one level deeper: each
  step of the stand-alone run is matched with the enclosing array below the open containers.
\<close>

definition lift_scan :: "scanner \<Rightarrow> scanner" where
  "lift_scan s = (if fst s = stateEndTop then stateEndValue else fst s, snd s @ [parseArrayValue])"

definition scan_inv :: "scanner \<Rightarrow> bool" where
  "scan_inv s \<longleftrightarrow> (fst s = stateBeginStringOrEmpty \<longrightarrow> snd s \<noteq> [])"

lemma step_EndValue_lift:
  assumes "step_EndValue stk c = ((st', stk'), op)" and "op \<noteq> scanError" and "op \<noteq> scanEnd"
  shows "step_EndValue (stk @ [parseArrayValue]) c = (lift_scan (st', stk'), op)"
  using assms
  by (cases stk) (auto simp: step_EndValue_def step_EndTop_def scan_error_def popParseState_def Let_def lift_scan_def
      split: if_splits parse_state.splits)

lemma step_BeginValue_lift:
  assumes "step_BeginValue lim stk c = ((st', stk'), op)" and "op \<noteq> scanError"
  shows "step_BeginValue (Suc lim) (stk @ [parseArrayValue]) c = (lift_scan (st', stk'), op)"
  using assms by (auto simp: step_BeginValue_def pushParseState_def scan_error_def lift_scan_def split: if_splits)

lemma scan_step_lift:
  assumes "scan_step lim (st, stk) c = ((st', stk'), op)" and "op \<noteq> scanError" and "op \<noteq> scanEnd"
    and "scan_inv (st, stk)"
  shows "scan_step (Suc lim) (lift_scan (st, stk)) c = (lift_scan (st', stk'), op)"
proof (cases st)
  case stateBeginValueOrEmpty
  with assms step_EndValue_lift [of stk c] step_BeginValue_lift [of lim stk c] show ?thesis
    by (auto simp: lift_scan_def split: if_splits)
next
  case stateBeginValue
  with assms step_BeginValue_lift [of lim stk c] show ?thesis by (simp add: lift_scan_def)
next
  case stateBeginStringOrEmpty
  with assms(4) obtain x rest where "stk = x # rest" by (cases stk) (auto simp: scan_inv_def)
  with stateBeginStringOrEmpty assms(1-3) step_EndValue_lift [of "parseObjectValue # rest" c] show ?thesis
    by (auto simp: lift_scan_def step_BeginString_def scan_error_def split: if_splits)
next
  case stateEndTop
  with assms(1-3) show ?thesis by (auto simp: step_EndTop_def scan_error_def split: if_splits)
qed (use assms(1-3) step_EndValue_lift [of stk c] in
  \<open>auto simp: lift_scan_def step_BeginString_def scan_error_def expect_def step_0_def split: if_splits\<close>)

text \<open>What holds of the scanner inside a stand-alone value, after its first byte.\<close>

definition inside :: "scanner \<Rightarrow> bool" where
  "inside s \<longleftrightarrow>
     scan_inv s \<and> (snd s = [] \<longrightarrow> fst s \<notin> begin_states) \<and> (fst s = stateEndTop \<longrightarrow> snd s = [])"

lemma step_EndValue_inside: "step_EndValue stk c = (s', op) \<Longrightarrow> op \<noteq> scanError \<Longrightarrow> inside s'"
  by (cases stk) (auto simp: step_EndValue_def step_EndTop_def scan_error_def popParseState_def Let_def scan_inv_def
      inside_def begin_states_def split: if_splits parse_state.splits)

lemma step_BeginValue_inside:
  "step_BeginValue lim stk c = (s', op) \<Longrightarrow> op \<noteq> scanError \<Longrightarrow> stk \<noteq> [] \<or> \<not> isSpace c \<Longrightarrow> inside s'"
  by (auto simp: step_BeginValue_def pushParseState_def scan_error_def scan_inv_def inside_def begin_states_def split: if_splits)

lemma scan_step_inside:
  assumes "scan_step lim s c = (s', op)" and "op \<noteq> scanError" and "inside s"
  shows "inside s'"
proof -
  obtain st stk where s: "s = (st, stk)" by fastforce
  show ?thesis
  proof (cases st)
    case stateBeginValueOrEmpty
    with assms s show ?thesis
      by (auto simp: inside_def scan_inv_def begin_states_def split: if_splits
          dest: step_EndValue_inside [unfolded inside_def scan_inv_def begin_states_def]
            step_BeginValue_inside [unfolded inside_def scan_inv_def begin_states_def])
  next
    case stateBeginValue
    with assms s show ?thesis by (auto simp: inside_def begin_states_def dest: step_BeginValue_inside)
  next
    case stateBeginStringOrEmpty
    with assms s show ?thesis
      by (cases "c = CHR ''}''")
         (auto simp: inside_def scan_inv_def begin_states_def step_BeginString_def scan_error_def popParseState_def Let_def isSpace_def
           split: if_splits)
  next
    case stateBeginString
    with assms s show ?thesis
      by (auto simp: inside_def scan_inv_def begin_states_def step_BeginString_def scan_error_def split: if_splits)
  next
    case stateEndTop
    with assms s show ?thesis by (auto simp: step_EndTop_def scan_error_def inside_def scan_inv_def split: if_splits)
  qed (use assms s in \<open>auto simp: inside_def scan_inv_def begin_states_def expect_def step_0_def scan_error_def split: if_splits
      dest: step_EndValue_inside [unfolded inside_def scan_inv_def begin_states_def]\<close>)
qed

lemma step_EndValue_End: "step_EndValue stk c = (s', scanEnd) \<Longrightarrow> fst s' = stateEndTop \<and> isSpace c"
  by (cases stk) (auto simp: step_EndValue_def step_EndTop_def scan_error_def popParseState_def Let_def
      split: if_splits parse_state.splits)

lemma scan_step_End: "scan_step lim s c = (s', scanEnd) \<Longrightarrow> fst s' = stateEndTop \<and> isSpace c"
  by (cases s; cases "fst s")
     (auto simp: step_BeginValue_def pushParseState_def step_BeginString_def expect_def step_0_def scan_error_def
        step_EndTop_def popParseState_def Let_def split: if_splits dest: step_EndValue_End)

lemma scan_run_EndTop: "scan_run lim (stateEndTop, stk) cs = Some s' \<Longrightarrow> \<forall>c \<in> set cs. isSpace c"
  by (induction cs arbitrary: stk) (auto simp: step_EndTop_def scan_error_def split: if_splits prod.splits)

lemma scan_step_top:
  assumes "scan_step lim (st, []) c = (s', op)" and "op \<noteq> scanError" and "st \<notin> begin_states"
  shows "op \<noteq> scanSkipSpace \<and> op \<noteq> scanArrayValue \<and> op \<noteq> scanEndArray"
  using assms
  by (cases st) (auto simp: step_EndValue_def step_EndTop_def expect_def step_0_def scan_error_def begin_states_def split: if_splits)

lemma length_lift_scan [simp]: "length (snd (lift_scan s)) = Suc (length (snd s))"
  by (simp add: lift_scan_def)

lemma raw_elements_inside:
  assumes "scan_run lim s cs = Some sf" and "inside s" and "cs \<noteq> [] \<Longrightarrow> \<not> isSpace (last cs)"
  shows "raw_elements (Suc lim) (lift_scan s) cur acc (cs @ rest) =
      raw_elements (Suc lim) (lift_scan sf) (cur @ cs) acc rest \<and> inside sf"
  using assms
proof (induction cs arbitrary: s cur)
  case (Cons c cs)
  obtain s1 op where st: "scan_step lim s c = (s1, op)" by fastforce
  with Cons.prems(1) have ne: "op \<noteq> scanError" and run: "scan_run lim s1 cs = Some sf" by (auto split: if_splits)
  have end': "op \<noteq> scanEnd"
  proof
    assume "op = scanEnd"
    with st have e: "fst s1 = stateEndTop" "isSpace c" using scan_step_End by auto
    with run have "\<forall>c \<in> set cs. isSpace c" using scan_run_EndTop [of lim "snd s1" cs sf] by (cases s1) auto
    with e Cons.prems(3) show False by (cases cs) (auto split: if_splits)
  qed
  have l: "scan_step (Suc lim) (lift_scan s) c = (lift_scan s1, op)"
    using scan_step_lift [of lim "fst s" "snd s" c "fst s1" "snd s1" op] st ne end' Cons.prems(2)
    by (simp add: inside_def)
  have top: "op \<noteq> scanSkipSpace \<and> op \<noteq> scanArrayValue \<and> op \<noteq> scanEndArray" if "snd s = []"
    using scan_step_top [of lim "fst s" c s1 op] st ne Cons.prems(2) that by (cases s) (auto simp: inside_def)
  have i: "inside s1" by (rule scan_step_inside [OF st ne Cons.prems(2)])
  have "raw_elements (Suc lim) (lift_scan s) cur acc ((c # cs) @ rest) =
      raw_elements (Suc lim) (lift_scan s1) (cur @ [c]) acc (cs @ rest)"
    using l ne top by auto
  with Cons.IH [OF run i, of "cur @ [c]"] Cons.prems(3) show ?case by (simp split: if_splits)
qed simp

text \<open>A frame as the store keeps it: one value of at most \<open>lim\<close> open containers, without space around it.\<close>

definition json_frame :: "nat \<Rightarrow> bytes \<Rightarrow> bool" where
  "json_frame lim d \<longleftrightarrow> json_valid_upto lim d \<and> d \<noteq> [] \<and> \<not> isSpace (hd d) \<and> \<not> isSpace (last d)"

lemma blank_facts [simp]: "isSpace (CHR '' '')" "\<not> is_digit (CHR '' '')" "\<not> is_digit (CHR '','')" "\<not> is_digit (CHR '']'')"
    "\<not> is_hex (CHR '' '')" "\<not> isSpace (CHR '','')" "\<not> isSpace (CHR '']'')"
  by (simp_all add: isSpace_def is_digit_def is_hex_def)

lemma step_EndValue_blank: "stk \<noteq> [] \<Longrightarrow> fst (fst (step_EndValue stk (CHR '' ''))) \<noteq> stateEndTop"
  by (cases stk; cases "hd stk") (simp_all add: step_EndValue_def)

lemma scan_eof_top: "scan_eof lim (st, x # stk) \<Longrightarrow> st = stateEndTop"
  by (cases st)
     (simp_all add: scan_eof_def step_BeginValue_def step_BeginString_def expect_def step_0_def scan_error_def step_EndValue_blank)

lemma eof_terminator:
  assumes "inside sf" and "scan_eof lim sf"
  shows "scan_step lim' (lift_scan sf) (CHR '','') = ((stateBeginValue, [parseArrayValue]), scanArrayValue) \<and>
    scan_step lim' (lift_scan sf) (CHR '']'') = ((stateEndTop, []), scanEndArray) \<and> snd sf = []"
proof -
  obtain st stk where s: "sf = (st, stk)" by fastforce
  have "stk = []" using assms scan_eof_top [of lim st "hd stk" "tl stk"] unfolding s by (cases stk) (auto simp: inside_def)
  then show ?thesis
    using assms unfolding s
    by (cases st)
       (simp_all add: scan_eof_def inside_def lift_scan_def begin_states_def step_EndValue_def expect_def step_0_def
         scan_error_def popParseState_def)
qed

lemma step_BeginValue_bracket: "step_BeginValue lim stk (CHR '']'') = scan_error stk"
  by (simp add: step_BeginValue_def)

lemma step_BeginValue_op:
  "step_BeginValue lim stk c = (s', op) \<Longrightarrow> op \<noteq> scanError \<Longrightarrow> \<not> isSpace c \<Longrightarrow>
     op \<in> {scanBeginObject, scanBeginArray, scanBeginLiteral}"
  unfolding step_BeginValue_def pushParseState_def scan_error_def by (simp split: if_split_asm) 

lemma raw_elements_frame:
  assumes "json_frame lim d" and "st \<in> {stateBeginValue, stateBeginValueOrEmpty}"
  shows "\<exists>sf. inside sf \<and> scan_eof lim sf \<and>
    raw_elements (Suc lim) (st, [parseArrayValue]) [] acc (d @ rest) = raw_elements (Suc lim) (lift_scan sf) d acc rest"
proof -
  from assms(1) obtain c cs where d: "d = c # cs" by (cases d) (auto simp: json_frame_def)
  obtain s1 op where st: "step_BeginValue lim [] c = (s1, op)" by fastforce
  from assms(1) d st obtain sf where ne: "op \<noteq> scanError" and run: "scan_run lim s1 cs = Some sf" and eof: "scan_eof lim sf"
    by (auto simp: json_frame_def json_valid_upto_def split: option.splits if_splits)
  have sp: "\<not> isSpace c" "cs \<noteq> [] \<Longrightarrow> \<not> isSpace (last cs)" using assms(1) d by (auto simp: json_frame_def)
  have i: "inside s1" using step_BeginValue_inside [OF st ne] sp(1) by simp
  have l: "step_BeginValue (Suc lim) [parseArrayValue] c = (lift_scan s1, op)"
    using step_BeginValue_lift [of lim "[]" c "fst s1" "snd s1" op] st ne by simp
  have op: "op \<noteq> scanSkipSpace \<and> op \<noteq> scanArrayValue \<and> op \<noteq> scanEndArray" "c \<noteq> CHR '']''"
    using step_BeginValue_op [OF st ne sp(1)] st ne by (auto simp: step_BeginValue_bracket scan_error_def)
  have l': "scan_step (Suc lim) (st, [parseArrayValue]) c = (lift_scan s1, op)" using assms(2) l op(2) sp(1) by auto
  have "raw_elements (Suc lim) (st, [parseArrayValue]) [] acc (d @ rest) = raw_elements (Suc lim) (lift_scan s1) [c] acc (cs @ rest)"
    using op(1) ne by (simp add: d l')
  with raw_elements_inside [OF run i sp(2), of "[c]" acc rest] eof d show ?thesis by (intro exI [of _ sf]) (simp del: raw_elements.simps)
qed

lemma raw_elements_join:
  assumes "ds \<noteq> []" and "\<forall>d \<in> set ds. json_frame lim d" and "st \<in> {stateBeginValue, stateBeginValueOrEmpty}"
  shows "raw_elements (Suc lim) (st, [parseArrayValue]) [] acc (json_join ds @ '']'') = Some (acc @ ds)"
  using assms
proof (induction ds arbitrary: st acc rule: json_join.induct)
  case (2 d)
  from raw_elements_frame [of lim d st acc "'']''"] 2 obtain sf where
    sf: "inside sf" "scan_eof lim sf" and
    r: "raw_elements (Suc lim) (st, [parseArrayValue]) [] acc (d @ '']'') = raw_elements (Suc lim) (lift_scan sf) d acc '']''"
    by auto
  have "d \<noteq> []" using 2 by (simp add: json_frame_def)
  then show ?case
    using eof_terminator [OF sf, of "Suc lim"] by (simp add: r scan_eof_def)
next
  case (3 d e ds)
  from raw_elements_frame [of lim d st acc "'','' @ json_join (e # ds) @ '']''"] 3(3,4) obtain sf where
    sf: "inside sf" "scan_eof lim sf" and
    r: "raw_elements (Suc lim) (st, [parseArrayValue]) [] acc (d @ '','' @ json_join (e # ds) @ '']'') =
        raw_elements (Suc lim) (lift_scan sf) d acc ('','' @ json_join (e # ds) @ '']'')"
    by auto
  have "raw_elements (Suc lim) (lift_scan sf) d acc ('','' @ json_join (e # ds) @ '']'') =
      raw_elements (Suc lim) (stateBeginValue, [parseArrayValue]) [] (acc @ [d]) (json_join (e # ds) @ '']'')"
    using eof_terminator [OF sf, of "Suc lim"] by simp
  with 3 r show ?case by simp
qed simp

lemma raw_elements_valid:
  "raw_elements lim s cur acc cs = Some els \<Longrightarrow> \<exists>s'. scan_run lim s cs = Some s' \<and> scan_eof lim s'"
  by (induction lim s cur acc cs rule: raw_elements.induct) (auto split: if_splits prod.splits)

lemma ProcessJSONAppend_Format:
  assumes "ms \<noteq> []" and "\<forall>m \<in> set ms. json_frame (maxNestingDepth - 1) (msg_Data m)"
  shows "ProcessJSONAppend (FormatJSONResponse ms) allow = Inr (map msg_Data ms)"
proof -
  let ?ds = "map msg_Data ms"
  have f: "FormatJSONResponse ms = CHR ''['' # json_join ?ds @ '']''" using assms(1) by (simp add: FormatJSONResponse_def)
  have n: "maxNestingDepth = Suc (maxNestingDepth - 1)" by (simp add: maxNestingDepth_def)
  have "raw_elements maxNestingDepth (stateBeginValueOrEmpty, [parseArrayValue]) [] [] (json_join ?ds @ '']'') = Some ?ds"
    using raw_elements_join [of ?ds "maxNestingDepth - 1" stateBeginValueOrEmpty "[]"] assms n by simp
  then have u: "Unmarshal_raw (FormatJSONResponse ms) = Some ?ds"
    by (simp add: f Unmarshal_raw_def step_BeginValue_def isSpace_def pushParseState_def maxNestingDepth_def)
  have "json_Valid (FormatJSONResponse ms)"
    using raw_elements_valid [OF u [unfolded Unmarshal_raw_def]] by (auto simp: json_Valid_def json_valid_upto_def)
  moreover have "TrimSpace (FormatJSONResponse ms) = FormatJSONResponse ms"
    by (simp add: f TrimSpace_def ascii_space_def isSpace_def)
  ultimately show ?thesis using u assms(1) by (simp add: ProcessJSONAppend_def f)
qed

end
