(* ===== verification/Memory_Store.thy ===== *)
theory Memory_Store
  imports Write_Fence Producer Json_Frames
begin

text \<open>
  The in-memory store (\<^verbatim>\<open>src/store/memory_store.go\<close>), the reference implementation of the
  storage contract: its state, the long-poll manager, the claim markers and seals of the
  write fence, and the operations that write.  Every operation holds the store's mutex from
  its first lookup to its return, so it is one state transformer.

  The environment of an operation carries what Go reads from outside the store: the injected
  clock (sampled once per operation), the wall clock of marker retention, the bytes of
  \<^verbatim>\<open>crypto/rand\<close> (\<^const>\<open>None\<close> when the read fails) and the Unicode case folding that
  \<^verbatim>\<open>strings.EqualFold\<close> uses beyond ASCII.
\<close>

section \<open>State\<close>

record store_env =
  env_now :: gotime
  env_wall :: gotime
  env_rand :: "bytes option"
  env_fold :: "string \<Rightarrow> string \<Rightarrow> bool"

record memoryStream =
  st_metadata :: StreamMetadata
  st_messages :: "Message list"
  st_data :: bytes
  st_seals :: "string \<rightharpoonup> WriteFenceSeal"
  st_bound :: "string \<rightharpoonup> int64"
  st_lastFencedOff :: "Offset option"

record memoryMarker =
  mm_marker :: WriteFenceMarker
  mm_expiresAt :: gotime

text \<open>
  A waiter is a channel of capacity one, named by a number; \<open>lp_signal\<close> says whether the
  channel holds a token.
\<close>

record longPollManager =
  lp_waiters :: "string \<Rightarrow> nat list"
  lp_signal :: "nat \<Rightarrow> bool"

record MemoryStore =
  ms_streams :: "string \<rightharpoonup> memoryStream"
  ms_longPoll :: longPollManager
  ms_producerLocks :: "string set"
  ms_markers :: "string \<Rightarrow> string \<rightharpoonup> memoryMarker"

definition NewMemoryStore :: MemoryStore where
  "NewMemoryStore =
     \<lparr>ms_streams = Map.empty,
      ms_longPoll = \<lparr>lp_waiters = (\<lambda>_. []), lp_signal = (\<lambda>_. False)\<rparr>,
      ms_producerLocks = {},
      ms_markers = (\<lambda>_. Map.empty)\<rparr>"

definition put_stream :: "string \<Rightarrow> memoryStream \<Rightarrow> MemoryStore \<Rightarrow> MemoryStore" where
  "put_stream path stream s = s\<lparr>ms_streams := (ms_streams s)(path \<mapsto> stream)\<rparr>"

definition delete_stream :: "string \<Rightarrow> MemoryStore \<Rightarrow> MemoryStore" where
  "delete_stream path s = s\<lparr>ms_streams := (ms_streams s)(path := None)\<rparr>"

abbreviation upd_meta :: "(StreamMetadata \<Rightarrow> StreamMetadata) \<Rightarrow> memoryStream \<Rightarrow> memoryStream" where
  "upd_meta f st \<equiv> st\<lparr>st_metadata := f (st_metadata st)\<rparr>"

definition isExpired :: "store_env \<Rightarrow> StreamMetadata \<Rightarrow> bool" where
  "isExpired env m = IsExpiredAt m (env_now env)"

definition getProducerLock :: "string \<Rightarrow> string \<Rightarrow> MemoryStore \<Rightarrow> MemoryStore" where
  "getProducerLock streamPath producerId s =
     (let key = streamPath @ '':'' @ producerId
      in if key \<in> ms_producerLocks s then s
         else s\<lparr>ms_producerLocks := insert key (ms_producerLocks s)\<rparr>)"

section \<open>Incarnations\<close>

definition NewIncarnationID :: "store_env \<Rightarrow> store_error + string" where
  "NewIncarnationID env =
     (case env_rand env of None \<Rightarrow> Inl ErrIncarnation | Some raw \<Rightarrow> Inr (hex_EncodeToString raw))"

section \<open>Long-poll manager\<close>

definition lp_register :: "string \<Rightarrow> nat \<Rightarrow> longPollManager \<Rightarrow> longPollManager" where
  "lp_register path ch m = m\<lparr>lp_waiters := (lp_waiters m)(path := lp_waiters m path @ [ch])\<rparr>"

definition lp_unregister :: "string \<Rightarrow> nat \<Rightarrow> longPollManager \<Rightarrow> longPollManager" where
  "lp_unregister path ch m =
     m\<lparr>lp_waiters := (lp_waiters m)(path := remove1 ch (lp_waiters m path))\<rparr>"

definition lp_notify :: "string \<Rightarrow> longPollManager \<Rightarrow> longPollManager" where
  "lp_notify path m =
     m\<lparr>lp_signal := fold (\<lambda>ch sig. sig(ch := True)) (lp_waiters m path) (lp_signal m)\<rparr>"

definition lp_notifyClosed :: "string \<Rightarrow> longPollManager \<Rightarrow> longPollManager" where
  "lp_notifyClosed path m = lp_notify path m"

definition notify :: "string \<Rightarrow> MemoryStore \<Rightarrow> MemoryStore" where
  "notify path s = s\<lparr>ms_longPoll := lp_notify path (ms_longPoll s)\<rparr>"

definition notifyClosed :: "string \<Rightarrow> MemoryStore \<Rightarrow> MemoryStore" where
  "notifyClosed path s = s\<lparr>ms_longPoll := lp_notifyClosed path (ms_longPoll s)\<rparr>"

section \<open>Markers, seals and bindings\<close>

definition appendFenceRetention :: int64 where
  "appendFenceRetention = 120000000000"

definition store_marker ::
    "store_env \<Rightarrow> string \<Rightarrow> string \<Rightarrow> MemoryStore \<Rightarrow> WriteFenceMarker \<times> MemoryStore" where
  "store_marker env path authority s =
     (case ms_markers s path authority of
        None \<Rightarrow> (WriteFenceMarker0, s)
      | Some m \<Rightarrow>
          (if time_after (env_wall env) (mm_expiresAt m)
           then (WriteFenceMarker0,
                 s\<lparr>ms_markers := (ms_markers s)(path := (ms_markers s path)(authority := None))\<rparr>)
           else (mm_marker m, s)))"

definition setMarker ::
    "string \<Rightarrow> string \<Rightarrow> WriteFenceMarker \<Rightarrow> gotime \<Rightarrow> MemoryStore \<Rightarrow> MemoryStore" where
  "setMarker path authority m expiresAt s =
     (let m = m\<lparr>wm_Present := True\<rparr>
      in s\<lparr>ms_markers := (ms_markers s)(path := (ms_markers s path)
             (authority \<mapsto> \<lparr>mm_marker = m, mm_expiresAt = expiresAt\<rparr>))\<rparr>)"

definition tombstone ::
    "store_env \<Rightarrow> string \<Rightarrow> string \<Rightarrow> AppendFence \<Rightarrow> MemoryStore \<Rightarrow> bool \<times> MemoryStore" where
  "tombstone env path authority fence s =
     (case store_marker env path authority s of (cur, s) \<Rightarrow>
        if wm_Present cur \<and> (af_Generation fence < wm_Generation cur \<or>
             af_Generation fence = wm_Generation cur \<and>
               (wm_WakeID cur \<noteq> af_WakeID fence \<or> wm_Holder cur \<noteq> af_Holder fence))
        then (False, s)
        else (True, setMarker path authority
               (WriteFenceMarker0\<lparr>wm_State := WriteFenceMarkerRevoked,
                  wm_Generation := af_Generation fence, wm_WakeID := af_WakeID fence,
                  wm_Holder := af_Holder fence,
                  wm_StreamIncarnation := wm_StreamIncarnation cur\<rparr>)
               (time_add (env_wall env) appendFenceRetention) s))"

definition stream_seal ::
    "string \<Rightarrow> int64 \<Rightarrow> string \<Rightarrow> memoryStream \<Rightarrow> WriteFenceSeal \<times> memoryStream" where
  "stream_seal authority generation wakeID st =
     (let off = (case st_lastFencedOff st of None \<Rightarrow> sm_CurrentOffset (st_metadata st) | Some o' \<Rightarrow> o');
          sealed = \<lparr>ws_Present = True, ws_Generation = generation, ws_WakeID = wakeID, ws_Offset = off\<rparr>;
          st = st\<lparr>st_seals := (st_seals st)(authority \<mapsto> sealed)\<rparr>;
          st = upd_meta (\<lambda>m. m\<lparr>sm_SealedGeneration := generation, sm_SealedOffset := Some off\<rparr>) st
      in (sealed, st))"

definition stream_bind ::
    "AppendFence option \<Rightarrow> string \<Rightarrow> Offset \<Rightarrow> memoryStream \<Rightarrow> memoryStream" where
  "stream_bind fence producerID off st =
     (case fence of
        None \<Rightarrow> st
      | Some f \<Rightarrow>
          (if \<not> sm_WriteFence (st_metadata st) then st
           else st\<lparr>st_lastFencedOff := Some off,
                   st_bound := (st_bound st)(producerID \<mapsto> af_Generation f)\<rparr>))"

text \<open>A Go map read of a missing key gives the zero value.\<close>

definition seal_of :: "memoryStream \<Rightarrow> string \<Rightarrow> WriteFenceSeal" where
  "seal_of st authority = (case st_seals st authority of None \<Rightarrow> WriteFenceSeal0 | Some x \<Rightarrow> x)"

definition bound_of :: "memoryStream \<Rightarrow> string \<Rightarrow> int64" where
  "bound_of st producerID = (case st_bound st producerID of None \<Rightarrow> 0 | Some g \<Rightarrow> g)"

definition fenceRung ::
    "store_env \<Rightarrow> string \<Rightarrow> memoryStream \<Rightarrow> AppendFence option \<Rightarrow> string \<Rightarrow> int64 option \<Rightarrow>
       MemoryStore \<Rightarrow> WriteFenceOutcome \<times> MemoryStore" where
  "fenceRung env path stream fence producerID epoch s =
     (let md = st_metadata stream;
          inp = \<lparr>wi_StreamFenced = sm_WriteFence md, wi_StreamIncarnation = sm_Incarnation md,
                 wi_Fence = fence, wi_Marker = WriteFenceMarker0, wi_Seal = WriteFenceSeal0,
                 wi_NowNs = time_unix_nano (env_now env), wi_HasProducer = (epoch \<noteq> None),
                 wi_ProducerEpoch = 0, wi_BoundGeneration = 0\<rparr>
      in if fence = None \<and> \<not> wi_StreamFenced inp then (WriteFenceOutcome0, s)
         else (let inp = (case epoch of None \<Rightarrow> inp | Some e \<Rightarrow> inp\<lparr>wi_ProducerEpoch := e\<rparr>)
               in case fence of
                    Some f \<Rightarrow>
                      (let authority = FenceAuthority f
                       in case store_marker env path authority s of (m, s) \<Rightarrow>
                            (EvaluateWriteFence
                               (inp\<lparr>wi_Marker := m, wi_Seal := seal_of stream authority\<rparr>), s))
                  | None \<Rightarrow>
                      (EvaluateWriteFence
                         (if wi_StreamFenced inp \<and> wi_HasProducer inp
                          then inp\<lparr>wi_BoundGeneration := bound_of stream producerID\<rparr> else inp), s)))"

definition GrantAppendFence ::
    "store_env \<Rightarrow> string \<Rightarrow> AppendFence \<Rightarrow> MemoryStore \<Rightarrow> (bool \<times> store_error option) \<times> MemoryStore" where
  "GrantAppendFence env path fence s =
     (let nowNs = time_unix_nano (env_now env)
      in if \<not> fence_Complete fence \<or> af_LeaseUntilNs fence \<le> nowNs
         then ((False, Some ErrAppendFenced), s)
         else (case ms_streams s path of
                 None \<Rightarrow> ((False, None), s)
               | Some stream \<Rightarrow>
                   (if sm_Incarnation (st_metadata stream) = '''' then ((False, None), s)
                    else (let authority = FenceAuthority fence; seal = seal_of stream authority
                          in if ws_Present seal \<and> af_Generation fence \<le> ws_Generation seal
                             then ((False, Some ErrAppendFenced), s)
                             else (case store_marker env path authority s of (cur, s) \<Rightarrow>
                               if wm_Present cur \<and> af_Generation fence < wm_Generation cur
                               then ((False, Some ErrAppendFenced), s)
                               else if wm_Present cur \<and> af_Generation fence = wm_Generation cur \<and>
                                 (wm_State cur \<noteq> WriteFenceMarkerLive \<or> wm_WakeID cur \<noteq> af_WakeID fence \<or>
                                  wm_Holder cur \<noteq> af_Holder fence)
                               then ((False, Some ErrAppendFenced), s)
                               else
                                 (let lease =
                                        (if wm_Present cur \<and> af_Generation fence = wm_Generation cur
                                         then max (af_LeaseUntilNs fence) (wm_LeaseUntilNs cur)
                                         else af_LeaseUntilNs fence);
                                      s = (if wm_Present cur \<and> wm_Generation cur < af_Generation fence \<and>
                                              sm_WriteFence (st_metadata stream) \<and>
                                              (\<not> ws_Present seal \<or> ws_Generation seal < wm_Generation cur)
                                           then put_stream path
                                                  (snd (stream_seal authority (wm_Generation cur)
                                                          (wm_WakeID cur) stream)) s
                                           else s);
                                      s = setMarker path authority
                                            (WriteFenceMarker0\<lparr>wm_State := WriteFenceMarkerLive,
                                               wm_Generation := af_Generation fence,
                                               wm_WakeID := af_WakeID fence,
                                               wm_Holder := af_Holder fence,
                                               wm_LeaseUntilNs := lease,
                                               wm_StreamIncarnation := sm_Incarnation (st_metadata stream)\<rparr>)
                                            (time_add (time_add (env_wall env) (i64 (lease - nowNs)))
                                               appendFenceRetention) s
                                  in ((True, None), s)))))))"

definition RevokeAppendFence ::
    "store_env \<Rightarrow> string \<Rightarrow> AppendFence \<Rightarrow> MemoryStore \<Rightarrow> store_error option \<times> MemoryStore" where
  "RevokeAppendFence env path fence s =
     (if \<not> fence_Complete fence then (Some ErrAppendFenced, s)
      else (None, snd (tombstone env path (FenceAuthority fence) fence s)))"

definition SealResult0 :: SealResult where
  "SealResult0 = \<lparr>sr_Outcome = SealUnfenced, sr_Generation = 0, sr_FinalOffset = ZeroOffset\<rparr>"

text \<open>On the incomplete fence the Go code returns the empty \<^verbatim>\<open>SealResult{}\<close> beside the error.\<close>

definition SealAppendFence ::
    "store_env \<Rightarrow> string \<Rightarrow> AppendFence \<Rightarrow> MemoryStore \<Rightarrow> (store_error + SealResult) \<times> MemoryStore" where
  "SealAppendFence env path fence s =
     (if \<not> fence_Complete fence then (Inl ErrAppendFenced, s)
      else (let authority = FenceAuthority fence
            in case tombstone env path authority fence s of (ok, s) \<Rightarrow>
                 if \<not> ok then (Inr (SealResult0\<lparr>sr_Outcome := SealStale\<rparr>), s)
                 else (case ms_streams s path of
                         None \<Rightarrow> (Inr (SealResult0\<lparr>sr_Outcome := SealNotFound\<rparr>), s)
                       | Some stream \<Rightarrow>
                           (if \<not> sm_WriteFence (st_metadata stream)
                            then (Inr (SealResult0\<lparr>sr_Outcome := SealUnfenced\<rparr>), s)
                            else (let seal = seal_of stream authority
                                  in if ws_Present seal \<and> af_Generation fence \<le> ws_Generation seal
                                     then (Inr \<lparr>sr_Outcome = SealAlready,
                                                sr_Generation = ws_Generation seal,
                                                sr_FinalOffset = ws_Offset seal\<rparr>, s)
                                     else (case stream_seal authority (af_Generation fence)
                                                  (af_WakeID fence) stream of
                                             (sealed, stream) \<Rightarrow>
                                               (Inr \<lparr>sr_Outcome = SealSealed,
                                                     sr_Generation = ws_Generation sealed,
                                                     sr_FinalOffset = ws_Offset sealed\<rparr>,
                                                put_stream path stream s)))))))"

end
