(* ===== verification/Memory_Ops.thy ===== *)
theory Memory_Ops
  imports Memory_Store
begin

text \<open>
  The operations of \<^verbatim>\<open>src/store/memory_store.go\<close> that create, write, close and delete
  streams, and the reads across a fork chain that \<^verbatim>\<open>Create\<close> needs.  A read follows
  \<^verbatim>\<open>ForkedFrom\<close> recursively and the cascade of a delete follows it upwards; both are partial
  functions whose value \<^const>\<open>None\<close> is a run that does not return.
\<close>

section \<open>Fork chains\<close>

text \<open>The loop of \<^verbatim>\<open>readOwnMessages\<close>: \<^verbatim>\<open>continue\<close> below the offset, \<^verbatim>\<open>break\<close> at the cap.\<close>

fun own_messages :: "Message list \<Rightarrow> Offset \<Rightarrow> Offset option \<Rightarrow> Message list" where
  "own_messages [] offset capAtOffset = []"
| "own_messages (msg # msgs) offset capAtOffset =
     (if ByteOffset (msg_Offset msg) > ByteOffset offset then
        (if (case capAtOffset of None \<Rightarrow> False | Some c \<Rightarrow> \<not> LessThanOrEqual (msg_Offset msg) c)
         then [] else msg # own_messages msgs offset capAtOffset)
      else own_messages msgs offset capAtOffset)"

definition readOwnMessages :: "memoryStream \<Rightarrow> Offset \<Rightarrow> Offset option \<Rightarrow> Message list" where
  "readOwnMessages stream offset capAtOffset = own_messages (st_messages stream) offset capAtOffset"

partial_function (option) readForkedStream ::
    "MemoryStore \<Rightarrow> memoryStream \<Rightarrow> Offset \<Rightarrow> Message list option" where
  "readForkedStream s stream offset =
     (if sm_ForkedFrom (st_metadata stream) = '''' then Some (readOwnMessages stream offset None)
      else Option.bind
             (if LessThan offset (sm_ForkOffset (st_metadata stream)) then
                (case ms_streams s (sm_ForkedFrom (st_metadata stream)) of
                   None \<Rightarrow> Some []
                 | Some sourceStream \<Rightarrow>
                     Option.bind (readForkedStream s sourceStream offset)
                       (\<lambda>sourceMessages.
                          Some (filter (\<lambda>msg. LessThanOrEqual (msg_Offset msg)
                                                 (sm_ForkOffset (st_metadata stream))) sourceMessages)))
              else Some [])
             (\<lambda>inherited.
                let ownMessages = readOwnMessages stream offset None
                in if inherited = [] then Some ownMessages
                   else if ownMessages = [] then Some inherited
                   else Some (inherited @ ownMessages)))"

definition resolveForkSubOffset ::
    "MemoryStore \<Rightarrow> memoryStream \<Rightarrow> Offset \<Rightarrow> uint64 \<Rightarrow> (store_error + Offset \<times> bytes) option" where
  "resolveForkSubOffset s sourceStream forkOffset subOffset =
     Option.bind (readForkedStream s sourceStream forkOffset)
       (\<lambda>sourceMessages.
          Some (if IsJSONContentType (sm_ContentType (st_metadata sourceStream)) then
                  (if (of_nat (length sourceMessages) :: uint64) < subOffset
                   then Inl ErrInvalidForkSubOffset
                   else Inr (msg_Offset (sourceMessages ! (unat subOffset - 1)), []))
                else
                  (case sourceMessages of
                     [] \<Rightarrow> Inl ErrInvalidForkSubOffset
                   | m # _ \<Rightarrow>
                       (if (of_nat (length (msg_Data m)) :: uint64) < subOffset
                        then Inl ErrInvalidForkSubOffset
                        else Inr (forkOffset, take (unat subOffset) (msg_Data m))))))"

section \<open>Appending to a stream\<close>

text \<open>Each frame of a JSON body becomes one message, ending at the offset after its bytes.\<close>

fun append_frames :: "Offset \<Rightarrow> bytes list \<Rightarrow> Message list \<Rightarrow> Offset \<times> Message list" where
  "append_frames currentOffset [] msgs = (currentOffset, msgs)"
| "append_frames currentOffset (d # ds) msgs =
     (let currentOffset = Add currentOffset (of_nat (length d))
      in append_frames currentOffset ds (msgs @ [\<lparr>msg_Data = d, msg_Offset = currentOffset\<rparr>]))"

definition appendToStream ::
    "memoryStream \<Rightarrow> bytes \<Rightarrow> bool \<Rightarrow> store_error + Offset \<times> memoryStream" where
  "appendToStream stream data allowEmpty =
     (if IsJSONContentType (sm_ContentType (st_metadata stream)) then
        (case ProcessJSONAppend data allowEmpty of
           Inl err \<Rightarrow> Inl err
         | Inr messages \<Rightarrow>
             (case append_frames (sm_CurrentOffset (st_metadata stream)) messages (st_messages stream) of
                (currentOffset, msgs) \<Rightarrow> Inr (currentOffset, stream\<lparr>st_messages := msgs\<rparr>)))
      else
        (let newOffset = Add (sm_CurrentOffset (st_metadata stream)) (of_nat (length data))
         in Inr (newOffset,
                 stream\<lparr>st_messages := st_messages stream @ [\<lparr>msg_Data = data, msg_Offset = newOffset\<rparr>],
                        st_data := st_data stream @ data\<rparr>)))"

section \<open>Create\<close>

text \<open>\<^verbatim>\<open>strings.EqualFold\<close>: byte by byte while both strings are ASCII, Unicode folding after.\<close>

fun EqualFold :: "(string \<Rightarrow> string \<Rightarrow> bool) \<Rightarrow> string \<Rightarrow> string \<Rightarrow> bool" where
  "EqualFold slow (a # as) (b # bs) =
     (if 128 \<le> (of_char a :: nat) \<or> 128 \<le> (of_char b :: nat) then slow (a # as) (b # bs)
      else if ascii_lower a = ascii_lower b then EqualFold slow as bs else False)"
| "EqualFold slow as bs \<longleftrightarrow> length as = length bs"

definition resolveForkExpiry ::
    "CreateOptions \<Rightarrow> StreamMetadata \<Rightarrow> int64 option \<times> gotime option" where
  "resolveForkExpiry opts sourceMeta =
     (if co_TTLSeconds opts \<noteq> None then (co_TTLSeconds opts, None)
      else if co_ExpiresAt opts \<noteq> None then (None, co_ExpiresAt opts)
      else if sm_TTLSeconds sourceMeta \<noteq> None then (sm_TTLSeconds sourceMeta, None)
      else if sm_ExpiresAt sourceMeta \<noteq> None then (None, sm_ExpiresAt sourceMeta)
      else (None, None))"

type_synonym create_result = "(StreamMetadata option \<times> bool \<times> store_error option) \<times> MemoryStore"

abbreviation create_err :: "store_error \<Rightarrow> MemoryStore \<Rightarrow> create_result" where
  "create_err e s \<equiv> ((None, False, Some e), s)"

text \<open>
  The part of \<^verbatim>\<open>Create\<close> that validates the source of a fork: the source, the fork offset and
  the bytes of a binary sub-offset prefix, or the error.
\<close>

definition resolveFork ::
    "store_env \<Rightarrow> CreateOptions \<Rightarrow> MemoryStore \<Rightarrow> (store_error + memoryStream \<times> Offset \<times> bytes) option" where
  "resolveFork env opts s =
     (case ms_streams s (co_ForkedFrom opts) of
        None \<Rightarrow> Some (Inl ErrStreamNotFound)
      | Some ss \<Rightarrow>
          (let sourceMeta = st_metadata ss
           in if sm_SoftDeleted sourceMeta then Some (Inl ErrStreamSoftDeleted)
              else if isExpired env sourceMeta then Some (Inl ErrStreamNotFound)
              else if co_ContentType opts \<noteq> '''' \<and>
                      \<not> EqualFold (env_fold env) (co_ContentType opts) (sm_ContentType sourceMeta)
              then Some (Inl ErrContentTypeMismatch)
              else
                (let forkOffset = (case co_ForkOffset opts of
                                     Some off \<Rightarrow> off | None \<Rightarrow> sm_CurrentOffset sourceMeta)
                 in if LessThan forkOffset ZeroOffset \<or> LessThan (sm_CurrentOffset sourceMeta) forkOffset
                    then Some (Inl ErrInvalidForkOffset)
                    else (case co_ForkSubOffset opts of
                            None \<Rightarrow> Some (Inr (ss, forkOffset, []))
                          | Some sub \<Rightarrow>
                              (if \<not> 0 < sub then Some (Inr (ss, forkOffset, []))
                               else Option.bind (resolveForkSubOffset s ss forkOffset sub)
                                 (\<lambda>r. Some
                                    (case r of
                                       Inl err \<Rightarrow> Inl err
                                     | Inr (resolvedOffset, prefixBytes) \<Rightarrow>
                                         (if IsJSONContentType (sm_ContentType sourceMeta)
                                          then Inr (ss, resolvedOffset, [])
                                          else Inr (ss, forkOffset, prefixBytes)))))))))"

definition new_metadata :: "store_env \<Rightarrow> string \<Rightarrow> string \<Rightarrow> string \<Rightarrow> CreateOptions \<Rightarrow> StreamMetadata" where
  "new_metadata env path incarnation contentType opts =
     \<lparr>sm_Path = path, sm_Incarnation = incarnation, sm_ContentType = contentType,
      sm_CurrentOffset = ZeroOffset, sm_LastSeq = '''', sm_TTLSeconds = None, sm_ExpiresAt = None,
      sm_CreatedAt = env_now env, sm_LastAccessedAt = env_now env, sm_Producers = Map.empty,
      sm_Closed = co_Closed opts, sm_ClosedBy = None, sm_ForkedFrom = '''',
      sm_ForkOffset = ZeroOffset, sm_ForkOffsetRequested = None, sm_ForkSubOffset = 0,
      sm_RefCount = 0, sm_SoftDeleted = False, sm_WriteFence = co_WriteFence opts,
      sm_SealedGeneration = 0, sm_SealedOffset = None\<rparr>"

definition fork_metadata ::
    "CreateOptions \<Rightarrow> StreamMetadata \<Rightarrow> Offset \<Rightarrow> StreamMetadata \<Rightarrow> StreamMetadata" where
  "fork_metadata opts sourceMeta forkOffset meta =
     (case resolveForkExpiry opts sourceMeta of (forkTTL, forkExpiresAt) \<Rightarrow>
        meta\<lparr>sm_CurrentOffset := forkOffset, sm_ForkOffset := forkOffset,
             sm_ForkedFrom := co_ForkedFrom opts, sm_TTLSeconds := forkTTL,
             sm_ExpiresAt := forkExpiresAt, sm_ForkOffsetRequested := co_ForkOffset opts,
             sm_ForkSubOffset := (case co_ForkSubOffset opts of None \<Rightarrow> 0 | Some n \<Rightarrow> n)\<rparr>)"

definition empty_stream :: "StreamMetadata \<Rightarrow> memoryStream" where
  "empty_stream meta =
     \<lparr>st_metadata = meta, st_messages = [], st_data = [], st_seals = Map.empty,
      st_bound = Map.empty, st_lastFencedOff = None\<rparr>"

text \<open>The binary sub-offset prefix becomes the fork's first own message.\<close>

definition materialize_prefix :: "bytes \<Rightarrow> memoryStream \<Rightarrow> memoryStream" where
  "materialize_prefix prefix stream =
     (if 0 < length prefix then
        (let newOffset = Add (sm_CurrentOffset (st_metadata stream)) (of_nat (length prefix));
             stream = stream\<lparr>st_messages := st_messages stream @ [\<lparr>msg_Data = prefix, msg_Offset = newOffset\<rparr>],
                             st_data := st_data stream @ prefix\<rparr>
         in upd_meta (sm_CurrentOffset_update (\<lambda>_. newOffset)) stream)
      else stream)"

text \<open>Initial data is appended; a failure undoes the reference taken on the source.\<close>

definition finishCreate ::
    "string \<Rightarrow> CreateOptions \<Rightarrow> memoryStream \<Rightarrow> MemoryStore \<Rightarrow> create_result" where
  "finishCreate path opts stream s =
     (if 0 < length (co_InitialData opts) then
        (case appendToStream stream (co_InitialData opts) True of
           Inl err \<Rightarrow>
             (if co_ForkedFrom opts \<noteq> '''' then
                (case ms_streams s (co_ForkedFrom opts) of
                   None \<Rightarrow> create_err err s
                 | Some src \<Rightarrow>
                     create_err err
                       (put_stream (co_ForkedFrom opts)
                          (upd_meta (sm_RefCount_update (\<lambda>n. i32 (n - 1))) src) s))
              else create_err err s)
         | Inr (newOffset, stream) \<Rightarrow>
             (let stream = upd_meta (sm_CurrentOffset_update (\<lambda>_. newOffset)) stream
              in ((Some (st_metadata stream), True, None), put_stream path stream s)))
      else ((Some (st_metadata stream), True, None), put_stream path stream s))"

definition createNew :: "store_env \<Rightarrow> string \<Rightarrow> CreateOptions \<Rightarrow> MemoryStore \<Rightarrow> create_result option" where
  "createNew env path opts s =
     (case NewIncarnationID env of
        Inl err \<Rightarrow> Some (create_err err s)
      | Inr incarnation \<Rightarrow>
          (if co_ForkedFrom opts \<noteq> '''' then
             Option.bind (resolveFork env opts s)
               (\<lambda>r. case r of
                  Inl err \<Rightarrow> Some (create_err err s)
                | Inr (sourceStream, forkOffset, prefix) \<Rightarrow>
                    (let s = put_stream (co_ForkedFrom opts)
                               (upd_meta (sm_RefCount_update (\<lambda>n. i32 (n + 1))) sourceStream) s;
                         sourceMeta = st_metadata sourceStream;
                         contentType = (if co_ContentType opts = '''' then sm_ContentType sourceMeta
                                        else co_ContentType opts);
                         meta = fork_metadata opts sourceMeta forkOffset
                                  (new_metadata env path incarnation contentType opts);
                         stream = materialize_prefix prefix (empty_stream meta)
                     in Some (finishCreate path opts stream s)))
           else
             (let contentType = (if co_ContentType opts = '''' then ''application/octet-stream''
                                 else co_ContentType opts);
                  meta = (new_metadata env path incarnation contentType opts)
                           \<lparr>sm_TTLSeconds := co_TTLSeconds opts, sm_ExpiresAt := co_ExpiresAt opts\<rparr>
              in Some (finishCreate path opts (empty_stream meta) s))))"

definition Create :: "store_env \<Rightarrow> string \<Rightarrow> CreateOptions \<Rightarrow> MemoryStore \<Rightarrow> create_result option" where
  "Create env path opts s =
     (case ms_streams s path of
        None \<Rightarrow> createNew env path opts s
      | Some existing \<Rightarrow>
          (if isExpired env (st_metadata existing) then createNew env path opts (delete_stream path s)
           else if sm_SoftDeleted (st_metadata existing) then Some (create_err ErrStreamExists s)
           else if ConfigMatches (st_metadata existing) opts
           then Some ((Some (st_metadata existing), False, None), s)
           else Some (create_err ErrConfigMismatch s)))"

section \<open>Get, Has, Delete\<close>

definition Get :: "store_env \<Rightarrow> string \<Rightarrow> MemoryStore \<Rightarrow> store_error + StreamMetadata" where
  "Get env path s =
     (case ms_streams s path of
        None \<Rightarrow> Inl ErrStreamNotFound
      | Some stream \<Rightarrow>
          (if sm_SoftDeleted (st_metadata stream) then Inl ErrStreamSoftDeleted
           else if isExpired env (st_metadata stream) then Inl ErrStreamNotFound
           else Inr (st_metadata stream)))"

definition Has :: "store_env \<Rightarrow> string \<Rightarrow> MemoryStore \<Rightarrow> bool" where
  "Has env path s =
     (case ms_streams s path of
        None \<Rightarrow> False
      | Some stream \<Rightarrow>
          (if sm_SoftDeleted (st_metadata stream) then False else \<not> isExpired env (st_metadata stream)))"

partial_function (option) deleteWithCascade ::
    "string \<Rightarrow> MemoryStore \<Rightarrow> (store_error option \<times> MemoryStore) option" where
  "deleteWithCascade path s =
     (case ms_streams s path of
        None \<Rightarrow> Some (None, s)
      | Some stream \<Rightarrow>
          (let forkedFrom = sm_ForkedFrom (st_metadata stream);
               s = notify path (delete_stream path s)
           in if forkedFrom = '''' then Some (None, s)
              else (case ms_streams s forkedFrom of
                      None \<Rightarrow> Some (None, s)
                    | Some parent \<Rightarrow>
                        (let refs = i32 (sm_RefCount (st_metadata parent) - 1)
                         in if refs < 0
                            then Some (Some ErrRefCountUnderflow,
                                   put_stream forkedFrom (upd_meta (sm_RefCount_update (\<lambda>_. 0)) parent) s)
                            else (let s = put_stream forkedFrom
                                            (upd_meta (sm_RefCount_update (\<lambda>_. refs)) parent) s
                                  in if refs = 0 \<and> sm_SoftDeleted (st_metadata parent)
                                     then deleteWithCascade forkedFrom s
                                     else Some (None, s))))))"

definition Delete :: "string \<Rightarrow> MemoryStore \<Rightarrow> (store_error option \<times> MemoryStore) option" where
  "Delete path s =
     (case ms_streams s path of
        None \<Rightarrow> Some (Some ErrStreamNotFound, s)
      | Some stream \<Rightarrow>
          (if sm_SoftDeleted (st_metadata stream) then Some (Some ErrStreamSoftDeleted, s)
           else if 0 < sm_RefCount (st_metadata stream)
           then Some (None, put_stream path (upd_meta (sm_SoftDeleted_update (\<lambda>_. True)) stream) s)
           else deleteWithCascade path s))"

section \<open>Close\<close>

definition fence_refusal_close :: "WriteFenceOutcome \<Rightarrow> CloseResult" where
  "fence_refusal_close out =
     CloseResult0\<lparr>cr_FenceReason := wo_Reason out, cr_FenceGeneration := wo_Generation out,
                  cr_FenceHolder := wo_Holder out\<rparr>"

definition closeStream ::
    "store_env \<Rightarrow> string \<Rightarrow> AppendFence option \<Rightarrow> MemoryStore \<Rightarrow>
       (CloseResult option \<times> store_error option) \<times> MemoryStore" where
  "closeStream env path fence s =
     (case ms_streams s path of
        None \<Rightarrow> ((None, Some ErrStreamNotFound), s)
      | Some stream \<Rightarrow>
          (if isExpired env (st_metadata stream) then ((None, Some ErrStreamNotFound), s)
           else (case fenceRung env path stream fence '''' None s of (out, s) \<Rightarrow>
                   if wo_Reason out \<noteq> FenceNone
                   then ((Some (fence_refusal_close out), Some ErrAppendFenced), s)
                   else (let alreadyClosed = sm_Closed (st_metadata stream);
                             stream = upd_meta (sm_Closed_update (\<lambda>_. True)) stream;
                             s = notifyClosed path (put_stream path stream s)
                         in ((Some (CloseResult0\<lparr>cr_FinalOffset := sm_CurrentOffset (st_metadata stream),
                                                cr_AlreadyClosed := alreadyClosed\<rparr>), None), s)))))"

definition CloseStream ::
    "store_env \<Rightarrow> string \<Rightarrow> MemoryStore \<Rightarrow> (CloseResult option \<times> store_error option) \<times> MemoryStore" where
  "CloseStream env path s = closeStream env path None s"

definition CloseStreamFenced ::
    "store_env \<Rightarrow> string \<Rightarrow> AppendFence \<Rightarrow> MemoryStore \<Rightarrow>
       (CloseResult option \<times> store_error option) \<times> MemoryStore" where
  "CloseStreamFenced env path fence s =
     (if \<not> fence_Complete fence then ((None, Some ErrAppendFenced), s)
      else closeStream env path (Some fence) s)"

definition validateProducer ::
    "store_env \<Rightarrow> StreamMetadata \<Rightarrow> string \<Rightarrow> int64 \<Rightarrow> int64 \<Rightarrow>
       AppendResult \<times> ProducerState option \<times> store_error option" where
  "validateProducer env meta producerId epoch seq =
     ValidateProducer (sm_Producers meta producerId) epoch seq (tm_sec (env_now env))"

definition closed_by :: "StreamMetadata \<Rightarrow> string \<Rightarrow> int64 \<Rightarrow> int64 \<Rightarrow> bool" where
  "closed_by m producerId epoch seq =
     (case sm_ClosedBy m of
        None \<Rightarrow> False
      | Some c \<Rightarrow> cb_ProducerId c = producerId \<and> cb_Epoch c = epoch \<and> cb_Seq c = seq)"

definition CloseStreamWithProducer ::
    "store_env \<Rightarrow> string \<Rightarrow> CloseProducerOptions \<Rightarrow> MemoryStore \<Rightarrow>
       (CloseProducerResult option \<times> store_error option) \<times> MemoryStore" where
  "CloseStreamWithProducer env path opts s =
     (if (case cpo_Fence opts of None \<Rightarrow> False | Some f \<Rightarrow> \<not> fence_Complete f)
      then ((None, Some ErrAppendFenced), s)
      else
        (let pid = cpo_ProducerId opts; epoch = cpo_ProducerEpoch opts; seq = cpo_ProducerSeq opts;
             s = getProducerLock path pid s
         in case ms_streams s path of
              None \<Rightarrow> ((None, Some ErrStreamNotFound), s)
            | Some stream \<Rightarrow>
                (let md = st_metadata stream; tail = sm_CurrentOffset md
                 in if isExpired env md then ((None, Some ErrStreamNotFound), s)
                    else (case fenceRung env path stream (cpo_Fence opts) pid (Some epoch) s of (out, s) \<Rightarrow>
                      if wo_Reason out \<noteq> FenceNone
                      then ((Some (CloseProducerResult0\<lparr>cpr_FenceReason := wo_Reason out,
                                     cpr_FenceGeneration := wo_Generation out,
                                     cpr_FenceHolder := wo_Holder out\<rparr>), Some ErrAppendFenced), s)
                      else if sm_Closed md then
                        (if closed_by md pid epoch seq
                         then ((Some (CloseProducerResult0\<lparr>cpr_FinalOffset := tail,
                                        cpr_ProducerResult := ProducerResultDuplicate, cpr_LastSeq := seq,
                                        cpr_StreamClosed := True, cpr_AlreadyClosed := True\<rparr>), None), s)
                         else ((Some (CloseProducerResult0\<lparr>cpr_FinalOffset := tail,
                                        cpr_StreamClosed := True, cpr_AlreadyClosed := True\<rparr>),
                                Some ErrStreamClosed), s))
                      else (case validateProducer env md pid epoch seq of (result, newState, err) \<Rightarrow>
                        if err \<noteq> None
                        then ((Some (CloseProducerResult0\<lparr>cpr_FinalOffset := tail,
                                       cpr_ProducerResult := ar_ProducerResult result,
                                       cpr_CurrentEpoch := ar_CurrentEpoch result,
                                       cpr_ExpectedSeq := ar_ExpectedSeq result,
                                       cpr_ReceivedSeq := ar_ReceivedSeq result,
                                       cpr_LastSeq := ar_LastSeq result,
                                       cpr_StreamClosed := sm_Closed md\<rparr>), err), s)
                        else if ar_ProducerResult result = ProducerResultDuplicate
                        then ((Some (CloseProducerResult0\<lparr>cpr_FinalOffset := tail,
                                       cpr_ProducerResult := ProducerResultDuplicate,
                                       cpr_LastSeq := ar_LastSeq result,
                                       cpr_StreamClosed := sm_Closed md,
                                       cpr_AlreadyClosed := sm_Closed md\<rparr>), None), s)
                        else
                          (let md = md\<lparr>sm_Producers := (sm_Producers md)(pid := newState), sm_Closed := True,
                                       sm_ClosedBy := Some \<lparr>cb_ProducerId = pid, cb_Epoch = epoch, cb_Seq = seq\<rparr>\<rparr>;
                               stream = stream_bind (cpo_Fence opts) pid tail (stream\<lparr>st_metadata := md\<rparr>);
                               s = notifyClosed path (put_stream path stream s)
                           in ((Some (CloseProducerResult0\<lparr>cpr_FinalOffset := tail,
                                        cpr_ProducerResult := ar_ProducerResult result,
                                        cpr_LastSeq := ar_LastSeq result, cpr_StreamClosed := True,
                                        cpr_AlreadyClosed := False\<rparr>), None), s)))))))"

section \<open>Append\<close>

text \<open>
  The commit at the end of \<^verbatim>\<open>Append\<close>: the messages are in place; the tail, the binding, the
  application sequence, the producer state and a requested closure follow, then the waiters.
\<close>

definition commit_stream ::
    "AppendOptions \<Rightarrow> ProducerState option \<Rightarrow> Offset \<Rightarrow> memoryStream \<Rightarrow> memoryStream" where
  "commit_stream opts producerState newOffset stream =
     (let stream = upd_meta (sm_CurrentOffset_update (\<lambda>_. newOffset)) stream;
          stream = stream_bind (ao_Fence opts) (ao_ProducerId opts) newOffset stream;
          stream = (if ao_Seq opts \<noteq> '''' then upd_meta (sm_LastSeq_update (\<lambda>_. ao_Seq opts)) stream
                    else stream);
          stream = (case producerState of
                      None \<Rightarrow> stream
                    | Some p \<Rightarrow> upd_meta (sm_Producers_update (\<lambda>ps. ps(ao_ProducerId opts \<mapsto> p))) stream);
          stream = (if ao_Close opts then upd_meta (sm_Closed_update (\<lambda>_. True)) stream else stream)
      in if ao_Close opts \<and> HasAllProducerHeaders opts
         then upd_meta (sm_ClosedBy_update (\<lambda>_.
                Some \<lparr>cb_ProducerId = ao_ProducerId opts, cb_Epoch = the (ao_ProducerEpoch opts),
                      cb_Seq = the (ao_ProducerSeq opts)\<rparr>)) stream
         else stream)"

definition append_commit ::
    "string \<Rightarrow> AppendOptions \<Rightarrow> ProducerState option \<Rightarrow> Offset \<Rightarrow> memoryStream \<Rightarrow> MemoryStore \<Rightarrow> MemoryStore" where
  "append_commit path opts producerState newOffset stream s =
     (let s = put_stream path (commit_stream opts producerState newOffset stream) s;
          s = (if ao_Close opts then notifyClosed path s else s)
      in notify path s)"

definition append_data ::
    "string \<Rightarrow> bytes \<Rightarrow> AppendOptions \<Rightarrow> ProducerState option \<Rightarrow> ProducerResult \<Rightarrow> int64 \<Rightarrow>
       memoryStream \<Rightarrow> MemoryStore \<Rightarrow> (AppendResult \<times> store_error option) \<times> MemoryStore" where
  "append_data path data opts producerState producerResult producerLastSeq stream s =
     (if ao_Seq opts \<noteq> '''' \<and> sm_LastSeq (st_metadata stream) \<noteq> '''' \<and>
         ao_Seq opts \<le> sm_LastSeq (st_metadata stream)
      then ((AppendResult0, Some ErrSequenceConflict), s)
      else (case appendToStream stream data False of
              Inl err \<Rightarrow> ((AppendResult0, Some err), s)
            | Inr (newOffset, stream) \<Rightarrow>
                ((AppendResult0\<lparr>ar_Offset := newOffset, ar_ProducerResult := producerResult,
                                ar_LastSeq := producerLastSeq, ar_StreamClosed := ao_Close opts\<rparr>, None),
                 append_commit path opts producerState newOffset stream s)))"

text \<open>The rungs of \<^verbatim>\<open>Append\<close> after the fence and the sliding-TTL touch.\<close>

definition append_open ::
    "store_env \<Rightarrow> string \<Rightarrow> bytes \<Rightarrow> AppendOptions \<Rightarrow> memoryStream \<Rightarrow> MemoryStore \<Rightarrow>
       (AppendResult \<times> store_error option) \<times> MemoryStore" where
  "append_open env path data opts stream s =
     (let md = st_metadata stream; tail = sm_CurrentOffset md
      in if sm_Closed md then
           (if HasAllProducerHeaders opts \<and>
               closed_by md (ao_ProducerId opts) (the (ao_ProducerEpoch opts)) (the (ao_ProducerSeq opts))
            then ((AppendResult0\<lparr>ar_Offset := tail, ar_ProducerResult := ProducerResultDuplicate,
                     ar_LastSeq := the (ao_ProducerSeq opts), ar_StreamClosed := True\<rparr>, None), s)
            else ((AppendResult0\<lparr>ar_Offset := tail, ar_StreamClosed := True\<rparr>, Some ErrStreamClosed), s))
         else if ao_ContentType opts \<noteq> '''' \<and> \<not> ContentTypeMatches (sm_ContentType md) (ao_ContentType opts)
         then ((AppendResult0, Some ErrContentTypeMismatch), s)
         else if HasAllProducerHeaders opts then
           (case validateProducer env md (ao_ProducerId opts) (the (ao_ProducerEpoch opts))
                   (the (ao_ProducerSeq opts)) of (result, newState, err) \<Rightarrow>
              if err \<noteq> None then ((result\<lparr>ar_Offset := tail\<rparr>, err), s)
              else if ar_ProducerResult result = ProducerResultDuplicate
              then ((AppendResult0\<lparr>ar_Offset := tail, ar_ProducerResult := ProducerResultDuplicate,
                       ar_LastSeq := ar_LastSeq result\<rparr>, None), s)
              else append_data path data opts newState (ar_ProducerResult result) (ar_LastSeq result) stream s)
         else append_data path data opts None ProducerResultNone 0 stream s)"

definition Append ::
    "store_env \<Rightarrow> string \<Rightarrow> bytes \<Rightarrow> AppendOptions \<Rightarrow> MemoryStore \<Rightarrow>
       (AppendResult \<times> store_error option) \<times> MemoryStore" where
  "Append env path data opts s =
     (if (case ao_Fence opts of None \<Rightarrow> False | Some f \<Rightarrow> \<not> fence_Complete f)
      then ((AppendResult0, Some ErrAppendFenced), s)
      else if HasProducerHeaders opts \<and> \<not> HasAllProducerHeaders opts
      then ((AppendResult0, Some ErrPartialProducer), s)
      else
        (let s = (if HasAllProducerHeaders opts then getProducerLock path (ao_ProducerId opts) s else s)
         in case ms_streams s path of
              None \<Rightarrow> ((AppendResult0, Some ErrStreamNotFound), s)
            | Some stream \<Rightarrow>
                (if sm_SoftDeleted (st_metadata stream) then ((AppendResult0, Some ErrStreamSoftDeleted), s)
                 else if isExpired env (st_metadata stream)
                 then ((AppendResult0, Some ErrStreamNotFound), s)
                 else (case fenceRung env path stream (ao_Fence opts) (ao_ProducerId opts)
                              (ao_ProducerEpoch opts) s of (out, s) \<Rightarrow>
                   if wo_Reason out \<noteq> FenceNone
                   then ((AppendResult0\<lparr>ar_FenceReason := wo_Reason out,
                            ar_FenceGeneration := wo_Generation out, ar_FenceHolder := wo_Holder out\<rparr>,
                          Some ErrAppendFenced), s)
                   else
                     (let stream = upd_meta (sm_LastAccessedAt_update (\<lambda>_. env_now env)) stream;
                          s = put_stream path stream s
                      in append_open env path data opts stream s)))))"

section \<open>Small reads\<close>

definition GetCurrentOffset :: "string \<Rightarrow> MemoryStore \<Rightarrow> store_error + Offset" where
  "GetCurrentOffset path s =
     (case ms_streams s path of
        None \<Rightarrow> Inl ErrStreamNotFound
      | Some stream \<Rightarrow> Inr (sm_CurrentOffset (st_metadata stream)))"

definition FormatResponse :: "string \<Rightarrow> Message list \<Rightarrow> MemoryStore \<Rightarrow> store_error + bytes" where
  "FormatResponse path messages s =
     (case ms_streams s path of
        None \<Rightarrow> Inl ErrStreamNotFound
      | Some stream \<Rightarrow>
          (if IsJSONContentType (sm_ContentType (st_metadata stream))
           then Inr (FormatJSONResponse messages)
           else Inr (concat (map msg_Data messages))))"

end
