(* ===== verification/Stream_Mirrors.thy ===== *)
theory Stream_Mirrors
  imports Stream_Scripts Memory_Ops
begin

text \<open>
  The decisions the stream scripts repeat in Lua agree with the Go code they mirror: producer
  validation, the write fence, content types, expiry and the authority of a marker key, on every
  text the Go side writes.
\<close>

section \<open>Matching what Go wrote\<close>

lemma match_int_FormatInt:
  assumes "rest = '''' \<or> \<not> is_digit (hd rest)"
  shows "match_int (FormatInt x @ rest) = Some (FormatInt x, rest)"
proof -
  have d: "takeWhile is_digit (dec_digits n @ rest) = dec_digits n" for n
    using assms by (subst takeWhile_append2) (auto simp: dec_digits_digits takeWhile_eq_Nil_iff)
  have h: "take 1 (dec_digits n @ rest) = [hd (dec_digits n)]" "hd (dec_digits n) \<noteq> CHR ''-''" for n
    using dec_digits_digits [of "hd (dec_digits n)" n] by (cases "dec_digits n"; auto simp: is_digit_def)+
  show ?thesis
  proof (cases "x < 0")
    case True
    then show ?thesis by (simp add: match_int_def FormatInt_def d)
  next
    case False
    have "takeWhile (\<lambda>c. c = CHR ''-'') (take 1 (dec_digits (nat x) @ rest)) = ''''" using h [of "nat x"] by simp
    then show ?thesis using False unfolding match_int_def FormatInt_def Let_def by (simp add: d)
  qed
qed

lemma match_producer_encode:
  "match_producer (encodeProducerState s) = Some (FormatInt (ps_Epoch s), FormatInt (ps_LastSeq s))"
proof -
  have "match_int (FormatInt x @ '':'' @ rest) = Some (FormatInt x, '':'' @ rest)" for x rest
    by (rule match_int_FormatInt) (simp add: is_digit_def)
  then show ?thesis by (simp add: match_producer_def encodeProducerState_def)
qed

section \<open>Producers\<close>

text \<open>How a Go validation reads as the script's outcome and its two details.\<close>

definition producer_outcome :: "AppendResult \<Rightarrow> store_error option \<Rightarrow> string \<times> string option \<times> string option" where
  "producer_outcome r err =
     (case err of
        None \<Rightarrow> (if ar_ProducerResult r = ProducerResultDuplicate then (''DUP'', Some (FormatInt (ar_LastSeq r)), None)
                 else (''ACCEPT'', None, None))
      | Some e \<Rightarrow>
          (if e = ErrStaleEpoch then (''STALE_EPOCH'', Some (FormatInt (ar_CurrentEpoch r)), None)
           else if e = ErrInvalidEpochSeq then (''EPOCH_SEQ'', None, None)
           else (''SEQ_GAP'', Some (FormatInt (ar_ExpectedSeq r)), Some (FormatInt (ar_ReceivedSeq r)))))"

lemma FormatInt_0: "FormatInt 0 = ''0''"
  by (simp add: FormatInt_def small_digits)

lemma sgn_iff: "sgn (x - y) < 0 \<longleftrightarrow> x < (y :: int)" "0 < sgn (x - y) \<longleftrightarrow> y < x" "sgn (x - y) \<le> 0 \<longleftrightarrow> x \<le> y"
  "sgn (x - y) = 0 \<longleftrightarrow> x = y" "sgn x \<le> 0 \<longleftrightarrow> x \<le> 0" "0 < sgn x \<longleftrightarrow> 0 < x"
  by (auto simp: sgn_if)


lemma validate_producer_mirror:
  assumes "is_i64 seq" and "\<And>s. st = Some s \<Longrightarrow> is_i64 (ps_LastSeq s)"
  shows "validate_producer (map_option encodeProducerState st) (FormatInt epoch) (FormatInt seq) =
    Some (case ValidateProducer st epoch seq now of (r, _, err) \<Rightarrow> producer_outcome r err)"
proof (cases st)
  case None
  then show ?thesis
    by (simp add: validate_producer_def ValidateProducer_def producer_outcome_def AppendResult0_def FormatInt_0)
next
  case (Some s)
  have "i64 (ps_LastSeq s + 1) = ps_LastSeq s + 1" if "ps_LastSeq s < seq"
    using that assms Some by (intro i64_id) (auto simp: is_i64_def)
  then show ?thesis using Some
    by (auto simp: validate_producer_def ValidateProducer_def producer_outcome_def AppendResult0_def match_producer_encode
        Let_def sgn_iff)
qed

section \<open>The write fence\<close>

fun reason_text :: "FenceReason \<Rightarrow> string" where
  "reason_text FenceNone = ''''"
| "reason_text FenceSealed = ''sealed''"
| "reason_text FenceMarker = ''marker''"
| "reason_text FenceProducerRequired = ''producer_required''"
| "reason_text FenceEpoch = ''epoch''"
| "reason_text FenceBound = ''bound''"

fun state_text :: "MarkerState \<Rightarrow> string" where
  "state_text WriteFenceMarkerNone = ''''"
| "state_text WriteFenceMarkerLive = ''live''"
| "state_text WriteFenceMarkerRevoked = ''revoked''"

text \<open>The reply of \<^verbatim>\<open>HMGET\<close> for a marker; a tombstone of a stream never granted has no incarnation.\<close>

definition marker_row :: "WriteFenceMarker \<Rightarrow> string option list \<Rightarrow> bool" where
  "marker_row m row \<longleftrightarrow>
     (if wm_Present m
      then \<exists>inc. row = [Some (state_text (wm_State m)), Some (FormatInt (wm_Generation m)), Some (wm_WakeID m),
             Some (wm_Holder m), Some (FormatInt (wm_LeaseUntilNs m)), inc] \<and>
             (inc = Some (wm_StreamIncarnation m) \<or> inc = None \<and> wm_StreamIncarnation m = '''')
      else row = [None, None, None, None, None, None])"

lemma state_text_live [simp]: "state_text s = ''live'' \<longleftrightarrow> s = WriteFenceMarkerLive"
  by (cases s) auto

lemma evaluate_open:
  assumes "wi_Fence inp = None"
  shows "evaluate_write_fence (wi_StreamFenced inp) inc False g w h row sp sg now (wi_HasProducer inp) pe (FormatInt (wi_BoundGeneration inp)) =
    Some (case EvaluateWriteFence inp of out \<Rightarrow> (reason_text (wo_Reason out), FormatInt (wo_Generation out), wo_Holder out))"
proof -
  have "int_cmp (FormatInt (wi_BoundGeneration inp)) ''0'' = sgn (wi_BoundGeneration inp)"
    using int_cmp_FormatInt [of "wi_BoundGeneration inp" 0] by (simp add: FormatInt_0)
  then show ?thesis using assms
    by (simp add: evaluate_write_fence_def EvaluateWriteFence_def WriteFenceOutcome0_def Let_def sgn_iff)
qed

lemma evaluate_fenced:
  assumes "wi_Fence inp = Some f" and "marker_row (wi_Marker inp) row" and "wi_StreamIncarnation inp \<noteq> ''''"
    and "wm_Present (wi_Marker inp) \<Longrightarrow>
      (now < to_double (wm_LeaseUntilNs (wi_Marker inp))) = (wi_NowNs inp < wm_LeaseUntilNs (wi_Marker inp))"
  shows "evaluate_write_fence (wi_StreamFenced inp) (Some (wi_StreamIncarnation inp)) True (FormatInt (af_Generation f)) (af_WakeID f) (af_Holder f)
      row (ws_Present (wi_Seal inp)) (if ws_Present (wi_Seal inp) then FormatInt (ws_Generation (wi_Seal inp)) else ''0'') now
      (wi_HasProducer inp) (FormatInt (wi_ProducerEpoch inp)) bg =
    Some (case EvaluateWriteFence inp of out \<Rightarrow> (reason_text (wo_Reason out), FormatInt (wo_Generation out), wo_Holder out))"
proof (cases "wm_Present (wi_Marker inp)")
  case False
  then have "row = [None, None, None, None, None, None]" using assms(2) by (simp add: marker_row_def)
  with False assms(1) show ?thesis
    by (auto simp: evaluate_write_fence_def EvaluateWriteFence_def WriteFenceOutcome0_def Let_def sgn_iff FormatInt_0)
next
  case True
  then obtain inc where row: "row = [Some (state_text (wm_State (wi_Marker inp))), Some (FormatInt (wm_Generation (wi_Marker inp))),
      Some (wm_WakeID (wi_Marker inp)), Some (wm_Holder (wi_Marker inp)), Some (FormatInt (wm_LeaseUntilNs (wi_Marker inp))), inc]"
    and inc: "(case inc of None \<Rightarrow> '''' | Some x \<Rightarrow> x) = wm_StreamIncarnation (wi_Marker inp)"
    using assms(2) by (auto simp: marker_row_def)
  have num: "tonumber (Some (FormatInt x)) = Some (to_double x)" for x by (simp add: tonumber_def parse_double_FormatInt)
  show ?thesis using True assms(1,4) unfolding row
    by (auto simp: evaluate_write_fence_def EvaluateWriteFence_def WriteFenceOutcome0_def Let_def sgn_iff num inc)
qed


section \<open>Content types\<close>

definition normalizeCT :: "string \<Rightarrow> string" where
  "normalizeCT ct =
     (let ct = (if ct = '''' then ''application/octet-stream'' else ct)
      in map ascii_lower (extractMediaType ct))"

lemma normalizeCT_key: "normalizeCT ct = media_key ct"
  by (simp add: normalizeCT_def media_key_def toLower_def Let_def)

lemma norm_ct_key: "norm_ct (Some ct) = media_key ct"
  by (simp add: norm_ct_def media_key_def toLower_def extractMediaType_takeWhile ascii_lower_def is_ascii_upper_def)

lemma norm_ct_mirror: "norm_ct (Some a) = normalizeCT b \<longleftrightarrow> ContentTypeMatches a b"
  by (simp add: norm_ct_key normalizeCT_key ContentTypeMatches_iff)

section \<open>Authorities\<close>

lemma b64_char_RawURLEncoding: "c \<in> set (RawURLEncoding s) \<Longrightarrow> b64_char c"
proof -
  assume "c \<in> set (RawURLEncoding s)"
  then obtain i where i: "i \<in> set (b64_sextets (map of_char s))" "c = b64_alphabet ! i" by (auto simp: RawURLEncoding_def)
  then have "c \<in> set b64_alphabet" using b64_of_char_bound [of s] by (simp add: b64_alphabet_length)
  moreover have "list_all b64_char b64_alphabet" by (simp add: b64_alphabet_def b64_char_def is_digit_def less_eq_char_def)
  ultimately show ?thesis by (simp add: list_all_iff)
qed

lemma match_authority_parts:
  assumes "w \<noteq> ''''" and "\<forall>c \<in> set w. b64_char c" and "n \<noteq> ''''" and "list_all is_digit n"
  shows "match_authority ('':append-fence:'' @ w @ '':'' @ n) = Some (w @ '':'' @ n)"
proof -
  have "takeWhile b64_char (w @ CHR '':'' # n) = w"
    using assms(2) by (subst takeWhile_append2) (auto simp: b64_char_def is_digit_def less_eq_char_def)
  then show ?thesis using assms by (simp add: match_authority_def has_prefix_iff)
qed

lemma match_authority_suffix:
  assumes "0 \<le> af_Shard f"
  shows "match_authority ('':append-fence:'' @ FenceAuthority f) = Some (FenceAuthority f)"
proof -
  let ?w = "RawURLEncoding (af_SubscriptionID f @ [char_of (0 :: nat)] @ af_SubscriptionIncarnation f)"
  have a: "FenceAuthority f = ?w @ '':'' @ FormatInt (af_Shard f)" by (simp add: FenceAuthority_def Let_def)
  have "?w \<noteq> RawURLEncoding ''''" by (subst RawURLEncoding_inject) simp
  then have "?w \<noteq> ''''" by (simp add: RawURLEncoding_def)
  moreover have "FormatInt (af_Shard f) \<noteq> ''''" "list_all is_digit (FormatInt (af_Shard f))"
    using assms by (auto simp: FormatInt_def list_all_iff dec_digits_digits)
  ultimately show ?thesis unfolding a using b64_char_RawURLEncoding by (intro match_authority_parts) auto
qed

lemma prefix_of_append: "q @ s = p @ t \<Longrightarrow> length q \<le> length p \<Longrightarrow> set q \<subseteq> set p"
  by (metis append_eq_append_conv_if set_take_subset)

lemma match_authority_brace:
  assumes "q \<noteq> ''''" and "last q = CHR ''}''"
  shows "match_authority (q @ s) = None"
proof (rule ccontr)
  assume m: "match_authority (q @ s) \<noteq> None"
  then obtain t where t: "q @ s = '':append-fence:'' @ t" by (auto simp: match_authority_def has_prefix_iff split: if_splits)
  let ?w = "takeWhile b64_char t"
  from m t have r: "take 1 (drop (length ?w) t) = '':''" "list_all is_digit (tl (drop (length ?w) t))"
    by (auto simp: match_authority_def Let_def split: if_splits)
  have len: "14 < length q"
  proof (rule ccontr)
    assume "\<not> 14 < length q"
    then have "set q \<subseteq> set '':append-fence:''" by (intro prefix_of_append [OF t]) simp
    then have "CHR ''}'' \<in> set '':append-fence:''" using assms last_in_set by fastforce
    then show False by simp
  qed
  have "drop 14 q @ s = t" using arg_cong [OF t, of "drop 14"] len by simp
  then have "CHR ''}'' \<in> set t" using assms len last_drop [of 14 q] last_in_set [of "drop 14 q"] by auto
  moreover have "t = ?w @ drop (length ?w) t" by (metis takeWhile_eq_take append_take_drop_id)
  ultimately consider "CHR ''}'' \<in> set ?w" | "CHR ''}'' \<in> set (drop (length ?w) t)" by (metis Un_iff set_append)
  then show False
  proof cases
    case 1
    then have "b64_char CHR ''}''" by (rule set_takeWhileD [THEN conjunct2])
    then show False by (simp add: b64_char_def is_digit_def less_eq_char_def)
  next
    case 2
    then obtain r where "drop (length ?w) t = CHR '':'' # r" using r(1) by (cases "drop (length ?w) t") auto
    with 2 r(2) have "is_digit CHR ''}''" by (auto simp: list_all_iff)
    then show False by (simp add: is_digit_def)
  qed
qed

lemma fence_auth_skip: "q = '''' \<or> last q = CHR ''}'' \<Longrightarrow> fence_auth (q @ s) = fence_auth s"
proof (induction q)
  case (Cons c q)
  then have "match_authority ((c # q) @ s) = None" by (intro match_authority_brace) auto
  moreover have "fence_auth (q @ s) = fence_auth s" using Cons by (cases q) auto
  ultimately show ?case by simp
qed simp

lemma fence_auth_appendFenceKey:
  assumes "0 \<le> af_Shard f"
  shows "fence_auth (appendFenceKey path f) = Some (FenceAuthority f)"
proof -
  have "appendFenceKey path f = (''ds:'' @ tag path) @ '':append-fence:'' @ FenceAuthority f" by (simp add: appendFenceKey_def)
  moreover have "last (''ds:'' @ tag path) = CHR ''}''" by (simp add: tag_def)
  ultimately have "fence_auth (appendFenceKey path f) = fence_auth ('':append-fence:'' @ FenceAuthority f)"
    using fence_auth_skip by metis
  also have "\<dots> = Some (FenceAuthority f)" using match_authority_suffix [OF assms] by simp
  finally show ?thesis .
qed

definition seal_text :: "WriteFenceSeal \<Rightarrow> string" where
  "seal_text s = FormatInt (ws_Generation s) @ '':'' @ ws_WakeID s @ '':'' @ offset_String (ws_Offset s)"

lemma seal_parts_text:
  assumes "CHR '':'' \<notin> set (ws_WakeID s)"
  shows "seal_parts (seal_text s) = Some (FormatInt (ws_Generation s), ws_WakeID s, offset_String (ws_Offset s))"
proof -
  have m: "match_int (seal_text s) = Some (FormatInt (ws_Generation s), '':'' @ ws_WakeID s @ '':'' @ offset_String (ws_Offset s))"
    unfolding seal_text_def by (rule match_int_FormatInt) (simp add: is_digit_def)
  have "takeWhile (\<lambda>c. c \<noteq> CHR '':'') (ws_WakeID s @ CHR '':'' # off) = ws_WakeID s" for off
    using assms by (subst takeWhile_append2) auto
  then show ?thesis by (simp add: seal_parts_def m)
qed

section \<open>Configuration\<close>

text \<open>The probe arguments of \<^verbatim>\<open>createArgs\<close>, from the third on.\<close>

definition probe_args :: "CreateOptions \<Rightarrow> string list" where
  "probe_args opts =
     [normalizeCT (co_ContentType opts),
      (case co_TTLSeconds opts of None \<Rightarrow> '''' | Some t \<Rightarrow> FormatInt t),
      (case co_ExpiresAt opts of None \<Rightarrow> '''' | Some t \<Rightarrow> FormatInt (time_unix_nano t)),
      (if co_Closed opts then ''1'' else ''0''),
      co_ForkedFrom opts,
      (case co_ForkOffset opts of None \<Rightarrow> '''' | Some off \<Rightarrow> offset_String off),
      (case co_ForkSubOffset opts of None \<Rightarrow> ''0'' | Some n \<Rightarrow> dec_digits (unat n)),
      (if co_WriteFence opts then ''1'' else ''0'')]"

lemma FormatInt_not_Nil [simp]: "FormatInt x \<noteq> ''''" "'''' \<noteq> FormatInt x"
  using dec_digits_not_Nil [of "nat x"] by (auto simp: FormatInt_def simp del: dec_digits_not_Nil)

lemma offset_String_not_Nil [simp]: "offset_String off \<noteq> ''''" "'''' \<noteq> offset_String off"
  by (simp_all add: offset_String_def)

lemma nano_range_inject: "nano_range s \<Longrightarrow> nano_range t \<Longrightarrow> time_unix_nano s = time_unix_nano t \<longleftrightarrow> s = t"
  by (metis time_of_nano_unix_nano)

lemma dec_digits_eq_iff [simp]: "dec_digits m = dec_digits n \<longleftrightarrow> m = n" "''0'' = dec_digits n \<longleftrightarrow> n = 0" "dec_digits n = ''0'' \<longleftrightarrow> n = 0"
  using dec_value_dec_digits small_digits(2) by metis+

lemma offset_String_eq_iff [simp]: "offset_String a = offset_String b \<longleftrightarrow> a = b"
  using offset_codec.enc_inject by simp

lemma ConfigMatches_iff:
  "ConfigMatches md opts \<longleftrightarrow>
     ContentTypeMatches (sm_ContentType md) (co_ContentType opts) \<and> sm_TTLSeconds md = co_TTLSeconds opts \<and>
     sm_ExpiresAt md = co_ExpiresAt opts \<and> sm_Closed md = co_Closed opts \<and> sm_WriteFence md = co_WriteFence opts \<and>
     sm_ForkedFrom md = co_ForkedFrom opts \<and>
     (co_ForkedFrom opts \<noteq> '''' \<longrightarrow>
        pred_option (\<lambda>off. (case sm_ForkOffsetRequested md of None \<Rightarrow> sm_ForkOffset md | Some r \<Rightarrow> r) = off) (co_ForkOffset opts) \<and>
        sm_ForkSubOffset md = (case co_ForkSubOffset opts of None \<Rightarrow> 0 | Some n \<Rightarrow> n))"
  by (cases "sm_TTLSeconds md"; cases "co_TTLSeconds opts"; cases "sm_ExpiresAt md"; cases "co_ExpiresAt opts"; cases "co_ForkOffset opts")
    (simp_all add: ConfigMatches_def Let_def)

lemma config_matches_mirror:
  assumes "argv = now # channel # probe_args opts @ rest"
    and "pred_option nano_range (sm_ExpiresAt md)" and "pred_option nano_range (co_ExpiresAt opts)"
  shows "config_matches argv (metaToFields md) \<longleftrightarrow> ConfigMatches md opts"
proof -
  have at: "at1 argv 3 = normalizeCT (co_ContentType opts)" "at1 argv 4 = (case co_TTLSeconds opts of None \<Rightarrow> '''' | Some t \<Rightarrow> FormatInt t)"
    "at1 argv 5 = (case co_ExpiresAt opts of None \<Rightarrow> '''' | Some t \<Rightarrow> FormatInt (time_unix_nano t))"
    "at1 argv 6 = (if co_Closed opts then ''1'' else ''0'')" "at1 argv 7 = co_ForkedFrom opts"
    "at1 argv 8 = (case co_ForkOffset opts of None \<Rightarrow> '''' | Some off \<Rightarrow> offset_String off)"
    "at1 argv 9 = (case co_ForkSubOffset opts of None \<Rightarrow> ''0'' | Some n \<Rightarrow> dec_digits (unat n))"
    "at1 argv 10 = (if co_WriteFence opts then ''1'' else ''0'')"
    by (simp_all add: assms(1) probe_args_def at1_def)
  have ct: "(norm_ct (metaToFields md ''ct'') \<noteq> normalizeCT (co_ContentType opts)) = (\<not> ContentTypeMatches (sm_ContentType md) (co_ContentType opts))"
    by (simp add: norm_ct_mirror)
  have ttl: "((case metaToFields md ''ttl'' of None \<Rightarrow> '''' | Some v \<Rightarrow> v) = (case co_TTLSeconds opts of None \<Rightarrow> '''' | Some t \<Rightarrow> FormatInt t)) =
      (sm_TTLSeconds md = co_TTLSeconds opts)"
    by (cases "sm_TTLSeconds md"; cases "co_TTLSeconds opts") simp_all
  have ex: "((case metaToFields md ''expAtNs'' of None \<Rightarrow> '''' | Some v \<Rightarrow> v) =
      (case co_ExpiresAt opts of None \<Rightarrow> '''' | Some t \<Rightarrow> FormatInt (time_unix_nano t))) = (sm_ExpiresAt md = co_ExpiresAt opts)"
    using assms(2,3) by (cases "sm_ExpiresAt md"; cases "co_ExpiresAt opts") (simp_all add: nano_range_inject)
  have fk: "(case metaToFields md ''forkedFrom'' of None \<Rightarrow> '''' | Some v \<Rightarrow> v) = sm_ForkedFrom md" by simp
  have sub: "((case metaToFields md ''forkSubOff'' of None \<Rightarrow> ''0'' | Some x \<Rightarrow> x) = (case co_ForkSubOffset opts of None \<Rightarrow> ''0'' | Some n \<Rightarrow> dec_digits (unat n))) =
      (sm_ForkSubOffset md = (case co_ForkSubOffset opts of None \<Rightarrow> 0 | Some n \<Rightarrow> n))" if "sm_ForkedFrom md \<noteq> ''''"
    using that by (cases "co_ForkSubOffset opts"; cases "sm_ForkSubOffset md = 0")
      (simp_all add: unat_eq_zero flip: word_unat_eq_iff)
  have off: "(at1 argv 8 \<noteq> '''' \<and> (case metaToFields md ''forkOffReq'' of None \<Rightarrow> metaToFields md ''forkOff'' | Some x \<Rightarrow> Some x) \<noteq> Some (at1 argv 8)) =
      (\<not> pred_option (\<lambda>off. (case sm_ForkOffsetRequested md of None \<Rightarrow> sm_ForkOffset md | Some r \<Rightarrow> r) = off) (co_ForkOffset opts))"
    if "sm_ForkedFrom md \<noteq> ''''"
    using that unfolding at by (cases "co_ForkOffset opts"; cases "sm_ForkOffsetRequested md") simp_all
  have cl: "((if metaToFields md ''closed'' = Some ''1'' then ''1'' else ''0'') \<noteq> at1 argv 6) = (sm_Closed md \<noteq> co_Closed opts)"
    "((if metaToFields md ''wf'' = Some ''1'' then ''1'' else ''0'') \<noteq> at1 argv 10) = (sm_WriteFence md \<noteq> co_WriteFence opts)"
    unfolding at by simp_all
  show ?thesis
  proof (cases "sm_ForkedFrom md = co_ForkedFrom opts \<and> co_ForkedFrom opts \<noteq> ''''")
    case True
    then show ?thesis using off sub unfolding config_matches_def Let_def cl unfolding at ct ConfigMatches_iff ttl ex fk by auto
  next
    case False
    then show ?thesis unfolding config_matches_def Let_def cl unfolding at ct ConfigMatches_iff ttl ex fk by auto
  qed
qed

end
