(* ===== verification/Redis_Stream.thy ===== *)
theory Redis_Stream
  imports Stream_Mirrors
begin

text \<open>
  The Go side of the Redis stream store (\<^verbatim>\<open>store/redis/store.go\<close>, \<^verbatim>\<open>append_fence.go\<close>, \<^verbatim>\<open>scripts.go\<close>):
  the decoding of replies and every operation as the program of commands and scripts it runs.  A
  program that stops because a command failed is the operation returning that error.  Logging is
  not represented; the clock and the random source come from the environment.
\<close>

section \<open>Replies\<close>

datatype redis_error =
    Sentinel store_error
  | Unexpected_reply
  | Unexpected_status string
  | Reply_offset offset_error
  | Reply_meta meta_error
  | Reply_frame frame_error
  | Contention

record scriptReply =
  rp_Status :: string
  rp_Tail :: string
  rp_ProducerRes :: int64
  rp_CurrentEpoch :: int64
  rp_ExpectedSeq :: int64
  rp_ReceivedSeq :: int64
  rp_LastSeq :: int64
  rp_Closed :: bool
  rp_AlreadyClosed :: bool
  rp_FenceReason :: string
  rp_FenceGeneration :: int64
  rp_FenceHolder :: string

fun strings_of :: "reply_item list \<Rightarrow> string list option" where
  "strings_of [] = Some []"
| "strings_of (Str s # xs) = map_option (Cons s) (strings_of xs)"
| "strings_of (Arr _ # xs) = None"

fun ints_of :: "string list \<Rightarrow> int64 list option" where
  "ints_of [] = Some []"
| "ints_of (s # ss) = (case ParseInt s of Inl _ \<Rightarrow> None | Inr n \<Rightarrow> map_option (Cons n) (ints_of ss))"

definition decodeScriptReply :: "reply_item list \<Rightarrow> redis_error + scriptReply" where
  "decodeScriptReply arr =
     (if length arr < 9 then Inl Unexpected_reply
      else
        (let n = (if 12 \<le> length arr then 12 else 9)
         in case strings_of (take n arr) of
              None \<Rightarrow> Inl Unexpected_reply
            | Some s \<Rightarrow>
                (case ints_of ([s ! 2, s ! 3, s ! 4, s ! 5, s ! 6] @ (if n = 12 then [s ! 10] else [])) of
                   None \<Rightarrow> Inl Unexpected_reply
                 | Some v \<Rightarrow>
                     Inr \<lparr>rp_Status = s ! 0, rp_Tail = s ! 1, rp_ProducerRes = v ! 0, rp_CurrentEpoch = v ! 1,
                          rp_ExpectedSeq = v ! 2, rp_ReceivedSeq = v ! 3, rp_LastSeq = v ! 4,
                          rp_Closed = (s ! 7 = ''1''), rp_AlreadyClosed = (s ! 8 = ''1''),
                          rp_FenceReason = (if n = 12 then s ! 9 else ''''),
                          rp_FenceGeneration = (if n = 12 then v ! 5 else 0),
                          rp_FenceHolder = (if n = 12 then s ! 11 else '''')\<rparr>)))"

definition decodeStatusReply :: "reply_item list \<Rightarrow> redis_error + string \<times> reply_item list" where
  "decodeStatusReply arr =
     (case arr of Str status # rest \<Rightarrow> Inr (status, rest) | _ \<Rightarrow> Inl Unexpected_reply)"

definition flatToMap :: "reply_item \<Rightarrow> redis_error + (string \<rightharpoonup> string)" where
  "flatToMap v =
     (case v of
        Arr arr \<Rightarrow> if odd (length arr) then Inl Unexpected_reply else Inr (map_of (rev (pairs_of arr)))
      | Str _ \<Rightarrow> Inl Unexpected_reply)"

definition toStrings :: "reply_item \<Rightarrow> redis_error + string list" where
  "toStrings v = (case v of Arr arr \<Rightarrow> Inr arr | Str _ \<Rightarrow> Inl Unexpected_reply)"

text \<open>The conversions \<^verbatim>\<open>store.ProducerResult(n)\<close> and \<^verbatim>\<open>store.FenceReason(s)\<close> on the values the scripts send.\<close>

definition producer_result_of :: "int64 \<Rightarrow> ProducerResult" where
  "producer_result_of n =
     (if n = 1 then ProducerResultAccepted else if n = 2 then ProducerResultDuplicate else ProducerResultNone)"

definition fence_reason_of :: "string \<Rightarrow> FenceReason" where
  "fence_reason_of s =
     (if s = ''sealed'' then FenceSealed else if s = ''marker'' then FenceMarker
      else if s = ''producer_required'' then FenceProducerRequired else if s = ''epoch'' then FenceEpoch
      else if s = ''bound'' then FenceBound else FenceNone)"

definition mapAppendReply :: "scriptReply \<Rightarrow> AppendResult \<times> redis_error option" where
  "mapAppendReply r =
     (let tail = (if rp_Tail r \<noteq> '''' then ParseOffset (rp_Tail r) else Inr ZeroOffset); st = rp_Status r
      in case tail of
           Inl e \<Rightarrow> (AppendResult0, Some (Reply_offset e))
         | Inr tail \<Rightarrow>
             (if st = ''OK'' \<or> st = ''VALONLY'' then
                (AppendResult0\<lparr>ar_Offset := tail, ar_ProducerResult := producer_result_of (rp_ProducerRes r),
                               ar_LastSeq := rp_LastSeq r, ar_StreamClosed := rp_Closed r\<rparr>, None)
              else if st = ''NOTFOUND'' then (AppendResult0, Some (Sentinel ErrStreamNotFound))
              else if st = ''FENCED'' then
                (AppendResult0\<lparr>ar_FenceReason := fence_reason_of (rp_FenceReason r),
                               ar_FenceGeneration := rp_FenceGeneration r, ar_FenceHolder := rp_FenceHolder r\<rparr>,
                 Some (Sentinel ErrAppendFenced))
              else if st = ''SOFTDEL'' then (AppendResult0, Some (Sentinel ErrStreamSoftDeleted))
              else if st = ''CLOSED'' then
                (AppendResult0\<lparr>ar_Offset := tail, ar_StreamClosed := True\<rparr>, Some (Sentinel ErrStreamClosed))
              else if st = ''CTMISMATCH'' then (AppendResult0, Some (Sentinel ErrContentTypeMismatch))
              else if st = ''SEQCONFLICT'' then (AppendResult0, Some (Sentinel ErrSequenceConflict))
              else if st = ''STALE_EPOCH'' then
                (AppendResult0\<lparr>ar_Offset := tail, ar_CurrentEpoch := rp_CurrentEpoch r\<rparr>, Some (Sentinel ErrStaleEpoch))
              else if st = ''EPOCH_SEQ'' then
                (AppendResult0\<lparr>ar_Offset := tail\<rparr>, Some (Sentinel ErrInvalidEpochSeq))
              else if st = ''SEQ_GAP'' then
                (AppendResult0\<lparr>ar_Offset := tail, ar_ExpectedSeq := rp_ExpectedSeq r, ar_ReceivedSeq := rp_ReceivedSeq r\<rparr>,
                 Some (Sentinel ErrProducerSeqGap))
              else (AppendResult0, Some (Unexpected_status st))))"

section \<open>Append\<close>

definition nowNsArg :: "gotime \<Rightarrow> string" where
  "nowNsArg now = FormatInt (time_unix_nano now)"

fun frame_all :: "Offset \<Rightarrow> bytes list \<Rightarrow> string list \<times> Offset" where
  "frame_all cur [] = ([], cur)"
| "frame_all cur (msg # msgs) =
     (let cur = Add cur (of_nat (length msg))
      in case frame_all cur msgs of (fs, end) \<Rightarrow> (encodeFrame cur msg # fs, end))"

definition buildFrames :: "string \<Rightarrow> Offset \<Rightarrow> bytes \<Rightarrow> bool \<Rightarrow> store_error + string list \<times> Offset" where
  "buildFrames ct base data allowEmpty =
     (if IsJSONContentType ct then
        (case ProcessJSONAppend data allowEmpty of Inl err \<Rightarrow> Inl err | Inr msgs \<Rightarrow> Inr (frame_all base msgs))
      else Inr (frame_all base [data]))"

definition readTailAndContentType :: "string \<Rightarrow> (redis_error + Offset \<times> string) rprog" where
  "readTailAndContentType path =
     Call (HMGET (metaKey path) [''tail'', ''ct'']) (\<lambda>r.
       (let snap = opt_at (lua_opts r);
            tailStr = (case snap 1 of None \<Rightarrow> '''' | Some t \<Rightarrow> t);
            ct = (case snap 2 of None \<Rightarrow> '''' | Some c \<Rightarrow> c)
        in Ret (if tailStr = '''' then Inl (Sentinel ErrStreamNotFound)
                else (case ParseOffset tailStr of Inl e \<Rightarrow> Inl (Reply_offset e) | Inr tail \<Rightarrow> Inr (tail, ct)))))"

definition append_keys :: "string \<Rightarrow> AppendFence option \<Rightarrow> string list" where
  "append_keys path fence = keysFor path @ (case fence of None \<Rightarrow> [] | Some f \<Rightarrow> [appendFenceKey path f])"

definition fence_args :: "AppendFence option \<Rightarrow> string list" where
  "fence_args fence =
     (case fence of
        None \<Rightarrow> [''0'', ''0'', '''', '''']
      | Some f \<Rightarrow> [''1'', FormatInt (af_Generation f), af_WakeID f, af_Holder f])"

definition req_ct :: "AppendOptions \<Rightarrow> string" where
  "req_ct opts = (if ao_ContentType opts \<noteq> '''' then normalizeCT (ao_ContentType opts) else '''')"

definition append_args ::
    "gotime \<Rightarrow> string \<Rightarrow> AppendOptions \<Rightarrow> Offset \<Rightarrow> Offset \<Rightarrow> bool \<Rightarrow> string list \<Rightarrow> string list" where
  "append_args now path opts base newTail valOnly frames =
     [nowNsArg now, notifyChannel path, req_ct opts, ao_Seq opts, (if ao_Close opts then ''1'' else ''0'')] @
     (if HasAllProducerHeaders opts
      then [''1'', ao_ProducerId opts, FormatInt (the (ao_ProducerEpoch opts)), FormatInt (the (ao_ProducerSeq opts))]
      else [''0'', '''', ''0'', ''0'']) @
     [offset_String base, offset_String newTail, (if valOnly then ''1'' else ''0'')] @
     fence_args (ao_Fence opts) @ frames"

text \<open>The frames of one attempt; a body that does not parse runs the validation chain alone.\<close>

definition attempt_frames ::
    "string \<Rightarrow> Offset \<Rightarrow> bytes \<Rightarrow> string list \<times> Offset \<times> store_error option" where
  "attempt_frames frameCT base data =
     (if data = [] then ([], base, None)
      else (case buildFrames frameCT base data False of
              Inl err \<Rightarrow> ([], base, Some err)
            | Inr (frames, newTail) \<Rightarrow> (frames, newTail, None)))"

fun append_attempts ::
    "(nat \<Rightarrow> gotime) \<Rightarrow> string \<Rightarrow> bytes \<Rightarrow> AppendOptions \<Rightarrow> nat \<Rightarrow> nat \<Rightarrow> Offset option \<Rightarrow>
       (AppendResult \<times> redis_error option) rprog" where
  "append_attempts clock path data opts 0 attempt hint = Ret (AppendResult0, Some Contention)"
| "append_attempts clock path data opts (Suc left) attempt hint =
     (let run = (\<lambda>base frameCT.
            case attempt_frames frameCT base data of (frames, newTail, frameErr) \<Rightarrow>
              rbind (append_lua (append_keys path (ao_Fence opts))
                       (append_args (clock attempt) path opts base newTail (frameErr \<noteq> None) frames)) (\<lambda>raw.
                case decodeScriptReply raw of
                  Inl e \<Rightarrow> Ret (AppendResult0, Some e)
                | Inr r \<Rightarrow>
                    if rp_Status r = ''RETRY'' then
                      (if req_ct opts \<noteq> '''' then
                         (case ParseOffset (rp_Tail r) of
                            Inl e \<Rightarrow> Ret (AppendResult0, Some (Reply_offset e))
                          | Inr live \<Rightarrow> append_attempts clock path data opts left (Suc attempt) (Some live))
                       else append_attempts clock path data opts left (Suc attempt) None)
                    else
                      (case mapAppendReply r of (res, err) \<Rightarrow>
                         if err = None \<and> rp_Status r = ''VALONLY'' then
                           (if rp_ProducerRes r = 2 then Ret (res, None)
                            else Ret (AppendResult0, map_option Sentinel frameErr))
                         else Ret (res, err))))
      in case hint of
           Some base \<Rightarrow> run base (ao_ContentType opts)
         | None \<Rightarrow>
             rbind (readTailAndContentType path) (\<lambda>r.
               case r of
                 Inl e \<Rightarrow> Ret (AppendResult0, Some e)
               | Inr (tail, ct) \<Rightarrow> run tail (if req_ct opts = '''' then ct else ao_ContentType opts)))"

definition maxAppendRetries :: nat where
  "maxAppendRetries = 128"

definition redis_Append ::
    "(nat \<Rightarrow> gotime) \<Rightarrow> string \<Rightarrow> bytes \<Rightarrow> AppendOptions \<Rightarrow> (AppendResult \<times> redis_error option) rprog" where
  "redis_Append clock path data opts =
     (if (case ao_Fence opts of None \<Rightarrow> False | Some f \<Rightarrow> \<not> fence_Complete f)
      then Ret (AppendResult0, Some (Sentinel ErrAppendFenced))
      else if HasProducerHeaders opts \<and> \<not> HasAllProducerHeaders opts
      then Ret (AppendResult0, Some (Sentinel ErrPartialProducer))
      else if data = [] \<and> \<not> ao_Close opts then Ret (AppendResult0, Some (Sentinel ErrEmptyBody))
      else if req_ct opts \<noteq> '''' then append_attempts clock path data opts maxAppendRetries 0 (ao_TailHint opts)
      else append_attempts clock path data opts (maxAppendRetries div 2) 0 None)"

section \<open>Close\<close>

definition runCloseScript ::
    "gotime \<Rightarrow> string \<Rightarrow> string list \<Rightarrow> AppendFence option \<Rightarrow> (redis_error + scriptReply) rprog" where
  "runCloseScript now path producer fence =
     rbind (close_lua (append_keys path fence) ([nowNsArg now, notifyChannel path] @ producer @ fence_args fence))
       (\<lambda>raw. Ret (decodeScriptReply raw))"

definition redis_closeStream ::
    "gotime \<Rightarrow> string \<Rightarrow> AppendFence option \<Rightarrow> (CloseResult option \<times> redis_error option) rprog" where
  "redis_closeStream now path fence =
     rbind (runCloseScript now path [''0'', '''', ''0'', ''0''] fence) (\<lambda>r.
       Ret (case r of
              Inl e \<Rightarrow> (None, Some e)
            | Inr r \<Rightarrow>
                if rp_Status r = ''NOTFOUND'' then (None, Some (Sentinel ErrStreamNotFound))
                else if rp_Status r = ''FENCED'' then
                  (Some (CloseResult0\<lparr>cr_FenceReason := fence_reason_of (rp_FenceReason r),
                           cr_FenceGeneration := rp_FenceGeneration r, cr_FenceHolder := rp_FenceHolder r\<rparr>),
                   Some (Sentinel ErrAppendFenced))
                else if rp_Status r = ''OK'' then
                  (case ParseOffset (rp_Tail r) of
                     Inl e \<Rightarrow> (None, Some (Reply_offset e))
                   | Inr tail \<Rightarrow>
                       (Some (CloseResult0\<lparr>cr_FinalOffset := tail, cr_AlreadyClosed := rp_AlreadyClosed r\<rparr>), None))
                else (None, Some (Unexpected_status (rp_Status r)))))"

definition redis_CloseStream :: "gotime \<Rightarrow> string \<Rightarrow> (CloseResult option \<times> redis_error option) rprog" where
  "redis_CloseStream now path = redis_closeStream now path None"

definition redis_CloseStreamFenced ::
    "gotime \<Rightarrow> string \<Rightarrow> AppendFence \<Rightarrow> (CloseResult option \<times> redis_error option) rprog" where
  "redis_CloseStreamFenced now path fence =
     (if \<not> fence_Complete fence then Ret (None, Some (Sentinel ErrAppendFenced))
      else redis_closeStream now path (Some fence))"

definition closeProducerResult :: "scriptReply \<Rightarrow> CloseProducerResult option \<times> redis_error option" where
  "closeProducerResult r =
     (if rp_Status r = ''NOTFOUND'' then (None, Some (Sentinel ErrStreamNotFound))
      else if rp_Status r = ''FENCED'' then
        (Some (CloseProducerResult0\<lparr>cpr_FenceReason := fence_reason_of (rp_FenceReason r),
                 cpr_FenceGeneration := rp_FenceGeneration r, cpr_FenceHolder := rp_FenceHolder r\<rparr>),
         Some (Sentinel ErrAppendFenced))
      else
        (case ParseOffset (rp_Tail r) of
           Inl e \<Rightarrow> (None, Some (Reply_offset e))
         | Inr tail \<Rightarrow>
             (let res = CloseProducerResult0\<lparr>cpr_FinalOffset := tail,
                     cpr_ProducerResult := producer_result_of (rp_ProducerRes r),
                     cpr_CurrentEpoch := rp_CurrentEpoch r, cpr_ExpectedSeq := rp_ExpectedSeq r,
                     cpr_ReceivedSeq := rp_ReceivedSeq r, cpr_LastSeq := rp_LastSeq r,
                     cpr_StreamClosed := rp_Closed r, cpr_AlreadyClosed := rp_AlreadyClosed r\<rparr>
              in if rp_Status r = ''OK'' then (Some res, None)
                 else if rp_Status r = ''CLOSED'' then (Some res, Some (Sentinel ErrStreamClosed))
                 else if rp_Status r = ''STALE_EPOCH'' then (Some res, Some (Sentinel ErrStaleEpoch))
                 else if rp_Status r = ''EPOCH_SEQ'' then (Some res, Some (Sentinel ErrInvalidEpochSeq))
                 else if rp_Status r = ''SEQ_GAP'' then (Some res, Some (Sentinel ErrProducerSeqGap))
                 else (None, Some (Unexpected_status (rp_Status r))))))"

definition redis_CloseStreamWithProducer ::
    "gotime \<Rightarrow> string \<Rightarrow> CloseProducerOptions \<Rightarrow> (CloseProducerResult option \<times> redis_error option) rprog" where
  "redis_CloseStreamWithProducer now path opts =
     (if (case cpo_Fence opts of None \<Rightarrow> False | Some f \<Rightarrow> \<not> fence_Complete f)
      then Ret (None, Some (Sentinel ErrAppendFenced))
      else rbind (runCloseScript now path
                    [''1'', cpo_ProducerId opts, FormatInt (cpo_ProducerEpoch opts), FormatInt (cpo_ProducerSeq opts)]
                    (cpo_Fence opts)) (\<lambda>r.
             Ret (case r of Inl e \<Rightarrow> (None, Some e) | Inr r \<Rightarrow> closeProducerResult r)))"

section \<open>Fences\<close>

definition runStatusScript :: "reply_item list rprog \<Rightarrow> (redis_error + string \<times> reply_item list) rprog" where
  "runStatusScript script = rbind script (\<lambda>raw. Ret (decodeStatusReply raw))"

definition fenceKeys :: "string \<Rightarrow> AppendFence \<Rightarrow> string list" where
  "fenceKeys path fence = [metaKey path, appendFenceKey path fence]"

text \<open>\<^verbatim>\<open>appendFenceRetention.Milliseconds()\<close>.\<close>

definition retention_arg :: string where
  "retention_arg = FormatInt (appendFenceRetention div 1000000)"

definition redis_GrantAppendFence :: "gotime \<Rightarrow> string \<Rightarrow> AppendFence \<Rightarrow> (bool \<times> redis_error option) rprog" where
  "redis_GrantAppendFence now path fence =
     (let nowNs = time_unix_nano now
      in if \<not> fence_Complete fence \<or> af_LeaseUntilNs fence \<le> nowNs then Ret (False, Some (Sentinel ErrAppendFenced))
         else rbind (runStatusScript (grant_append_fence (fenceKeys path fence)
                [FormatInt (af_Generation fence), af_WakeID fence, af_Holder fence, FormatInt (af_LeaseUntilNs fence),
                 FormatInt nowNs, retention_arg])) (\<lambda>r.
           Ret (case r of
                  Inl e \<Rightarrow> (False, Some e)
                | Inr (status, _) \<Rightarrow>
                    if status = ''OK'' then (True, None)
                    else if status = ''NOTFOUND'' then (False, None)
                    else if status = ''FENCED'' then (False, Some (Sentinel ErrAppendFenced))
                    else (False, Some (Unexpected_status status)))))"

definition redis_RevokeAppendFence :: "string \<Rightarrow> AppendFence \<Rightarrow> redis_error option rprog" where
  "redis_RevokeAppendFence path fence =
     (if \<not> fence_Complete fence then Ret (Some (Sentinel ErrAppendFenced))
      else rbind (runStatusScript (revoke_append_fence [appendFenceKey path fence]
             [FormatInt (af_Generation fence), af_WakeID fence, af_Holder fence, retention_arg])) (\<lambda>r.
        Ret (case r of
               Inl e \<Rightarrow> Some e
             | Inr (status, _) \<Rightarrow> if status = ''OK'' \<or> status = ''STALE'' then None else Some (Unexpected_status status))))"

definition decodeSealReply :: "reply_item list \<Rightarrow> redis_error + SealResult" where
  "decodeSealReply rest =
     (case strings_of rest of
        Some [outcome, gen, off] \<Rightarrow>
          (case (if outcome = ''sealed'' then Some SealSealed else if outcome = ''already'' then Some SealAlready
                 else if outcome = ''unfenced'' then Some SealUnfenced else None) of
             None \<Rightarrow> Inl Unexpected_reply
           | Some oc \<Rightarrow>
               (case ParseInt gen of
                  Inl _ \<Rightarrow> Inl Unexpected_reply
                | Inr g \<Rightarrow>
                    (if off = '''' then Inr \<lparr>sr_Outcome = oc, sr_Generation = g, sr_FinalOffset = ZeroOffset\<rparr>
                     else (case ParseOffset off of
                             Inl e \<Rightarrow> Inl (Reply_offset e)
                           | Inr x \<Rightarrow> Inr \<lparr>sr_Outcome = oc, sr_Generation = g, sr_FinalOffset = x\<rparr>))))
      | _ \<Rightarrow> Inl Unexpected_reply)"

definition redis_SealAppendFence :: "string \<Rightarrow> AppendFence \<Rightarrow> (redis_error + SealResult) rprog" where
  "redis_SealAppendFence path fence =
     (if \<not> fence_Complete fence then Ret (Inl (Sentinel ErrAppendFenced))
      else rbind (runStatusScript (seal_append_fence (fenceKeys path fence)
             [FormatInt (af_Generation fence), af_WakeID fence, af_Holder fence, retention_arg])) (\<lambda>r.
        Ret (case r of
               Inl e \<Rightarrow> Inl e
             | Inr (status, rest) \<Rightarrow>
                 if status = ''STALE'' then Inr (SealResult0\<lparr>sr_Outcome := SealStale\<rparr>)
                 else if status = ''NOTFOUND'' then Inr (SealResult0\<lparr>sr_Outcome := SealNotFound\<rparr>)
                 else if status = ''OK'' then decodeSealReply rest
                 else Inl (Unexpected_status status))))"

section \<open>Lookups\<close>

definition fetchMeta :: "string \<Rightarrow> (redis_error + StreamMetadata option) rprog" where
  "fetchMeta path =
     Call (HGETALL (metaKey path)) (\<lambda>r.
       Ret (case metaFromFields path (map_of (lua_pairs r)) of Inl e \<Rightarrow> Inl (Reply_meta e) | Inr m \<Rightarrow> Inr m))"

text \<open>\<^verbatim>\<open>producersFromHash\<close>: every entry must decode.\<close>

fun producersFromHash :: "(string \<times> string) list \<Rightarrow> redis_error + (string \<rightharpoonup> ProducerState)" where
  "producersFromHash [] = Inr Map.empty"
| "producersFromHash ((pid, v) # ps) =
     (case decodeProducerState v of
        Inl e \<Rightarrow> Inl (Reply_meta e)
      | Inr s \<Rightarrow> (case producersFromHash ps of Inl e \<Rightarrow> Inl e | Inr m \<Rightarrow> Inr (m(pid \<mapsto> s))))"

definition redis_Get :: "gotime \<Rightarrow> string \<Rightarrow> (redis_error + StreamMetadata) rprog" where
  "redis_Get now path =
     Call (HGETALL (metaKey path)) (\<lambda>r1. Call (HGETALL (prodKey path)) (\<lambda>r2.
       Ret (case metaFromFields path (map_of (lua_pairs r1)) of
              Inl e \<Rightarrow> Inl (Reply_meta e)
            | Inr None \<Rightarrow> Inl (Sentinel ErrStreamNotFound)
            | Inr (Some m) \<Rightarrow>
                if sm_SoftDeleted m then Inl (Sentinel ErrStreamSoftDeleted)
                else if IsExpiredAt m now then Inl (Sentinel ErrStreamNotFound)
                else (case producersFromHash (lua_pairs r2) of
                        Inl e \<Rightarrow> Inl e
                      | Inr ps \<Rightarrow> Inr (m\<lparr>sm_Producers := ps\<rparr>)))))"

definition redis_Has :: "gotime \<Rightarrow> string \<Rightarrow> bool rprog" where
  "redis_Has now path =
     rbind (fetchMeta path) (\<lambda>r.
       Ret (case r of Inr (Some m) \<Rightarrow> \<not> sm_SoftDeleted m \<and> \<not> IsExpiredAt m now | _ \<Rightarrow> False))"

definition redis_GetCurrentOffset :: "string \<Rightarrow> (redis_error + Offset) rprog" where
  "redis_GetCurrentOffset path =
     hget (metaKey path) ''tail'' (\<lambda>t.
       Ret (case t of
              None \<Rightarrow> Inl (Sentinel ErrStreamNotFound)
            | Some tail \<Rightarrow> (case ParseOffset tail of Inl e \<Rightarrow> Inl (Reply_offset e) | Inr off \<Rightarrow> Inr off)))"

definition redis_FormatResponse :: "string \<Rightarrow> Message list \<Rightarrow> (redis_error + bytes) rprog" where
  "redis_FormatResponse path messages =
     hget (metaKey path) ''ct'' (\<lambda>c.
       Ret (case c of
              None \<Rightarrow> Inl (Sentinel ErrStreamNotFound)
            | Some ct \<Rightarrow>
                if IsJSONContentType ct then Inr (FormatJSONResponse messages)
                else Inr (concat (map msg_Data messages))))"

section \<open>Delete\<close>

text \<open>
  The walk of \<^verbatim>\<open>releaseRef\<close> up the fork chain.  The loop has no bound in the code; the model takes one
  and answers \<^const>\<open>None\<close> when it is used up.
\<close>

fun releaseRef :: "gotime \<Rightarrow> nat \<Rightarrow> string \<Rightarrow> string \<Rightarrow> redis_error option option rprog" where
  "releaseRef now 0 parent child = Ret (if parent = '''' then Some None else None)"
| "releaseRef now (Suc n) parent child =
     (if parent = '''' then Ret (Some None)
      else rbind (runStatusScript (decr_ref (keysFor parent) [nowNsArg now, notifyChannel parent, child])) (\<lambda>r.
        case r of
          Inl e \<Rightarrow> Ret (Some (Some e))
        | Inr (status, rest) \<Rightarrow>
            if status = ''GONE'' \<or> status = ''OK'' then Ret (Some None)
            else if status = ''UNDERFLOW'' then Ret (Some (Some (Sentinel ErrRefCountUnderflow)))
            else if status = ''CASCADE'' then
              releaseRef now n (case rest of Str grand # _ \<Rightarrow> grand | _ \<Rightarrow> '''') parent
            else Ret (Some (Some (Unexpected_status status)))))"

definition redis_Delete :: "gotime \<Rightarrow> nat \<Rightarrow> string \<Rightarrow> redis_error option option rprog" where
  "redis_Delete now n path =
     rbind (runStatusScript (delete_lua (keysFor path) [notifyChannel path])) (\<lambda>r.
       case r of
         Inl e \<Rightarrow> Ret (Some (Some e))
       | Inr (status, rest) \<Rightarrow>
           if status = ''NOTFOUND'' then Ret (Some (Some (Sentinel ErrStreamNotFound)))
           else if status = ''SOFTDEL'' then Ret (Some (Some (Sentinel ErrStreamSoftDeleted)))
           else if status = ''SOFTDELETED'' then Ret (Some None)
           else if status = ''DELETED'' then
             (let parent = (case rest of Str p # _ \<Rightarrow> p | _ \<Rightarrow> '''')
              in if parent \<noteq> '''' then releaseRef now n parent path else Ret (Some None))
           else Ret (Some (Some (Unexpected_status status))))"

end
