(* ===== verification/Memory_Read.thy ===== *)
theory Memory_Read
  imports Memory_Ops
begin

text \<open>
  The read side of \<^verbatim>\<open>src/store/memory_store.go\<close>: the bounded page over a fork chain, the
  unbounded \<^verbatim>\<open>Read\<close> that concatenates pages of one snapshot, the long-poll wait and the
  notification subscription.

  A context is live for the whole call, already done when the call starts, or becomes done
  while the page is collected; in the last case the page is dropped by the check after the
  walk, since \<^verbatim>\<open>ctx.Err()\<close> never returns to nil.
\<close>

datatype go_ctx = Ctx_live | Ctx_done_at_entry store_error | Ctx_done_in_walk store_error

section \<open>Pages\<close>

definition memoryReadIncarnation :: "StreamMetadata \<Rightarrow> string" where
  "memoryReadIncarnation meta =
     (if sm_Incarnation meta \<noteq> '''' then sm_Incarnation meta
      else FormatInt (time_unix_nano (sm_CreatedAt meta)))"

text \<open>
  The visitor of \<^verbatim>\<open>walkForkedMessages\<close> is a closure over local state; here it returns the
  updated state beside its verdict.
\<close>

fun walk_own ::
    "Offset \<Rightarrow> Offset \<Rightarrow> (Message \<Rightarrow> 'a \<Rightarrow> bool \<times> 'a) \<Rightarrow> Message list \<Rightarrow> 'a \<Rightarrow> bool \<times> 'a" where
  "walk_own offset upper visit [] a = (True, a)"
| "walk_own offset upper visit (msg # msgs) a =
     (if \<not> LessThan offset (msg_Offset msg) then walk_own offset upper visit msgs a
      else if LessThan upper (msg_Offset msg) then (True, a)
      else (case visit msg a of (cont, a') \<Rightarrow>
              if \<not> cont then (False, a') else walk_own offset upper visit msgs a'))"

partial_function (option) walkForkedMessages ::
    "MemoryStore \<Rightarrow> memoryStream \<Rightarrow> Offset \<Rightarrow> Offset \<Rightarrow> (Message \<Rightarrow> 'a \<Rightarrow> bool \<times> 'a) \<Rightarrow> 'a \<Rightarrow>
       (bool \<times> 'a) option" where
  "walkForkedMessages s stream offset upper visit a =
     Option.bind
       (if sm_ForkedFrom (st_metadata stream) \<noteq> '''' \<and> LessThan offset (sm_ForkOffset (st_metadata stream))
        then (case ms_streams s (sm_ForkedFrom (st_metadata stream)) of
                None \<Rightarrow> Some (True, a)
              | Some source \<Rightarrow>
                  walkForkedMessages s source offset
                    (if LessThan (sm_ForkOffset (st_metadata stream)) upper
                     then sm_ForkOffset (st_metadata stream) else upper) visit a)
        else Some (True, a))
       (\<lambda>r. if \<not> fst r then Some (False, snd r)
            else Some (walk_own offset upper visit (st_messages stream) (snd r)))"

text \<open>The page under construction: collected messages, next offset, byte counters.\<close>

record page_acc =
  pa_messages :: "Message list"
  pa_next :: Offset
  pa_stats :: ReadPageStats

definition page_visit :: "ReadPageOptions \<Rightarrow> Message \<Rightarrow> page_acc \<Rightarrow> bool \<times> page_acc" where
  "page_visit opts msg a =
     (if rpo_MaxFrames opts \<le> int (length (pa_messages a)) then (False, a)
      else
        (let n = int (length (msg_Data msg));
             st = (pa_stats a)\<lparr>rst_FetchedBytes := rst_FetchedBytes (pa_stats a) + n\<rparr>
         in if 0 < length (pa_messages a) \<and> rpo_TargetBytes opts < rst_ReturnedBytes st + n
            then (False, a\<lparr>pa_stats := st\<lparr>rst_DiscardedBytes := rst_DiscardedBytes st + n\<rparr>\<rparr>)
            else
              (let st = st\<lparr>rst_ReturnedBytes := rst_ReturnedBytes st + n\<rparr>
               in (rst_ReturnedBytes st < rpo_TargetBytes opts,
                   \<lparr>pa_messages = pa_messages a @ [msg], pa_next = msg_Offset msg, pa_stats = st\<rparr>))))"

definition page_start :: "ReadPageOptions \<Rightarrow> Offset \<Rightarrow> page_acc" where
  "page_start opts readOffset =
     \<lparr>pa_messages = [], pa_next = readOffset,
      pa_stats = \<lparr>rst_RequestedBytes = rpo_TargetBytes opts, rst_FetchedBytes = 0,
                  rst_ReturnedBytes = 0, rst_DiscardedBytes = 0\<rparr>\<rparr>"

definition page_finish :: "ReadSnapshot \<Rightarrow> page_acc \<Rightarrow> ReadPage" where
  "page_finish snapshot a =
     (let next = (if length (pa_messages a) = 0 then rs_Tail snapshot else pa_next a)
      in \<lparr>rp_Messages = pa_messages a, rp_NextOffset = next, rp_Snapshot = snapshot,
          rp_UpToDate = offset_Equal next (rs_Tail snapshot), rp_Stats = pa_stats a\<rparr>)"

definition current_snapshot :: "StreamMetadata \<Rightarrow> ReadSnapshot" where
  "current_snapshot meta =
     (ReadSnapshotFromMetadata (Some meta))\<lparr>rs_Incarnation := memoryReadIncarnation meta\<rparr>"

definition collect_page ::
    "MemoryStore \<Rightarrow> memoryStream \<Rightarrow> Offset \<Rightarrow> ReadSnapshot \<Rightarrow> ReadPageOptions \<Rightarrow> ReadPage option" where
  "collect_page s stream offset snapshot opts =
     (let readOffset = (if IsNow offset then rs_Tail snapshot else offset)
      in Option.bind
           (walkForkedMessages s stream readOffset (rs_Tail snapshot) (page_visit opts)
              (page_start opts readOffset))
           (\<lambda>r. Some (page_finish snapshot (snd r))))"

definition store_ReadPage ::
    "store_env \<Rightarrow> go_ctx \<Rightarrow> string \<Rightarrow> Offset \<Rightarrow> ReadPageOptions \<Rightarrow> MemoryStore \<Rightarrow>
       ((store_error + ReadPage) \<times> MemoryStore) option" where
  "store_ReadPage env ctx path offset opts0 s =
     (let opts = Normalize opts0
      in case ctx of
           Ctx_done_at_entry e \<Rightarrow> Some (Inl e, s)
         | _ \<Rightarrow>
             (case ms_streams s path of
                None \<Rightarrow> Some (Inl ErrStreamNotFound, s)
              | Some stream \<Rightarrow>
                  (if isExpired env (st_metadata stream) then
                     Some (Inl ErrStreamNotFound,
                       if 0 < sm_RefCount (st_metadata stream)
                       then put_stream path (upd_meta (sm_SoftDeleted_update (\<lambda>_. True)) stream) s
                       else s)
                   else if sm_SoftDeleted (st_metadata stream) then Some (Inl ErrStreamSoftDeleted, s)
                   else
                     (let current = current_snapshot (st_metadata stream);
                          snapshot = (case rpo_Snapshot opts of None \<Rightarrow> current | Some x \<Rightarrow> x)
                      in if rpo_Snapshot opts \<noteq> None \<and> \<not> SameReadStream snapshot current
                         then Some (Inl ErrReadSnapshotChanged, s)
                         else
                           (let touch = (\<not> rpo_NoTouch opts \<and> rpo_Snapshot opts = None \<and>
                                         ShouldRenewReadAccess (Some (st_metadata stream)));
                                stream = (if touch
                                          then upd_meta (sm_LastAccessedAt_update (\<lambda>_. env_now env)) stream
                                          else stream);
                                s = (if touch then put_stream path stream s else s)
                            in case ctx of
                                 Ctx_done_in_walk e \<Rightarrow> Some (Inl e, s)
                               | _ \<Rightarrow>
                                   Option.bind (collect_page s stream offset snapshot opts)
                                     (\<lambda>page. Some (Inr page, s)))))))"

definition ReadPageOptions0 :: ReadPageOptions where
  "ReadPageOptions0 = \<lparr>rpo_TargetBytes = 0, rpo_MaxFrames = 0, rpo_Snapshot = None, rpo_NoTouch = False\<rparr>"

section \<open>Read\<close>

text \<open>
  The loop of \<^verbatim>\<open>Read\<close>.  The store lock is released between pages; \<open>envs i\<close> is the environment
  of the \<open>i\<close>-th page and the store is threaded without foreign steps in between.
\<close>

partial_function (option) read_loop ::
    "(nat \<Rightarrow> store_env) \<Rightarrow> string \<Rightarrow> Offset \<Rightarrow> nat \<Rightarrow> Message list \<Rightarrow> ReadSnapshot option \<Rightarrow> Offset \<Rightarrow>
       MemoryStore \<Rightarrow> ((store_error + Message list \<times> bool) \<times> MemoryStore) option" where
  "read_loop envs path offset i messages snapshot next s =
     Option.bind (store_ReadPage (envs i) Ctx_live path next (ReadPageOptions0\<lparr>rpo_Snapshot := snapshot\<rparr>) s)
       (\<lambda>(r, s). case r of
          Inl err \<Rightarrow> Some (Inl (if err = ErrStreamSoftDeleted then ErrStreamNotFound else err), s)
        | Inr page \<Rightarrow>
            (let snap = (case snapshot of None \<Rightarrow> rp_Snapshot page | Some x \<Rightarrow> x);
                 messages = messages @ rp_Messages page
             in if rp_UpToDate page
                then Some (Inr (messages, 0 < length messages \<or> offset_Equal offset (rs_Tail snap) \<or>
                                          offset_Equal (rs_Tail snap) ZeroOffset), s)
                else if offset_Equal (rp_NextOffset page) next then Some (Inl ErrNoProgress, s)
                else read_loop envs path offset (Suc i) messages (Some snap) (rp_NextOffset page) s))"

definition Read ::
    "(nat \<Rightarrow> store_env) \<Rightarrow> string \<Rightarrow> Offset \<Rightarrow> MemoryStore \<Rightarrow>
       ((store_error + Message list \<times> bool) \<times> MemoryStore) option" where
  "Read envs path offset s = read_loop envs path offset 0 [] None offset s"

section \<open>Waiting\<close>

text \<open>\<^verbatim>\<open>recheck\<close> of \<^verbatim>\<open>WaitForPage\<close>: a fresh page without a touch, and whether it ends the wait.\<close>

definition wait_recheck ::
    "store_env \<Rightarrow> go_ctx \<Rightarrow> string \<Rightarrow> Offset \<Rightarrow> ReadSnapshot \<Rightarrow> ReadPageOptions \<Rightarrow> MemoryStore \<Rightarrow>
       ((store_error + ReadPage \<times> bool) \<times> MemoryStore) option" where
  "wait_recheck env ctx path offset initial opts s =
     Option.bind
       (store_ReadPage env ctx path offset (opts\<lparr>rpo_Snapshot := None, rpo_NoTouch := True\<rparr>) s)
       (\<lambda>(r, s). Some (case r of
          Inl err \<Rightarrow> (Inl err, s)
        | Inr page \<Rightarrow>
            (if \<not> SameReadStream initial (rp_Snapshot page) then (Inl ErrReadSnapshotChanged, s)
             else (Inr (page, 0 < length (rp_Messages page) \<or>
                              rs_Closed (rp_Snapshot page) \<and>
                              offset_Equal offset (rs_Tail (rp_Snapshot page))), s))))"

datatype wait_outcome = Wait_returns "store_error + ReadWaitResult" | Wait_blocks

datatype wait_event = Wait_token | Wait_timer | Wait_cancelled store_error

definition register :: "string \<Rightarrow> nat \<Rightarrow> MemoryStore \<Rightarrow> MemoryStore" where
  "register path ch s = s\<lparr>ms_longPoll := lp_register path ch (ms_longPoll s)\<rparr>"

definition unregister :: "string \<Rightarrow> nat \<Rightarrow> MemoryStore \<Rightarrow> MemoryStore" where
  "unregister path ch s = s\<lparr>ms_longPoll := lp_unregister path ch (ms_longPoll s)\<rparr>"

definition take_token :: "nat \<Rightarrow> MemoryStore \<Rightarrow> MemoryStore" where
  "take_token ch s =
     s\<lparr>ms_longPoll := (ms_longPoll s)\<lparr>lp_signal := (lp_signal (ms_longPoll s))(ch := False)\<rparr>\<rparr>"

definition wait_return ::
    "string \<Rightarrow> nat \<Rightarrow> store_error + ReadWaitResult \<Rightarrow> MemoryStore \<Rightarrow> wait_outcome \<times> MemoryStore" where
  "wait_return path ch r s = (Wait_returns r, unregister path ch s)"

text \<open>
  \<^verbatim>\<open>WaitForPage\<close> up to its first block: register the fresh channel, then recheck.  The two are
  separate critical sections; \<open>between\<close> is what other calls do to the store in between.
\<close>

definition WaitForPage_start ::
    "store_env \<Rightarrow> go_ctx \<Rightarrow> string \<Rightarrow> nat \<Rightarrow> Offset \<Rightarrow> ReadSnapshot \<Rightarrow> ReadPageOptions \<Rightarrow>
       (MemoryStore \<Rightarrow> MemoryStore) \<Rightarrow> MemoryStore \<Rightarrow> (wait_outcome \<times> MemoryStore) option" where
  "WaitForPage_start env ctx path ch offset initial opts between s =
     Option.bind (wait_recheck env ctx path offset initial opts (between (register path ch s)))
       (\<lambda>(r, s). Some (case r of
          Inl err \<Rightarrow> wait_return path ch (Inl err) s
        | Inr (page, done) \<Rightarrow>
            (if done then wait_return path ch (Inr \<lparr>rw_Page = page, rw_TimedOut = False\<rparr>) s
             else (Wait_blocks, s))))"

text \<open>One iteration of the \<^verbatim>\<open>select\<close> loop, by the case that fires.\<close>

definition WaitForPage_event ::
    "store_env \<Rightarrow> go_ctx \<Rightarrow> string \<Rightarrow> nat \<Rightarrow> Offset \<Rightarrow> ReadSnapshot \<Rightarrow> ReadPageOptions \<Rightarrow> wait_event \<Rightarrow>
       MemoryStore \<Rightarrow> (wait_outcome \<times> MemoryStore) option" where
  "WaitForPage_event env ctx path ch offset initial opts ev s =
     (case ev of
        Wait_cancelled e \<Rightarrow> Some (wait_return path ch (Inl e) s)
      | _ \<Rightarrow>
          (let s = (if ev = Wait_token then take_token ch s else s)
           in Option.bind (wait_recheck env ctx path offset initial opts s)
                (\<lambda>(r, s). Some (case r of
                   Inl err \<Rightarrow> wait_return path ch (Inl err) s
                 | Inr (page, done) \<Rightarrow>
                     (if ev = Wait_timer
                      then wait_return path ch (Inr \<lparr>rw_Page = page, rw_TimedOut = \<not> done\<rparr>) s
                      else if done then wait_return path ch (Inr \<lparr>rw_Page = page, rw_TimedOut = False\<rparr>) s
                      else (Wait_blocks, s))))))"

text \<open>\<^verbatim>\<open>WaitForMessages\<close> before it hands over to \<^verbatim>\<open>WaitForPage\<close>: the outcome, or the snapshot to wait on.\<close>

datatype wait_decision =
    WM_error store_error
  | WM_messages "Message list"
  | WM_closed
  | WM_empty
  | WM_wait ReadSnapshot

definition WaitForMessages_check ::
    "store_env \<Rightarrow> go_ctx \<Rightarrow> string \<Rightarrow> Offset \<Rightarrow> MemoryStore \<Rightarrow> (wait_decision \<times> MemoryStore) option" where
  "WaitForMessages_check env ctx path offset s =
     Option.bind (store_ReadPage env ctx path offset ReadPageOptions0 s)
       (\<lambda>(r, s). Some (case r of
          Inl err \<Rightarrow> (WM_error err, s)
        | Inr page \<Rightarrow>
            (let snap = rp_Snapshot page
             in if 0 < length (rp_Messages page) then (WM_messages (rp_Messages page), s)
                else if rs_Closed snap \<and> offset_Equal offset (rs_Tail snap) then (WM_closed, s)
                else if rs_ForkedFrom snap \<noteq> '''' \<and> LessThan offset (rs_ForkOffset snap) then (WM_empty, s)
                else (WM_wait snap, s))))"

text \<open>The triple \<^verbatim>\<open>WaitForMessages\<close> returns from the result of \<^verbatim>\<open>WaitForPage\<close>.\<close>

definition WaitForMessages_result :: "Offset \<Rightarrow> ReadWaitResult \<Rightarrow> Message list \<times> bool \<times> bool" where
  "WaitForMessages_result offset result =
     (let page = rw_Page result; snap = rp_Snapshot page
      in (rp_Messages page, rw_TimedOut result,
          rs_Closed snap \<and> offset_Equal offset (rs_Tail snap) \<and> length (rp_Messages page) = 0))"

section \<open>Notification subscriptions\<close>

record memoryNotificationSubscription =
  ns_path :: string
  ns_wake :: nat
  ns_done :: bool

definition SubscribeNotifications ::
    "store_error option \<Rightarrow> string \<Rightarrow> nat \<Rightarrow> MemoryStore \<Rightarrow>
       (store_error + memoryNotificationSubscription) \<times> MemoryStore" where
  "SubscribeNotifications ctxErr path ch s =
     (case ctxErr of
        Some e \<Rightarrow> (Inl e, s)
      | None \<Rightarrow> (Inr \<lparr>ns_path = path, ns_wake = ch, ns_done = False\<rparr>, register path ch s))"

text \<open>\<^verbatim>\<open>Close\<close> runs its body once.\<close>

definition subscription_Close ::
    "memoryNotificationSubscription \<Rightarrow> MemoryStore \<Rightarrow> memoryNotificationSubscription \<times> MemoryStore" where
  "subscription_Close sub s =
     (if ns_done sub then (sub, s)
      else (sub\<lparr>ns_done := True\<rparr>, unregister (ns_path sub) (ns_wake sub) s))"

text \<open>
  The outcomes \<^verbatim>\<open>Wait\<close> may take: Go's \<^verbatim>\<open>select\<close> picks any ready case, and none being ready is a
  block.
\<close>

definition subscription_Wait ::
    "memoryNotificationSubscription \<Rightarrow> store_error option \<Rightarrow> MemoryStore \<Rightarrow> (store_error option \<times> MemoryStore) list" where
  "subscription_Wait sub ctxErr s =
     (if lp_signal (ms_longPoll s) (ns_wake sub) then [(None, take_token (ns_wake sub) s)] else []) @
     (if ns_done sub then [(Some ErrNotificationSubscriptionClosed, s)] else []) @
     (case ctxErr of None \<Rightarrow> [] | Some e \<Rightarrow> [(Some e, s)])"

end
