(* ===== verification/Store_Log.thy ===== *)
theory Store_Log
  imports Memory_Read
begin

text \<open>
  The log discipline of the in-memory store.  Every stream's messages form a chain: each ends
  where the previous one ended plus its own length, from the fork point to the tail.  Every
  operation keeps this, and every operation other than a creation moves each surviving stream
  along the order \<^verbatim>\<open>extends\<close>: messages are only added at the end, identity never changes,
  closure is final, producer states and seals only advance.
\<close>

section \<open>Chains\<close>

fun chain :: "Offset \<Rightarrow> Message list \<Rightarrow> Offset \<Rightarrow> bool" where
  "chain b [] t \<longleftrightarrow> b = t"
| "chain b (m # ms) t \<longleftrightarrow>
     msg_Offset m = Add b (of_nat (length (msg_Data m))) \<and> chain (msg_Offset m) ms t"

lemma chain_append: "chain b (xs @ ys) t \<longleftrightarrow> (\<exists>c. chain b xs c \<and> chain c ys t)"
  by (induction xs arbitrary: b) auto

lemma chain_unique: "chain b ms t \<Longrightarrow> chain b ms u \<Longrightarrow> t = u"
  by (induction ms arbitrary: b) auto

definition total_len :: "Message list \<Rightarrow> nat" where
  "total_len ms = length (concat (map msg_Data ms))"

lemma total_len_simps [simp]:
  "total_len [] = 0" "total_len (m # ms) = length (msg_Data m) + total_len ms"
  "total_len (xs @ ys) = total_len xs + total_len ys"
  by (simp_all add: total_len_def)

lemma chain_tail: "chain b ms t \<Longrightarrow> t = Add b (of_nat (total_len ms))"
proof (induction ms arbitrary: b)
  case (Cons m ms)
  from Cons.prems have m: "msg_Offset m = Add b (of_nat (length (msg_Data m)))"
    and "chain (msg_Offset m) ms t"
    by auto
  from this(2) have "t = Add (msg_Offset m) (of_nat (total_len ms))" by (rule Cons.IH)
  then show ?case unfolding m by simp
qed simp

lemma append_frames_chain:
  "append_frames off ds msgs = (off', msgs') \<Longrightarrow>
     \<exists>new. msgs' = msgs @ new \<and> map msg_Data new = ds \<and> chain off new off'"
proof (induction off ds msgs arbitrary: off' msgs' rule: append_frames.induct)
  case (1 off msgs)
  then show ?case by auto
next
  case (2 off d ds msgs)
  let ?o = "Add off (of_nat (length d))"
  from 2 obtain new where "msgs' = (msgs @ [\<lparr>msg_Data = d, msg_Offset = ?o\<rparr>]) @ new"
      "map msg_Data new = ds" "chain ?o new off'"
    by (auto simp: Let_def)
  then show ?case by (intro exI [of _ "\<lparr>msg_Data = d, msg_Offset = ?o\<rparr> # new"]) auto
qed

section \<open>Well-formed streams\<close>

definition stream_ok :: "memoryStream \<Rightarrow> bool" where
  "stream_ok st \<longleftrightarrow>
     chain (sm_ForkOffset (st_metadata st)) (st_messages st) (sm_CurrentOffset (st_metadata st)) \<and>
     (sm_ForkedFrom (st_metadata st) = '''' \<longrightarrow> sm_ForkOffset (st_metadata st) = ZeroOffset) \<and>
     (\<forall>a x. st_seals st a = Some x \<longrightarrow> ws_Present x)"

definition store_ok :: "MemoryStore \<Rightarrow> bool" where
  "store_ok s \<longleftrightarrow> (\<forall>p st. ms_streams s p = Some st \<longrightarrow> stream_ok st)"

text \<open>What an accepted body adds to a stream, whatever its mode.\<close>

lemma appendToStream_InrD:
  assumes "appendToStream st data allow = Inr (off, st')"
  shows "\<exists>new. st' = st\<lparr>st_messages := st_messages st @ new, st_data := st_data st'\<rparr> \<and>
           chain (sm_CurrentOffset (st_metadata st)) new off \<and>
           (if IsJSONContentType (sm_ContentType (st_metadata st))
            then ProcessJSONAppend data allow = Inr (map msg_Data new) \<and> st_data st' = st_data st
            else map msg_Data new = [data] \<and> st_data st' = st_data st @ data)"
proof (cases "IsJSONContentType (sm_ContentType (st_metadata st))")
  case True
  with assms obtain frames msgs where f: "ProcessJSONAppend data allow = Inr frames"
      "append_frames (sm_CurrentOffset (st_metadata st)) frames (st_messages st) = (off, msgs)"
      "st' = st\<lparr>st_messages := msgs\<rparr>"
    by (auto simp: appendToStream_def split: sum.splits prod.splits)
  from append_frames_chain [OF f(2)] f True show ?thesis by auto
next
  case False
  with assms show ?thesis
    by (intro exI [of _ "[\<lparr>msg_Data = data, msg_Offset = off\<rparr>]"])
       (auto simp: appendToStream_def Let_def)
qed

section \<open>Frames\<close>

text \<open>The helpers that leave the streams of the store alone.\<close>

lemma store_marker_streams [simp]: "ms_streams (snd (store_marker env path a s)) = ms_streams s"
  by (simp add: store_marker_def split: option.splits)

lemma setMarker_streams [simp]: "ms_streams (setMarker path a m t s) = ms_streams s"
  by (simp add: setMarker_def Let_def)

lemma tombstone_streams [simp]: "ms_streams (snd (tombstone env path a f s)) = ms_streams s"
  using store_marker_streams [of env path a s]
  by (auto simp: tombstone_def simp del: store_marker_streams split: prod.splits)

lemma fenceRung_streams [simp]: "ms_streams (snd (fenceRung env path st f pid e s)) = ms_streams s"
  by (auto simp: fenceRung_def Let_def case_prod_beta split: option.splits)

lemma store_marker_longPoll [simp]: "ms_longPoll (snd (store_marker env path a s)) = ms_longPoll s"
  by (simp add: store_marker_def split: option.splits)

lemma fenceRung_longPoll [simp]: "ms_longPoll (snd (fenceRung env path st f pid e s)) = ms_longPoll s"
  by (auto simp: fenceRung_def Let_def case_prod_beta split: option.splits)

text \<open>The rung reads only the markers of the store.\<close>

lemma store_marker_markers:
  "ms_markers s = ms_markers t \<Longrightarrow> fst (store_marker env path a s) = fst (store_marker env path a t)"
  by (simp add: store_marker_def split: option.splits)

lemma fenceRung_markers:
  "ms_markers s = ms_markers t \<Longrightarrow>
     fst (fenceRung env path st f pid e s) = fst (fenceRung env path st f pid e t)"
  using store_marker_markers [of s t env path]
  by (auto simp: fenceRung_def Let_def case_prod_beta split: option.splits)

lemma getProducerLock_streams [simp]: "ms_streams (getProducerLock path pid s) = ms_streams s"
  by (simp add: getProducerLock_def Let_def)

lemma notify_streams [simp]: "ms_streams (notify path s) = ms_streams s"
  "ms_streams (notifyClosed path s) = ms_streams s"
  by (simp_all add: notify_def notifyClosed_def)

lemma register_streams [simp]:
  "ms_streams (register path ch s) = ms_streams s" "ms_streams (unregister path ch s) = ms_streams s"
  "ms_streams (take_token ch s) = ms_streams s"
  by (simp_all add: register_def unregister_def take_token_def)

lemma put_stream_streams [simp]: "ms_streams (put_stream path st s) = (ms_streams s)(path \<mapsto> st)"
  by (simp add: put_stream_def)

lemma delete_stream_streams [simp]: "ms_streams (delete_stream path s) = (ms_streams s)(path := None)"
  by (simp add: delete_stream_def)

lemma append_commit_streams [simp]:
  "ms_streams (append_commit path opts ps off st s) = (ms_streams s)(path \<mapsto> commit_stream opts ps off st)"
  by (simp add: append_commit_def Let_def)

lemma stream_bind_sel [simp]:
  "st_metadata (stream_bind f pid off st) = st_metadata st"
  "st_messages (stream_bind f pid off st) = st_messages st"
  "st_data (stream_bind f pid off st) = st_data st"
  "st_seals (stream_bind f pid off st) = st_seals st"
  by (simp_all add: stream_bind_def split: option.splits)

text \<open>The stream after a commit, in one record update.\<close>

lemma commit_stream_alt: "commit_stream opts ps off st =
   stream_bind (ao_Fence opts) (ao_ProducerId opts) off
     (st\<lparr>st_metadata := (st_metadata st)\<lparr>sm_CurrentOffset := off,
        sm_LastSeq := if ao_Seq opts = '''' then sm_LastSeq (st_metadata st) else ao_Seq opts,
        sm_Producers := (case ps of None \<Rightarrow> sm_Producers (st_metadata st)
                         | Some p \<Rightarrow> (sm_Producers (st_metadata st))(ao_ProducerId opts \<mapsto> p)),
        sm_Closed := ao_Close opts \<or> sm_Closed (st_metadata st),
        sm_ClosedBy := (if ao_Close opts \<and> HasAllProducerHeaders opts then 
             Some \<lparr>cb_ProducerId = ao_ProducerId opts, cb_Epoch = the (ao_ProducerEpoch opts),
                   cb_Seq = the (ao_ProducerSeq opts)\<rparr>
           else sm_ClosedBy (st_metadata st))\<rparr>\<rparr>)"
  by (cases "ao_Fence opts"; cases ps) (auto simp add: commit_stream_def Let_def stream_bind_def)

lemma commit_stream_sel [simp]:
  "st_messages (commit_stream opts ps off st) = st_messages st"
  "st_data (commit_stream opts ps off st) = st_data st"
  "st_seals (commit_stream opts ps off st) = st_seals st"
  "sm_CurrentOffset (st_metadata (commit_stream opts ps off st)) = off"
  "sm_ForkOffset (st_metadata (commit_stream opts ps off st)) = sm_ForkOffset (st_metadata st)"
  "sm_ForkedFrom (st_metadata (commit_stream opts ps off st)) = sm_ForkedFrom (st_metadata st)"
  "sm_ContentType (st_metadata (commit_stream opts ps off st)) = sm_ContentType (st_metadata st)"
  "sm_Incarnation (st_metadata (commit_stream opts ps off st)) = sm_Incarnation (st_metadata st)"
  "sm_CreatedAt (st_metadata (commit_stream opts ps off st)) = sm_CreatedAt (st_metadata st)"
  "sm_WriteFence (st_metadata (commit_stream opts ps off st)) = sm_WriteFence (st_metadata st)"
  "sm_RefCount (st_metadata (commit_stream opts ps off st)) = sm_RefCount (st_metadata st)"
  "sm_SoftDeleted (st_metadata (commit_stream opts ps off st)) = sm_SoftDeleted (st_metadata st)"
  "sm_Closed (st_metadata (commit_stream opts ps off st)) =
     (ao_Close opts \<or> sm_Closed (st_metadata st))"
  "sm_LastSeq (st_metadata (commit_stream opts ps off st)) =
     (if ao_Seq opts = '''' then sm_LastSeq (st_metadata st) else ao_Seq opts)"
  "sm_Producers (st_metadata (commit_stream opts ps off st)) =
     (case ps of None \<Rightarrow> sm_Producers (st_metadata st)
      | Some p \<Rightarrow> (sm_Producers (st_metadata st))(ao_ProducerId opts \<mapsto> p))"
  "sm_SealedGeneration (st_metadata (commit_stream opts ps off st)) = sm_SealedGeneration (st_metadata st)"
  by (simp_all add: commit_stream_alt)

section \<open>The extension order\<close>

definition producer_le :: "ProducerState \<Rightarrow> ProducerState \<Rightarrow> bool" where
  "producer_le p q \<longleftrightarrow>
     ps_Epoch p < ps_Epoch q \<or> ps_Epoch p = ps_Epoch q \<and> ps_LastSeq p \<le> ps_LastSeq q"

definition producers_le :: "(string \<rightharpoonup> ProducerState) \<Rightarrow> (string \<rightharpoonup> ProducerState) \<Rightarrow> bool" where
  "producers_le f g \<longleftrightarrow> (\<forall>pid p. f pid = Some p \<longrightarrow> (\<exists>q. g pid = Some q \<and> producer_le p q))"

definition seals_le :: "(string \<rightharpoonup> WriteFenceSeal) \<Rightarrow> (string \<rightharpoonup> WriteFenceSeal) \<Rightarrow> bool" where
  "seals_le f g \<longleftrightarrow>
     (\<forall>a x. f a = Some x \<longrightarrow> (\<exists>y. g a = Some y \<and> (y = x \<or> ws_Generation x < ws_Generation y)))"

text \<open>The fields that name a stream and never change while it lives.\<close>

definition identity_of ::
    "memoryStream \<Rightarrow> string \<times> string \<times> gotime \<times> string \<times> Offset \<times> bool" where
  "identity_of st = (let m = st_metadata st in
     (sm_Incarnation m, sm_ContentType m, sm_CreatedAt m, sm_ForkedFrom m, sm_ForkOffset m, sm_WriteFence m))"

definition extends :: "memoryStream \<Rightarrow> memoryStream \<Rightarrow> bool" where
  "extends a b \<longleftrightarrow>
     identity_of a = identity_of b \<and>
     (\<exists>new. st_messages b = st_messages a @ new) \<and>
     (sm_Closed (st_metadata a) \<longrightarrow>
        sm_Closed (st_metadata b) \<and> st_messages b = st_messages a \<and>
        sm_CurrentOffset (st_metadata b) = sm_CurrentOffset (st_metadata a) \<and>
        sm_Producers (st_metadata b) = sm_Producers (st_metadata a)) \<and>
     producers_le (sm_Producers (st_metadata a)) (sm_Producers (st_metadata b)) \<and>
     seals_le (st_seals a) (st_seals b) \<and>
     sm_LastSeq (st_metadata a) \<le> sm_LastSeq (st_metadata b) \<and>
     (sm_SoftDeleted (st_metadata a) \<longrightarrow> sm_SoftDeleted (st_metadata b))"

lemma producer_le_refl [simp]: "producer_le p p"
  by (simp add: producer_le_def)

lemma producer_le_trans: "producer_le p q \<Longrightarrow> producer_le q r \<Longrightarrow> producer_le p r"
  by (auto simp: producer_le_def)

lemma producers_le_refl [simp]: "producers_le f f"
  by (auto simp: producers_le_def)

lemma producers_le_trans: "producers_le f g \<Longrightarrow> producers_le g h \<Longrightarrow> producers_le f h"
  unfolding producers_le_def by (meson producer_le_trans)

lemma producers_le_upd:
  "(\<And>p. f pid = Some p \<Longrightarrow> producer_le p q) \<Longrightarrow> producers_le f (f(pid \<mapsto> q))"
  by (auto simp: producers_le_def)

lemma seals_le_refl [simp]: "seals_le f f"
  by (auto simp: seals_le_def)

lemma seals_le_trans: "seals_le f g \<Longrightarrow> seals_le g h \<Longrightarrow> seals_le f h"
  unfolding seals_le_def by (fastforce dest: order_less_trans)

lemma extends_refl [simp]: "extends a a"
  by (simp add: extends_def)

lemma extends_trans: "extends a b \<Longrightarrow> extends b c \<Longrightarrow> extends a c"
  unfolding extends_def
  by (auto intro: producers_le_trans seals_le_trans order_trans)

lemma ValidateProducer_le:
  assumes "ValidateProducer (Some p) e q now = (res, Some p', err)"
  shows "producer_le p p'"
  using assms by (auto simp: ValidateProducer_def producer_le_def split: if_splits)

section \<open>Effect of each operation on the streams\<close>

text \<open>
  An operation either leaves the streams alone or replaces the stream at one path by one that
  extends it, keeps it well formed, keeps its reference count, adds only messages that satisfy
  \<open>Q\<close>, and marks it deleted only while forks refer to it.
\<close>

definition refines_at :: "(Message \<Rightarrow> bool) \<Rightarrow> string \<Rightarrow> MemoryStore \<Rightarrow> MemoryStore \<Rightarrow> bool" where
  "refines_at Q path s t \<longleftrightarrow>
     ms_streams t = ms_streams s \<or>
     (\<exists>st st' new. ms_streams s path = Some st \<and> ms_streams t = (ms_streams s)(path \<mapsto> st') \<and>
        (stream_ok st \<longrightarrow> extends st st' \<and> stream_ok st') \<and>
        sm_RefCount (st_metadata st') = sm_RefCount (st_metadata st) \<and>
        identity_of st' = identity_of st \<and>
        st_messages st' = st_messages st @ new \<and> (\<forall>m \<in> set new. Q m) \<and>
        (sm_SoftDeleted (st_metadata st') \<longrightarrow>
           sm_SoftDeleted (st_metadata st) \<or> 0 < sm_RefCount (st_metadata st)))"

text \<open>The operations that add no message.\<close>

abbreviation no_new :: "Message \<Rightarrow> bool" where
  "no_new \<equiv> (\<lambda>_. False)"

lemma refines_at_refl [simp]: "ms_streams t = ms_streams s \<Longrightarrow> refines_at Q path s t"
  by (simp add: refines_at_def)

lemma refines_at_put:
  assumes "ms_streams s path = Some st" "ms_streams t = (ms_streams s)(path \<mapsto> st')"
    and "stream_ok st \<Longrightarrow> extends st st'" "stream_ok st \<Longrightarrow> stream_ok st'"
    and "sm_RefCount (st_metadata st') = sm_RefCount (st_metadata st)" "identity_of st' = identity_of st"
    and "st_messages st' = st_messages st @ new" "\<forall>m \<in> set new. Q m"
    and "sm_SoftDeleted (st_metadata st') \<Longrightarrow> sm_SoftDeleted (st_metadata st) \<or> 0 < sm_RefCount (st_metadata st)"
  shows "refines_at Q path s t"
  using assms unfolding refines_at_def by blast

lemma refines_at_quiet:
  assumes "ms_streams s path = Some st" "ms_streams t = (ms_streams s)(path \<mapsto> st')"
    and "stream_ok st \<Longrightarrow> extends st st'" "stream_ok st \<Longrightarrow> stream_ok st'"
    and "sm_RefCount (st_metadata st') = sm_RefCount (st_metadata st)" "identity_of st' = identity_of st"
    and "st_messages st' = st_messages st"
    and "sm_SoftDeleted (st_metadata st') \<Longrightarrow> sm_SoftDeleted (st_metadata st) \<or> 0 < sm_RefCount (st_metadata st)"
  shows "refines_at Q path s t"
  using assms by (intro refines_at_put [of s path st t st' "[]"]) auto

lemma commit_extends:
  assumes "appendToStream st data False = Inr (off, st1)"
    and "\<not> sm_Closed (st_metadata st)"
    and "ao_Seq opts \<noteq> '''' \<Longrightarrow> sm_LastSeq (st_metadata st) \<le> ao_Seq opts"
    and "\<And>p q. ps = Some q \<Longrightarrow> sm_Producers (st_metadata st) (ao_ProducerId opts) = Some p \<Longrightarrow> producer_le p q"
  shows "extends st (commit_stream opts ps off st1)"
proof -
  from appendToStream_InrD [OF assms(1)] obtain new where
    st1: "st1 = st\<lparr>st_messages := st_messages st @ new, st_data := st_data st1\<rparr>" by blast
  have sel: "st_metadata st1 = st_metadata st" "st_seals st1 = st_seals st"
    "st_messages st1 = st_messages st @ new"
    by (subst st1, simp)+
  have "producers_le (sm_Producers (st_metadata st)) (sm_Producers (st_metadata (commit_stream opts ps off st1)))"
    using assms(4) by (cases ps) (auto simp: sel intro: producers_le_upd)
  then show ?thesis
    using assms(2,3) by (simp add: extends_def identity_of_def Let_def sel)
qed

lemma commit_ok:
  assumes "appendToStream st data allow = Inr (off, st1)" and "stream_ok st"
  shows "stream_ok (commit_stream opts ps off st1)"
proof -
  from appendToStream_InrD [OF assms(1)] obtain new where
    st1: "st1 = st\<lparr>st_messages := st_messages st @ new, st_data := st_data st1\<rparr>"
    and ch: "chain (sm_CurrentOffset (st_metadata st)) new off" by blast
  have sel: "st_metadata st1 = st_metadata st" "st_messages st1 = st_messages st @ new"
    "st_seals st1 = st_seals st"
    by (subst st1, simp)+
  show ?thesis
    using assms(2) ch by (auto simp: stream_ok_def sel chain_append)
qed

subsection \<open>Append\<close>

text \<open>
  An append that reaches the open rungs either refuses, or commits exactly the frames of the
  body after the producer check and the sequence check passed.
\<close>

lemma append_data_cases:
  assumes "append_data path data opts ps pr ls st s = (r, t)"
  shows "snd r \<noteq> None \<and> t = s \<or>
    (\<exists>off st1. appendToStream st data False = Inr (off, st1) \<and>
       (ao_Seq opts \<noteq> '''' \<longrightarrow> sm_LastSeq (st_metadata st) \<le> ao_Seq opts) \<and>
       t = append_commit path opts ps off st1 s \<and>
       r = (AppendResult0\<lparr>ar_Offset := off, ar_ProducerResult := pr, ar_LastSeq := ls,
                         ar_StreamClosed := ao_Close opts\<rparr>, None))"
  using assms by (auto simp: append_data_def split: if_splits sum.splits)

definition producer_step ::
    "store_env \<Rightarrow> AppendOptions \<Rightarrow> StreamMetadata \<Rightarrow> ProducerState option \<Rightarrow> bool" where
  "producer_step env opts md ps \<longleftrightarrow>
     (if HasAllProducerHeaders opts
      then producer_accepts (sm_Producers md (ao_ProducerId opts)) (the (ao_ProducerEpoch opts))
             (the (ao_ProducerSeq opts)) \<and>
           ps = Some \<lparr>ps_Epoch = the (ao_ProducerEpoch opts), ps_LastSeq = the (ao_ProducerSeq opts),
                      ps_LastUpdated = tm_sec (env_now env)\<rparr>
      else ps = None)"

lemma producer_step_le:
  "producer_step env opts md ps \<Longrightarrow> ps = Some q \<Longrightarrow> sm_Producers md (ao_ProducerId opts) = Some p \<Longrightarrow>
     producer_le p q"
  by (auto simp: producer_step_def producer_le_def producer_accepts_def split: if_splits)

lemma validateProducer_accepted:
  assumes "validateProducer env md pid e q = (res, st', None)"
    and "ar_ProducerResult res \<noteq> ProducerResultDuplicate"
  shows "producer_accepts (sm_Producers md pid) e q \<and>
    st' = Some \<lparr>ps_Epoch = e, ps_LastSeq = q, ps_LastUpdated = tm_sec (env_now env)\<rparr> \<and>
    ar_ProducerResult res = ProducerResultAccepted \<and> ar_LastSeq res = q"
proof -
  have v: "ValidateProducer (sm_Producers md pid) e q (tm_sec (env_now env)) = (res, st', None)"
    using assms(1) by (simp add: validateProducer_def)
  from ValidateProducer_cases [OF v] assms(2)
  have st': "st' = Some \<lparr>ps_Epoch = e, ps_LastSeq = q, ps_LastUpdated = tm_sec (env_now env)\<rparr>"
    "ar_ProducerResult res = ProducerResultAccepted \<and> ar_LastSeq res = q" by auto
  moreover have "producer_accepts (sm_Producers md pid) e q"
    using ValidateProducer_accepts_iff [of "sm_Producers md pid" e q "tm_sec (env_now env)"] v st'(1) by simp
  ultimately show ?thesis by simp
qed

definition append_accepts ::
    "store_env \<Rightarrow> bytes \<Rightarrow> AppendOptions \<Rightarrow> memoryStream \<Rightarrow> ProducerState option \<Rightarrow> Offset \<Rightarrow> memoryStream \<Rightarrow> bool" where
  "append_accepts env data opts st ps off st1 \<longleftrightarrow>
     \<not> sm_Closed (st_metadata st) \<and>
     (ao_ContentType opts \<noteq> '''' \<longrightarrow> ContentTypeMatches (sm_ContentType (st_metadata st)) (ao_ContentType opts)) \<and>
     producer_step env opts (st_metadata st) ps \<and>
     (ao_Seq opts \<noteq> '''' \<longrightarrow> sm_LastSeq (st_metadata st) \<le> ao_Seq opts) \<and>
     appendToStream st data False = Inr (off, st1)"

text \<open>The result of an accepted append.\<close>

definition accepted_result :: "AppendOptions \<Rightarrow> Offset \<Rightarrow> AppendResult" where
  "accepted_result opts off =
     AppendResult0\<lparr>ar_Offset := off,
       ar_ProducerResult := (if HasAllProducerHeaders opts then ProducerResultAccepted else ProducerResultNone),
       ar_LastSeq := (if HasAllProducerHeaders opts then the (ao_ProducerSeq opts) else 0),
       ar_StreamClosed := ao_Close opts\<rparr>"

lemma append_open_cases:
  assumes "append_open env path data opts st s = (r, t)"
  shows "t = s \<and> (snd r \<noteq> None \<or> ar_ProducerResult (fst r) = ProducerResultDuplicate) \<or>
    (\<exists>ps off st1. append_accepts env data opts st ps off st1 \<and>
       t = append_commit path opts ps off st1 s \<and> r = (accepted_result opts off, None))"
proof (cases "sm_Closed (st_metadata st) \<or>
    ao_ContentType opts \<noteq> '''' \<and> \<not> ContentTypeMatches (sm_ContentType (st_metadata st)) (ao_ContentType opts)")
  case True
  with assms show ?thesis by (auto simp: append_open_def Let_def split: if_splits)
next
  case open': False
  show ?thesis
  proof (cases "HasAllProducerHeaders opts")
    case False
    with open' assms have "append_data path data opts None ProducerResultNone 0 st s = (r, t)"
      by (auto simp: append_open_def Let_def split: if_splits)
    from append_data_cases [OF this] open' False show ?thesis
      by (auto simp: append_accepts_def producer_step_def accepted_result_def)
  next
    case True
    obtain res st' err where v: "validateProducer env (st_metadata st) (ao_ProducerId opts)
        (the (ao_ProducerEpoch opts)) (the (ao_ProducerSeq opts)) = (res, st', err)"
      by (metis prod_cases3)
    show ?thesis
    proof (cases "err \<noteq> None \<or> ar_ProducerResult res = ProducerResultDuplicate")
      case True
      with open' assms v \<open>HasAllProducerHeaders opts\<close> show ?thesis
        by (auto simp: append_open_def Let_def split: if_splits)
    next
      case False
      then have err: "err = None" and nd: "ar_ProducerResult res \<noteq> ProducerResultDuplicate" by auto
      from validateProducer_accepted [OF v [unfolded err] nd]
      have ps: "producer_step env opts (st_metadata st) st'" "ar_ProducerResult res = ProducerResultAccepted"
        "ar_LastSeq res = the (ao_ProducerSeq opts)"
        using \<open>HasAllProducerHeaders opts\<close> by (auto simp: producer_step_def)
      from open' assms v err nd True
      have "append_data path data opts st' (ar_ProducerResult res) (ar_LastSeq res) st s = (r, t)"
        by (auto simp: append_open_def Let_def split: if_splits)
      from append_data_cases [OF this] open' True ps show ?thesis
        by (auto simp: append_accepts_def accepted_result_def)
    qed
  qed
qed

text \<open>The stream as \<^verbatim>\<open>Append\<close> touches it before the open rungs.\<close>

abbreviation touch :: "store_env \<Rightarrow> memoryStream \<Rightarrow> memoryStream" where
  "touch env \<equiv> upd_meta (sm_LastAccessedAt_update (\<lambda>_. env_now env))"

lemma identity_of_upd [simp]:
  "identity_of (upd_meta (sm_LastAccessedAt_update f) st) = identity_of st"
  "identity_of (upd_meta (sm_Closed_update g) st) = identity_of st"
  "identity_of (upd_meta (sm_SoftDeleted_update g) st) = identity_of st"
  "identity_of (upd_meta (sm_RefCount_update h) st) = identity_of st"
  by (simp_all add: identity_of_def Let_def)

lemma touch_extends [simp]: "extends st (touch env st)"
  by (simp add: extends_def identity_of_def Let_def)

lemma touch_ok [simp]: "stream_ok (touch env st) \<longleftrightarrow> stream_ok st"
  by (simp add: stream_ok_def)

lemma Append_cases:
  assumes "Append env path data opts s = (r, t)"
  obtains
    (refused) "ms_streams t = ms_streams s" "snd r \<noteq> None"
  | (touched) st where "ms_streams s path = Some st" "\<not> sm_SoftDeleted (st_metadata st)"
      "\<not> isExpired env (st_metadata st)" "ms_streams t = (ms_streams s)(path \<mapsto> touch env st)"
      "snd r \<noteq> None \<or> ar_ProducerResult (fst r) = ProducerResultDuplicate"
  | (accepted) st ps off st1 u where "ms_streams s path = Some st" "\<not> sm_SoftDeleted (st_metadata st)"
      "\<not> isExpired env (st_metadata st)"
      "wo_Reason (fst (fenceRung env path st (ao_Fence opts) (ao_ProducerId opts) (ao_ProducerEpoch opts) s)) = FenceNone"
      "append_accepts env data opts (touch env st) ps off st1"
      "t = append_commit path opts ps off st1 u" "ms_streams u = (ms_streams s)(path \<mapsto> touch env st)"
      "ms_longPoll u = ms_longPoll s" "r = (accepted_result opts off, None)"
proof -
  let ?s1 = "if HasAllProducerHeaders opts then getProducerLock path (ao_ProducerId opts) s else s"
  have s1: "ms_streams ?s1 = ms_streams s" "ms_longPoll ?s1 = ms_longPoll s"
    by (simp_all add: getProducerLock_def Let_def)
  show ?thesis
  proof (cases "(case ao_Fence opts of None \<Rightarrow> False | Some f \<Rightarrow> \<not> fence_Complete f) \<or>
      HasProducerHeaders opts \<and> \<not> HasAllProducerHeaders opts \<or> ms_streams s path = None \<or>
      (\<exists>st. ms_streams s path = Some st \<and> (sm_SoftDeleted (st_metadata st) \<or> isExpired env (st_metadata st)))")
    case True
    with assms s1 show ?thesis
      by (intro refused) (auto simp: Append_def Let_def split: if_splits option.splits)
  next
    case False
    then obtain st where st: "ms_streams s path = Some st" "\<not> sm_SoftDeleted (st_metadata st)"
        "\<not> isExpired env (st_metadata st)" by auto
    obtain out u where fr: "fenceRung env path st (ao_Fence opts) (ao_ProducerId opts)
        (ao_ProducerEpoch opts) ?s1 = (out, u)" by fastforce
    have u: "ms_streams u = ms_streams s" "ms_longPoll u = ms_longPoll s"
      using fenceRung_streams [of env path st "ao_Fence opts" "ao_ProducerId opts" "ao_ProducerEpoch opts" ?s1]
        fenceRung_longPoll [of env path st "ao_Fence opts" "ao_ProducerId opts" "ao_ProducerEpoch opts" ?s1]
        fr s1 by simp_all
    have out: "fst (fenceRung env path st (ao_Fence opts) (ao_ProducerId opts) (ao_ProducerEpoch opts) s) = out"
      using fenceRung_markers [of ?s1 s env path st "ao_Fence opts" "ao_ProducerId opts" "ao_ProducerEpoch opts"]
        fr by (simp add: getProducerLock_def Let_def)
    have eq: "Append env path data opts s =
      (if wo_Reason out \<noteq> FenceNone
       then ((AppendResult0\<lparr>ar_FenceReason := wo_Reason out, ar_FenceGeneration := wo_Generation out,
                ar_FenceHolder := wo_Holder out\<rparr>, Some ErrAppendFenced), u)
       else append_open env path data opts (touch env st) (put_stream path (touch env st) u))"
      using False st fr s1 by (auto simp: Append_def Let_def split: option.splits)
    show ?thesis
    proof (cases "wo_Reason out = FenceNone")
      case False
      with eq assms u show ?thesis by (intro refused) auto
    next
      case True
      with eq assms have "append_open env path data opts (touch env st) (put_stream path (touch env st) u) = (r, t)"
        by simp
      from append_open_cases [OF this] consider
        (unchanged) "t = put_stream path (touch env st) u"
          "snd r \<noteq> None \<or> ar_ProducerResult (fst r) = ProducerResultDuplicate"
      | (committed) ps off st1 where "append_accepts env data opts (touch env st) ps off st1"
          "t = append_commit path opts ps off st1 (put_stream path (touch env st) u)"
          "r = (accepted_result opts off, None)"
        by blast
      then show ?thesis
      proof cases
        case unchanged
        with st u show ?thesis by (intro touched) auto
      next
        case committed
        with st u out True show ?thesis
          by (intro accepted [of st ps off st1 "put_stream path (touch env st) u"])
             (auto simp: put_stream_def)
      qed
    qed
  qed
qed

lemma appendToStream_metadata:
  "appendToStream st data allow = Inr (off, st1) \<Longrightarrow> st_metadata st1 = st_metadata st"
  by (auto dest!: appendToStream_InrD) (metis memoryStream.select_convs(1) memoryStream.surjective memoryStream.update_convs(2,3))

text \<open>Every message of a non-empty body carries bytes.\<close>

definition append_new :: "bytes \<Rightarrow> Message \<Rightarrow> bool" where
  "append_new data m \<longleftrightarrow> data \<noteq> [] \<longrightarrow> msg_Data m \<noteq> []"

lemma appendToStream_new:
  assumes "appendToStream st data allow = Inr (off, st1)"
  shows "\<exists>new. st_messages st1 = st_messages st @ new \<and> (\<forall>m \<in> set new. append_new data m)"
proof -
  from appendToStream_InrD [OF assms] obtain new where
    st1: "st1 = st\<lparr>st_messages := st_messages st @ new, st_data := st_data st1\<rparr>"
    and d: "if IsJSONContentType (sm_ContentType (st_metadata st))
            then ProcessJSONAppend data allow = Inr (map msg_Data new) \<and> st_data st1 = st_data st
            else map msg_Data new = [data] \<and> st_data st1 = st_data st @ data" by blast
  have "st_messages st1 = st_messages st @ new" by (subst st1) simp
  moreover have "append_new data m" if "m \<in> set new" for m
  proof (cases "IsJSONContentType (sm_ContentType (st_metadata st))")
    case True
    with d that have "msg_Data m \<noteq> []"
      using ProcessJSONAppend_nonempty [of data allow "map msg_Data new"] by auto
    then show ?thesis by (simp add: append_new_def)
  next
    case False
    with d that show ?thesis by (auto simp: append_new_def)
  qed
  ultimately show ?thesis by blast
qed

lemma Append_refines:
  assumes "Append env path data opts s = (r, t)"
  shows "refines_at (append_new data) path s t"
  using assms
proof (cases rule: Append_cases)
  case refused
  then show ?thesis by simp
next
  case (touched st)
  then show ?thesis by (intro refines_at_quiet [of s path st t "touch env st"]) auto
next
  case (accepted st ps off st1 u)
  let ?st' = "commit_stream opts ps off st1"
  have acc: "appendToStream (touch env st) data False = Inr (off, st1)" "\<not> sm_Closed (st_metadata (touch env st))"
    "producer_step env opts (st_metadata (touch env st)) ps"
    "ao_Seq opts \<noteq> '''' \<longrightarrow> sm_LastSeq (st_metadata (touch env st)) \<le> ao_Seq opts"
    using accepted(5) unfolding append_accepts_def by blast+
  have "extends (touch env st) ?st'"
    using acc by (intro commit_extends [OF acc(1,2)]) (auto intro: producer_step_le)
  then have "extends st ?st'" by (rule extends_trans [OF touch_extends])
  moreover from this have "identity_of ?st' = identity_of st" by (simp add: extends_def)
  moreover have "stream_ok st \<Longrightarrow> stream_ok ?st'"
    using commit_ok [OF acc(1)] by simp
  moreover have "st_metadata st1 = st_metadata (touch env st)"
    by (rule appendToStream_metadata [OF acc(1)])
  moreover obtain new where new: "st_messages st1 = st_messages st @ new" "\<forall>m \<in> set new. append_new data m"
    using appendToStream_new [OF acc(1)] by auto
  ultimately show ?thesis
    using accepted new by (intro refines_at_put [of s path st t ?st' new]) (auto simp: fun_upd_upd)
qed

subsection \<open>Close\<close>

lemma closed_extends [simp]: "extends st (upd_meta (sm_Closed_update (\<lambda>_. True)) st)"
  by (simp add: extends_def identity_of_def Let_def)

lemma closed_ok [simp]: "stream_ok (upd_meta (sm_Closed_update (\<lambda>_. True)) st) \<longleftrightarrow> stream_ok st"
  by (simp add: stream_ok_def)

lemma closeStream_cases:
  assumes "closeStream env path fence s = (r, t)"
  shows "ms_streams t = ms_streams s \<and> snd r \<noteq> None \<or>
    (\<exists>st u. ms_streams s path = Some st \<and> \<not> isExpired env (st_metadata st) \<and>
       wo_Reason (fst (fenceRung env path st fence '''' None s)) = FenceNone \<and>
       ms_streams u = ms_streams s \<and> ms_longPoll u = ms_longPoll s \<and>
       t = notifyClosed path (put_stream path (upd_meta (sm_Closed_update (\<lambda>_. True)) st) u) \<and>
       r = (Some (CloseResult0\<lparr>cr_FinalOffset := sm_CurrentOffset (st_metadata st),
                                cr_AlreadyClosed := sm_Closed (st_metadata st)\<rparr>), None))"
proof (cases "ms_streams s path")
  case None
  with assms show ?thesis by (auto simp: closeStream_def)
next
  case (Some st)
  obtain out u where fr: "fenceRung env path st fence '''' None s = (out, u)" by fastforce
  have "ms_streams u = ms_streams s" "ms_longPoll u = ms_longPoll s"
    using fenceRung_streams [of env path st fence "''''" None s]
      fenceRung_longPoll [of env path st fence "''''" None s] fr by simp_all
  with assms Some fr show ?thesis
    by (cases "isExpired env (st_metadata st)"; cases "wo_Reason out = FenceNone")
       (auto simp: closeStream_def Let_def)
qed

lemma closeStream_refines:
  assumes "closeStream env path fence s = (r, t)"
  shows "refines_at Q path s t"
proof -
  from closeStream_cases [OF assms] consider "ms_streams t = ms_streams s"
    | st where "ms_streams s path = Some st"
        "ms_streams t = (ms_streams s)(path \<mapsto> upd_meta (sm_Closed_update (\<lambda>_. True)) st)"
    by auto
  then show ?thesis
  proof cases
    case 1
    then show ?thesis by simp
  next
    case 2
    then show ?thesis by (rule refines_at_quiet) auto
  qed
qed

lemma CloseStream_refines: "CloseStream env path s = (r, t) \<Longrightarrow> refines_at Q path s t"
  unfolding CloseStream_def by (rule closeStream_refines)

lemma CloseStreamFenced_refines: "CloseStreamFenced env path f s = (r, t) \<Longrightarrow> refines_at Q path s t"
  by (auto simp: CloseStreamFenced_def split: if_splits intro: closeStream_refines)

text \<open>The stream an accepted close with producer headers leaves behind.\<close>

definition close_commit :: "store_env \<Rightarrow> CloseProducerOptions \<Rightarrow> memoryStream \<Rightarrow> memoryStream" where
  "close_commit env opts st =
     stream_bind (cpo_Fence opts) (cpo_ProducerId opts) (sm_CurrentOffset (st_metadata st))
       (st\<lparr>st_metadata := (st_metadata st)
          \<lparr>sm_Producers := (sm_Producers (st_metadata st))(cpo_ProducerId opts \<mapsto>
             \<lparr>ps_Epoch = cpo_ProducerEpoch opts, ps_LastSeq = cpo_ProducerSeq opts,
              ps_LastUpdated = tm_sec (env_now env)\<rparr>),
           sm_Closed := True,
           sm_ClosedBy := Some \<lparr>cb_ProducerId = cpo_ProducerId opts, cb_Epoch = cpo_ProducerEpoch opts,
                                cb_Seq = cpo_ProducerSeq opts\<rparr>\<rparr>\<rparr>)"

lemma CloseStreamWithProducer_cases:
  assumes "CloseStreamWithProducer env path opts s = (r, t)"
  shows "ms_streams t = ms_streams s \<or>
    (\<exists>st u. ms_streams s path = Some st \<and> \<not> isExpired env (st_metadata st) \<and>
       \<not> sm_Closed (st_metadata st) \<and>
       wo_Reason (fst (fenceRung env path st (cpo_Fence opts) (cpo_ProducerId opts)
                        (Some (cpo_ProducerEpoch opts)) s)) = FenceNone \<and>
       producer_accepts (sm_Producers (st_metadata st) (cpo_ProducerId opts))
         (cpo_ProducerEpoch opts) (cpo_ProducerSeq opts) \<and>
       ms_streams u = ms_streams s \<and> ms_longPoll u = ms_longPoll s \<and>
       t = notifyClosed path (put_stream path (close_commit env opts st) u))"
proof -
  let ?s1 = "getProducerLock path (cpo_ProducerId opts) s"
  have s1: "ms_longPoll ?s1 = ms_longPoll s" "ms_markers ?s1 = ms_markers s"
    by (simp_all add: getProducerLock_def Let_def)
  show ?thesis
  proof (cases "(case cpo_Fence opts of None \<Rightarrow> False | Some f \<Rightarrow> \<not> fence_Complete f) \<or> ms_streams s path = None \<or>
      (\<exists>st. ms_streams s path = Some st \<and> isExpired env (st_metadata st))")
    case True
    with assms show ?thesis by (auto simp: CloseStreamWithProducer_def Let_def split: if_splits)
  next
    case False
    then obtain st where st: "ms_streams s path = Some st" "\<not> isExpired env (st_metadata st)" by auto
    let ?fr = "fenceRung env path st (cpo_Fence opts) (cpo_ProducerId opts) (Some (cpo_ProducerEpoch opts))"
    obtain out u where fr: "?fr ?s1 = (out, u)" by fastforce
    have u: "ms_streams u = ms_streams s" "ms_longPoll u = ms_longPoll s"
      using fenceRung_streams [of env path st "cpo_Fence opts" "cpo_ProducerId opts" "Some (cpo_ProducerEpoch opts)" ?s1]
        fenceRung_longPoll [of env path st "cpo_Fence opts" "cpo_ProducerId opts" "Some (cpo_ProducerEpoch opts)" ?s1]
        fr s1 by simp_all
    have out: "fst (?fr s) = out" using fenceRung_markers [OF s1(2)] fr by (metis fst_conv)
    obtain res st' err where v: "validateProducer env (st_metadata st) (cpo_ProducerId opts)
        (cpo_ProducerEpoch opts) (cpo_ProducerSeq opts) = (res, st', err)" by (metis prod_cases3)
    show ?thesis
    proof (cases "wo_Reason out = FenceNone \<and> \<not> sm_Closed (st_metadata st) \<and> err = None \<and>
        ar_ProducerResult res \<noteq> ProducerResultDuplicate")
      case True
      then have v': "validateProducer env (st_metadata st) (cpo_ProducerId opts)
        (cpo_ProducerEpoch opts) (cpo_ProducerSeq opts) = (res, st', None)" using v by simp
      have acc: "producer_accepts (sm_Producers (st_metadata st) (cpo_ProducerId opts))
          (cpo_ProducerEpoch opts) (cpo_ProducerSeq opts)"
        "st' = Some \<lparr>ps_Epoch = cpo_ProducerEpoch opts, ps_LastSeq = cpo_ProducerSeq opts,
                     ps_LastUpdated = tm_sec (env_now env)\<rparr>"
        using validateProducer_accepted [OF v'] True by simp_all
      have "t = notifyClosed path (put_stream path (close_commit env opts st) u)"
        using assms False st fr v' True acc(2)
        by (auto simp: CloseStreamWithProducer_def Let_def close_commit_def)
      with st u out True acc(1) show ?thesis by blast
    next
      case nacc: False
      have "t = u"
        using assms False st fr v nacc
        by (cases "wo_Reason out = FenceNone"; cases "sm_Closed (st_metadata st)"; cases "err = None")
           (auto simp: CloseStreamWithProducer_def Let_def split: if_splits)
      with u show ?thesis by simp
    qed
  qed
qed

lemma close_commit_extends:
  assumes "\<not> sm_Closed (st_metadata st)"
    and "producer_accepts (sm_Producers (st_metadata st) (cpo_ProducerId opts))
           (cpo_ProducerEpoch opts) (cpo_ProducerSeq opts)"
  shows "extends st (close_commit env opts st)"
  using assms
  by (auto simp: extends_def identity_of_def Let_def close_commit_def producer_le_def producer_accepts_def
      intro!: producers_le_upd)

lemma close_commit_RefCount [simp]:
  "sm_RefCount (st_metadata (close_commit env opts st)) = sm_RefCount (st_metadata st)"
  by (simp add: close_commit_def)

lemma close_commit_frame [simp]:
  "identity_of (close_commit env opts st) = identity_of st"
  "st_messages (close_commit env opts st) = st_messages st"
  "sm_SoftDeleted (st_metadata (close_commit env opts st)) = sm_SoftDeleted (st_metadata st)"
  by (simp_all add: close_commit_def identity_of_def Let_def)

lemma close_commit_ok: "stream_ok st \<Longrightarrow> stream_ok (close_commit env opts st)"
  by (simp add: stream_ok_def close_commit_def)

lemma CloseStreamWithProducer_refines:
  assumes "CloseStreamWithProducer env path opts s = (r, t)"
  shows "refines_at Q path s t"
proof -
  from CloseStreamWithProducer_cases [OF assms] consider "ms_streams t = ms_streams s"
    | st where "ms_streams s path = Some st" "\<not> sm_Closed (st_metadata st)"
        "producer_accepts (sm_Producers (st_metadata st) (cpo_ProducerId opts))
           (cpo_ProducerEpoch opts) (cpo_ProducerSeq opts)"
        "ms_streams t = (ms_streams s)(path \<mapsto> close_commit env opts st)"
    by auto
  then show ?thesis
  proof cases
    case 1
    then show ?thesis by simp
  next
    case (2 st)
    then show ?thesis
      by (intro refines_at_quiet [of s path st t "close_commit env opts st"])
         (auto intro: close_commit_extends close_commit_ok)
  qed
qed

subsection \<open>Fence operations and reads\<close>

lemma stream_seal_frame [simp]:
  "identity_of (snd (stream_seal a g w st)) = identity_of st"
  "st_messages (snd (stream_seal a g w st)) = st_messages st"
  "sm_SoftDeleted (st_metadata (snd (stream_seal a g w st))) = sm_SoftDeleted (st_metadata st)"
  by (simp_all add: stream_seal_def identity_of_def Let_def)

lemma stream_seal_sel [simp]:
  "sm_RefCount (st_metadata (snd (stream_seal a g w st))) = sm_RefCount (st_metadata st)"
  "st_seals (snd (stream_seal a g w st)) a =
     Some \<lparr>ws_Present = True, ws_Generation = g, ws_WakeID = w,
           ws_Offset = (case st_lastFencedOff st of None \<Rightarrow> sm_CurrentOffset (st_metadata st) | Some o' \<Rightarrow> o')\<rparr>"
  by (simp_all add: stream_seal_def Let_def)

lemma stream_seal_extends:
  assumes "stream_ok st" and "\<not> ws_Present (seal_of st a) \<or> ws_Generation (seal_of st a) < g"
  shows "extends st (snd (stream_seal a g w st))"
proof -
  have "seals_le (st_seals st) (st_seals (snd (stream_seal a g w st)))"
    using assms by (auto simp: seals_le_def stream_seal_def Let_def seal_of_def stream_ok_def)
  then show ?thesis by (simp add: extends_def identity_of_def stream_seal_def Let_def)
qed

lemma stream_seal_ok: "stream_ok st \<Longrightarrow> stream_ok (snd (stream_seal a g w st))"
  by (simp add: stream_ok_def stream_seal_def Let_def)

lemma GrantAppendFence_streams:
  assumes "GrantAppendFence env path f s = (r, t)" and "ms_streams t \<noteq> ms_streams s"
    and m: "store_marker env path (FenceAuthority f) s = (cur, u)"
  shows "\<exists>st. ms_streams s path = Some st \<and>
    (\<not> ws_Present (seal_of st (FenceAuthority f)) \<or>
       ws_Generation (seal_of st (FenceAuthority f)) < wm_Generation cur) \<and>
    ms_streams t = (ms_streams s)(path \<mapsto>
      snd (stream_seal (FenceAuthority f) (wm_Generation cur) (wm_WakeID cur) st))"
proof (cases "ms_streams s path")
  case None
  with assms show ?thesis by (simp add: GrantAppendFence_def Let_def split: if_splits)
next
  case (Some st)
  have u: "ms_streams u = ms_streams s"
    using store_marker_streams [of env path "FenceAuthority f" s] m by simp
  show ?thesis
    using assms(1,2) u unfolding GrantAppendFence_def Let_def m Some option.case prod.case
    by (simp only: split: if_splits) auto
qed

lemma GrantAppendFence_refines:
  assumes "GrantAppendFence env path f s = (r, t)"
  shows "refines_at Q path s t"
proof (cases "ms_streams t = ms_streams s")
  case False
  obtain cur u where "store_marker env path (FenceAuthority f) s = (cur, u)" by fastforce
  from GrantAppendFence_streams [OF assms False this] show ?thesis
    by (auto intro!: refines_at_quiet intro: stream_seal_extends stream_seal_ok)
qed simp

lemma RevokeAppendFence_refines: "RevokeAppendFence env path f s = (r, t) \<Longrightarrow> refines_at Q path s t"
  by (auto simp: RevokeAppendFence_def split: if_splits)

lemma SealAppendFence_streams:
  assumes "SealAppendFence env path f s = (r, t)" and "ms_streams t \<noteq> ms_streams s"
  shows "\<exists>st. ms_streams s path = Some st \<and>
    (\<not> ws_Present (seal_of st (FenceAuthority f)) \<or>
       ws_Generation (seal_of st (FenceAuthority f)) < af_Generation f) \<and>
    ms_streams t = (ms_streams s)(path \<mapsto>
      snd (stream_seal (FenceAuthority f) (af_Generation f) (af_WakeID f) st))"
proof -
  obtain ok u where m: "tombstone env path (FenceAuthority f) f s = (ok, u)" by fastforce
  have u: "ms_streams u = ms_streams s"
    using tombstone_streams [of env path "FenceAuthority f" f s] m by simp
  show ?thesis
  proof (cases "ms_streams s path")
    case None
    with assms m u show ?thesis by (auto simp: SealAppendFence_def Let_def split: if_splits)
  next
    case (Some st)
    obtain sealed st' where seal: "stream_seal (FenceAuthority f) (af_Generation f) (af_WakeID f) st = (sealed, st')"
      by fastforce
    show ?thesis
      using assms unfolding SealAppendFence_def Let_def m u Some option.case prod.case seal
      using u by (simp only: split: if_splits) (auto simp: seal)
  qed
qed

lemma SealAppendFence_refines:
  assumes "SealAppendFence env path f s = (r, t)"
  shows "refines_at Q path s t"
proof (cases "ms_streams t = ms_streams s")
  case False
  from SealAppendFence_streams [OF assms False] show ?thesis
    by (auto intro!: refines_at_quiet intro: stream_seal_extends stream_seal_ok)
qed simp

lemma softdelete_extends [simp]: "extends st (upd_meta (sm_SoftDeleted_update (\<lambda>_. True)) st)"
  by (simp add: extends_def identity_of_def Let_def)

lemma softdelete_ok [simp]: "stream_ok (upd_meta (sm_SoftDeleted_update (\<lambda>_. True)) st) \<longleftrightarrow> stream_ok st"
  by (simp add: stream_ok_def)

lemma store_ReadPage_streams:
  assumes "store_ReadPage env ctx path off opts s = Some (r, t)" and "ms_streams s path = Some st"
  shows "ms_streams t = ms_streams s \<or>
      ms_streams t = (ms_streams s)(path \<mapsto> upd_meta (sm_SoftDeleted_update (\<lambda>_. True)) st) \<and>
        0 < sm_RefCount (st_metadata st) \<or>
      ms_streams t = (ms_streams s)(path \<mapsto> touch env st)"
  using assms
  by (cases ctx) (auto simp: store_ReadPage_def Let_def bind_eq_Some_conv split: if_splits)

lemma store_ReadPage_refines:
  assumes "store_ReadPage env ctx path off opts s = Some (r, t)"
  shows "refines_at Q path s t"
proof (cases "ms_streams s path")
  case None
  with assms show ?thesis by (cases ctx) (auto simp: store_ReadPage_def Let_def)
next
  case (Some st)
  from store_ReadPage_streams [OF assms Some] show ?thesis
  proof (elim disjE)
    assume t: "ms_streams t = (ms_streams s)(path \<mapsto> upd_meta (sm_SoftDeleted_update (\<lambda>_. True)) st) \<and>
        0 < sm_RefCount (st_metadata st)"
    show ?thesis by (rule refines_at_quiet [OF Some conjunct1 [OF t]]) (use t in auto)
  next
    assume "ms_streams t = (ms_streams s)(path \<mapsto> touch env st)"
    then show ?thesis by (rule refines_at_quiet [OF Some]) auto
  qed simp
qed

section \<open>Evolution of the whole store\<close>

text \<open>Every stream that survives a step extends what it was.\<close>

definition evolves :: "MemoryStore \<Rightarrow> MemoryStore \<Rightarrow> bool" where
  "evolves s t \<longleftrightarrow> (\<forall>p st'. ms_streams t p = Some st' \<longrightarrow>
     (\<exists>st. ms_streams s p = Some st \<and> (stream_ok st \<longrightarrow> extends st st' \<and> stream_ok st')))"

lemma evolves_refl [simp]: "ms_streams t = ms_streams s \<Longrightarrow> evolves s t"
  by (simp add: evolves_def)

lemma evolves_trans: "evolves s t \<Longrightarrow> evolves t u \<Longrightarrow> evolves s u"
  unfolding evolves_def by (meson extends_trans)

lemma refines_at_evolves: "refines_at Q path s t \<Longrightarrow> evolves s t"
  by (fastforce simp: refines_at_def evolves_def split: if_splits)

lemma evolves_store_ok: "evolves s t \<Longrightarrow> store_ok s \<Longrightarrow> store_ok t"
  unfolding evolves_def store_ok_def by blast

lemma evolves_delete [simp]: "evolves s (delete_stream path s)"
  by (simp add: evolves_def)

lemma refcount_extends [simp]: "extends st (upd_meta (sm_RefCount_update f) st)"
  by (simp add: extends_def identity_of_def Let_def)

lemma refcount_ok [simp]: "stream_ok (upd_meta (sm_RefCount_update f) st) \<longleftrightarrow> stream_ok st"
  by (simp add: stream_ok_def)

lemma evolves_refcount:
  "ms_streams s p = Some st \<Longrightarrow> evolves s (put_stream p (upd_meta (sm_RefCount_update f) st) s)"
  by (auto simp: evolves_def)

text \<open>The cascade removes streams and otherwise only moves reference counts.\<close>

definition recounts :: "MemoryStore \<Rightarrow> MemoryStore \<Rightarrow> bool" where
  "recounts s t \<longleftrightarrow> (\<forall>p b. ms_streams t p = Some b \<longrightarrow>
     (\<exists>a f. ms_streams s p = Some a \<and> b = upd_meta (sm_RefCount_update f) a))"

lemma recounts_trans:
  assumes "recounts s t" and "recounts t u"
  shows "recounts s u"
  unfolding recounts_def
proof (intro allI impI)
  fix p c assume "ms_streams u p = Some c"
  with assms(2) obtain b f where b: "ms_streams t p = Some b" "c = upd_meta (sm_RefCount_update f) b"
    unfolding recounts_def by blast
  with assms(1) obtain a g where "ms_streams s p = Some a" "b = upd_meta (sm_RefCount_update g) a"
    unfolding recounts_def by blast
  with b show "\<exists>a f. ms_streams s p = Some a \<and> c = upd_meta (sm_RefCount_update f) a"
    by (intro exI [of _ a] exI [of _ "f \<circ> g"]) simp
qed

lemma recounts_sub: "ms_streams t \<subseteq>\<^sub>m ms_streams s \<Longrightarrow> recounts s t"
  unfolding recounts_def map_le_def
proof (intro allI impI)
  fix p b assume "\<forall>a \<in> dom (ms_streams t). ms_streams t a = ms_streams s a" "ms_streams t p = Some b"
  then show "\<exists>a f. ms_streams s p = Some a \<and> b = upd_meta (sm_RefCount_update f) a"
    by (intro exI [of _ b] exI [of _ id]) force
qed

lemma recounts_put:
  assumes "recounts s t" and "ms_streams t p = Some st"
  shows "recounts s (put_stream p (upd_meta (sm_RefCount_update f) st) t)"
proof (rule recounts_trans [OF assms(1)])
  have "\<exists>a g. ms_streams t q = Some a \<and> b = upd_meta (sm_RefCount_update g) a"
    if "ms_streams (put_stream p (upd_meta (sm_RefCount_update f) st) t) q = Some b" for q b
  proof (cases "q = p")
    case True
    with that assms(2) show ?thesis by (intro exI [of _ st] exI [of _ f]) simp
  next
    case False
    with that show ?thesis by (intro exI [of _ b] exI [of _ id]) simp
  qed
  then show "recounts t (put_stream p (upd_meta (sm_RefCount_update f) st) t)"
    unfolding recounts_def by blast
qed

lemma recounts_evolves: "recounts s t \<Longrightarrow> evolves s t"
  unfolding recounts_def evolves_def by fastforce

lemma deleteWithCascade_recounts:
  assumes "deleteWithCascade path s = Some r"
  shows "recounts s (snd r)"
  using assms
proof (induction path s r rule: deleteWithCascade.raw_induct [rotated 1, consumes 1, case_names 1])
  case (1 f path s r)
  obtain e t where r: "r = (e, t)" by fastforce
  have "recounts s t"
  proof (cases "ms_streams s path")
    case None
    with 1 r show ?thesis by (simp add: recounts_sub)
  next
    case (Some st)
    let ?s1 = "notify path (delete_stream path s)" and ?p = "sm_ForkedFrom (st_metadata st)"
    have ev: "recounts s ?s1" by (rule recounts_sub) (auto simp: map_le_def)
    show ?thesis
    proof (cases "?p = '''' \<or> ms_streams ?s1 ?p = None")
      case True
      with 1(2) r Some ev show ?thesis by (auto simp: Let_def split: if_splits option.splits)
    next
      case False
      then obtain par where par: "?p \<noteq> ''''" "ms_streams ?s1 ?p = Some par" by auto
      let ?n = "i32 (sm_RefCount (st_metadata par) - 1)"
      let ?s2 = "put_stream ?p (upd_meta (sm_RefCount_update (\<lambda>_. ?n)) par) ?s1"
      have ev2: "recounts s ?s2" by (rule recounts_put [OF ev par(2)])
      show ?thesis
      proof (cases "?n < 0")
        case True
        with 1(2) r Some par have "t = put_stream ?p (upd_meta (sm_RefCount_update (\<lambda>_. 0)) par) ?s1"
          by (auto simp: Let_def)
        then show ?thesis using recounts_put [OF ev par(2)] by simp
      next
        case nonneg: False
        show ?thesis
        proof (cases "?n = 0 \<and> sm_SoftDeleted (st_metadata par)")
          case True
          with 1(2) r Some par nonneg have "f ?p ?s2 = Some (e, t)" by (auto simp: Let_def)
          from 1(1) [OF this] ev2 show ?thesis by (auto intro: recounts_trans)
        next
          case False
          with 1(2) r Some par nonneg have "t = ?s2" by (auto simp: Let_def)
          with ev2 show ?thesis by simp
        qed
      qed
    qed
  qed
  then show ?case using r by simp
qed

lemma deleteWithCascade_evolves: "deleteWithCascade path s = Some r \<Longrightarrow> evolves s (snd r)"
  by (rule recounts_evolves [OF deleteWithCascade_recounts])

lemma Delete_evolves:
  assumes "Delete path s = Some (e, t)"
  shows "evolves s t"
proof -
  from assms consider "t = s"
    | st where "ms_streams s path = Some st" "t = put_stream path (upd_meta (sm_SoftDeleted_update (\<lambda>_. True)) st) s"
    | "deleteWithCascade path s = Some (e, t)"
    by (auto simp: Delete_def split: option.splits if_splits)
  then show ?thesis
  proof cases
    case 2
    then show ?thesis by (auto simp: evolves_def)
  next
    case 3
    from deleteWithCascade_evolves [OF this] show ?thesis by simp
  qed simp
qed

section \<open>Creation\<close>

text \<open>
  A creation adds at most one stream, at its own path and with the drawn incarnation, and
  otherwise only moves the reference count of the source.
\<close>

lemma materialize_prefix_ok: "stream_ok st \<Longrightarrow> stream_ok (materialize_prefix prefix st)"
  by (auto simp: stream_ok_def materialize_prefix_def Let_def chain_append)

lemma append_initial_ok:
  assumes "appendToStream st data allow = Inr (off, st1)" and "stream_ok st"
  shows "stream_ok (upd_meta (sm_CurrentOffset_update (\<lambda>_. off)) st1)"
proof -
  from appendToStream_InrD [OF assms(1)] obtain new where
    st1: "st1 = st\<lparr>st_messages := st_messages st @ new, st_data := st_data st1\<rparr>"
    and ch: "chain (sm_CurrentOffset (st_metadata st)) new off" by blast
  have sel: "st_metadata st1 = st_metadata st" "st_messages st1 = st_messages st @ new"
    "st_seals st1 = st_seals st"
    by (subst st1, simp)+
  show ?thesis
    using assms(2) ch by (auto simp: stream_ok_def sel chain_append)
qed

definition created :: "string \<Rightarrow> string \<Rightarrow> MemoryStore \<Rightarrow> MemoryStore \<Rightarrow> bool" where
  "created path inc s t \<longleftrightarrow>
     (\<exists>st u. evolves s u \<and> ms_streams t = (ms_streams u)(path \<mapsto> st) \<and>
        stream_ok st \<and> sm_Incarnation (st_metadata st) = inc)"

lemma created_put:
  "stream_ok st \<Longrightarrow> sm_Incarnation (st_metadata st) = inc \<Longrightarrow> created path inc s (put_stream path st s)"
  unfolding created_def by (intro exI [of _ st] exI [of _ s]) simp

lemma finishCreate_cases:
  assumes "finishCreate path opts st s = (r, t)" and "stream_ok st"
  shows "evolves s t \<and> snd (snd r) \<noteq> None \<or>
    created path (sm_Incarnation (st_metadata st)) s t \<and> snd (snd r) = None"
proof (cases "co_InitialData opts = []")
  case True
  with assms show ?thesis by (auto simp: finishCreate_def intro: created_put)
next
  case False
  show ?thesis
  proof (cases "appendToStream st (co_InitialData opts) True")
    case (Inl err)
    show ?thesis
    proof (cases "co_ForkedFrom opts \<noteq> '''' \<and> ms_streams s (co_ForkedFrom opts) \<noteq> None")
      case True
      then obtain src where "ms_streams s (co_ForkedFrom opts) = Some src" by auto
      with evolves_refcount [OF this] assms False Inl True show ?thesis by (auto simp: finishCreate_def)
    next
      case nosrc: False
      with assms False Inl show ?thesis
        by (cases "co_ForkedFrom opts = ''''") (auto simp: finishCreate_def)
    qed
  next
    case (Inr res)
    obtain off st1 where res: "res = (off, st1)" by fastforce
    with Inr have app: "appendToStream st (co_InitialData opts) True = Inr (off, st1)" by simp
    have "stream_ok (upd_meta (sm_CurrentOffset_update (\<lambda>_. off)) st1)"
      by (rule append_initial_ok [OF app assms(2)])
    moreover have "st_metadata st1 = st_metadata st" by (rule appendToStream_metadata [OF app])
    ultimately show ?thesis using assms False app
      by (auto simp: finishCreate_def Let_def intro: created_put)
  qed
qed

lemma empty_stream_ok:
  "sm_CurrentOffset m = sm_ForkOffset m \<Longrightarrow>
     (sm_ForkedFrom m = '''' \<longrightarrow> sm_ForkOffset m = ZeroOffset) \<Longrightarrow> stream_ok (empty_stream m)"
  by (simp add: stream_ok_def empty_stream_def)

lemma materialize_prefix_metadata [simp]:
  "sm_Incarnation (st_metadata (materialize_prefix prefix st)) = sm_Incarnation (st_metadata st)"
  "sm_ForkedFrom (st_metadata (materialize_prefix prefix st)) = sm_ForkedFrom (st_metadata st)"
  "sm_ForkOffset (st_metadata (materialize_prefix prefix st)) = sm_ForkOffset (st_metadata st)"
  "sm_RefCount (st_metadata (materialize_prefix prefix st)) = sm_RefCount (st_metadata st)"
  by (simp_all add: materialize_prefix_def Let_def)

lemma fork_metadata_sel [simp]:
  "sm_CurrentOffset (fork_metadata opts src off m) = off" "sm_ForkOffset (fork_metadata opts src off m) = off"
  "sm_ForkedFrom (fork_metadata opts src off m) = co_ForkedFrom opts"
  "sm_Incarnation (fork_metadata opts src off m) = sm_Incarnation m"
  "sm_RefCount (fork_metadata opts src off m) = sm_RefCount m"
  by (simp_all add: fork_metadata_def split: prod.splits)

lemma new_metadata_sel [simp]:
  "sm_Incarnation (new_metadata env path inc ct opts) = inc" "sm_RefCount (new_metadata env path inc ct opts) = 0"
  "sm_CurrentOffset (new_metadata env path inc ct opts) = ZeroOffset"
  "sm_ForkOffset (new_metadata env path inc ct opts) = ZeroOffset"
  "sm_ForkedFrom (new_metadata env path inc ct opts) = ''''"
  by (simp_all add: new_metadata_def)

lemma empty_stream_metadata [simp]: "st_metadata (empty_stream m) = m"
  by (simp add: empty_stream_def)

lemma created_trans: "evolves s u \<Longrightarrow> created path inc u t \<Longrightarrow> created path inc s t"
  unfolding created_def by (blast intro: evolves_trans)

lemma fork_case_source:
  "(case y of Inl e \<Rightarrow> Inl e | Inr (a, b) \<Rightarrow> if c then Inr (ss, a, []) else Inr (ss, f, b)) =
     Inr (src, off, prefix) \<Longrightarrow> ss = src"
  by (cases y) (auto split: if_splits)

lemma resolveFork_source:
  assumes "resolveFork env opts s = Some (Inr (src, off, prefix))"
  shows "ms_streams s (co_ForkedFrom opts) = Some src"
  using assms
  by (auto simp: resolveFork_def Let_def bind_eq_Some_conv dest!: fork_case_source
      split: option.splits if_splits)

lemma createNew_cases:
  assumes "createNew env path opts s = Some (r, t)"
  shows "evolves s t \<and> snd (snd r) \<noteq> None \<or>
    (\<exists>raw. env_rand env = Some raw \<and> created path (hex_EncodeToString raw) s t \<and> snd (snd r) = None)"
proof (cases "env_rand env")
  case None
  with assms show ?thesis by (auto simp: createNew_def NewIncarnationID_def)
next
  case (Some raw)
  let ?inc = "hex_EncodeToString raw"
  show ?thesis
  proof (cases "co_ForkedFrom opts = ''''")
    case True
    with assms Some obtain m where
        fin: "finishCreate path opts (empty_stream m) s = (r, t)" and m: "sm_Incarnation m = ?inc"
        "sm_CurrentOffset m = ZeroOffset" "sm_ForkOffset m = ZeroOffset"
      by (auto simp: createNew_def NewIncarnationID_def Let_def)
    have "stream_ok (empty_stream m)" using m by (intro empty_stream_ok) auto
    from finishCreate_cases [OF fin this] m Some show ?thesis by auto
  next
    case fork: False
    with assms Some obtain res where res: "resolveFork env opts s = Some res"
      by (auto simp: createNew_def NewIncarnationID_def bind_eq_Some_conv)
    show ?thesis
    proof (cases res)
      case (Inl err)
      with assms Some fork res show ?thesis by (auto simp: createNew_def NewIncarnationID_def)
    next
      case (Inr x)
      obtain src off prefix where x: "x = (src, off, prefix)" by (metis prod_cases3)
      let ?s1 = "put_stream (co_ForkedFrom opts) (upd_meta (sm_RefCount_update (\<lambda>n. i32 (n + 1))) src) s"
      from assms Some fork res Inr x obtain m where
          fin: "finishCreate path opts (materialize_prefix prefix (empty_stream (fork_metadata opts
                  (st_metadata src) off m))) ?s1 = (r, t)" and m: "sm_Incarnation m = ?inc"
        by (auto simp: createNew_def NewIncarnationID_def Let_def)
      have ev: "evolves s ?s1"
        using resolveFork_source res Inr x by (intro evolves_refcount) auto
      have "stream_ok (materialize_prefix prefix (empty_stream (fork_metadata opts (st_metadata src) off m)))"
        using fork by (intro materialize_prefix_ok empty_stream_ok) auto
      from finishCreate_cases [OF fin this] m Some ev show ?thesis
        by (auto intro: evolves_trans created_trans)
    qed
  qed
qed

lemma Create_cases:
  assumes "Create env path opts s = Some (r, t)"
  shows "evolves s t \<and> (snd (snd r) \<noteq> None \<or> \<not> fst (snd r)) \<or>
    (\<exists>raw. env_rand env = Some raw \<and> created path (hex_EncodeToString raw) s t \<and> snd (snd r) = None)"
proof -
  from assms consider "t = s" "snd (snd r) \<noteq> None \<or> \<not> fst (snd r)"
    | "createNew env path opts s = Some (r, t)"
    | "createNew env path opts (delete_stream path s) = Some (r, t)"
    by (auto simp: Create_def split: option.splits if_splits)
  then show ?thesis
  proof cases
    case 1
    then show ?thesis by simp
  next
    case 2
    from createNew_cases [OF this] show ?thesis by auto
  next
    case 3
    from createNew_cases [OF this] show ?thesis
      by (auto intro: evolves_trans [OF evolves_delete] created_trans [OF evolves_delete])
  qed
qed

end
