(* ===== verification/Redis_Refine.thy ===== *)
theory Redis_Refine
  imports Redis_Stream Store_Log
begin

text \<open>
  The Redis stream store implements the in-memory one.  A stream is stored at a path when its
  metadata hash, its frames and its producer hash are those of the in-memory stream; an append on
  the stored stream then answers what the in-memory store answers and leaves stored what the
  in-memory store leaves.  Lua compares times as doubles, so the clock is the one the script sees
  and the two comparisons of times are assumed to come out alike.
\<close>

section \<open>Programs that return\<close>

text \<open>
  The weakest precondition for a program to return: it raises no error of its own, and every command
  it sends has a documented reply.
\<close>

primrec twp :: "'a rprog \<Rightarrow> ('a \<Rightarrow> (string \<Rightarrow> rvalue) \<Rightarrow> bool) \<Rightarrow> (string \<Rightarrow> rvalue) \<Rightarrow> bool" where
  "twp (Ret a) Q = (\<lambda>V. Q a V)"
| "twp Fail Q = (\<lambda>V. False)"
| "twp (Call c g) Q =
     (\<lambda>V. (\<exists>r w. cmd_rel c (V (cmd_key c)) r w) \<and>
          (\<forall>r w. cmd_rel c (V (cmd_key c)) r w \<longrightarrow> twp (g r) Q (V(cmd_key c := w))))"

lemma twp_bind: "twp (rbind m f) Q V \<longleftrightarrow> twp m (\<lambda>a. twp (f a) Q) V"
  by (induction m arbitrary: V) auto

lemma twp_wp: "twp m Q V \<Longrightarrow> wp m (\<lambda>r W. \<forall>a. r = Some a \<longrightarrow> Q a W) V"
  by (induction m arbitrary: V) auto

lemma twp_returns:
  assumes "redis_server R" and "reliable R" and "twp m Q (rd_val R s)"
  shows "\<exists>a t. rexec R m s = (Some a, t)"
  using assms(3)
proof (induction m arbitrary: s)
  case (Call c g)
  from Call.prems obtain r w where "cmd_rel c (rd_val R s (cmd_key c)) r w" by auto
  then have "fst (rd_call R c s) \<noteq> None" using assms(2) unfolding reliable_def by blast
  then obtain x u where x: "rd_call R c s = (Some x, u)" by (cases "rd_call R c s") auto
  from redis_server.call_ok [OF assms(1) x]
  have "cmd_rel c (rd_val R s (cmd_key c)) x (rd_val R u (cmd_key c))"
    and "rd_val R u = (rd_val R s)(cmd_key c := rd_val R u (cmd_key c))" by auto
  with Call.prems have "twp (g x) Q (rd_val R u)" by (metis twp.simps(3))
  from Call.IH [OF rangeI this] x show ?case by simp
qed auto

section \<open>Commands\<close>

lemma twp_hset_at:
  assumes "hash_of (V k) = Some h" and "twp p Q (V(k := mk_hash (h ++ map_of (rev fvs))))"
  shows "twp (hset k fvs p) Q V"
  using assms by auto

lemma twp_hgetall:
  assumes "hash_of (V k) = Some h" and "finite (dom h)" and "\<And>xs. map_of xs = h \<Longrightarrow> twp (g (RepMap xs)) Q V"
  shows "twp (Call (HGETALL k) g) Q V"
proof -
  obtain ks where "set ks = dom h" "distinct ks" using finite_distinct_list [OF assms(2)] by auto
  then have "map_of (map (\<lambda>k. (k, the (h k))) ks) = h" "distinct (map fst (map (\<lambda>k. (k, the (h k))) ks))"
    by (auto simp: map_of_map_restrict restrict_map_def fun_eq_iff domIff comp_def)
  then show ?thesis using assms by (auto simp: fun_upd_idem)
qed

lemma twp_hmget:
  assumes "hash_of (V k) = Some h" and "twp (g (RepOpts (map h fs))) Q V"
  shows "twp (Call (HMGET k fs) g) Q V"
  using assms by (auto simp: fun_upd_idem)

lemma twp_hget_at:
  assumes "hash_of (V k) = Some h" and "twp (g (h f)) Q V"
  shows "twp (hget k f g) Q V"
  using assms by (auto simp: fun_upd_idem split: option.splits)

lemma twp_publish: "twp p Q V \<Longrightarrow> twp (Call (PUBLISH ch x) (\<lambda>_. p)) Q V"
  by (auto simp: fun_upd_idem)

lemma twp_persist_all: "twp p Q V \<Longrightarrow> twp (persist_all ks p) Q V"
  by (induction ks) (auto simp: fun_upd_idem)

lemma twp_pexpire_all: "0 < ms \<Longrightarrow> twp p Q V \<Longrightarrow> twp (pexpire_all ks ms p) Q V"
  by (induction ks) (auto simp: fun_upd_idem)

lemma twp_zadds:
  assumes "zset_of (V k) = Some z" and "twp p Q (V(k := mk_zset (zadd_all ms z)))"
  shows "twp (Call (ZADDS k ms) (\<lambda>_. p)) Q V"
  using assms by auto

lemma zset_of_mk_zset [simp]: "zset_of (mk_zset z) = Some z"
  by (simp add: mk_zset_def)

lemma zadd_all_append: "zadd_all (xs @ ys) z = zadd_all ys (zadd_all xs z)"
  by (simp add: zadd_all_def)

lemma twp_zadd_chunks:
  assumes "zset_of (V k) = Some z" and "twp p Q (if frames = [] then V else V(k := mk_zset (zadd_all (map (\<lambda>f. (0, f)) frames) z)))"
  shows "twp (zadd_chunks k frames p) Q V"
  using assms
proof (induction k frames p arbitrary: V z rule: zadd_chunks.induct)
  case (1 k frames p)
  show ?case
  proof (cases "frames = []")
    case True
    then show ?thesis using "1.prems" by (simp add: zadd_chunks.simps)
  next
    case False
    let ?z = "zadd_all (map (\<lambda>f. (0, f)) (take 1000 frames)) z"
    have z: "zadd_all (map (\<lambda>f. (0, f)) (drop 1000 frames)) ?z = zadd_all (map (\<lambda>f. (0, f)) frames) z"
      by (simp flip: zadd_all_append map_append)
    have w3: "twp p Q (V(k := mk_zset (zadd_all (map (\<lambda>f. (0, f)) frames) z)))"
      using "1.prems"(2) False by (simp only: if_False simp_thms)
    have "twp (zadd_chunks k (drop 1000 frames) p) Q (V(k := mk_zset ?z))"
    proof (rule "1.IH" [OF False])
      show "zset_of ((V(k := mk_zset ?z)) k) = Some ?z" by simp
      show "twp p Q (if drop 1000 frames = [] then V(k := mk_zset ?z)
          else (V(k := mk_zset ?z))(k := mk_zset (zadd_all (map (\<lambda>f. (0, f)) (drop 1000 frames)) ?z)))"
      proof (cases "drop 1000 frames = []")
        case True
        then have "take 1000 frames = frames" by simp
        then show ?thesis using w3 True by (simp only: if_True simp_thms)
      next
        case no: False
        then show ?thesis using w3 by (simp only: if_False z fun_upd_upd simp_thms)
      qed
    qed
    then show ?thesis using twp_zadds [of V k z _ Q, OF "1.prems"(1)] False by (subst zadd_chunks.simps) simp
  qed
qed

text \<open>The backstop only moves key deadlines.\<close>

lemma double_nat_pos: "0 < n \<Longrightarrow> 0 < double_nat n"
proof -
  assume n: "0 < n"
  have b: "2 ^ (bit_length m - 1) \<le> m" if "0 < m" for m :: nat
    using that
  proof (induction m rule: bit_length.induct)
    case (1 m)
    show ?case
    proof (cases "m div 2 = 0")
      case True
      then show ?thesis using "1.prems" by (subst bit_length.simps) (simp add: bit_length.simps)
    next
      case False
      then have "2 ^ (bit_length (m div 2) - 1) \<le> m div 2" using "1" by auto
      moreover have "0 < bit_length (m div 2)" using False by (subst bit_length.simps) simp
      ultimately have "2 ^ bit_length (m div 2) \<le> 2 * (m div 2)"
        by (metis Suc_diff_1 mult_le_mono2 power_Suc)
      also have "\<dots> \<le> m" by simp
      finally show ?thesis using "1.prems" by (subst bit_length.simps) simp
    qed
  qed
  let ?e = "bit_length n - 53"
  have "(2::nat) ^ ?e \<le> 2 ^ (bit_length n - 1)" by (intro power_increasing) auto
  also have "\<dots> \<le> n" using b n .
  finally have "0 < n div 2 ^ ?e" by (simp add: div_greater_zero_iff)
  then have "0 < round_div n (2 ^ ?e)" by (simp add: round_div_def Let_def)
  then show ?thesis by (simp add: double_nat_def Let_def)
qed

lemma to_double_pos: "0 < x \<Longrightarrow> 0 < to_double x"
  using double_nat_pos [of "nat x"] by (simp add: to_double_def)

lemma to_double_nonneg: "0 \<le> x \<Longrightarrow> 0 \<le> to_double x"
  by (simp add: to_double_def)

lemma to_double_0 [simp]: "to_double 0 = 0"
  by (rule to_double_exact) simp

lemma twp_refresh:
  assumes "ref_count m = Some rc" and "\<And>t. m ''ttl'' = Some t \<Longrightarrow> \<exists>x. 0 \<le> x \<and> t = FormatInt x"
    and "\<And>e. m ''expAtNs'' = Some e \<Longrightarrow> \<exists>x. e = FormatInt x"
    and "twp p Q V"
  shows "twp (refresh_backstop keys m now p) Q V"
proof -
  have "\<exists>r. backstop_ms m now = Some r \<and> (\<forall>ms. r = Some ms \<longrightarrow> 0 < ms)"
  proof -
    obtain pttl where p: "(case m ''ttl'' of None \<Rightarrow> Some None
            | Some t \<Rightarrow> (case parse_double t of None \<Rightarrow> None
                | Some ttl \<Rightarrow> Some (if ttl \<le> max_backstop_ttl_seconds then Some (lua_add (lua_mult ttl 1000) 60000) else None))) = Some pttl"
      and pos: "\<forall>ms. pttl = Some ms \<longrightarrow> 0 < ms"
    proof (cases "m ''ttl''")
      case (Some t)
      then obtain x where x: "0 \<le> x" "t = FormatInt x" using assms(2) by blast
      have "0 < lua_add (lua_mult (to_double x) 1000) 60000"
        using to_double_nonneg [of "to_double x * 1000"] to_double_nonneg [OF x(1)] unfolding lua_add_def lua_mult_def
        by (intro to_double_pos) simp
      then show ?thesis using that Some x by (simp add: parse_double_FormatInt)
    qed (use that in simp)
    show ?thesis
    proof (cases "m ''expAtNs''")
      case None
      then show ?thesis using pos unfolding backstop_ms_def p by simp
    next
      case (Some e)
      then obtain x where "e = FormatInt x" using assms(3) by blast
      then show ?thesis using pos Some unfolding backstop_ms_def p
        by (cases pttl) (auto simp: parse_double_FormatInt Let_def)
    qed
  qed
  then obtain r where "backstop_ms m now = Some r" "\<forall>ms. r = Some ms \<longrightarrow> 0 < ms" by blast
  then show ?thesis using assms(1,4)
    by (cases r) (auto simp: refresh_backstop_def intro: twp_persist_all twp_pexpire_all)
qed


section \<open>Stored streams\<close>

definition frame_of :: "Message \<Rightarrow> string" where
  "frame_of m = encodeFrame (msg_Offset m) (msg_Data m)"

definition plain_fields :: "string set" where
  "plain_fields = {''ct'', ''tail'', ''createdAtNs'', ''accessedAtNs'', ''incarnation'', ''lastSeq'', ''closed'', ''wf'', ''ttl'',
     ''expAtNs'', ''forkedFrom'', ''forkOff'', ''forkOffReq'', ''forkSubOff'', ''softDel'', ''cbId'', ''cbEpoch'', ''cbSeq''}"

definition meta_stored :: "meta \<Rightarrow> memoryStream \<Rightarrow> bool" where
  "meta_stored h st \<longleftrightarrow>
     finite (dom h) \<and>
     (\<forall>f \<in> plain_fields. h f = metaToFields (st_metadata st) f) \<and>
     (h ''refCount'' = Some (FormatInt (sm_RefCount (st_metadata st))) \<or>
      h ''refCount'' = None \<and> sm_RefCount (st_metadata st) = 0) \<and>
     (\<forall>a. h (''wfseal:'' @ a) = map_option seal_text (st_seals st a)) \<and>
     (\<forall>p. h (''wfbind:'' @ p) = map_option FormatInt (st_bound st p)) \<and>
     h ''wfLastOff'' = map_option offset_String (st_lastFencedOff st)"

text \<open>The time of the last update of a producer is not compared: the script rounds it to a double.\<close>

definition producers_stored :: "meta \<Rightarrow> StreamMetadata \<Rightarrow> bool" where
  "producers_stored ph md \<longleftrightarrow>
     (\<forall>pid. case sm_Producers md pid of
              None \<Rightarrow> ph pid = None
            | Some p \<Rightarrow> \<exists>u. ph pid = Some (encodeProducerState (p\<lparr>ps_LastUpdated := u\<rparr>)))"

definition frames_stored :: "(string \<rightharpoonup> int) \<Rightarrow> memoryStream \<Rightarrow> bool" where
  "frames_stored z st \<longleftrightarrow> z = (\<lambda>x. if x \<in> frame_of ` set (st_messages st) then Some 0 else None)"

definition stream_stored :: "(string \<Rightarrow> rvalue) \<Rightarrow> string \<Rightarrow> memoryStream \<Rightarrow> bool" where
  "stream_stored V path st \<longleftrightarrow>
     (\<exists>h. hash_of (V (metaKey path)) = Some h \<and> meta_stored h st) \<and>
     (\<exists>ph. hash_of (V (prodKey path)) = Some ph \<and> producers_stored ph (st_metadata st)) \<and>
     (\<exists>z. zset_of (V (msgKey path)) = Some z \<and> frames_stored z st)"

lemma meta_stored_at:
  assumes "meta_stored h st"
  shows "h ''ct'' = Some (sm_ContentType (st_metadata st))" "h ''tail'' = Some (offset_String (sm_CurrentOffset (st_metadata st)))"
    "h ''accessedAtNs'' = Some (FormatInt (time_unix_nano (sm_LastAccessedAt (st_metadata st))))"
    "h ''incarnation'' = (if sm_Incarnation (st_metadata st) = '''' then None else Some (sm_Incarnation (st_metadata st)))"
    "h ''lastSeq'' = (if sm_LastSeq (st_metadata st) = '''' then None else Some (sm_LastSeq (st_metadata st)))"
    "h ''closed'' = (if sm_Closed (st_metadata st) then Some ''1'' else None)" "h ''wf'' = (if sm_WriteFence (st_metadata st) then Some ''1'' else None)"
    "h ''ttl'' = map_option FormatInt (sm_TTLSeconds (st_metadata st))"
    "h ''expAtNs'' = map_option (\<lambda>t. FormatInt (time_unix_nano t)) (sm_ExpiresAt (st_metadata st))"
    "h ''softDel'' = (if sm_SoftDeleted (st_metadata st) then Some ''1'' else None)"
    "h ''cbId'' = map_option cb_ProducerId (sm_ClosedBy (st_metadata st))"
    "h ''cbEpoch'' = map_option (\<lambda>c. FormatInt (cb_Epoch c)) (sm_ClosedBy (st_metadata st))"
    "h ''cbSeq'' = map_option (\<lambda>c. FormatInt (cb_Seq c)) (sm_ClosedBy (st_metadata st))"
    "h (''wfseal:'' @ a) = map_option seal_text (st_seals st a)" "h (''wfbind:'' @ p) = map_option FormatInt (st_bound st p)"
    "h ''wfLastOff'' = map_option offset_String (st_lastFencedOff st)"
  using assms by (simp_all add: meta_stored_def plain_fields_def)

lemma meta_stored_ref_count:
  assumes "meta_stored h st"
  shows "ref_count h = Some (to_double (sm_RefCount (st_metadata st)))"
proof -
  have "parse_double ''0'' = Some 0" using parse_double_FormatInt [of 0] by (simp add: FormatInt_0)
  then show ?thesis using assms by (auto simp: meta_stored_def ref_count_def tonumber_def parse_double_FormatInt)
qed

text \<open>Numbers are in the range of their Go types, and what the scripts rely on about the texts.\<close>

definition redis_fit :: "memoryStream \<Rightarrow> bool" where
  "redis_fit st \<longleftrightarrow>
     sm_Incarnation (st_metadata st) \<noteq> '''' \<and> pred_option (\<lambda>t. 0 \<le> t) (sm_TTLSeconds (st_metadata st)) \<and>
     (\<forall>pid p. sm_Producers (st_metadata st) pid = Some p \<longrightarrow> is_i64 (ps_Epoch p) \<and> is_i64 (ps_LastSeq p)) \<and>
     (\<forall>a x. st_seals st a = Some x \<longrightarrow> ws_Present x \<and> CHR '':'' \<notin> set (ws_WakeID x) \<and> is_i64 (ws_Generation x)) \<and>
     (\<forall>p g. st_bound st p = Some g \<longrightarrow> is_i64 g)"

lemma twp_refresh_stored:
  assumes "meta_stored h st" and "redis_fit st" and "twp p Q V"
  shows "twp (refresh_backstop keys h now p) Q V"
proof (rule twp_refresh)
  show "ref_count h = Some (to_double (sm_RefCount (st_metadata st)))" by (rule meta_stored_ref_count [OF assms(1)])
  show "\<exists>x. 0 \<le> x \<and> t = FormatInt x" if "h ''ttl'' = Some t" for t
    using that assms(2) by (auto simp: meta_stored_at [OF assms(1)] redis_fit_def)
  show "\<exists>x. e = FormatInt x" if "h ''expAtNs'' = Some e" for e
    using that by (auto simp: meta_stored_at [OF assms(1)])
qed (use assms in auto)

section \<open>The commit\<close>

lemma map_add_put_if: "h ++ map_of (rev (if c then [(f, v)] else [])) = put_if c f v h"
  by (auto simp: put_if_def)

lemma map_add_rev_append: "h ++ map_of (rev (xs @ ys)) = (h ++ map_of (rev xs)) ++ map_of (rev ys)"
  by simp

lemma commit_stream_more_sel:
  "sm_TTLSeconds (st_metadata (commit_stream opts ps off st)) = sm_TTLSeconds (st_metadata st)"
  "sm_ExpiresAt (st_metadata (commit_stream opts ps off st)) = sm_ExpiresAt (st_metadata st)"
  "sm_LastAccessedAt (st_metadata (commit_stream opts ps off st)) = sm_LastAccessedAt (st_metadata st)"
  "sm_ForkOffsetRequested (st_metadata (commit_stream opts ps off st)) = sm_ForkOffsetRequested (st_metadata st)"
  "sm_ForkSubOffset (st_metadata (commit_stream opts ps off st)) = sm_ForkSubOffset (st_metadata st)"
  "sm_ClosedBy (st_metadata (commit_stream opts ps off st)) =
     (if ao_Close opts \<and> HasAllProducerHeaders opts
      then Some \<lparr>cb_ProducerId = ao_ProducerId opts, cb_Epoch = the (ao_ProducerEpoch opts), cb_Seq = the (ao_ProducerSeq opts)\<rparr>
      else sm_ClosedBy (st_metadata st))"
  "st_bound (commit_stream opts ps off st) =
     (case ao_Fence opts of None \<Rightarrow> st_bound st
      | Some f \<Rightarrow> if sm_WriteFence (st_metadata st) then (st_bound st)(ao_ProducerId opts \<mapsto> af_Generation f) else st_bound st)"
  "st_lastFencedOff (commit_stream opts ps off st) =
     (case ao_Fence opts of None \<Rightarrow> st_lastFencedOff st
      | Some f \<Rightarrow> if sm_WriteFence (st_metadata st) then Some off else st_lastFencedOff st)"
  by (cases "ao_Fence opts"; cases ps; simp add: commit_stream_def Let_def stream_bind_def)+

text \<open>The fields an accepted append writes, on top of the stored ones.\<close>

definition commit_fields :: "AppendOptions \<Rightarrow> Offset \<Rightarrow> meta \<Rightarrow> bool \<Rightarrow> meta" where
  "commit_fields opts off h write_fence =
     (let p = HasAllProducerHeaders opts; c = ao_Close opts; f = (ao_Fence opts \<noteq> None \<and> write_fence);
          h = h(''tail'' \<mapsto> offset_String off);
          h = put_if (ao_Seq opts \<noteq> '''') ''lastSeq'' (ao_Seq opts) h;
          h = put_if c ''closed'' ''1'' h;
          h = put_if (c \<and> p) ''cbId'' (ao_ProducerId opts) h;
          h = put_if (c \<and> p) ''cbEpoch'' (FormatInt (the (ao_ProducerEpoch opts))) h;
          h = put_if (c \<and> p) ''cbSeq'' (FormatInt (the (ao_ProducerSeq opts))) h;
          h = put_if f ''wfLastOff'' (offset_String off) h
      in put_if f (''wfbind:'' @ ao_ProducerId opts) (FormatInt (af_Generation (the (ao_Fence opts)))) h)"

lemma finite_put_if [simp]: "finite (dom (put_if c f v h)) \<longleftrightarrow> finite (dom h)"
  by (simp add: put_if_def)

lemma commit_fields_stored:
  assumes "meta_stored h st"
  shows "meta_stored (commit_fields opts off h (sm_WriteFence (st_metadata st))) (commit_stream opts ps off st)"
proof -
  have p: "\<forall>f \<in> plain_fields. commit_fields opts off h (sm_WriteFence (st_metadata st)) f =
      metaToFields (st_metadata (commit_stream opts ps off st)) f"
    using assms unfolding meta_stored_def plain_fields_def commit_fields_def Let_def
    by (simp add: commit_stream_more_sel)
  show ?thesis using assms p
    by (cases "ao_Fence opts") (auto simp: meta_stored_def commit_fields_def Let_def commit_stream_more_sel)
qed

end
