(* ===== verification/Redis_Append.thy ===== *)
theory Redis_Append
  imports Redis_Refine
begin

text \<open>
  The append of the Redis stream store on a stored stream: the reply of \<^verbatim>\<open>append.lua\<close> decodes to what the
  in-memory \<^verbatim>\<open>Append\<close> answers, and what the script leaves stored is what the in-memory store leaves.
\<close>

lemma twp_hset_fields:
  assumes "V k = mk_hash h" and "twp p Q (V(k := mk_hash (h ++ map_of (rev fvs))))"
  shows "twp (if fvs \<noteq> [] then hset k fvs p else p) Q V"
proof (cases "fvs = []")
  case True
  then show ?thesis using assms by (simp add: fun_upd_idem)
next
  case False
  have "hash_of (V k) = Some h" using assms(1) by simp
  then show ?thesis using twp_hset_at [where V = V and k = k and h = h and Q = Q and p = p and fvs = fvs] assms(2) False by simp
qed

lemma zadd_frames:
  assumes "frames_stored z st"
  shows "frames_stored (zadd_all (map (\<lambda>f. (0, f)) (map frame_of new)) z) (st\<lparr>st_messages := st_messages st @ new, st_data := d\<rparr>)"
proof -
  have "zadd_all (map (\<lambda>f. (0, f)) fs) z = (\<lambda>x. if x \<in> set fs then Some 0 else z x)" for fs and z :: "string \<rightharpoonup> int"
    by (induction fs arbitrary: z) (auto simp: zadd_all_def fun_eq_iff)
  then show ?thesis using assms unfolding frames_stored_def by (simp only: fun_eq_iff) auto
qed

section \<open>The arguments\<close>

definition headers_whole :: "AppendOptions \<Rightarrow> bool" where
  "headers_whole opts \<longleftrightarrow> (HasProducerHeaders opts \<longrightarrow> HasAllProducerHeaders opts)"

lemma append_args_eq:
  assumes "headers_whole opts"
  shows "append_args now path opts base off v frames =
    [nowNsArg now, notifyChannel path, req_ct opts, ao_Seq opts, if ao_Close opts then ''1'' else ''0'',
     if HasAllProducerHeaders opts then ''1'' else ''0'', ao_ProducerId opts,
     if HasAllProducerHeaders opts then FormatInt (the (ao_ProducerEpoch opts)) else ''0'',
     if HasAllProducerHeaders opts then FormatInt (the (ao_ProducerSeq opts)) else ''0'',
     offset_String base, offset_String off, if v then ''1'' else ''0'', if ao_Fence opts = None then ''0'' else ''1'',
     case ao_Fence opts of None \<Rightarrow> ''0'' | Some f \<Rightarrow> FormatInt (af_Generation f),
     case ao_Fence opts of None \<Rightarrow> '''' | Some f \<Rightarrow> af_WakeID f,
     case ao_Fence opts of None \<Rightarrow> '''' | Some f \<Rightarrow> af_Holder f] @ frames"
proof (cases "HasAllProducerHeaders opts")
  case False
  then have "ao_ProducerId opts = ''''" using assms by (simp add: headers_whole_def HasProducerHeaders_def)
  then show ?thesis using False by (cases "ao_Fence opts") (simp_all add: append_args_def fence_args_def)
next
  case True
  then show ?thesis by (cases "ao_Fence opts") (simp_all add: append_args_def fence_args_def)
qed

lemma append_args_at:
  assumes "headers_whole opts"
  shows "at1 (append_args now path opts base off v frames) 1 = nowNsArg now"
    "at1 (append_args now path opts base off v frames) 2 = notifyChannel path"
    "at1 (append_args now path opts base off v frames) 3 = req_ct opts"
    "at1 (append_args now path opts base off v frames) 4 = ao_Seq opts"
    "at1 (append_args now path opts base off v frames) 5 = (if ao_Close opts then ''1'' else ''0'')"
    "at1 (append_args now path opts base off v frames) 6 = (if HasAllProducerHeaders opts then ''1'' else ''0'')"
    "at1 (append_args now path opts base off v frames) 7 = ao_ProducerId opts"
    "at1 (append_args now path opts base off v frames) 8 = (if HasAllProducerHeaders opts then FormatInt (the (ao_ProducerEpoch opts)) else ''0'')"
    "at1 (append_args now path opts base off v frames) 9 = (if HasAllProducerHeaders opts then FormatInt (the (ao_ProducerSeq opts)) else ''0'')"
    "at1 (append_args now path opts base off v frames) 10 = offset_String base"
    "at1 (append_args now path opts base off v frames) 11 = offset_String off"
    "at1 (append_args now path opts base off v frames) 12 = (if v then ''1'' else ''0'')"
    "at1 (append_args now path opts base off v frames) 13 = (if ao_Fence opts = None then ''0'' else ''1'')"
    "drop 16 (append_args now path opts base off v frames) = frames"
    "length (append_args now path opts base off v frames) = 16 + length frames"
  unfolding append_args_eq [OF assms] by (simp_all add: at1_def split: option.split)

lemma append_args_fence:
  assumes "headers_whole opts" and "ao_Fence opts = Some f"
  shows "at1 (append_args now path opts base off v frames) 14 = FormatInt (af_Generation f)"
    "at1 (append_args now path opts base off v frames) 15 = af_WakeID f"
    "at1 (append_args now path opts base off v frames) 16 = af_Holder f"
  unfolding append_args_eq [OF assms(1)] using assms(2) by (simp_all add: at1_def)

lemma append_keys_at:
  "at1 (append_keys path fence) 1 = metaKey path" "at1 (append_keys path fence) 2 = msgKey path"
  "at1 (append_keys path fence) 3 = prodKey path" "at1 (append_keys path (Some f)) 5 = appendFenceKey path f"
  by (simp_all add: append_keys_def keysFor_keys at1_def)

section \<open>append.lua writes what the in-memory store commits\<close>

definition commit_reply :: "AppendOptions \<Rightarrow> Offset \<Rightarrow> reply_item list" where
  "commit_reply opts off =
     make_reply ''OK'' (Some (offset_String off)) (Some (if HasAllProducerHeaders opts then ''1'' else ''0'')) None None None
       (Some (if HasAllProducerHeaders opts then FormatInt (the (ao_ProducerSeq opts)) else ''0''))
       (Some (if ao_Close opts then ''1'' else ''0'')) None"

lemma one_zero [simp]: "(if b then ''1'' else ''0'') = ''1'' \<longleftrightarrow> b"
  by simp

lemma append_fields:
  assumes "headers_whole opts" and "argv = append_args now path opts base off v frames"
    and "h ''wf'' = (if wfd then Some ''1'' else None)"
  shows "(h(''tail'' \<mapsto> offset_String off)) ++ map_of (rev
      ((if at1 argv 4 \<noteq> '''' then [(''lastSeq'', at1 argv 4)] else []) @
       (if at1 argv 5 = ''1'' then [(''closed'', ''1'')] @
          (if at1 argv 6 = ''1'' then [(''cbId'', at1 argv 7), (''cbEpoch'', at1 argv 8), (''cbSeq'', at1 argv 9)] else []) else []) @
       fence_bind h (at1 argv 13 = ''1'') (at1 argv 7) (at1 argv 14) (at1 argv 11))) = commit_fields opts off h wfd"
proof (cases "ao_Fence opts")
  case None
  then show ?thesis unfolding assms(2) append_args_at [OF assms(1)]
    by (cases "ao_Close opts"; cases "HasAllProducerHeaders opts"; cases "ao_Seq opts = ''''")
      (simp_all add: commit_fields_def Let_def put_if_def fence_bind_def)
next
  case (Some f)
  then show ?thesis unfolding assms(2) append_args_at [OF assms(1)] append_args_fence [OF assms(1) Some]
    by (cases "ao_Close opts"; cases "HasAllProducerHeaders opts"; cases "ao_Seq opts = ''''"; cases wfd)
      (simp_all add: commit_fields_def Let_def put_if_def fence_bind_def assms(3))
qed

lemma producers_stored_put:
  assumes "producers_stored ph md" and "p = q\<lparr>ps_LastUpdated := u\<rparr>" and "sm_Producers md' = (sm_Producers md)(pid \<mapsto> q)"
  shows "producers_stored (ph(pid \<mapsto> encodeProducerState p)) md'"
  unfolding producers_stored_def
proof
  fix x
  show "case sm_Producers md' x of None \<Rightarrow> (ph(pid \<mapsto> encodeProducerState p)) x = None
      | Some r \<Rightarrow> \<exists>u. (ph(pid \<mapsto> encodeProducerState p)) x = Some (encodeProducerState (r\<lparr>ps_LastUpdated := u\<rparr>))"
    using assms(1) [unfolded producers_stored_def, THEN spec [of _ x]] assms(2,3)
    by (cases "x = pid"; cases "sm_Producers md x") auto
qed

lemma append_write_refines:
  assumes "headers_whole opts" and argv: "argv = append_args now path opts base off False (map frame_of new)"
    and keys: "keys = append_keys path (ao_Fence opts)" and "new \<noteq> []"
    and V: "V (metaKey path) = mk_hash h" "hash_of (V (prodKey path)) = Some ph" "zset_of (V (msgKey path)) = Some z"
    and st: "meta_stored h st" "producers_stored ph (st_metadata st)" "frames_stored z st" "redis_fit st"
    and ps: "ps = (if HasAllProducerHeaders opts
      then Some \<lparr>ps_Epoch = the (ao_ProducerEpoch opts), ps_LastSeq = the (ao_ProducerSeq opts), ps_LastUpdated = u\<rparr> else None)"
    and Q: "\<And>W. stream_stored W path (commit_stream opts ps off (st\<lparr>st_messages := st_messages st @ new, st_data := d\<rparr>)) \<Longrightarrow> Q ((commit_reply opts off)) W"
  shows "twp (append_write keys argv nowd h) Q V"
proof -
  let ?st = "commit_stream opts ps off (st\<lparr>st_messages := st_messages st @ new, st_data := d\<rparr>)"
  let ?z = "zadd_all (map (\<lambda>f. (0, f)) (map frame_of new)) z"
  let ?h = "commit_fields opts off h (sm_WriteFence (st_metadata st))"
  let ?t = "h(''tail'' \<mapsto> offset_String off)"
  let ?V1 = "V(msgKey path := mk_zset ?z)"
  let ?V2 = "?V1(metaKey path := mk_hash ?t)"
  let ?V3 = "?V2(metaKey path := mk_hash ?h)"
  have wf: "h ''wf'' = (if sm_WriteFence (st_metadata st) then Some ''1'' else None)" by (rule meta_stored_at [OF st(1)])
  have m: "meta_stored ?h ?st"
    using commit_fields_stored [of h "st\<lparr>st_messages := st_messages st @ new, st_data := d\<rparr>"] st(1) by (simp add: meta_stored_def)
  have z: "frames_stored ?z ?st" using zadd_frames [OF st(3)] by (simp add: frames_stored_def)
  have fin: "twp (Call (PUBLISH (at1 argv 2) (if at1 argv 5 = ''1'' then ''c'' else ''a'')) (\<lambda>_.
      Ret (make_reply ''OK'' (Some (at1 argv 11)) (Some (if at1 argv 6 = ''1'' then ''1'' else ''0'')) None None None
        (Some (if at1 argv 6 = ''1'' then at1 argv 9 else ''0'')) (Some (if at1 argv 5 = ''1'' then ''1'' else ''0'')) None))) Q W"
    if "stream_stored W path ?st" for W
  proof (rule twp_publish)
    have "make_reply ''OK'' (Some (at1 argv 11)) (Some (if at1 argv 6 = ''1'' then ''1'' else ''0'')) None None None
        (Some (if at1 argv 6 = ''1'' then at1 argv 9 else ''0'')) (Some (if at1 argv 5 = ''1'' then ''1'' else ''0'')) None = commit_reply opts off"
      unfolding argv append_args_at [OF assms(1)] commit_reply_def by simp
    then show "twp (Ret (make_reply ''OK'' (Some (at1 argv 11)) (Some (if at1 argv 6 = ''1'' then ''1'' else ''0'')) None None None
        (Some (if at1 argv 6 = ''1'' then at1 argv 9 else ''0'')) (Some (if at1 argv 5 = ''1'' then ''1'' else ''0'')) None)) Q W"
      using Q [OF that] by simp
  qed
  have prod: "twp (if at1 argv 6 = ''1'' then hset (at1 keys 3) [(at1 argv 7, producer_text (at1 argv 8) (at1 argv 9) nowd)]
      (refresh_backstop keys h nowd p) else p) Q ?V3"
    if p: "\<And>W. stream_stored W path ?st \<Longrightarrow> twp p Q W" for p
  proof (cases "HasAllProducerHeaders opts")
    case True
    have k3: "at1 keys 3 = prodKey path" unfolding keys append_keys_at by simp
    have a: "at1 argv 6 = ''1''" "at1 argv 7 = ao_ProducerId opts"
      "producer_text (at1 argv 8) (at1 argv 9) nowd = encodeProducerState
         \<lparr>ps_Epoch = the (ao_ProducerEpoch opts), ps_LastSeq = the (ao_ProducerSeq opts), ps_LastUpdated = lua_floor_div nowd 1000000000\<rparr>"
      unfolding argv append_args_at [OF assms(1)] using True by (simp_all add: producer_text_def encodeProducerState_def)
    have "producers_stored (ph(ao_ProducerId opts \<mapsto> encodeProducerState
         \<lparr>ps_Epoch = the (ao_ProducerEpoch opts), ps_LastSeq = the (ao_ProducerSeq opts), ps_LastUpdated = lua_floor_div nowd 1000000000\<rparr>))
         (st_metadata ?st)"
      by (rule producers_stored_put [OF st(2), where u = "lua_floor_div nowd 1000000000" and q = "the ps"]) (use True ps in simp_all)
    then have "stream_stored (?V3(prodKey path := mk_hash (ph ++ map_of (rev [(ao_ProducerId opts, encodeProducerState
         \<lparr>ps_Epoch = the (ao_ProducerEpoch opts), ps_LastSeq = the (ao_ProducerSeq opts), ps_LastUpdated = lua_floor_div nowd 1000000000\<rparr>)])))) path ?st"
      using m z by (simp add: stream_stored_def)
    from p [OF this] show ?thesis unfolding k3 a
      using V(2) by (auto intro!: twp_hset_at [where h = ph] twp_refresh_stored [OF st(1,4)])
  next
    case False
    have a: "at1 argv 6 \<noteq> ''1''" unfolding argv append_args_at [OF assms(1)] using False by simp
    have "stream_stored ?V3 path ?st" using m z V(2) st(2) False ps by (simp add: stream_stored_def producers_stored_def)
    from p [OF this] show ?thesis using a by simp
  qed
  let ?fs = "(if at1 argv 4 \<noteq> [] then [(''lastSeq'', at1 argv 4)] else []) @
      (if at1 argv 5 = ''1'' then [(''closed'', ''1'')] @
         (if at1 argv 6 = ''1'' then [(''cbId'', at1 argv 7), (''cbEpoch'', at1 argv 8), (''cbSeq'', at1 argv 9)] else []) else []) @
      fence_bind h (at1 argv 13 = ''1'') (at1 argv 7) (at1 argv 14) (at1 argv 11)"
  have flds: "?t ++ map_of (rev ?fs) = ?h" by (rule append_fields [where h = h, OF assms(1) argv wf])
  have commit: "twp (if ?fs \<noteq> [] then hset (metaKey path) ?fs p else p) Q ?V2" if "twp p Q ?V3" for p
  proof (rule twp_hset_fields [where h = ?t])
    show "twp p Q (?V2(metaKey path := mk_hash (?t ++ map_of (rev ?fs))))" unfolding flds using that .
  qed simp
  have len: "17 \<le> length argv" "drop 16 argv = map frame_of new" "at1 argv 11 = offset_String off"
    using assms(4) unfolding argv append_args_at [OF assms(1)] by (cases new; simp)+
  have k: "at1 keys 1 = metaKey path" "at1 keys 2 = msgKey path" unfolding keys append_keys_at by simp_all
  have h1: "hash_of (?V1 (metaKey path)) = Some h" using V(1) by simp
  have h2: "h ++ map_of (rev [(''tail'', at1 argv 11)]) = ?t" using len(3) by simp
  have step: "twp (hset (metaKey path) [(''tail'', at1 argv 11)] p) Q ?V1" if "twp p Q ?V2" for p
    by (rule twp_hset_at [where h = h], rule h1) (unfold h2, rule that)
  have zs: "twp (zadd_chunks (msgKey path) (drop 16 argv) p) Q V" if "twp p Q ?V1" for p
    using that assms(4) by (intro twp_zadd_chunks [where z = z] V(3)) (simp add: len(2))
  show ?thesis
    unfolding append_write_def Let_def k using len(1)
    by (simp only: if_True) (rule zs, rule step, rule commit, rule prod, rule fin)
qed

section \<open>Replies\<close>

lemma two_char: "digit_char 2 = CHR ''2''"
  by code_simp

lemma ParseInt_flags [simp]: "ParseInt ''0'' = Inr 0" "ParseInt ''1'' = Inr 1" "ParseInt ''2'' = Inr 2"
  using ParseInt_FormatInt [of 0] ParseInt_FormatInt [of 1] ParseInt_FormatInt [of 2]
  by (simp_all add: FormatInt_def small_digits is_i64_def dec_digits.simps [of 2] two_char)

lemma decode_make_reply:
  assumes "ParseInt (or_zero pr) = Inr a" "ParseInt (or_zero ce) = Inr b" "ParseInt (or_zero es) = Inr c"
    "ParseInt (or_zero rs) = Inr d" "ParseInt (or_zero ls) = Inr e"
  shows "decodeScriptReply (make_reply status tail pr ce es rs ls cl al) =
    Inr \<lparr>rp_Status = status, rp_Tail = (case tail of None \<Rightarrow> '''' | Some t \<Rightarrow> t), rp_ProducerRes = a, rp_CurrentEpoch = b,
         rp_ExpectedSeq = c, rp_ReceivedSeq = d, rp_LastSeq = e, rp_Closed = (or_zero cl = ''1''),
         rp_AlreadyClosed = (or_zero al = ''1''), rp_FenceReason = '''', rp_FenceGeneration = 0, rp_FenceHolder = ''''\<rparr>"
  using assms by (simp add: decodeScriptReply_def make_reply_def)

lemma decode_fence_reply:
  assumes "is_i64 g"
  shows "decodeScriptReply (fence_reply reason tail (FormatInt g) holder) =
    Inr \<lparr>rp_Status = ''FENCED'', rp_Tail = (case tail of None \<Rightarrow> '''' | Some t \<Rightarrow> t), rp_ProducerRes = 0, rp_CurrentEpoch = 0,
         rp_ExpectedSeq = 0, rp_ReceivedSeq = 0, rp_LastSeq = 0, rp_Closed = False,
         rp_AlreadyClosed = False, rp_FenceReason = reason, rp_FenceGeneration = g, rp_FenceHolder = holder\<rparr>"
  using assms by (simp add: decodeScriptReply_def fence_reply_def make_reply_def or_zero_def)

text \<open>
  What the caller makes of a reply: the outcome of the in-memory append, or, for a body that does
  not parse, the request to report the error of the parser.
\<close>

definition answers :: "(AppendResult \<times> store_error option) \<Rightarrow> store_error option \<Rightarrow> reply_item list \<Rightarrow> bool" where
  "answers out frameErr raw \<longleftrightarrow>
     (case decodeScriptReply raw of
        Inl _ \<Rightarrow> False
      | Inr r \<Rightarrow>
          rp_Status r \<noteq> ''RETRY'' \<and>
          (if rp_Status r = ''VALONLY''
           then frameErr \<noteq> None \<and> out = (AppendResult0, frameErr) \<and> rp_ProducerRes r = 0 \<and> snd (mapAppendReply r) = None
           else mapAppendReply r = (fst out, map_option Sentinel (snd out))))"

lemma offset_String_nonempty [simp]: "offset_String x \<noteq> ''''"
  using length_offset_String [of x] by auto

lemmas reply_simps = answers_def decode_make_reply decode_fence_reply mapAppendReply_def ParseOffset_offset_String or_zero_def
  producer_result_of_def AppendResult0_def

lemma answers_commit:
  assumes "HasAllProducerHeaders opts \<Longrightarrow> is_i64 (the (ao_ProducerSeq opts))"
  shows "answers (AppendResult0\<lparr>ar_Offset := off, ar_ProducerResult := (if HasAllProducerHeaders opts then ProducerResultAccepted else ProducerResultNone),
      ar_LastSeq := (if HasAllProducerHeaders opts then the (ao_ProducerSeq opts) else 0), ar_StreamClosed := ao_Close opts\<rparr>, None) err
    (commit_reply opts off)"
  using assms by (cases "HasAllProducerHeaders opts"; cases "ao_Close opts") (simp_all add: commit_reply_def reply_simps)

lemma answers_plain:
  "answers (AppendResult0\<lparr>ar_Offset := t, ar_StreamClosed := True\<rparr>, Some ErrStreamClosed) err
     (make_reply ''CLOSED'' (Some (offset_String t)) None None None None None (Some ''1'') None)"
  "answers (AppendResult0, Some ErrContentTypeMismatch) err (make_reply ''CTMISMATCH'' (Some (offset_String t)) None None None None None None None)"
  "answers (AppendResult0, Some ErrSequenceConflict) err (make_reply ''SEQCONFLICT'' (Some (offset_String t)) None None None None None None None)"
  "answers (AppendResult0, Some ErrStreamNotFound) err (make_reply ''NOTFOUND'' None None None None None None None None)"
  "answers (AppendResult0, Some ErrStreamSoftDeleted) err (make_reply ''SOFTDEL'' None None None None None None None None)"
  "answers (AppendResult0, Some e) (Some e) (make_reply ''VALONLY'' (Some (offset_String t)) None None None None None None None)"
  "answers (AppendResult0\<lparr>ar_Offset := t\<rparr>, Some ErrInvalidEpochSeq) err
     (make_reply ''EPOCH_SEQ'' (Some (offset_String t)) None None None None None None None)"
  by (simp_all add: reply_simps)

lemma answers_numbers:
  assumes "is_i64 n"
  shows "answers (AppendResult0\<lparr>ar_Offset := t, ar_ProducerResult := ProducerResultDuplicate, ar_LastSeq := n, ar_StreamClosed := True\<rparr>, None) err
     (make_reply ''OK'' (Some (offset_String t)) (Some ''2'') None None None (Some (FormatInt n)) (Some ''1'') None)"
  "answers (AppendResult0\<lparr>ar_Offset := t, ar_ProducerResult := ProducerResultDuplicate, ar_LastSeq := n\<rparr>, None) err
     (make_reply ''OK'' (Some (offset_String t)) (Some ''2'') None None None (Some (FormatInt n)) (Some ''0'') None)"
  "answers (AppendResult0\<lparr>ar_Offset := t, ar_CurrentEpoch := n\<rparr>, Some ErrStaleEpoch) err
     (make_reply ''STALE_EPOCH'' (Some (offset_String t)) None (Some (FormatInt n)) None None None None None)"
  "is_i64 m \<Longrightarrow> answers (AppendResult0\<lparr>ar_Offset := t, ar_ExpectedSeq := n, ar_ReceivedSeq := m\<rparr>, Some ErrProducerSeqGap) err
     (make_reply ''SEQ_GAP'' (Some (offset_String t)) None None (Some (FormatInt n)) (Some (FormatInt m)) None None None)"
  using assms by (simp_all add: reply_simps)

section \<open>The frames of a body\<close>

lemma frame_all_append_frames:
  "append_frames cur ds msgs = (off, out) \<Longrightarrow> \<exists>new. out = msgs @ new \<and> length new = length ds \<and> frame_all cur ds = (map frame_of new, off)"
proof (induction cur ds msgs arbitrary: off out rule: append_frames.induct)
  case (2 cur d ds msgs)
  let ?cur = "Add cur (of_nat (length d))" let ?m = "\<lparr>msg_Data = d, msg_Offset = ?cur\<rparr>"
  have "append_frames ?cur ds (msgs @ [?m]) = (off, out)" using "2.prems" by (simp add: Let_def)
  from "2.IH" [OF refl this] obtain new where "out = (msgs @ [?m]) @ new" "length new = length ds" "frame_all ?cur ds = (map frame_of new, off)"
    by auto
  then show ?case by (intro exI [of _ "?m # new"]) (simp add: frame_of_def)
qed simp

lemma attempt_frames_appendToStream:
  assumes "data \<noteq> []" and "IsJSONContentType ct \<longleftrightarrow> IsJSONContentType (sm_ContentType (st_metadata st))"
  shows "case appendToStream st data False of
      Inl e \<Rightarrow> attempt_frames ct (sm_CurrentOffset (st_metadata st)) data = ([], sm_CurrentOffset (st_metadata st), Some e)
    | Inr (off, st1) \<Rightarrow> \<exists>new d. new \<noteq> [] \<and> st1 = st\<lparr>st_messages := st_messages st @ new, st_data := d\<rparr> \<and>
        attempt_frames ct (sm_CurrentOffset (st_metadata st)) data = (map frame_of new, off, None)"
proof (cases "IsJSONContentType ct")
  case True
  show ?thesis
  proof (cases "ProcessJSONAppend data False")
    case (Inl e)
    then show ?thesis using assms True by (simp add: appendToStream_def attempt_frames_def buildFrames_def)
  next
    case (Inr ds)
    obtain off out where f: "append_frames (sm_CurrentOffset (st_metadata st)) ds (st_messages st) = (off, out)" by fastforce
    have "ds \<noteq> []" using Inr by (auto simp: ProcessJSONAppend_def Let_def split: if_splits option.splits)
    with frame_all_append_frames [OF f] obtain new where "new \<noteq> []" "out = st_messages st @ new"
      "frame_all (sm_CurrentOffset (st_metadata st)) ds = (map frame_of new, off)" by (metis length_0_conv)
    then show ?thesis using assms True Inr f
      by (auto simp: appendToStream_def attempt_frames_def buildFrames_def intro!: exI [of _ new] exI [of _ "st_data st"])
  qed
next
  case False
  then show ?thesis using assms
    by (auto simp: appendToStream_def attempt_frames_def buildFrames_def Let_def frame_of_def
        intro!: exI [of _ "[\<lparr>msg_Data = data, msg_Offset = Add (sm_CurrentOffset (st_metadata st)) (of_nat (length data))\<rparr>]"]
          exI [of _ "st_data st @ data"])
qed

section \<open>The open rungs\<close>

text \<open>A stream the script has loaded and touched.\<close>

definition loaded :: "(string \<Rightarrow> rvalue) \<Rightarrow> string \<Rightarrow> meta \<Rightarrow> memoryStream \<Rightarrow> bool" where
  "loaded V path h st \<longleftrightarrow>
     V (metaKey path) = mk_hash h \<and> meta_stored h st \<and> redis_fit st \<and>
     (\<exists>ph. hash_of (V (prodKey path)) = Some ph \<and> producers_stored ph (st_metadata st)) \<and>
     (\<exists>z. zset_of (V (msgKey path)) = Some z \<and> frames_stored z st)"

lemma loaded_stored: "loaded V path h st \<Longrightarrow> stream_stored V path st"
  by (auto simp: loaded_def stream_stored_def)

lemma loaded_meta: "loaded V path h st \<Longrightarrow> meta_stored h st"
  by (simp add: loaded_def)

definition headers_i64 :: "AppendOptions \<Rightarrow> bool" where
  "headers_i64 opts \<longleftrightarrow> pred_option is_i64 (ao_ProducerEpoch opts) \<and> pred_option is_i64 (ao_ProducerSeq opts)"

definition accepted_as :: "AppendOptions \<Rightarrow> ProducerState option \<Rightarrow> ProducerResult \<Rightarrow> int64 \<Rightarrow> bool" where
  "accepted_as opts ps pr ls \<longleftrightarrow>
     (if HasAllProducerHeaders opts
      then (\<exists>u. ps = Some \<lparr>ps_Epoch = the (ao_ProducerEpoch opts), ps_LastSeq = the (ao_ProducerSeq opts), ps_LastUpdated = u\<rparr>) \<and>
           pr = ProducerResultAccepted \<and> ls = the (ao_ProducerSeq opts)
      else ps = None \<and> pr = ProducerResultNone \<and> ls = 0)"

lemma headers_i64D: "headers_i64 opts \<Longrightarrow> HasAllProducerHeaders opts \<Longrightarrow> is_i64 (the (ao_ProducerSeq opts)) \<and> is_i64 (the (ao_ProducerEpoch opts))"
  by (auto simp: headers_i64_def HasAllProducerHeaders_def)

lemma append_checked_refines:
  assumes h: "headers_whole opts" "headers_i64 opts" and keys: "keys = append_keys path (ao_Fence opts)"
    and body: "data \<noteq> []" "IsJSONContentType ct \<longleftrightarrow> IsJSONContentType (sm_ContentType (st_metadata st))"
    and frames: "attempt_frames ct (sm_CurrentOffset (st_metadata st)) data = (frames, newTail, frameErr)"
    and argv: "argv = append_args now path opts (sm_CurrentOffset (st_metadata st)) newTail (frameErr \<noteq> None) frames"
    and V: "loaded V path m st" and s: "ms_streams s path = Some st" and acc: "accepted_as opts ps pr ls"
    and Q: "\<And>W raw. answers (fst (append_data path data opts ps pr ls st s)) frameErr raw \<Longrightarrow>
        stream_stored W path (the (ms_streams (snd (append_data path data opts ps pr ls st s)) path)) \<Longrightarrow> Q raw W"
  shows "twp (append_checked keys argv nowd m) Q V"
proof -
  note ms = meta_stored_at [OF loaded_meta [OF V]]
  have a: "at1 argv 4 = ao_Seq opts" "at1 argv 12 = (if frameErr \<noteq> None then ''1'' else ''0'')" "at1 argv 10 = offset_String (sm_CurrentOffset (st_metadata st))"
    unfolding argv append_args_at [OF h(1)] by (rule refl)+
  have conflict: "(at1 argv 4 \<noteq> '''' \<and> (case m ''lastSeq'' of None \<Rightarrow> False | Some l \<Rightarrow> l \<noteq> '''' \<and> at1 argv 4 \<le> l)) \<longleftrightarrow>
      ao_Seq opts \<noteq> '''' \<and> sm_LastSeq (st_metadata st) \<noteq> '''' \<and> ao_Seq opts \<le> sm_LastSeq (st_metadata st)"
    unfolding a ms by simp
  show ?thesis
  proof (cases "ao_Seq opts \<noteq> '''' \<and> sm_LastSeq (st_metadata st) \<noteq> '''' \<and> ao_Seq opts \<le> sm_LastSeq (st_metadata st)")
    case True
    then have "append_data path data opts ps pr ls st s = ((AppendResult0, Some ErrSequenceConflict), s)" by (simp add: append_data_def)
    then have "Q ((make_reply ''SEQCONFLICT'' (Some (offset_String (sm_CurrentOffset (st_metadata st)))) None None None None None None None)) V"
      using Q loaded_stored [OF V] s by (simp add: answers_plain)
    then show ?thesis using True unfolding append_checked_def Let_def conflict ms a by simp
  next
    case no: False
    show ?thesis
    proof (cases "appendToStream st data False")
      case (Inl e)
      then have fr: "frameErr = Some e" using attempt_frames_appendToStream [OF body] frames by simp
      have "append_data path data opts ps pr ls st s = ((AppendResult0, Some e), s)" using no Inl by (auto simp: append_data_def)
      then have "Q ((make_reply ''VALONLY'' (Some (offset_String (sm_CurrentOffset (st_metadata st)))) None None None None None None None)) V"
        using Q loaded_stored [OF V] s fr by (simp add: answers_plain)
      then show ?thesis using no fr unfolding append_checked_def Let_def ms a by auto
    next
      case (Inr r)
      then obtain new d where r: "r = (newTail, st\<lparr>st_messages := st_messages st @ new, st_data := d\<rparr>)" and new: "new \<noteq> []"
          and fr: "frames = map frame_of new" "frameErr = None"
        using attempt_frames_appendToStream [OF body] frames by auto
      let ?st = "commit_stream opts ps newTail (st\<lparr>st_messages := st_messages st @ new, st_data := d\<rparr>)"
      have d: "append_data path data opts ps pr ls st s =
          ((AppendResult0\<lparr>ar_Offset := newTail, ar_ProducerResult := pr, ar_LastSeq := ls, ar_StreamClosed := ao_Close opts\<rparr>, None),
           append_commit path opts ps newTail (st\<lparr>st_messages := st_messages st @ new, st_data := d\<rparr>) s)"
        using no Inr r by (auto simp: append_data_def)
      have ans: "answers (fst (append_data path data opts ps pr ls st s)) frameErr (commit_reply opts newTail)"
        using answers_commit [of opts newTail frameErr] headers_i64D [OF h(2)] acc unfolding d by (auto simp: accepted_as_def split: if_splits)
      obtain u where ps: "ps = (if HasAllProducerHeaders opts
          then Some \<lparr>ps_Epoch = the (ao_ProducerEpoch opts), ps_LastSeq = the (ao_ProducerSeq opts), ps_LastUpdated = u\<rparr> else None)"
        using acc by (auto simp: accepted_as_def split: if_splits)
      from V obtain ph z where l: "V (metaKey path) = mk_hash m" "hash_of (V (prodKey path)) = Some ph" "zset_of (V (msgKey path)) = Some z"
          "meta_stored m st" "producers_stored ph (st_metadata st)" "frames_stored z st" "redis_fit st"
        by (auto simp: loaded_def)
      have "twp (append_write keys argv nowd m) Q V"
      proof (rule append_write_refines [OF h(1) _ keys new l ps])
        show "argv = append_args now path opts (sm_CurrentOffset (st_metadata st)) newTail False (map frame_of new)"
          using argv fr by simp
      qed (use Q ans d in \<open>auto\<close>)
      then show ?thesis using no fr unfolding append_checked_def Let_def ms a by auto
    qed
  qed
qed

lemma ValidateProducer_rounded:
  "ValidateProducer (map_option (\<lambda>p. p\<lparr>ps_LastUpdated := f p\<rparr>) x) epoch seq t = ValidateProducer x epoch seq t"
  by (cases x) (simp_all add: ValidateProducer_def)

text \<open>The outcomes of the producer rung, with the fields each sets.\<close>

inductive producer_rung :: "int64 \<Rightarrow> int64 \<Rightarrow> AppendResult \<times> ProducerState option \<times> store_error option \<Rightarrow> bool"
  for epoch seq where
  accept: "producer_rung epoch seq (AppendResult0\<lparr>ar_ProducerResult := ProducerResultAccepted, ar_LastSeq := seq\<rparr>,
      Some \<lparr>ps_Epoch = epoch, ps_LastSeq = seq, ps_LastUpdated = u\<rparr>, None)"
| duplicate: "is_i64 n \<Longrightarrow> producer_rung epoch seq
      (AppendResult0\<lparr>ar_ProducerResult := ProducerResultDuplicate, ar_LastSeq := n\<rparr>, None, None)"
| stale: "is_i64 n \<Longrightarrow> producer_rung epoch seq (AppendResult0\<lparr>ar_CurrentEpoch := n\<rparr>, None, Some ErrStaleEpoch)"
| new_epoch: "producer_rung epoch seq (AppendResult0, None, Some ErrInvalidEpochSeq)"
| gap: "is_i64 n \<Longrightarrow> producer_rung epoch seq
      (AppendResult0\<lparr>ar_ExpectedSeq := n, ar_ReceivedSeq := seq\<rparr>, None, Some ErrProducerSeqGap)"

lemma ValidateProducer_rung:
  assumes "is_i64 seq" and "\<And>p. x = Some p \<Longrightarrow> is_i64 (ps_Epoch p) \<and> is_i64 (ps_LastSeq p)"
  shows "producer_rung epoch seq (ValidateProducer x epoch seq t)"
proof (cases x)
  case None
  then show ?thesis using gap [of 0 epoch seq] accept [of epoch seq t]
    by (cases "seq = 0") (simp_all add: ValidateProducer_def AppendResult0_def is_i64_def)
next
  case (Some p)
  have i: "is_i64 (i64 (ps_LastSeq p + 1))" by (rule is_i64_i64)
  show ?thesis using Some assms(2) [OF Some] gap [OF i, of epoch seq] accept [of epoch seq t] stale [of "ps_Epoch p" epoch seq]
      duplicate [of "ps_LastSeq p" epoch seq] new_epoch [of epoch seq]
    by (auto simp: ValidateProducer_def AppendResult0_def)
qed

lemma append_ladder_refines:
  assumes h: "headers_whole opts" "headers_i64 opts" and keys: "keys = append_keys path (ao_Fence opts)"
    and body: "data \<noteq> []" "ct = (if ao_ContentType opts = '''' then sm_ContentType (st_metadata st) else ao_ContentType opts)"
      "ao_ContentType opts \<noteq> '''' \<Longrightarrow> normalizeCT (ao_ContentType opts) \<noteq> ''''"
    and frames: "attempt_frames ct (sm_CurrentOffset (st_metadata st)) data = (frames, newTail, frameErr)"
    and argv: "argv = append_args now path opts (sm_CurrentOffset (st_metadata st)) newTail (frameErr \<noteq> None) frames"
    and V: "loaded V path m st" and s: "ms_streams s path = Some st"
    and Q: "\<And>W raw. answers (fst (append_open env path data opts st s)) frameErr raw \<Longrightarrow>
        stream_stored W path (the (ms_streams (snd (append_open env path data opts st s)) path)) \<Longrightarrow> Q raw W"
  shows "twp (append_ladder keys argv nowd m) Q V"
proof -
  let ?md = "st_metadata st" and ?t = "offset_String (sm_CurrentOffset (st_metadata st))"
  note ms = meta_stored_at [OF loaded_meta [OF V]]
  have k3: "at1 keys 3 = prodKey path" unfolding keys append_keys_at by simp
  have a: "at1 argv 3 = req_ct opts" "at1 argv 6 = (if HasAllProducerHeaders opts then ''1'' else ''0'')" "at1 argv 7 = ao_ProducerId opts"
    "at1 argv 8 = (if HasAllProducerHeaders opts then FormatInt (the (ao_ProducerEpoch opts)) else ''0'')"
    "at1 argv 9 = (if HasAllProducerHeaders opts then FormatInt (the (ao_ProducerSeq opts)) else ''0'')"
    unfolding argv append_args_at [OF h(1)] by (rule refl)+
  have rep: "Q raw V" if "answers (fst (append_open env path data opts st s)) frameErr raw" "snd (append_open env path data opts st s) = s" for raw
    using Q [of raw V] that loaded_stored [OF V] s by simp
  have mis: "(req_ct opts \<noteq> '''' \<and> norm_ct (Some (sm_ContentType ?md)) \<noteq> req_ct opts) \<longleftrightarrow>
      ao_ContentType opts \<noteq> '''' \<and> \<not> ContentTypeMatches (sm_ContentType ?md) (ao_ContentType opts)"
    using body(3) by (auto simp: req_ct_def norm_ct_mirror)
  have cb: "(m ''cbEpoch'' \<noteq> None \<and> m ''cbId'' = Some (ao_ProducerId opts) \<and> m ''cbEpoch'' = Some (FormatInt e) \<and> m ''cbSeq'' = Some (FormatInt q)) \<longleftrightarrow>
      closed_by ?md (ao_ProducerId opts) e q" for e q
    unfolding ms by (cases "sm_ClosedBy ?md") (auto simp: closed_by_def)
  consider (closed) "sm_Closed ?md"
    | (mismatch) "\<not> sm_Closed ?md" "ao_ContentType opts \<noteq> ''''" "\<not> ContentTypeMatches (sm_ContentType ?md) (ao_ContentType opts)"
    | (go) "\<not> sm_Closed ?md" "\<not> (ao_ContentType opts \<noteq> '''' \<and> \<not> ContentTypeMatches (sm_ContentType ?md) (ao_ContentType opts))"
    by blast
  then show ?thesis
  proof cases
    case closed
    have c: "m ''closed'' = Some ''1''" using closed unfolding ms by simp
    show ?thesis
    proof (cases "HasAllProducerHeaders opts \<and> closed_by ?md (ao_ProducerId opts) (the (ao_ProducerEpoch opts)) (the (ao_ProducerSeq opts))")
      case True
      have "Q ((make_reply ''OK'' (Some ?t) (Some ''2'') None None None (Some (FormatInt (the (ao_ProducerSeq opts)))) (Some ''1'') None)) V"
        by (rule rep) (use True closed headers_i64D [OF h(2)] in \<open>auto simp: append_open_def intro: answers_numbers\<close>)
      then show ?thesis using True c cb [of "the (ao_ProducerEpoch opts)" "the (ao_ProducerSeq opts)"]
        unfolding append_ladder_def Let_def a by (simp add: ms(2))
    next
      case False
      have "Q ((make_reply ''CLOSED'' (Some ?t) None None None None None (Some ''1'') None)) V"
        by (rule rep) (use False closed in \<open>auto simp: append_open_def answers_plain\<close>)
      then show ?thesis using False c cb [of "the (ao_ProducerEpoch opts)" "the (ao_ProducerSeq opts)"]
        unfolding append_ladder_def Let_def a by (auto simp: ms(2))
    qed
  next
    case mismatch
    have "Q ((make_reply ''CTMISMATCH'' (Some ?t) None None None None None None None)) V"
      by (rule rep) (use mismatch in \<open>simp_all add: append_open_def answers_plain\<close>)
    then show ?thesis using mismatch mis unfolding append_ladder_def Let_def a by (simp add: ms(1,2,6))
  next
    case go
    have json: "IsJSONContentType ct \<longleftrightarrow> IsJSONContentType (sm_ContentType ?md)"
      using go(2) body(2) IsJSONContentType_match by (cases "ao_ContentType opts = ''''") auto
    have lad: "append_ladder keys argv nowd m = (if HasAllProducerHeaders opts then
           hget (prodKey path) (ao_ProducerId opts) (\<lambda>state.
             need (validate_producer state (FormatInt (the (ao_ProducerEpoch opts))) (FormatInt (the (ao_ProducerSeq opts)))) (\<lambda>(outcome, d1, d2).
               if outcome = ''DUP'' then Ret (make_reply ''OK'' (Some ?t) (Some ''2'') None None None d1 (Some ''0'') None)
               else if outcome = ''STALE_EPOCH'' then Ret (make_reply ''STALE_EPOCH'' (Some ?t) None d1 None None None None None)
               else if outcome = ''EPOCH_SEQ'' then Ret (make_reply ''EPOCH_SEQ'' (Some ?t) None None None None None None None)
               else if outcome = ''SEQ_GAP'' then Ret (make_reply ''SEQ_GAP'' (Some ?t) None None d1 d2 None None None)
               else append_checked keys argv nowd m))
         else append_checked keys argv nowd m)"
      using go unfolding append_ladder_def Let_def a k3 ms(1,2,6) mis by (cases "HasAllProducerHeaders opts") auto
    have checked: "twp (append_checked keys argv nowd m) Q V"
      if "append_open env path data opts st s = append_data path data opts ps pr ls st s" "accepted_as opts ps pr ls" for ps pr ls
      using Q unfolding that(1)
      by (intro append_checked_refines [where Q = Q, OF h keys body(1) json frames argv V s that(2)])
    show ?thesis
    proof (cases "HasAllProducerHeaders opts")
      case False
      then have "append_open env path data opts st s = append_data path data opts None ProducerResultNone 0 st s"
        using go by (auto simp: append_open_def Let_def)
      from checked [OF this] False show ?thesis unfolding lad by (simp add: accepted_as_def)
    next
      case True
      let ?e = "the (ao_ProducerEpoch opts)" and ?q = "the (ao_ProducerSeq opts)"
      let ?v = "ValidateProducer (sm_Producers ?md (ao_ProducerId opts)) ?e ?q (tm_sec (env_now env))"
      from V obtain ph where ph: "hash_of (V (prodKey path)) = Some ph" "producers_stored ph ?md" and fit: "redis_fit st" by (auto simp: loaded_def)
      have i: "is_i64 ?q" using headers_i64D [OF h(2) True] by simp
      have fitp: "is_i64 (ps_Epoch p) \<and> is_i64 (ps_LastSeq p)" if "sm_Producers ?md (ao_ProducerId opts) = Some p" for p
        using fit that by (auto simp: redis_fit_def)
      obtain f where st: "ph (ao_ProducerId opts) = map_option encodeProducerState
          (map_option (\<lambda>p. p\<lparr>ps_LastUpdated := f p\<rparr>) (sm_Producers ?md (ao_ProducerId opts)))"
      proof (cases "sm_Producers ?md (ao_ProducerId opts)")
        case None
        then show ?thesis using that [of ps_LastUpdated] ph(2) [unfolded producers_stored_def, THEN spec [of _ "ao_ProducerId opts"]] by simp
      next
        case (Some p)
        then obtain u where "ph (ao_ProducerId opts) = Some (encodeProducerState (p\<lparr>ps_LastUpdated := u\<rparr>))"
          using ph(2) [unfolded producers_stored_def, THEN spec [of _ "ao_ProducerId opts"]] by auto
        then show ?thesis using that [of "\<lambda>_. u"] Some by simp
      qed
      have val: "validate_producer (ph (ao_ProducerId opts)) (FormatInt ?e) (FormatInt ?q) = Some (case ?v of (r, _, err) \<Rightarrow> producer_outcome r err)"
        unfolding st by (subst validate_producer_mirror [OF i, where now = "tm_sec (env_now env)"])
          (use fitp in \<open>auto simp: ValidateProducer_rounded\<close>)
      have rung: "producer_rung ?e ?q ?v" by (rule ValidateProducer_rung [OF i]) (rule fitp)
      have opened: "append_open env path data opts st s = (case ?v of (result, newState, err) \<Rightarrow>
              if err \<noteq> None then ((result\<lparr>ar_Offset := sm_CurrentOffset ?md\<rparr>, err), s)
              else if ar_ProducerResult result = ProducerResultDuplicate
              then ((AppendResult0\<lparr>ar_Offset := sm_CurrentOffset ?md, ar_ProducerResult := ProducerResultDuplicate, ar_LastSeq := ar_LastSeq result\<rparr>, None), s)
              else append_data path data opts newState (ar_ProducerResult result) (ar_LastSeq result) st s)"
        using go True by (auto simp: append_open_def validateProducer_def Let_def)
      let ?g = "\<lambda>(outcome, d1, d2).
         if outcome = ''DUP'' then Ret (make_reply ''OK'' (Some ?t) (Some ''2'') None None None d1 (Some ''0'') None)
         else if outcome = ''STALE_EPOCH'' then Ret (make_reply ''STALE_EPOCH'' (Some ?t) None d1 None None None None None)
         else if outcome = ''EPOCH_SEQ'' then Ret (make_reply ''EPOCH_SEQ'' (Some ?t) None None None None None None None)
         else if outcome = ''SEQ_GAP'' then Ret (make_reply ''SEQ_GAP'' (Some ?t) None None d1 d2 None None None)
         else append_checked keys argv nowd m"
      from rung have main: "twp (?g (case ?v of (r, _, err) \<Rightarrow> producer_outcome r err)) Q V"
      proof (cases rule: producer_rung.cases)
        case (accept u)
        then have "append_open env path data opts st s = append_data path data opts (Some \<lparr>ps_Epoch = ?e, ps_LastSeq = ?q, ps_LastUpdated = u\<rparr>) ProducerResultAccepted ?q st s"
          unfolding opened by (simp add: AppendResult0_def)
        from checked [OF this] True accept show ?thesis by (simp add: accepted_as_def producer_outcome_def AppendResult0_def)
      next
        case (duplicate n)
        then show ?thesis
          using rep answers_numbers(2) [OF duplicate(2)] unfolding opened by (simp add: producer_outcome_def AppendResult0_def)
      next
        case (stale n)
        then show ?thesis
          using rep answers_numbers(3) [OF stale(2)] unfolding opened by (simp add: producer_outcome_def AppendResult0_def)
      next
        case new_epoch
        then show ?thesis
          using rep answers_plain(7) unfolding opened by (simp add: producer_outcome_def AppendResult0_def)
      next
        case (gap n)
        then show ?thesis
          using rep answers_numbers(4) [OF gap(2) i] unfolding opened by (simp add: producer_outcome_def AppendResult0_def)
      qed
      have "twp (need (validate_producer (ph (ao_ProducerId opts)) (FormatInt ?e) (FormatInt ?q)) ?g) Q V"
        unfolding val need_simps by (rule main)
      then show ?thesis unfolding lad
        by (simp only: True if_True) (rule twp_hget_at [where Q = Q and V = V and k = "prodKey path", OF ph(1)])
    qed
  qed
qed

section \<open>The fence rung\<close>

text \<open>
  The marker of an authority is the one the in-memory store reads, its lease compares with the
  rounded clock as with the clock, and the shard is one the webhook layer issues.
\<close>

definition fence_stored :: "(string \<Rightarrow> rvalue) \<Rightarrow> store_env \<Rightarrow> string \<Rightarrow> AppendFence option \<Rightarrow> MemoryStore \<Rightarrow> bool" where
  "fence_stored V env path fence s \<longleftrightarrow>
     (case fence of
        None \<Rightarrow> True
      | Some f \<Rightarrow>
          (let m = fst (store_marker env path (FenceAuthority f) s)
           in 0 \<le> af_Shard f \<and> is_i64 (wm_Generation m) \<and>
              (wm_Present m \<longrightarrow> (time_unix_nano (env_now env) < to_double (wm_LeaseUntilNs m) \<longleftrightarrow> time_unix_nano (env_now env) < wm_LeaseUntilNs m)) \<and>
              (case hash_of (V (appendFenceKey path f)) of None \<Rightarrow> False | Some h \<Rightarrow> marker_row m (map h marker_fields))))"

lemma EvaluateWriteFence_i64:
  assumes "is_i64 (wi_BoundGeneration inp)" "is_i64 (wm_Generation (wi_Marker inp))" "is_i64 (ws_Generation (wi_Seal inp))"
  shows "is_i64 (wo_Generation (EvaluateWriteFence inp))"
  using assms by (auto simp: EvaluateWriteFence_def WriteFenceOutcome0_def Let_def is_i64_def split: option.splits)

lemma fenceRung_i64:
  assumes "redis_fit st" and "fence_stored V env path fence s"
  shows "is_i64 (wo_Generation (fst (fenceRung env path st fence pid epoch s)))"
proof -
  have s: "is_i64 (ws_Generation (seal_of st a))" for a
    using assms(1) by (auto simp: redis_fit_def seal_of_def WriteFenceSeal0_def is_i64_def split: option.splits)
  have b: "is_i64 (bound_of st pid)"
    using assms(1) by (auto simp: redis_fit_def bound_of_def is_i64_def split: option.splits)
  have z: "is_i64 0" by (simp add: is_i64_def)
  show ?thesis using assms(2) s b z
    by (auto simp: fenceRung_def fence_stored_def Let_def WriteFenceOutcome0_def WriteFenceMarker0_def WriteFenceSeal0_def case_prod_beta
        intro!: EvaluateWriteFence_i64 split: option.splits)
qed

lemma fence_rung_refines:
  assumes h: "headers_whole opts" and keys: "keys = append_keys path (ao_Fence opts)"
    and argv: "argv = append_args now path opts base newTail v frames"
    and m: "meta_stored m st" "redis_fit st" and f: "fence_stored V env path (ao_Fence opts) s"
    and p: "twp (p (case fst (fenceRung env path st (ao_Fence opts) (ao_ProducerId opts) (ao_ProducerEpoch opts) s) of
        out \<Rightarrow> (reason_text (wo_Reason out), FormatInt (wo_Generation out), wo_Holder out))) Q V"
  shows "twp (fence_rung keys m (at1 argv 13 = ''1'') (at1 argv 14) (at1 argv 15) (at1 argv 16) (time_unix_nano (env_now env))
      (at1 argv 6 = ''1'') (at1 argv 7) (at1 argv 8) p) Q V"
proof -
  let ?md = "st_metadata st"
  note ms = meta_stored_at [OF m(1)]
  have inc: "m ''incarnation'' = Some (sm_Incarnation ?md)" "sm_Incarnation ?md \<noteq> ''''" using m(2) ms(4) by (auto simp: redis_fit_def)
  have wf: "(m ''wf'' = Some ''1'') = sm_WriteFence ?md" by (simp add: ms)
  have ep: "ao_ProducerEpoch opts \<noteq> None \<longleftrightarrow> HasAllProducerHeaders opts"
    using h by (auto simp: headers_whole_def HasProducerHeaders_def HasAllProducerHeaders_def)
  have a6: "(at1 argv 6 = ''1'') = HasAllProducerHeaders opts" "at1 argv 7 = ao_ProducerId opts"
    unfolding argv append_args_at [OF h] by simp_all
  have a8: "at1 argv 8 = FormatInt (case ao_ProducerEpoch opts of None \<Rightarrow> 0 | Some e \<Rightarrow> e)"
    unfolding argv append_args_at [OF h] using ep by (auto simp: FormatInt_0 split: option.splits)
  show ?thesis
  proof (cases "ao_Fence opts")
    case None
    have a13: "(at1 argv 13 = ''1'') = False" unfolding argv append_args_at [OF h] using None by simp
    show ?thesis
    proof (cases "sm_WriteFence ?md")
      case False
      then show ?thesis using p None unfolding fence_rung_def a13 wf
        by (simp add: fenceRung_def WriteFenceOutcome0_def FormatInt_0)
    next
      case True
      define inp where "inp = \<lparr>wi_StreamFenced = True, wi_StreamIncarnation = sm_Incarnation ?md, wi_Fence = None,
          wi_Marker = WriteFenceMarker0, wi_Seal = WriteFenceSeal0, wi_NowNs = time_unix_nano (env_now env),
          wi_HasProducer = HasAllProducerHeaders opts, wi_ProducerEpoch = (case ao_ProducerEpoch opts of None \<Rightarrow> 0 | Some e \<Rightarrow> e),
          wi_BoundGeneration = (if HasAllProducerHeaders opts then bound_of st (ao_ProducerId opts) else 0)\<rparr>"
      have r: "fst (fenceRung env path st (ao_Fence opts) (ao_ProducerId opts) (ao_ProducerEpoch opts) s) = EvaluateWriteFence inp"
        using True None ep by (cases "ao_ProducerEpoch opts") (simp_all add: fenceRung_def inp_def)
      have b: "(if sm_WriteFence ?md \<and> HasAllProducerHeaders opts \<and> \<not> False then or_zero (m (''wfbind:'' @ ao_ProducerId opts)) else ''0'') =
          FormatInt (wi_BoundGeneration inp)"
        using True unfolding ms by (simp add: inp_def or_zero_def bound_of_def FormatInt_0 split: option.splits)
      have "wi_Fence inp = None" by (simp add: inp_def)
      from evaluate_open [OF this] p show ?thesis
        unfolding fence_rung_def a13 wf a6 Let_def b r using True by (simp add: inp_def)
    qed
  next
    case (Some f)
    note fa = append_args_fence [OF h Some]
    have a13: "(at1 argv 13 = ''1'') = True" unfolding argv append_args_at [OF h] using Some by simp
    have a14: "at1 argv 14 = FormatInt (af_Generation f)" "at1 argv 15 = af_WakeID f" "at1 argv 16 = af_Holder f"
      unfolding argv fa by (rule refl)+
    have k5: "at1 keys 5 = appendFenceKey path f" unfolding keys Some append_keys_at by (rule refl)
    let ?m = "fst (store_marker env path (FenceAuthority f) s)" and ?seal = "seal_of st (FenceAuthority f)"
    from f Some obtain mh where mh: "hash_of (V (appendFenceKey path f)) = Some mh" "marker_row ?m (map mh marker_fields)" "0 \<le> af_Shard f"
      and lease: "wm_Present ?m \<Longrightarrow> (time_unix_nano (env_now env) < to_double (wm_LeaseUntilNs ?m)) = (time_unix_nano (env_now env) < wm_LeaseUntilNs ?m)"
      by (auto simp: fence_stored_def Let_def split: option.splits)
    define inp where "inp = \<lparr>wi_StreamFenced = sm_WriteFence ?md, wi_StreamIncarnation = sm_Incarnation ?md, wi_Fence = Some f,
        wi_Marker = ?m, wi_Seal = ?seal, wi_NowNs = time_unix_nano (env_now env),
        wi_HasProducer = HasAllProducerHeaders opts, wi_ProducerEpoch = (case ao_ProducerEpoch opts of None \<Rightarrow> 0 | Some e \<Rightarrow> e),
        wi_BoundGeneration = 0\<rparr>"
    have r: "fst (fenceRung env path st (ao_Fence opts) (ao_ProducerId opts) (ao_ProducerEpoch opts) s) = EvaluateWriteFence inp"
      using Some ep by (cases "ao_ProducerEpoch opts") (simp_all add: fenceRung_def inp_def case_prod_beta Let_def)
    have ev: "evaluate_write_fence (sm_WriteFence ?md) (Some (sm_Incarnation ?md)) True (FormatInt (af_Generation f)) (af_WakeID f) (af_Holder f)
        (map mh marker_fields) (ws_Present (wi_Seal inp)) (if ws_Present (wi_Seal inp) then FormatInt (ws_Generation (wi_Seal inp)) else ''0'')
        (time_unix_nano (env_now env)) (HasAllProducerHeaders opts) (at1 argv 8) ''0'' =
      Some (case EvaluateWriteFence inp of out \<Rightarrow> (reason_text (wo_Reason out), FormatInt (wo_Generation out), wo_Holder out))"
      using evaluate_fenced [of inp f "map mh marker_fields" "time_unix_nano (env_now env)" "''0''"] mh(2) inc(2) lease a8
      by (simp add: inp_def)
    have step: "twp (need (fence_auth (appendFenceKey path f)) (\<lambda>auth. case m (''wfseal:'' @ auth) of
        None \<Rightarrow> g False ''0'' | Some x \<Rightarrow> need (seal_parts x) (\<lambda>(n, _, _). g True n))) Q V"
      if g: "twp (g (ws_Present (wi_Seal inp)) (if ws_Present (wi_Seal inp) then FormatInt (ws_Generation (wi_Seal inp)) else ''0'')) Q V" for g
    proof (cases "st_seals st (FenceAuthority f)")
      case None
      then show ?thesis using g unfolding fence_auth_appendFenceKey [OF mh(3)] need_simps ms
        by (simp add: inp_def seal_of_def WriteFenceSeal0_def)
    next
      case (Some x)
      then have "ws_Present x" "CHR '':'' \<notin> set (ws_WakeID x)" using m(2) by (auto simp: redis_fit_def)
      with Some show ?thesis using g unfolding fence_auth_appendFenceKey [OF mh(3)] need_simps ms
        by (simp add: inp_def seal_of_def seal_parts_text)
    qed
    have opts: "lua_opts (RepOpts xs) = xs" for xs by simp
    show ?thesis
      unfolding fence_rung_def a13 a14 a6 wf k5 Let_def inc(1)
      by (simp only: not_True_eq_False simp_thms if_False, rule twp_hmget [where Q = Q and V = V and k = "appendFenceKey path f", OF mh(1)],
          unfold opts, rule step, unfold ev need_simps, rule p [unfolded r])
  qed
qed

section \<open>The script\<close>

text \<open>The expiry decision of the script, on doubles.\<close>

definition lua_expired :: "StreamMetadata \<Rightarrow> int \<Rightarrow> bool" where
  "lua_expired md now \<longleftrightarrow>
     (case sm_ExpiresAt md of None \<Rightarrow> False | Some t \<Rightarrow> now > to_double (time_unix_nano t)) \<or>
     (case sm_TTLSeconds md of
        None \<Rightarrow> False
      | Some ttl \<Rightarrow> now > lua_add (to_double (time_unix_nano (sm_LastAccessedAt md))) (lua_mult (to_double ttl) 1000000000))"

lemma is_expired_stored:
  assumes "meta_stored m st"
  shows "is_expired m now = Some (lua_expired (st_metadata st) now)"
  unfolding is_expired_def meta_stored_at [OF assms]
  by (cases "sm_ExpiresAt (st_metadata st)"; cases "sm_TTLSeconds (st_metadata st)")
    (simp_all add: lua_expired_def tonumber_def parse_double_FormatInt)

lemma twp_del_all: "(\<And>W. twp p Q W) \<Longrightarrow> twp (del_all ks p) Q V"
  by (induction ks arbitrary: V) auto

lemma twp_expire_cleanup:
  assumes "\<And>W. Q r W" and "hash_of (V (at1 keys 1)) = Some m" and "meta_stored m st"
  shows "twp (expire_cleanup keys m (Ret r)) Q V"
proof -
  have "twp (hset (at1 keys 1) [(''softDel'', ''1'')] (persist_all (take 4 keys) (Ret r))) Q V"
    by (rule twp_hset_at [where V = V and k = "at1 keys 1", OF assms(2)]) (simp add: twp_persist_all assms(1))
  moreover have "twp (del_all (take 4 keys) (Ret r)) Q V" by (rule twp_del_all) (simp add: assms(1))
  ultimately show ?thesis unfolding expire_cleanup_def meta_stored_ref_count [OF assms(3)] need_simps by simp
qed

lemma touch_stored:
  assumes "meta_stored m st" and "time_unix_nano t = n"
  shows "meta_stored (m(''accessedAtNs'' \<mapsto> FormatInt n)) (upd_meta (sm_LastAccessedAt_update (\<lambda>_. t)) st)"
  using assms by (simp add: meta_stored_def plain_fields_def)

lemma reason_text_None [simp]: "reason_text r = '''' \<longleftrightarrow> r = FenceNone"
  by (cases r) simp_all

lemma fence_reason_of_text [simp]: "fence_reason_of (reason_text r) = r"
  by (cases r) (simp_all add: fence_reason_of_def)

lemma answers_fenced:
  assumes "is_i64 (wo_Generation out)"
  shows "answers (AppendResult0\<lparr>ar_FenceReason := wo_Reason out, ar_FenceGeneration := wo_Generation out, ar_FenceHolder := wo_Holder out\<rparr>,
      Some ErrAppendFenced) err (fence_reply (reason_text (wo_Reason out)) (Some (offset_String t)) (FormatInt (wo_Generation out)) (wo_Holder out))"
  using assms by (simp add: reply_simps)

text \<open>An append the two stores decide on the same facts.\<close>

definition append_ready :: "(string \<Rightarrow> rvalue) \<Rightarrow> store_env \<Rightarrow> string \<Rightarrow> bytes \<Rightarrow> AppendOptions \<Rightarrow> memoryStream \<Rightarrow> MemoryStore \<Rightarrow> bool" where
  "append_ready V env path data opts st s \<longleftrightarrow>
     data \<noteq> [] \<and> headers_i64 opts \<and>
     (ao_ContentType opts \<noteq> '''' \<longrightarrow> normalizeCT (ao_ContentType opts) \<noteq> '''') \<and>
     ms_streams s path = Some st \<and> stream_stored V path st \<and> redis_fit st \<and>
     fence_stored V env path (ao_Fence opts) s \<and>
     lua_expired (st_metadata st) (time_unix_nano (env_now env)) = isExpired env (st_metadata st)"

lemma append_lua_refines:
  assumes h: "headers_whole opts" and complete: "pred_option fence_Complete (ao_Fence opts)" and ready: "append_ready V env path data opts st s"
    and ct: "ct = (if ao_ContentType opts = '''' then sm_ContentType (st_metadata st) else ao_ContentType opts)"
    and clock: "time_unix_nano (env_now env) = to_double (time_unix_nano now)"
    and frames: "attempt_frames ct (sm_CurrentOffset (st_metadata st)) data = (frames, newTail, frameErr)"
    and Q: "\<And>W raw. answers (fst (Append env path data opts s)) frameErr raw \<Longrightarrow>
        (\<not> isExpired env (st_metadata st) \<Longrightarrow> stream_stored W path (the (ms_streams (snd (Append env path data opts s)) path))) \<Longrightarrow> Q raw W"
  shows "twp (append_lua (append_keys path (ao_Fence opts))
      (append_args now path opts (sm_CurrentOffset (st_metadata st)) newTail (frameErr \<noteq> None) frames)) Q V"
proof -
  let ?keys = "append_keys path (ao_Fence opts)" and ?md = "st_metadata st" and ?n = "time_unix_nano (env_now env)"
  define argv where "argv = append_args now path opts (sm_CurrentOffset (st_metadata st)) newTail (frameErr \<noteq> None) frames"
  define s' where "s' = (if HasAllProducerHeaders opts then getProducerLock path (ao_ProducerId opts) s else s)"
  have s': "ms_streams s' path = Some st" "ms_markers s' = ms_markers s"
    using ready by (simp_all add: s'_def append_ready_def getProducerLock_def Let_def)
  let ?out = "fst (fenceRung env path st (ao_Fence opts) (ao_ProducerId opts) (ao_ProducerEpoch opts) s)"
  let ?s = "snd (fenceRung env path st (ao_Fence opts) (ao_ProducerId opts) (ao_ProducerEpoch opts) s')"
  let ?st = "upd_meta (sm_LastAccessedAt_update (\<lambda>_. env_now env)) st"
  have guard: "\<not> (case ao_Fence opts of None \<Rightarrow> False | Some f \<Rightarrow> \<not> fence_Complete f)" using complete by (cases "ao_Fence opts") auto
  have app: "Append env path data opts s =
      (if sm_SoftDeleted ?md then ((AppendResult0, Some ErrStreamSoftDeleted), s')
       else if isExpired env ?md then ((AppendResult0, Some ErrStreamNotFound), s')
       else if wo_Reason ?out \<noteq> FenceNone
       then ((AppendResult0\<lparr>ar_FenceReason := wo_Reason ?out, ar_FenceGeneration := wo_Generation ?out, ar_FenceHolder := wo_Holder ?out\<rparr>,
              Some ErrAppendFenced), ?s)
       else append_open env path data opts ?st (put_stream path ?st ?s))"
    using guard h s'(1) fenceRung_markers [OF s'(2)] unfolding Append_def Let_def s'_def [symmetric]
    by (auto simp: headers_whole_def case_prod_beta)
  from ready obtain m ph z where m: "hash_of (V (metaKey path)) = Some m" "meta_stored m st" "redis_fit st"
      and pz: "hash_of (V (prodKey path)) = Some ph" "producers_stored ph ?md" "zset_of (V (msgKey path)) = Some z" "frames_stored z st"
      and fs: "fence_stored V env path (ao_Fence opts) s" and ex: "lua_expired ?md ?n = isExpired env ?md"
      and stored: "stream_stored V path st"
    by (auto simp: append_ready_def stream_stored_def)
  note ms = meta_stored_at [OF m(2)]
  have fin: "finite (dom m)" using m(2) by (simp add: meta_stored_def)
  have k1: "at1 ?keys 1 = metaKey path" unfolding append_keys_at by (rule refl)
  have now: "parse_double (at1 argv 1) = Some ?n"
    unfolding argv_def append_args_at [OF h] clock by (simp add: nowNsArg_def parse_double_FormatInt)
  have ladder: "twp (hset (metaKey path) [(''accessedAtNs'', FormatInt ?n)]
      (refresh_backstop ?keys (m(''accessedAtNs'' \<mapsto> FormatInt ?n)) ?n (append_ladder ?keys argv ?n (m(''accessedAtNs'' \<mapsto> FormatInt ?n))))) Q V"
    if "\<not> sm_SoftDeleted ?md" "\<not> isExpired env ?md" "wo_Reason ?out = FenceNone"
  proof (rule twp_hset_at [where Q = Q and V = V and k = "metaKey path", OF m(1)], rule twp_refresh_stored [OF touch_stored [OF m(2) refl]])
    show "redis_fit ?st" using m(3) by (simp add: redis_fit_def)
    have l: "loaded (V(metaKey path := mk_hash (m ++ map_of (rev [(''accessedAtNs'', FormatInt ?n)])))) path (m(''accessedAtNs'' \<mapsto> FormatInt ?n)) ?st"
      using touch_stored [OF m(2) refl, of "env_now env"] m(3) pz
      by (auto simp: loaded_def redis_fit_def producers_stored_def frames_stored_def)
    show "twp (append_ladder ?keys argv ?n (m(''accessedAtNs'' \<mapsto> FormatInt ?n))) Q
        (V(metaKey path := mk_hash (m ++ map_of (rev [(''accessedAtNs'', FormatInt ?n)]))))"
    proof (rule append_ladder_refines [where env = env, OF h _ refl _ _ _ _ _ l])
      show "attempt_frames ct (sm_CurrentOffset (st_metadata ?st)) data = (frames, newTail, frameErr)" using frames by simp
      show "argv = append_args now path opts (sm_CurrentOffset (st_metadata ?st)) newTail (frameErr \<noteq> None) frames"
        by (simp add: argv_def)
      show "ms_streams (put_stream path ?st ?s) path = Some ?st" by (simp add: put_stream_def)
    qed (use ready ct Q app that in \<open>auto simp: append_ready_def\<close>)
  qed
  have fence: "twp (fence_rung ?keys m (at1 argv 13 = ''1'') (at1 argv 14) (at1 argv 15) (at1 argv 16) ?n
      (at1 argv 6 = ''1'') (at1 argv 7) (at1 argv 8) (\<lambda>(reason, d_gen, d_holder).
         if reason \<noteq> '''' then Ret (fence_reply reason (m ''tail'') d_gen d_holder)
         else let m = m(''accessedAtNs'' \<mapsto> FormatInt ?n)
              in hset (metaKey path) [(''accessedAtNs'', FormatInt ?n)] (refresh_backstop ?keys m ?n (append_ladder ?keys argv ?n m)))) Q V"
    if no: "\<not> sm_SoftDeleted ?md" "\<not> isExpired env ?md"
  proof (rule fence_rung_refines [where Q = Q and V = V, OF h refl argv_def m(2,3) fs], cases "wo_Reason ?out = FenceNone")
    case True
    then show "twp ((\<lambda>(reason, d_gen, d_holder).
         if reason \<noteq> '''' then Ret (fence_reply reason (m ''tail'') d_gen d_holder)
         else let m = m(''accessedAtNs'' \<mapsto> FormatInt ?n)
              in hset (metaKey path) [(''accessedAtNs'', FormatInt ?n)] (refresh_backstop ?keys m ?n (append_ladder ?keys argv ?n m)))
        (case ?out of out \<Rightarrow> (reason_text (wo_Reason out), FormatInt (wo_Generation out), wo_Holder out))) Q V"
      using ladder [OF no True] by (simp only: case_prod_conv reason_text_None simp_thms if_False Let_def)
  next
    case False
    have "Q ((fence_reply (reason_text (wo_Reason ?out)) (m ''tail'') (FormatInt (wo_Generation ?out)) (wo_Holder ?out))) V"
      using answers_fenced [OF fenceRung_i64 [OF m(3) fs]] no False stored s' unfolding ms(2)
      by (intro Q) (simp_all add: app fenceRung_streams)
    with False show "twp ((\<lambda>(reason, d_gen, d_holder).
         if reason \<noteq> '''' then Ret (fence_reply reason (m ''tail'') d_gen d_holder)
         else let m = m(''accessedAtNs'' \<mapsto> FormatInt ?n)
              in hset (metaKey path) [(''accessedAtNs'', FormatInt ?n)] (refresh_backstop ?keys m ?n (append_ladder ?keys argv ?n m)))
        (case ?out of out \<Rightarrow> (reason_text (wo_Reason out), FormatInt (wo_Generation out), wo_Holder out))) Q V" by simp
  qed
  have not_found: "Q ((make_reply ''NOTFOUND'' None None None None None None None None)) W" if "isExpired env ?md" "\<not> sm_SoftDeleted ?md" for W
    using that by (intro Q) (simp_all add: app answers_plain)
  have soft: "Q ((make_reply ''SOFTDEL'' None None None None None None None None)) V" if "sm_SoftDeleted ?md"
    using that stored s' by (intro Q) (simp_all add: app answers_plain)
  have expired: "twp (expire_cleanup ?keys m (Ret (make_reply ''NOTFOUND'' None None None None None None None None))) Q V"
    if "isExpired env ?md" "\<not> sm_SoftDeleted ?md"
    by (rule twp_expire_cleanup [where Q = Q, OF not_found [OF that] _ m(2)]) (simp only: k1 m(1))
  have some: "xs \<noteq> []" "(m ''tail'' = None) = False" if "map_of xs = m" for xs
    using that ms(2) by (cases xs; auto)+
  show ?thesis
    unfolding append_lua_def argv_def [symmetric] now need_simps meta_map_def k1
  proof (rule twp_hgetall [where Q = Q and V = V and k = "metaKey path", OF m(1) fin])
    fix xs assume xs: "map_of xs = m"
    show "twp (let m = map_of (lua_pairs (RepMap xs)) in case if lua_pairs (RepMap xs) = [] \<or> m ''tail'' = None then None else Some m of
         None \<Rightarrow> Ret (make_reply ''NOTFOUND'' None None None None None None None None)
       | Some m \<Rightarrow>
           if m ''softDel'' = Some ''1'' then Ret (make_reply ''SOFTDEL'' None None None None None None None None)
           else need (is_expired m ?n) (\<lambda>expired.
             if expired then expire_cleanup ?keys m (Ret (make_reply ''NOTFOUND'' None None None None None None None None))
             else fence_rung ?keys m (at1 argv 13 = ''1'') (at1 argv 14) (at1 argv 15) (at1 argv 16) ?n
                   (at1 argv 6 = ''1'') (at1 argv 7) (at1 argv 8) (\<lambda>(reason, d_gen, d_holder).
                     if reason \<noteq> '''' then Ret (fence_reply reason (m ''tail'') d_gen d_holder)
                     else let m = m(''accessedAtNs'' \<mapsto> FormatInt ?n)
                          in hset (metaKey path) [(''accessedAtNs'', FormatInt ?n)] (refresh_backstop ?keys m ?n (append_ladder ?keys argv ?n m))))) Q V"
      using some(1) [OF xs] fence soft not_found expired
      by (simp add: Let_def xs some(2) [OF xs] is_expired_stored [OF m(2)] ex ms(10) del: twp.simps(3))
  qed
qed

section \<open>The operation\<close>

lemma answers_result:
  assumes "answers out frameErr raw"
  shows "(case decodeScriptReply raw of
       Inl e \<Rightarrow> Ret (AppendResult0, Some e)
     | Inr r \<Rightarrow>
         if rp_Status r = ''RETRY'' then p r
         else (case mapAppendReply r of (res, err) \<Rightarrow>
                 if err = None \<and> rp_Status r = ''VALONLY''
                 then (if rp_ProducerRes r = 2 then Ret (res, None) else Ret (AppendResult0, map_option Sentinel frameErr))
                 else Ret (res, err))) =
    Ret (fst out, map_option Sentinel (snd out))"
  using assms by (auto simp: answers_def split: sum.splits prod.splits if_splits)

lemma twp_readTail:
  assumes "hash_of (V (metaKey path)) = Some m" and "meta_stored m st"
    and "twp (g (Inr (sm_CurrentOffset (st_metadata st), sm_ContentType (st_metadata st)))) Q V"
  shows "twp (rbind (readTailAndContentType path) g) Q V"
proof -
  have "twp (readTailAndContentType path) (\<lambda>a. twp (g a) Q) V"
    unfolding readTailAndContentType_def
    by (rule twp_hmget [where V = V and k = "metaKey path" and h = m])
      (use assms in \<open>simp_all add: opt_at_def meta_stored_at [OF assms(2)] ParseOffset_offset_String\<close>)
  then show ?thesis by (simp add: twp_bind)
qed

definition append_outcome :: "(AppendResult \<times> store_error option) \<Rightarrow> AppendResult \<times> redis_error option" where
  "append_outcome out = (fst out, map_option Sentinel (snd out))"

lemma append_attempt_refines:
  assumes "headers_whole opts" and "pred_option fence_Complete (ao_Fence opts)" and ready: "append_ready V env path data opts st s"
    and "time_unix_nano (env_now env) = to_double (time_unix_nano (clock 0))"
    and hint: "hint = None \<or> hint = Some (sm_CurrentOffset (st_metadata st)) \<and> ao_ContentType opts \<noteq> ''''"
    and Q: "\<And>W. (\<not> isExpired env (st_metadata st) \<Longrightarrow> stream_stored W path (the (ms_streams (snd (Append env path data opts s)) path))) \<Longrightarrow>
        Q ((append_outcome (fst (Append env path data opts s)))) W"
  shows "twp (append_attempts clock path data opts (Suc left) 0 hint) Q V"
proof -
  let ?md = "st_metadata st"
  let ?ct = "if ao_ContentType opts = '''' then sm_ContentType ?md else ao_ContentType opts"
  obtain frames newTail frameErr where frames: "attempt_frames ?ct (sm_CurrentOffset ?md) data = (frames, newTail, frameErr)"
    by (cases "attempt_frames ?ct (sm_CurrentOffset ?md) data") auto
  have req: "(req_ct opts = '''') = (ao_ContentType opts = '''')" using ready by (auto simp: append_ready_def req_ct_def)
  have run: "twp (rbind (append_lua (append_keys path (ao_Fence opts))
        (append_args (clock 0) path opts (sm_CurrentOffset ?md) newTail (frameErr \<noteq> None) frames)) (\<lambda>raw. case decodeScriptReply raw of
       Inl e \<Rightarrow> Ret (AppendResult0, Some e)
     | Inr r \<Rightarrow>
         if rp_Status r = ''RETRY'' then p r
         else (case mapAppendReply r of (res, err) \<Rightarrow>
                 if err = None \<and> rp_Status r = ''VALONLY''
                 then (if rp_ProducerRes r = 2 then Ret (res, None) else Ret (AppendResult0, map_option Sentinel frameErr))
                 else Ret (res, err)))) Q V" for p
    unfolding twp_bind
  proof (rule append_lua_refines [OF assms(1,2) ready refl assms(4) frames])
    fix W raw assume "answers (fst (Append env path data opts s)) frameErr raw"
      "\<not> isExpired env ?md \<Longrightarrow> stream_stored W path (the (ms_streams (snd (Append env path data opts s)) path))"
    then show "twp (case decodeScriptReply raw of
       Inl e \<Rightarrow> Ret (AppendResult0, Some e)
     | Inr r \<Rightarrow>
         if rp_Status r = ''RETRY'' then p r
         else (case mapAppendReply r of (res, err) \<Rightarrow>
                 if err = None \<and> rp_Status r = ''VALONLY''
                 then (if rp_ProducerRes r = 2 then Ret (res, None) else Ret (AppendResult0, map_option Sentinel frameErr))
                 else Ret (res, err))) Q W"
      using Q [of W] by (simp add: answers_result append_outcome_def)
  qed
  from ready obtain m where m: "hash_of (V (metaKey path)) = Some m" "meta_stored m st"
    by (auto simp: append_ready_def stream_stored_def)
  show ?thesis
  proof (cases "hint = None")
    case True
    show ?thesis unfolding True append_attempts.simps Let_def option.case
      by (rule twp_readTail [where Q = Q and V = V, OF m], unfold req sum.case case_prod_conv frames, rule run)
  next
    case False
    then have h: "hint = Some (sm_CurrentOffset ?md)" "attempt_frames (ao_ContentType opts) (sm_CurrentOffset ?md) data = (frames, newTail, frameErr)"
      using hint frames by auto
    show ?thesis unfolding h(1) append_attempts.simps Let_def option.case h(2) case_prod_conv by (rule run)
  qed
qed

lemma redis_Append_twp:
  assumes ready: "append_ready V env path data opts st s"
    and clock: "time_unix_nano (env_now env) = to_double (time_unix_nano (clock 0))"
    and hint: "ao_TailHint opts = None \<or> ao_TailHint opts = Some (sm_CurrentOffset (st_metadata st))"
    and Q: "\<And>W. (\<not> isExpired env (st_metadata st) \<Longrightarrow> stream_stored W path (the (ms_streams (snd (Append env path data opts s)) path))) \<Longrightarrow>
        Q ((append_outcome (fst (Append env path data opts s)))) W"
  shows "twp (redis_Append clock path data opts) Q V"
proof -
  have st: "stream_stored V path st" "ms_streams s path = Some st" "data \<noteq> []" using ready by (simp_all add: append_ready_def)
  have req: "(req_ct opts = []) = (ao_ContentType opts = [])" using ready by (auto simp: append_ready_def req_ct_def)
  consider (fence) f where "ao_Fence opts = Some f" "\<not> fence_Complete f"
    | (partial) "pred_option fence_Complete (ao_Fence opts)" "HasProducerHeaders opts" "\<not> HasAllProducerHeaders opts"
    | (go) "pred_option fence_Complete (ao_Fence opts)" "headers_whole opts"
    by (cases "ao_Fence opts") (auto simp: headers_whole_def)
  then show ?thesis
  proof cases
    case fence
    then have "Append env path data opts s = ((AppendResult0, Some ErrAppendFenced), s)" by (simp add: Append_def)
    then show ?thesis using Q [of V] st fence by (simp add: redis_Append_def append_outcome_def)
  next
    case partial
    then have "Append env path data opts s = ((AppendResult0, Some ErrPartialProducer), s)" by (cases "ao_Fence opts") (auto simp: Append_def)
    then show ?thesis using Q [of V] st partial by (cases "ao_Fence opts") (auto simp: redis_Append_def append_outcome_def)
  next
    case go
    have "twp (append_attempts clock path data opts n 0 h) Q V"
      if "h = None \<or> h = Some (sm_CurrentOffset (st_metadata st)) \<and> ao_ContentType opts \<noteq> []" "0 < n" for h n
    proof -
      from that(2) obtain left where "n = Suc left" by (cases n) auto
      then show ?thesis
        using append_attempt_refines [where Q = Q and clock = clock and env = env and hint = h and left = left, OF go(2,1) ready clock that(1)] Q
        by blast
    qed
    from this [of "ao_TailHint opts" maxAppendRetries] this [of None "maxAppendRetries div 2"] show ?thesis using go st(3) hint req
      by (cases "ao_Fence opts") (auto simp: redis_Append_def maxAppendRetries_def headers_whole_def simp del: append_attempts.simps)
  qed
qed

end
