(* ===== verification/Store_Runs.thy ===== *)
theory Store_Runs
  imports Store_Log
begin

text \<open>
  Runs of the in-memory store: any interleaving of its operations, each with its own
  environment.  The state carries the incarnation ids drawn so far; a creation must draw one
  that was not drawn before, which is what \<^verbatim>\<open>NewIncarnationID\<close>'s sixteen random bytes are for.
  The invariant and the extension order of the log are lifted to runs through the
  \<^verbatim>\<open>step_machine\<close> interface.
\<close>

datatype store_op =
    Op_Create string CreateOptions
  | Op_Append string bytes AppendOptions
  | Op_CloseStream string
  | Op_CloseStreamFenced string AppendFence
  | Op_CloseStreamWithProducer string CloseProducerOptions
  | Op_Delete string
  | Op_GrantAppendFence string AppendFence
  | Op_RevokeAppendFence string AppendFence
  | Op_SealAppendFence string AppendFence
  | Op_ReadPage go_ctx string Offset ReadPageOptions
  | Op_register string nat
  | Op_unregister string nat
  | Op_take_token nat

fun exec :: "store_env \<Rightarrow> store_op \<Rightarrow> MemoryStore \<Rightarrow> MemoryStore option" where
  "exec env (Op_Create path opts) s = map_option snd (Create env path opts s)"
| "exec env (Op_Append path data opts) s = Some (snd (Append env path data opts s))"
| "exec env (Op_CloseStream path) s = Some (snd (CloseStream env path s))"
| "exec env (Op_CloseStreamFenced path f) s = Some (snd (CloseStreamFenced env path f s))"
| "exec env (Op_CloseStreamWithProducer path opts) s = Some (snd (CloseStreamWithProducer env path opts s))"
| "exec env (Op_Delete path) s = map_option snd (Delete path s)"
| "exec env (Op_GrantAppendFence path f) s = Some (snd (GrantAppendFence env path f s))"
| "exec env (Op_RevokeAppendFence path f) s = Some (snd (RevokeAppendFence env path f s))"
| "exec env (Op_SealAppendFence path f) s = Some (snd (SealAppendFence env path f s))"
| "exec env (Op_ReadPage ctx path off opts) s = map_option snd (store_ReadPage env ctx path off opts s)"
| "exec env (Op_register path ch) s = Some (register path ch s)"
| "exec env (Op_unregister path ch) s = Some (unregister path ch s)"
| "exec env (Op_take_token ch) s = Some (take_token ch s)"

fun is_create :: "store_op \<Rightarrow> bool" where
  "is_create (Op_Create _ _) = True"
| "is_create _ = False"

text \<open>Which messages an operation may add, and the path it works on.\<close>

fun op_new :: "store_op \<Rightarrow> Message \<Rightarrow> bool" where
  "op_new (Op_Append path data opts) = append_new data"
| "op_new _ = no_new"

fun op_path :: "store_op \<Rightarrow> string" where
  "op_path (Op_Create path _) = path"
| "op_path (Op_Append path _ _) = path"
| "op_path (Op_CloseStream path) = path"
| "op_path (Op_CloseStreamFenced path _) = path"
| "op_path (Op_CloseStreamWithProducer path _) = path"
| "op_path (Op_Delete path) = path"
| "op_path (Op_GrantAppendFence path _) = path"
| "op_path (Op_RevokeAppendFence path _) = path"
| "op_path (Op_SealAppendFence path _) = path"
| "op_path (Op_ReadPage _ path _ _) = path"
| "op_path (Op_register path _) = path"
| "op_path (Op_unregister path _) = path"
| "op_path (Op_take_token _) = []"

fun is_delete :: "store_op \<Rightarrow> bool" where
  "is_delete (Op_Delete _) = True"
| "is_delete _ = False"

lemma exec_refines:
  assumes "exec env op s = Some t" and "\<not> is_create op" and "\<not> is_delete op"
  shows "refines_at (op_new op) (op_path op) s t"
  using assms
proof (cases op)
  case (Op_Append path data opts)
  with assms show ?thesis
    using Append_refines [of env path data opts s] by (cases "Append env path data opts s") auto
next
  case (Op_CloseStream path)
  with assms show ?thesis
    using CloseStream_refines [of env path s] by (cases "CloseStream env path s") auto
next
  case (Op_CloseStreamFenced path f)
  with assms show ?thesis
    using CloseStreamFenced_refines [of env path f s] by (cases "CloseStreamFenced env path f s") auto
next
  case (Op_CloseStreamWithProducer path opts)
  with assms show ?thesis
    using CloseStreamWithProducer_refines [of env path opts s]
    by (cases "CloseStreamWithProducer env path opts s") auto
next
  case (Op_GrantAppendFence path f)
  with assms show ?thesis
    using GrantAppendFence_refines [of env path f s] by (cases "GrantAppendFence env path f s") auto
next
  case (Op_RevokeAppendFence path f)
  with assms show ?thesis
    using RevokeAppendFence_refines [of env path f s] by (cases "RevokeAppendFence env path f s") auto
next
  case (Op_SealAppendFence path f)
  with assms show ?thesis
    using SealAppendFence_refines [of env path f s] by (cases "SealAppendFence env path f s") auto
next
  case (Op_ReadPage ctx path off opts)
  with assms show ?thesis by (auto dest: store_ReadPage_refines)
qed auto

lemma exec_evolves:
  assumes "exec env op s = Some t" and "\<not> is_create op"
  shows "evolves s t"
proof (cases "is_delete op")
  case True
  with assms show ?thesis by (cases op) (auto dest: Delete_evolves)
next
  case False
  with assms show ?thesis by (blast intro: refines_at_evolves exec_refines)
qed

section \<open>The machine\<close>

type_synonym log_state = "MemoryStore \<times> string set"

definition log_init :: "log_state \<Rightarrow> bool" where
  "log_init x \<longleftrightarrow> x = (NewMemoryStore, {})"

definition log_step :: "log_state \<Rightarrow> store_env \<times> store_op \<Rightarrow> log_state \<Rightarrow> bool" where
  "log_step x eop y \<longleftrightarrow>
     exec (fst eop) (snd eop) (fst x) = Some (fst y) \<and>
     (case (is_create (snd eop), env_rand (fst eop)) of
        (True, Some raw) \<Rightarrow>
          hex_EncodeToString raw \<notin> snd x \<and> snd y = insert (hex_EncodeToString raw) (snd x)
      | _ \<Rightarrow> snd y = snd x)"

definition log_inv :: "log_state \<Rightarrow> bool" where
  "log_inv x \<longleftrightarrow>
     store_ok (fst x) \<and>
     (\<forall>p st. ms_streams (fst x) p = Some st \<longrightarrow> sm_Incarnation (st_metadata st) \<in> snd x)"

text \<open>
  What one state says about a later one: a stream seen later under an incarnation that was
  already drawn was there before, at the same path, and has only been extended.
\<close>

definition log_rel :: "log_state \<Rightarrow> log_state \<Rightarrow> bool" where
  "log_rel x y \<longleftrightarrow>
     snd x \<subseteq> snd y \<and>
     (\<forall>p b. ms_streams (fst y) p = Some b \<and> sm_Incarnation (st_metadata b) \<in> snd x \<longrightarrow>
        (\<exists>a. ms_streams (fst x) p = Some a \<and> extends a b))"

lemma extends_incarnation: "extends a b \<Longrightarrow> sm_Incarnation (st_metadata b) = sm_Incarnation (st_metadata a)"
  by (simp add: extends_def identity_of_def Let_def)

lemma log_rel_refl: "log_rel x x"
  by (auto simp: log_rel_def)

lemma log_rel_trans: "log_rel x y \<Longrightarrow> log_rel y z \<Longrightarrow> log_rel x z"
  unfolding log_rel_def
  by (smt (verit, ccfv_threshold) extends_incarnation extends_trans subset_eq)

lemma evolves_log:
  assumes "log_inv (s, U)" and "evolves s t" and "U \<subseteq> V"
  shows "log_inv (t, V)" and "log_rel (s, U) (t, V)"
proof -
  have ok: "\<exists>a. ms_streams s p = Some a \<and> extends a b \<and> stream_ok b \<and> sm_Incarnation (st_metadata a) \<in> U"
    if "ms_streams t p = Some b" for p b
    using that assms(1,2) unfolding evolves_def log_inv_def store_ok_def by fastforce
  show "log_inv (t, V)"
    unfolding log_inv_def store_ok_def fst_conv snd_conv
    using ok extends_incarnation assms(3) by (metis subsetD)
  show "log_rel (s, U) (t, V)" 
    unfolding log_rel_def fst_conv snd_conv using ok assms(3) by blast
qed

lemma created_log:
  assumes "log_inv (s, U)" and "created path inc s t" and "inc \<notin> U"
  shows "log_inv (t, insert inc U)" and "log_rel (s, U) (t, insert inc U)"
proof -
  from assms(2) obtain st u where u: "evolves s u" "ms_streams t = (ms_streams u)(path \<mapsto> st)"
      "stream_ok st" "sm_Incarnation (st_metadata st) = inc" by (auto simp: created_def)
  have I: "log_inv (u, insert inc U)" and R: "log_rel (s, U) (u, insert inc U)"
    using evolves_log [OF assms(1) u(1), of "insert inc U"] by blast+
  show "log_inv (t, insert inc U)" using I u by (auto simp: log_inv_def store_ok_def)
  show "log_rel (s, U) (t, insert inc U)"
    using R u(2,4) assms(3) by (auto simp: log_rel_def)
qed

lemma log_step_props:
  assumes "log_inv x" and "log_step x eop y"
  shows "log_inv y \<and> log_rel x y"
proof -
  obtain s U where x: "x = (s, U)" by fastforce
  obtain t V where y: "y = (t, V)" by fastforce
  obtain env op where eop: "eop = (env, op)" by fastforce
  have ex: "exec env op s = Some t" using assms(2) by (simp add: log_step_def x y eop)
  show ?thesis
  proof (cases "is_create op")
    case False
    then have "V = U" using assms(2) by (simp add: log_step_def x y eop)
    with evolves_log [OF _ exec_evolves [OF ex False]] assms(1) show ?thesis by (auto simp: x y)
  next
    case True
    then obtain path opts where op: "op = Op_Create path opts" by (cases op) auto
    with ex obtain r where cr: "Create env path opts s = Some (r, t)" by auto
    have UV: "U \<subseteq> V" "env_rand env = Some raw \<Longrightarrow> hex_EncodeToString raw \<notin> U \<and> V = insert (hex_EncodeToString raw) U" for raw
      using assms(2) True by (auto simp: log_step_def x y eop split: option.splits)
    from Create_cases [OF cr] show ?thesis
    proof
      assume "evolves s t \<and> (snd (snd r) \<noteq> None \<or> \<not> fst (snd r))"
      with evolves_log [OF _ _ UV(1)] assms(1) show ?thesis by (auto simp: x y)
    next
      assume "\<exists>raw. env_rand env = Some raw \<and> created path (hex_EncodeToString raw) s t \<and> snd (snd r) = None"
      then obtain raw where raw: "env_rand env = Some raw" "created path (hex_EncodeToString raw) s t" by blast
      with created_log [OF _ raw(2)] UV(2) [OF raw(1)] assms(1) show ?thesis by (auto simp: x y)
    qed
  qed
qed

lemma log_init_inv: "log_init x \<Longrightarrow> log_inv x"
  by (simp add: log_init_def log_inv_def store_ok_def NewMemoryStore_def)

interpretation log_machine: step_machine log_init log_step log_inv
  by unfold_locales (auto intro: log_init_inv dest: log_step_props)

lemma log_run_rel: "log_machine.run x ops y \<Longrightarrow> log_inv x \<Longrightarrow> log_rel x y"
  by (rule log_machine.run_relation [where R = log_rel])
     (auto intro: log_rel_refl log_rel_trans dest: log_step_props)

lemma reachable_extends:
  assumes "log_init i" and "log_machine.run i ops1 x" and "log_machine.run x ops2 y"
    and "ms_streams (fst x) p = Some a" and "ms_streams (fst y) p = Some b"
    and "sm_Incarnation (st_metadata b) = sm_Incarnation (st_metadata a)"
  shows "extends a b \<and> stream_ok a \<and> stream_ok b"
proof -
  have I: "log_inv x" using assms(1,2) by (rule log_machine.init_run_inv)
  moreover have "log_inv y" using assms(3) I by (rule log_machine.run_inv)
  ultimately have ok: "stream_ok a" "stream_ok b" "sm_Incarnation (st_metadata a) \<in> snd x"
    using assms(4,5) by (auto simp: log_inv_def store_ok_def)
  from log_run_rel [OF assms(3) I] assms(4,5,6) ok(3) have "extends a b"
    unfolding log_rel_def by (metis option.inject)
  with ok show ?thesis by simp
qed

section \<open>Exactly-once appends\<close>

text \<open>An append that is not refused and not a duplicate went through the commit.\<close>

lemma Append_accepted:
  assumes "Append env path data opts s = (r, t)" and "snd r = None"
    and "ar_ProducerResult (fst r) \<noteq> ProducerResultDuplicate"
  obtains st ps off st1 where "ms_streams s path = Some st"
    "append_accepts env data opts (touch env st) ps off st1"
    "ms_streams t = (ms_streams s)(path \<mapsto> commit_stream opts ps off st1)"
    "r = (accepted_result opts off, None)"
  using assms(1)
proof (cases rule: Append_cases)
  case refused
  with assms show ?thesis by simp
next
  case (touched st)
  with assms show ?thesis by simp
next
  case (accepted st ps off st1 u)
  then show ?thesis by (intro that) auto
qed

text \<open>After an accepted append with producer headers the producer stands at that pair.\<close>

lemma Append_accepted_producer:
  assumes "Append env path data opts s = (r, t)" and "snd r = None"
    and "ar_ProducerResult (fst r) = ProducerResultAccepted"
  shows "HasAllProducerHeaders opts \<and>
    (\<exists>b p. ms_streams t path = Some b \<and>
       sm_Producers (st_metadata b) (ao_ProducerId opts) = Some p \<and>
       ps_Epoch p = the (ao_ProducerEpoch opts) \<and> ps_LastSeq p = the (ao_ProducerSeq opts))"
proof -
  have "ar_ProducerResult (fst r) \<noteq> ProducerResultDuplicate" using assms(3) by simp
  from assms(1,2) this obtain st ps off st1 where
      acc: "append_accepts env data opts (touch env st) ps off st1"
      "ms_streams t = (ms_streams s)(path \<mapsto> commit_stream opts ps off st1)"
      "r = (accepted_result opts off, None)"
    by (rule Append_accepted)
  have "HasAllProducerHeaders opts"
    using acc(3) assms(3) by (auto simp: accepted_result_def AppendResult0_def split: if_splits)
  moreover from this acc(1) have "ps = Some \<lparr>ps_Epoch = the (ao_ProducerEpoch opts),
      ps_LastSeq = the (ao_ProducerSeq opts), ps_LastUpdated = tm_sec (env_now env)\<rparr>"
    by (simp add: append_accepts_def producer_step_def)
  ultimately show ?thesis using acc(2) by simp
qed

text \<open>A request at or below the producer's position never commits.\<close>

lemma Append_not_beyond:
  assumes "Append env path data opts s = (r, t)" and "ms_streams s path = Some a"
    and "HasAllProducerHeaders opts"
    and "sm_Producers (st_metadata a) (ao_ProducerId opts) = Some p"
    and "producer_le \<lparr>ps_Epoch = the (ao_ProducerEpoch opts), ps_LastSeq = the (ao_ProducerSeq opts),
                      ps_LastUpdated = x\<rparr> p"
  shows "\<exists>b. ms_streams t path = Some b \<and> st_messages b = st_messages a \<and>
           sm_CurrentOffset (st_metadata b) = sm_CurrentOffset (st_metadata a)"
  using assms(1)
proof (cases rule: Append_cases)
  case refused
  with assms(2) show ?thesis by simp
next
  case (touched st)
  with assms(2) show ?thesis by simp
next
  case (accepted st ps off st1 u)
  then have "producer_accepts (Some p) (the (ao_ProducerEpoch opts)) (the (ao_ProducerSeq opts))"
    using assms(2,3,4) by (simp add: append_accepts_def producer_step_def)
  with assms(5) have False by (auto simp: producer_accepts_def producer_le_def)
  then show ?thesis ..
qed

end
