(* ===== verification/Store_Forks.thy ===== *)
theory Store_Forks
  imports Store_Runs
begin

text \<open>
  The fork graph of the store and its reference counts.  The graph keeps of every stream what
  the fork bookkeeping looks at: its source, its reference count and whether it is
  soft-deleted.  In a sound graph every fork's source exists, sources are ranked below their
  forks, a reference count is the number of forks, and a soft-deleted stream still has one.

  The invariant is kept by every operation with one exception: \<^verbatim>\<open>Create\<close> over an expired
  stream that has forks or is one.  Without that step nothing diverges and no count
  underflows; with it both happen.
\<close>

section \<open>The graph\<close>

record fork_node =
  fn_from :: string
  fn_refs :: int
  fn_soft :: bool

definition node_of :: "memoryStream \<Rightarrow> fork_node" where
  "node_of st = \<lparr>fn_from = sm_ForkedFrom (st_metadata st), fn_refs = sm_RefCount (st_metadata st),
                 fn_soft = sm_SoftDeleted (st_metadata st)\<rparr>"

definition graph :: "MemoryStore \<Rightarrow> string \<rightharpoonup> fork_node" where
  "graph s = (\<lambda>p. map_option node_of (ms_streams s p))"

definition graph_forks :: "(string \<rightharpoonup> fork_node) \<Rightarrow> string \<Rightarrow> string set" where
  "graph_forks g p = {q. p \<noteq> '''' \<and> (\<exists>n. g q = Some n \<and> fn_from n = p)}"

definition ranked :: "(string \<Rightarrow> nat) \<Rightarrow> (string \<rightharpoonup> fork_node) \<Rightarrow> bool" where
  "ranked r g \<longleftrightarrow>
     (\<forall>q n. g q = Some n \<and> fn_from n \<noteq> '''' \<longrightarrow> g (fn_from n) \<noteq> None \<and> r (fn_from n) < r q)"

definition graph_inv_but :: "string set \<Rightarrow> (string \<rightharpoonup> fork_node) \<Rightarrow> bool" where
  "graph_inv_but X g \<longleftrightarrow>
     finite (dom g) \<and> card (dom g) < 2 ^ 31 \<and> (\<exists>r. ranked r g) \<and>
     (\<forall>p n. g p = Some n \<longrightarrow> fn_refs n = int (card (graph_forks g p))) \<and>
     (\<forall>p n. g p = Some n \<and> fn_soft n \<and> p \<notin> X \<longrightarrow> 0 < fn_refs n)"

abbreviation graph_inv :: "(string \<rightharpoonup> fork_node) \<Rightarrow> bool" where
  "graph_inv \<equiv> graph_inv_but {}"

lemma graph_dom: "dom (graph s) = dom (ms_streams s)"
  by (auto simp: graph_def)

lemma graph_put: "ms_streams t = (ms_streams s)(p \<mapsto> st) \<Longrightarrow> graph t = (graph s)(p \<mapsto> node_of st)"
  by (auto simp: graph_def)

lemma graph_same: "ms_streams t = ms_streams s \<Longrightarrow> graph t = graph s"
  by (simp add: graph_def)

lemma graph_apply: "ms_streams s p = Some st \<Longrightarrow> graph s p = Some (node_of st)"
  by (simp add: graph_def)

lemma finite_graph_forks: "finite (dom g) \<Longrightarrow> finite (graph_forks g p)"
  by (rule finite_subset [of _ "dom g"]) (auto simp: graph_forks_def)

lemma graph_forks_dom: "graph_forks g p \<subseteq> dom g"
  by (auto simp: graph_forks_def)

lemma graph_refs: "graph_inv_but X g \<Longrightarrow> g p = Some n \<Longrightarrow> fn_refs n = int (card (graph_forks g p))"
  by (simp add: graph_inv_but_def)

lemma graph_refs_bound:
  assumes "graph_inv_but X g" and "g p = Some n"
  shows "0 \<le> fn_refs n \<and> fn_refs n < 2 ^ 31"
proof -
  have "card (graph_forks g p) \<le> card (dom g)"
    using assms(1) by (intro card_mono) (auto simp: graph_inv_but_def graph_forks_def)
  with assms show ?thesis by (simp add: graph_inv_but_def)
qed

subsection \<open>Removing a leaf\<close>

text \<open>
  A stream without forks goes; its source, when it is a fork, loses one reference and may be
  left soft-deleted without forks.
\<close>

definition graph_remove :: "string \<Rightarrow> fork_node \<Rightarrow> (string \<rightharpoonup> fork_node) \<Rightarrow> string \<rightharpoonup> fork_node" where
  "graph_remove p n g =
     (let g' = g(p := None)
      in case g' (fn_from n) of
           Some m \<Rightarrow> if fn_from n = '''' then g' else g'(fn_from n \<mapsto> m\<lparr>fn_refs := fn_refs m - 1\<rparr>)
         | None \<Rightarrow> g')"

lemma rankedD:
  "ranked r g \<Longrightarrow> g q = Some n \<Longrightarrow> fn_from n = f \<Longrightarrow> f \<noteq> '''' \<Longrightarrow> \<exists>m. g f = Some m \<and> r f < r q"
  unfolding ranked_def by blast

lemma graph_source:
  assumes "ranked r g" and "g p = Some n" and "fn_from n \<noteq> ''''"
  obtains m where "g (fn_from n) = Some m" "fn_from n \<noteq> p" "r (fn_from n) < r p"
  using assms unfolding ranked_def by (metis less_irrefl option.exhaust)

lemma graph_forks_remove:
  assumes "g p = Some n"
  shows "graph_forks (graph_remove p n g) q = graph_forks g q - {p}"
  using assms
  by (auto simp: graph_forks_def graph_remove_def Let_def split: option.splits if_splits)

lemma graph_remove_at:
  assumes "ranked r g" and "g p = Some n"
  shows "graph_remove p n g q =
    (if q = p then None
     else if q = fn_from n \<and> fn_from n \<noteq> '''' then map_option (\<lambda>m. m\<lparr>fn_refs := fn_refs m - 1\<rparr>) (g q)
     else g q)"
proof (cases "fn_from n = ''''")
  case True
  then show ?thesis by (auto simp: graph_remove_def Let_def split: option.splits)
next
  case False
  then show ?thesis
    by (rule graph_source [OF assms]) (auto simp: graph_remove_def Let_def)
qed

lemma graph_remove_inv:
  assumes inv: "graph_inv_but {p} g" and p: "g p = Some n" and leaf: "fn_refs n = 0"
  shows "graph_inv_but {fn_from n} (graph_remove p n g)"
proof -
  obtain r where r: "ranked r g" and fin: "finite (dom g)" "card (dom g) < 2 ^ 31"
    and refs: "\<And>q m. g q = Some m \<Longrightarrow> fn_refs m = int (card (graph_forks g q))"
    and soft: "\<And>q m. g q = Some m \<Longrightarrow> fn_soft m \<Longrightarrow> q \<noteq> p \<Longrightarrow> 0 < fn_refs m"
    using inv unfolding graph_inv_but_def by blast
  note at = graph_remove_at [OF r p]
  have empty: "graph_forks g p = {}"
    using refs [OF p] leaf finite_graph_forks [OF fin(1)] by simp
  have dom: "dom (graph_remove p n g) \<subseteq> dom g" by (auto simp: at split: if_splits)
  have fin': "finite (dom (graph_remove p n g))" "card (dom (graph_remove p n g)) < 2 ^ 31"
    using finite_subset [OF dom fin(1)] card_mono [OF fin(1) dom] fin(2) by auto
  have "ranked r (graph_remove p n g)"
  proof (unfold ranked_def, intro allI impI)
    fix q m assume "graph_remove p n g q = Some m \<and> fn_from m \<noteq> ''''"
    then obtain m0 where m0: "g q = Some m0" "fn_from m0 = fn_from m" "fn_from m \<noteq> ''''" "q \<noteq> p"
      by (auto simp: at split: if_splits)
    then have "fn_from m \<noteq> p" using empty by (auto simp: graph_forks_def)
    with rankedD [OF r m0(1,2,3)] show "graph_remove p n g (fn_from m) \<noteq> None \<and> r (fn_from m) < r q"
      by (auto simp: at)
  qed
  moreover have "fn_refs m = int (card (graph_forks (graph_remove p n g) q))"
    if "graph_remove p n g q = Some m" for q m
  proof (cases "q = fn_from n \<and> fn_from n \<noteq> ''''")
    case True
    with that obtain m0 where m0: "g q = Some m0" "m = m0\<lparr>fn_refs := fn_refs m0 - 1\<rparr>"
      by (auto simp: at split: if_splits)
    have "p \<in> graph_forks g q" using True p by (auto simp: graph_forks_def)
    then have "card (graph_forks g q) = Suc (card (graph_forks g q - {p}))"
      by (rule card.remove [OF finite_graph_forks [OF fin(1)]])
    with refs [OF m0(1)] m0(2) show ?thesis by (simp add: graph_forks_remove [of g p n, OF p])
  next
    case False
    with that have "g q = Some m" by (auto simp: at split: if_splits)
    moreover have "p \<notin> graph_forks g q" using False p by (auto simp: graph_forks_def)
    ultimately show ?thesis using refs by (simp add: graph_forks_remove [of g p n, OF p])
  qed
  moreover have "0 < fn_refs m"
    if "graph_remove p n g q = Some m" "fn_soft m" "q \<noteq> fn_from n" for q m
    using that soft by (auto simp: at split: if_splits)
  ultimately show ?thesis using fin' unfolding graph_inv_but_def by blast
qed

section \<open>Deleting\<close>

text \<open>
  On a sound graph the cascade returns without an error and leaves a sound graph: no count
  underflows, and no soft-deleted stream without forks stays behind.
\<close>

lemma node_of_upd [simp]:
  "node_of (upd_meta (sm_RefCount_update f) st) = (node_of st)\<lparr>fn_refs := f (fn_refs (node_of st))\<rparr>"
  "node_of (upd_meta (sm_SoftDeleted_update h) st) = (node_of st)\<lparr>fn_soft := h (fn_soft (node_of st))\<rparr>"
  by (simp_all add: node_of_def)

lemma node_of_sel [simp]:
  "fn_from (node_of st) = sm_ForkedFrom (st_metadata st)"
  "fn_refs (node_of st) = sm_RefCount (st_metadata st)"
  "fn_soft (node_of st) = sm_SoftDeleted (st_metadata st)"
  by (simp_all add: node_of_def)

lemma i32_pred: "0 < n \<Longrightarrow> n < 2 ^ 31 \<Longrightarrow> i32 (n - 1) = n - 1"
  by (intro i32_id) (simp add: is_i32_def)

lemma graph_inv_but_weaken: "graph_inv_but {x} g \<Longrightarrow> (\<And>n. g x = Some n \<Longrightarrow> fn_soft n \<Longrightarrow> 0 < fn_refs n) \<Longrightarrow> graph_inv g"
  unfolding graph_inv_but_def by blast

lemma deleteWithCascade_inv:
  assumes "graph_inv_but {path} (graph s)" and "ms_streams s path = Some st"
    and "sm_RefCount (st_metadata st) = 0"
  shows "\<exists>t. deleteWithCascade path s = Some (None, t) \<and> graph_inv (graph t) \<and> ms_streams t path = None"
  using assms
proof (induction "card (dom (ms_streams s))" arbitrary: path s st rule: less_induct)
  case less
  let ?s1 = "notify path (delete_stream path s)" and ?f = "sm_ForkedFrom (st_metadata st)"
  let ?n = "node_of st"
  have fin: "finite (dom (ms_streams s))" and r: "\<exists>r. ranked r (graph s)"
    using less.prems(1) by (auto simp: graph_inv_but_def graph_dom)
  have p: "graph s path = Some ?n" by (rule graph_apply [OF less.prems(2)])
  note inv = graph_remove_inv [OF less.prems(1) p]
  have s1: "graph ?s1 = (graph s)(path := None)" by (auto simp: graph_def)
  show ?case
  proof (cases "?f = ''''")
    case True
    then have "graph_remove path ?n (graph s) = graph ?s1"
      by (auto simp: graph_remove_def s1 Let_def split: option.splits)
    with inv less.prems(3) True have I: "graph_inv_but {''''} (graph ?s1)" by simp
    have "graph_inv (graph ?s1)"
    proof (rule graph_inv_but_weaken [OF I])
      fix n assume "graph ?s1 '''' = Some n" "fn_soft n"
      then have "path \<noteq> ''''" "graph s '''' = Some n" by (auto simp: s1 split: if_splits)
      with less.prems(1) \<open>fn_soft n\<close> show "0 < fn_refs n" unfolding graph_inv_but_def by blast
    qed
    then show ?thesis
      using less.prems(2) True by (subst deleteWithCascade.simps) (auto simp: Let_def)
  next
    case fork: False
    obtain m where m: "graph s ?f = Some m" "?f \<noteq> path"
      using r rankedD [of _ "graph s" path ?n ?f] p fork by fastforce
    then obtain par where par: "ms_streams s ?f = Some par" "m = node_of par"
      by (auto simp: graph_def)
    have "path \<in> graph_forks (graph s) ?f" using p fork by (auto simp: graph_forks_def)
    then have "0 < card (graph_forks (graph s) ?f)"
      using fin by (auto simp: card_gt_0_iff intro: finite_graph_forks simp: graph_dom)
    then have pos: "0 < sm_RefCount (st_metadata par)"
      using graph_refs [OF less.prems(1) m(1)] par(2) by simp
    have refs: "i32 (sm_RefCount (st_metadata par) - 1) = sm_RefCount (st_metadata par) - 1"
      using graph_refs_bound [OF less.prems(1) m(1)] pos par(2) by (intro i32_pred) auto
    let ?par' = "upd_meta (sm_RefCount_update (\<lambda>_. sm_RefCount (st_metadata par) - 1)) par"
    let ?s2 = "put_stream ?f ?par' ?s1"
    have s2: "graph ?s2 = graph_remove path ?n (graph s)"
      using m par fork by (auto simp: graph_remove_def s1 Let_def graph_def)
    have I: "graph_inv_but {?f} (graph ?s2)" using inv less.prems(3) s2 by simp
    have eq: "deleteWithCascade path s =
      (if sm_RefCount (st_metadata par) - 1 = 0 \<and> sm_SoftDeleted (st_metadata par)
       then deleteWithCascade ?f ?s2 else Some (None, ?s2))"
      using less.prems(2) fork par(1) m(2) refs pos
      by (subst deleteWithCascade.simps) (simp add: Let_def)
    show ?thesis
    proof (cases "sm_RefCount (st_metadata par) - 1 = 0 \<and> sm_SoftDeleted (st_metadata par)")
      case False
      have "graph_inv (graph ?s2)"
        by (rule graph_inv_but_weaken [OF I]) (use False pos in \<open>auto simp: graph_def node_of_def\<close>)
      then show ?thesis using eq False m(2) by auto
    next
      case True
      have dom: "dom (ms_streams ?s2) = dom (ms_streams s) - {path}" using par(1) m(2) by auto
      have "path \<in> dom (ms_streams s)" using less.prems(2) by (rule domI)
      then have "card (dom (ms_streams ?s2)) < card (dom (ms_streams s))"
        unfolding dom by (rule card_Diff1_less [OF fin])
      from less.hyps [OF this I, of ?par'] True
      obtain t where t: "deleteWithCascade ?f ?s2 = Some (None, t)" "graph_inv (graph t)" by auto
      have "evolves ?s2 t" using deleteWithCascade_evolves [OF t(1)] by simp
      then have "ms_streams t path = None"
        using m(2) by (cases "ms_streams t path") (fastforce simp: evolves_def)+
      with t eq True show ?thesis by auto
    qed
  qed
qed

lemma graph_soften:
  assumes "graph_inv g" and "g p = Some n" and "0 < fn_refs n"
  shows "graph_inv (g(p \<mapsto> n\<lparr>fn_soft := True\<rparr>))"
proof -
  let ?g = "g(p \<mapsto> n\<lparr>fn_soft := True\<rparr>)"
  have forks: "graph_forks ?g q = graph_forks g q" for q
    using assms(2) by (auto simp: graph_forks_def)
  have "ranked r ?g" if "ranked r g" for r
    using that assms(2) unfolding ranked_def by auto
  moreover have "dom ?g = dom g" using assms(2) by auto
  ultimately show ?thesis
    using assms unfolding graph_inv_but_def forks by (auto split: if_splits)
qed

lemma Delete_inv:
  assumes "graph_inv (graph s)"
  shows "\<exists>e t. Delete path s = Some (e, t) \<and> graph_inv (graph t) \<and> e \<noteq> Some ErrRefCountUnderflow"
proof (cases "ms_streams s path")
  case None
  with assms show ?thesis by (auto simp: Delete_def)
next
  case (Some st)
  note p = graph_apply [OF Some]
  consider "sm_SoftDeleted (st_metadata st)" | "\<not> sm_SoftDeleted (st_metadata st)" "0 < sm_RefCount (st_metadata st)"
    | "\<not> sm_SoftDeleted (st_metadata st)" "sm_RefCount (st_metadata st) = 0"
    using graph_refs_bound [OF assms p] by fastforce
  then show ?thesis
  proof cases
    case 1
    with Some assms show ?thesis by (auto simp: Delete_def)
  next
    case 2
    have "graph_inv (graph (put_stream path (upd_meta (sm_SoftDeleted_update (\<lambda>_. True)) st) s))"
      using graph_soften [OF assms p] 2 by (simp add: graph_put [of _ s path "upd_meta (sm_SoftDeleted_update (\<lambda>_. True)) st"])
    with 2 Some show ?thesis by (auto simp: Delete_def)
  next
    case 3
    have "graph_inv_but {path} (graph s)" using assms unfolding graph_inv_but_def by blast
    from deleteWithCascade_inv [OF this Some 3(2)] 3 Some show ?thesis by (auto simp: Delete_def)
  qed
qed

text \<open>The cascade itself returns on any finite store, sound or not.\<close>

lemma deleteWithCascade_terminates:
  "finite (dom (ms_streams s)) \<Longrightarrow> deleteWithCascade path s \<noteq> None"
proof (induction "card (dom (ms_streams s))" arbitrary: path s rule: less_induct)
  case less
  show ?case
  proof (cases "ms_streams s path")
    case None
    then show ?thesis by (subst deleteWithCascade.simps) simp
  next
    case (Some st)
    let ?s1 = "notify path (delete_stream path s)" and ?f = "sm_ForkedFrom (st_metadata st)"
    have rec: "deleteWithCascade ?f (put_stream ?f x ?s1) \<noteq> None"
      if "ms_streams ?s1 ?f \<noteq> None" for x
    proof (rule less.hyps)
      have dom: "dom (ms_streams (put_stream ?f x ?s1)) = dom (ms_streams s) - {path}"
        using that by (auto split: if_splits)
      have path: "path \<in> dom (ms_streams s)" using Some by (rule domI)
      show "card (dom (ms_streams (put_stream ?f x ?s1))) < card (dom (ms_streams s))"
        unfolding dom by (rule card_Diff1_less [OF less.prems path])
      show "finite (dom (ms_streams (put_stream ?f x ?s1)))"
        unfolding dom by (rule finite_Diff [OF less.prems])
    qed
    show ?thesis
      using Some rec by (subst deleteWithCascade.simps) (auto simp: Let_def split: option.splits)
  qed
qed

section \<open>The other operations\<close>

lemma refines_at_graph:
  assumes "refines_at Q path s t" and "store_ok s" and "graph_inv (graph s)"
  shows "graph_inv (graph t)"
proof -
  from assms(1) consider "ms_streams t = ms_streams s"
    | st st' where "ms_streams s path = Some st" "ms_streams t = (ms_streams s)(path \<mapsto> st')"
        "stream_ok st \<longrightarrow> extends st st' \<and> stream_ok st'" "sm_RefCount (st_metadata st') = sm_RefCount (st_metadata st)"
        "identity_of st' = identity_of st"
        "sm_SoftDeleted (st_metadata st') \<longrightarrow>
           sm_SoftDeleted (st_metadata st) \<or> 0 < sm_RefCount (st_metadata st)"
    unfolding refines_at_def by blast
  then show ?thesis
  proof cases
    case 1
    with assms(3) show ?thesis by (simp add: graph_same [OF 1])
  next
    case (2 st st')
    have "extends st st'" using 2 assms(2) by (simp add: store_ok_def)
    then have soft: "sm_SoftDeleted (st_metadata st) \<Longrightarrow> sm_SoftDeleted (st_metadata st')"
      by (simp add: extends_def)
    have from': "sm_ForkedFrom (st_metadata st') = sm_ForkedFrom (st_metadata st)"
      using 2(5) by (simp add: identity_of_def Let_def)
    note p = graph_apply [OF 2(1)]
    show ?thesis
    proof (cases "sm_SoftDeleted (st_metadata st') = sm_SoftDeleted (st_metadata st)")
      case True
      then have "node_of st' = node_of st" using from' 2(4) by (simp add: node_of_def)
      then have "graph t = graph s" using p by (simp add: graph_put [OF 2(2)] fun_upd_idem)
      with assms(3) show ?thesis by simp
    next
      case False
      then have "node_of st' = (node_of st)\<lparr>fn_soft := True\<rparr>" "0 < fn_refs (node_of st)"
        using soft from' 2(4,6) by (auto simp: node_of_def)
      with graph_soften [OF assms(3) p] show ?thesis by (simp add: graph_put [OF 2(2)])
    qed
  qed
qed

section \<open>Reads across the chain return\<close>

lemma readForkedStream_terminates:
  assumes "ranked r (graph s)"
    and "sm_ForkedFrom (st_metadata st) \<noteq> '''' \<Longrightarrow> ms_streams s (sm_ForkedFrom (st_metadata st)) \<noteq> None \<Longrightarrow>
           r (sm_ForkedFrom (st_metadata st)) < n"
  shows "\<exists>ms. readForkedStream s st off = Some ms"
  using assms(2)
proof (induction n arbitrary: st rule: less_induct)
  case (less n)
  let ?f = "sm_ForkedFrom (st_metadata st)"
  have rec: "\<exists>ms. readForkedStream s src off = Some ms" if "?f \<noteq> ''''" "ms_streams s ?f = Some src" for src
  proof (rule less.IH)
    show "r ?f < n" using less.prems that by auto
    show "r (sm_ForkedFrom (st_metadata src)) < r ?f" if "sm_ForkedFrom (st_metadata src) \<noteq> ''''"
      using rankedD [OF assms(1) graph_apply [OF \<open>ms_streams s ?f = Some src\<close>]] that by auto
  qed
  show ?case
    using rec by (subst readForkedStream.simps) (auto simp: Let_def split: option.splits)
qed

lemma readForkedStream_returns:
  assumes "graph_inv_but X (graph s)" and "ms_streams s p = Some st"
  shows "\<exists>ms. readForkedStream s st off = Some ms"
proof -
  obtain r where r: "ranked r (graph s)" using assms(1) by (auto simp: graph_inv_but_def)
  show ?thesis
    by (rule readForkedStream_terminates [OF r, where n = "r p"])
       (use rankedD [OF r graph_apply [OF assms(2)]] in auto)
qed

lemma walkForkedMessages_terminates:
  assumes "ranked r (graph s)"
    and "sm_ForkedFrom (st_metadata st) \<noteq> '''' \<Longrightarrow> ms_streams s (sm_ForkedFrom (st_metadata st)) \<noteq> None \<Longrightarrow>
           r (sm_ForkedFrom (st_metadata st)) < n"
  shows "\<exists>x. walkForkedMessages s st off upper visit a = Some x"
  using assms(2)
proof (induction n arbitrary: st upper rule: less_induct)
  case (less n)
  let ?f = "sm_ForkedFrom (st_metadata st)"
  have rec: "\<exists>x. walkForkedMessages s src off u visit a = Some x"
    if "?f \<noteq> ''''" "ms_streams s ?f = Some src" for src u
  proof (rule less.IH)
    show "r ?f < n" using less.prems that by auto
    show "r (sm_ForkedFrom (st_metadata src)) < r ?f" if "sm_ForkedFrom (st_metadata src) \<noteq> ''''"
      using rankedD [OF assms(1) graph_apply [OF \<open>ms_streams s ?f = Some src\<close>]] that by auto
  qed
  have "\<exists>y. (if sm_ForkedFrom (st_metadata st) \<noteq> '''' \<and> LessThan off (sm_ForkOffset (st_metadata st))
        then (case ms_streams s (sm_ForkedFrom (st_metadata st)) of
                None \<Rightarrow> Some (True, a)
              | Some source \<Rightarrow>
                  walkForkedMessages s source off
                    (if LessThan (sm_ForkOffset (st_metadata st)) upper
                     then sm_ForkOffset (st_metadata st) else upper) visit a)
        else Some (True, a)) = Some y"
    using rec by (auto split: option.splits)
  then obtain y where y: "(if sm_ForkedFrom (st_metadata st) \<noteq> '''' \<and> LessThan off (sm_ForkOffset (st_metadata st))
        then (case ms_streams s (sm_ForkedFrom (st_metadata st)) of
                None \<Rightarrow> Some (True, a)
              | Some source \<Rightarrow>
                  walkForkedMessages s source off
                    (if LessThan (sm_ForkOffset (st_metadata st)) upper
                     then sm_ForkOffset (st_metadata st) else upper) visit a)
        else Some (True, a)) = Some y" by blast
  show ?case by (subst walkForkedMessages.simps, subst y) (cases y; cases "fst y"; auto)
qed

lemma walkForkedMessages_returns:
  assumes "graph_inv_but X (graph s)" and "ms_streams s p = Some st"
  shows "\<exists>x. walkForkedMessages s st off upper visit a = Some x"
proof -
  obtain r where r: "ranked r (graph s)" using assms(1) by (auto simp: graph_inv_but_def)
  show ?thesis
    by (rule walkForkedMessages_terminates [OF r, where n = "r p"])
       (use rankedD [OF r graph_apply [OF assms(2)]] in auto)
qed

section \<open>Creating\<close>

text \<open>
  What a creation does to the streams: nothing, a reference taken and given back, a new root,
  or a new fork beside one more reference on its source.
\<close>

lemma finishCreate_streams:
  assumes "finishCreate path opts st s = (r, t)"
  obtains (failed) "snd (snd r) \<noteq> None"
      "ms_streams t = (case ms_streams s (co_ForkedFrom opts) of
         Some src \<Rightarrow> (if co_ForkedFrom opts = '''' then ms_streams s
           else (ms_streams s)(co_ForkedFrom opts \<mapsto> upd_meta (sm_RefCount_update (\<lambda>n. i32 (n - 1))) src))
       | None \<Rightarrow> ms_streams s)"
  | (made) new off st' where "r = (Some (st_metadata st'), True, None)" "ms_streams t = (ms_streams s)(path \<mapsto> st')"
      "st' = st\<lparr>st_metadata := (st_metadata st)\<lparr>sm_CurrentOffset := off\<rparr>,
               st_messages := st_messages st @ new, st_data := st_data st'\<rparr>"
      "chain (sm_CurrentOffset (st_metadata st)) new off" "\<forall>m \<in> set new. msg_Data m \<noteq> []"
proof (cases "co_InitialData opts = []")
  case True
  with assms show ?thesis
    by (intro made [of st "[]" "sm_CurrentOffset (st_metadata st)"]) (auto simp: finishCreate_def)
next
  case False
  show ?thesis
  proof (cases "appendToStream st (co_InitialData opts) True")
    case (Inl err)
    with assms False show ?thesis
      by (intro failed) (auto simp: finishCreate_def split: option.splits if_splits)
  next
    case (Inr x)
    obtain off st1 where x: "x = (off, st1)" by fastforce
    with Inr have app: "appendToStream st (co_InitialData opts) True = Inr (off, st1)" by simp
    from appendToStream_InrD [OF app] obtain new where
      st1: "st1 = st\<lparr>st_messages := st_messages st @ new, st_data := st_data st1\<rparr>"
      and ch: "chain (sm_CurrentOffset (st_metadata st)) new off"
      and data: "if IsJSONContentType (sm_ContentType (st_metadata st))
            then ProcessJSONAppend (co_InitialData opts) True = Inr (map msg_Data new)
            else map msg_Data new = [co_InitialData opts]"
      by (auto split: if_splits)
    have ne: "\<forall>m \<in> set new. msg_Data m \<noteq> []"
      using data False ProcessJSONAppend_nonempty [of "co_InitialData opts" True "map msg_Data new"]
      by (auto split: if_splits)
    from st1 obtain d where st1d: "st1 = st\<lparr>st_messages := st_messages st @ new, st_data := d\<rparr>" by blast
    let ?st = "upd_meta (sm_CurrentOffset_update (\<lambda>_. off)) st1"
    have "?st = st\<lparr>st_metadata := (st_metadata st)\<lparr>sm_CurrentOffset := off\<rparr>,
               st_messages := st_messages st @ new, st_data := st_data ?st\<rparr>"
      by (simp add: st1d)
    moreover have "r = (Some (st_metadata ?st), True, None)" "ms_streams t = (ms_streams s)(path \<mapsto> ?st)"
      using assms False app by (auto simp: finishCreate_def Let_def)
    ultimately show ?thesis using ch ne by (intro made [of ?st new off])
  qed
qed

text \<open>The stream a creation starts from.\<close>

definition fresh_stream :: "CreateOptions \<Rightarrow> Offset \<Rightarrow> memoryStream \<Rightarrow> bool" where
  "fresh_stream opts off st \<longleftrightarrow>
     stream_ok st \<and> sm_ForkedFrom (st_metadata st) = co_ForkedFrom opts \<and> sm_ForkOffset (st_metadata st) = off \<and>
     sm_RefCount (st_metadata st) = 0 \<and> \<not> sm_SoftDeleted (st_metadata st) \<and>
     (\<forall>m \<in> set (st_messages st). msg_Data m \<noteq> [])"

lemma fresh_stream_finish:
  assumes "fresh_stream opts off st" and "chain (sm_CurrentOffset (st_metadata st)) new c"
    and "\<forall>m \<in> set new. msg_Data m \<noteq> []"
    and "st' = st\<lparr>st_metadata := (st_metadata st)\<lparr>sm_CurrentOffset := c\<rparr>,
                  st_messages := st_messages st @ new, st_data := d\<rparr>"
  shows "fresh_stream opts off st'"
  using assms by (auto simp: fresh_stream_def stream_ok_def chain_append)

lemma fresh_fork:
  assumes "co_ForkedFrom opts \<noteq> ''''"
  shows "fresh_stream opts off (materialize_prefix prefix
    (empty_stream (fork_metadata opts src off (new_metadata env path inc ct opts))))"
proof -
  let ?st = "empty_stream (fork_metadata opts src off (new_metadata env path inc ct opts))"
  have "fresh_stream opts off ?st"
    using assms by (simp add: fresh_stream_def empty_stream_ok fork_metadata_def new_metadata_def
        empty_stream_def stream_ok_def split: prod.splits)
  then show ?thesis
    by (auto simp: fresh_stream_def materialize_prefix_ok) (auto simp: materialize_prefix_def Let_def split: if_splits)
qed

lemma createNew_streams:
  assumes "createNew env path opts s = Some (r, t)"
  obtains (refused) "snd (snd r) \<noteq> None" "ms_streams t = ms_streams s"
  | (rolled_back) src where "snd (snd r) \<noteq> None" "co_ForkedFrom opts \<noteq> ''''"
      "ms_streams s (co_ForkedFrom opts) = Some src"
      "ms_streams t = (ms_streams s)(co_ForkedFrom opts \<mapsto>
         upd_meta (sm_RefCount_update (\<lambda>n. i32 (i32 (n + 1) - 1))) src)"
  | (root) st where "r = (Some (st_metadata st), True, None)" "co_ForkedFrom opts = ''''"
      "fresh_stream opts ZeroOffset st" "ms_streams t = (ms_streams s)(path \<mapsto> st)"
  | (forked) src off prefix st where "r = (Some (st_metadata st), True, None)" "co_ForkedFrom opts \<noteq> ''''"
      "resolveFork env opts s = Some (Inr (src, off, prefix))" "fresh_stream opts off st"
      "ms_streams t = (ms_streams s)(co_ForkedFrom opts \<mapsto>
         upd_meta (sm_RefCount_update (\<lambda>n. i32 (n + 1))) src, path \<mapsto> st)"
proof (cases "env_rand env")
  case None
  with assms show ?thesis by (intro refused) (auto simp: createNew_def NewIncarnationID_def)
next
  case (Some raw)
  let ?f = "co_ForkedFrom opts"
  show ?thesis
  proof (cases "?f = ''''")
    case True
    with assms Some obtain m where fin: "finishCreate path opts (empty_stream m) s = (r, t)"
      and m: "fresh_stream opts ZeroOffset (empty_stream m)"
      by (auto simp: createNew_def NewIncarnationID_def Let_def fresh_stream_def stream_ok_def
          empty_stream_def new_metadata_def)
    from fin show ?thesis
    proof (cases rule: finishCreate_streams)
      case failed
      with True show ?thesis by (intro refused) (auto split: option.splits)
    next
      case (made new off st')
      with fresh_stream_finish [OF m made(4,5,3)] True show ?thesis by (intro root [of st']) auto
    qed
  next
    case fork: False
    with assms Some obtain res where res: "resolveFork env opts s = Some res"
      by (auto simp: createNew_def NewIncarnationID_def bind_eq_Some_conv)
    show ?thesis
    proof (cases res)
      case (Inl err)
      with assms Some fork res show ?thesis
        by (intro refused) (auto simp: createNew_def NewIncarnationID_def)
    next
      case (Inr x)
      obtain src off prefix where x: "x = (src, off, prefix)" by (metis prod_cases3)
      let ?s1 = "put_stream ?f (upd_meta (sm_RefCount_update (\<lambda>n. i32 (n + 1))) src) s"
      from assms Some fork res Inr x obtain st where fin: "finishCreate path opts st ?s1 = (r, t)"
        and st: "fresh_stream opts off st"
        using fresh_fork [OF fork] by (auto simp: createNew_def NewIncarnationID_def Let_def)
      from fin show ?thesis
      proof (cases rule: finishCreate_streams)
        case failed
        then show ?thesis using fork resolveFork_source res Inr x
          by (intro rolled_back [of src]) auto
      next
        case (made new off' st')
        with fresh_stream_finish [OF st made(4,5,3)] fork res Inr x show ?thesis
          by (intro forked [of st' src off prefix]) auto
      qed
    qed
  qed
qed

subsection \<open>Adding a node\<close>

abbreviation leaf_node :: "string \<Rightarrow> fork_node" where
  "leaf_node f \<equiv> \<lparr>fn_from = f, fn_refs = 0, fn_soft = False\<rparr>"

lemma no_forks_of_missing:
  assumes "ranked r g" and "g p = None"
  shows "graph_forks g p = {}"
  using assms unfolding ranked_def graph_forks_def by blast

lemma graph_forks_upd:
  "graph_forks (g(p \<mapsto> n)) q =
     (if q \<noteq> '''' \<and> fn_from n = q then insert p (graph_forks g q) else graph_forks g q - {p})"
  by (auto simp: graph_forks_def)

lemma graph_inv_but_finite: "graph_inv_but X g \<Longrightarrow> finite (dom g)"
  by (simp add: graph_inv_but_def)

lemma graph_soft: "graph_inv g \<Longrightarrow> g p = Some n \<Longrightarrow> fn_soft n \<Longrightarrow> 0 < fn_refs n"
  unfolding graph_inv_but_def by blast

lemma graph_add_root:
  assumes inv: "graph_inv g" and p: "g p = None" and room: "card (dom (g(p \<mapsto> leaf_node ''''))) < 2 ^ 31"
  shows "graph_inv (g(p \<mapsto> leaf_node ''''))"
proof -
  let ?g = "g(p \<mapsto> leaf_node '''')"
  obtain r where r: "ranked r g" using inv by (auto simp: graph_inv_but_def)
  have forks: "graph_forks ?g q = graph_forks g q" for q
    using p by (auto simp: graph_forks_upd) (auto simp: graph_forks_def)
  have "ranked r ?g" using r p unfolding ranked_def by auto
  moreover have "graph_forks g p = {}" by (rule no_forks_of_missing [OF r p])
  ultimately show ?thesis
    using inv room unfolding graph_inv_but_def forks by (auto split: if_splits)
qed

lemma graph_add_fork:
  assumes inv: "graph_inv g" and p: "g p = None" and f: "f \<noteq> ''''" "g f = Some n" "\<not> fn_soft n"
    and room: "card (dom (g(p \<mapsto> leaf_node f))) < 2 ^ 31"
  shows "graph_inv (g(f \<mapsto> n\<lparr>fn_refs := fn_refs n + 1\<rparr>, p \<mapsto> leaf_node f))"
proof -
  let ?g = "g(f \<mapsto> n\<lparr>fn_refs := fn_refs n + 1\<rparr>, p \<mapsto> leaf_node f)"
  have fp: "f \<noteq> p" using p f by auto
  obtain r where r: "ranked r g" using inv by (auto simp: graph_inv_but_def)
  have empty: "graph_forks g p = {}" by (rule no_forks_of_missing [OF r p])
  have forks: "graph_forks ?g q = (if q = f then insert p (graph_forks g f) else graph_forks g q)" for q
    using f p fp by (auto simp: graph_forks_def)
  have notin: "p \<notin> graph_forks g f" using p by (auto simp: graph_forks_def)
  have "ranked (r(p := Suc (r f))) ?g"
    using r p f fp empty unfolding ranked_def graph_forks_def by (auto split: if_splits)
  moreover have "dom ?g = dom (g(p \<mapsto> leaf_node f))" using f by auto
  then have "finite (dom ?g) \<and> card (dom ?g) < 2 ^ 31" using graph_inv_but_finite [OF inv] room by simp
  moreover have "fn_refs m = int (card (graph_forks ?g q))" if "?g q = Some m" for q m
    using that inv f fp empty notin finite_graph_forks [OF graph_inv_but_finite [OF inv], of f]
    unfolding forks by (auto simp: graph_refs [OF inv] split: if_splits)
  moreover have "0 < fn_refs m" if "?g q = Some m" "fn_soft m" for q m
    using that f graph_soft [OF inv, of q m] by (auto split: if_splits)
  ultimately show ?thesis unfolding graph_inv_but_def by blast
qed

lemma graph_drop_root:
  assumes inv: "graph_inv g" and p: "g p = Some n" and leaf: "fn_refs n = 0" "fn_from n = ''''"
  shows "graph_inv (g(p := None))"
proof -
  have "graph_inv_but {p} g" using inv unfolding graph_inv_but_def by blast
  from graph_remove_inv [OF this p leaf(1)] leaf(2)
  have I: "graph_inv_but {''''} (g(p := None))" by (auto simp: graph_remove_def Let_def split: option.splits)
  show ?thesis
    by (rule graph_inv_but_weaken [OF I]) (use graph_soft [OF inv, of "''''"] in \<open>auto split: if_splits\<close>)
qed

lemma i32_succ_pred: "0 \<le> n \<Longrightarrow> n < 2 ^ 31 \<Longrightarrow> i32 (i32 (n + 1) - 1) = n"
  by (simp add: i32_def wrap_signed_def mod_diff_left_eq)

subsection \<open>Create\<close>

lemma resolveFork_live:
  assumes "resolveFork env opts s = Some (Inr (src, off, prefix))"
  shows "ms_streams s (co_ForkedFrom opts) = Some src \<and> \<not> sm_SoftDeleted (st_metadata src)"
  using assms
  by (auto simp: resolveFork_def Let_def bind_eq_Some_conv dest!: fork_case_source
      split: option.splits if_splits)

lemma createNew_inv:
  assumes inv: "graph_inv (graph s)" and new: "ms_streams s path = None"
    and run: "createNew env path opts s = Some (r, t)" and room: "card (dom (ms_streams t)) < 2 ^ 31"
  shows "graph_inv (graph t)"
  using run
proof (cases rule: createNew_streams)
  case refused
  with inv show ?thesis by (simp add: graph_same [OF refused(2)])
next
  case (rolled_back src)
  note p = graph_apply [OF rolled_back(3)]
  have "node_of (upd_meta (sm_RefCount_update (\<lambda>n. i32 (i32 (n + 1) - 1))) src) = node_of src"
    using graph_refs_bound [OF inv p] by (simp add: i32_succ_pred node_of_def)
  then have "graph t = graph s" using p by (simp add: graph_put [OF rolled_back(4)] fun_upd_idem)
  with inv show ?thesis by simp
next
  case (root st)
  have "node_of st = leaf_node ''''" using root by (simp add: fresh_stream_def node_of_def)
  then have g: "graph t = (graph s)(path \<mapsto> leaf_node '''')" by (simp add: graph_put [OF root(4)])
  show ?thesis unfolding g
    by (rule graph_add_root [OF inv]) (use new room g graph_dom [of t] in \<open>auto simp: graph_def\<close>)
next
  case (forked src off prefix st)
  let ?f = "co_ForkedFrom opts"
  from resolveFork_live [OF forked(3)] have src: "ms_streams s ?f = Some src" "\<not> fn_soft (node_of src)" by auto
  note p = graph_apply [OF src(1)]
  have "i32 (sm_RefCount (st_metadata src) + 1) = sm_RefCount (st_metadata src) + 1"
  proof (rule i32_id)
    have "fn_refs (node_of src) \<le> int (card (dom (ms_streams s)))"
      using graph_refs [OF inv p] card_mono [OF graph_inv_but_finite [OF inv] graph_forks_dom]
      by (simp add: graph_dom)
    moreover have "card (dom (ms_streams s)) < card (dom (ms_streams t))"
      using graph_inv_but_finite [OF inv] new src(1) unfolding graph_dom forked(5)
      by (intro psubset_card_mono) auto
    ultimately show "is_i32 (sm_RefCount (st_metadata src) + 1)"
      using room graph_refs_bound [OF inv p] by (simp add: is_i32_def)
  qed
  then have "graph t = (graph s)(?f \<mapsto> (node_of src)\<lparr>fn_refs := fn_refs (node_of src) + 1\<rparr>, path \<mapsto> node_of st)"
    unfolding graph_def forked(5) by (auto simp: node_of_def)
  moreover have "node_of st = leaf_node ?f" using forked(4) by (simp add: fresh_stream_def node_of_def)
  ultimately have g: "graph t = (graph s)(?f \<mapsto> (node_of src)\<lparr>fn_refs := fn_refs (node_of src) + 1\<rparr>, path \<mapsto> leaf_node ?f)"
    by simp
  have "dom ((graph s)(path \<mapsto> leaf_node ?f)) = dom (ms_streams t)"
    using src(1) unfolding forked(5) by (auto simp: graph_def)
  then show ?thesis unfolding g
    using room new by (intro graph_add_fork [OF inv _ forked(2) p src(2)]) (auto simp: graph_def)
qed

text \<open>
  The streams \<^verbatim>\<open>Create\<close> may replace soundly: an expired stream goes without a cascade, so it
  must have no forks and be no fork itself.
\<close>

definition create_safe :: "store_env \<Rightarrow> string \<Rightarrow> MemoryStore \<Rightarrow> bool" where
  "create_safe env path s \<longleftrightarrow>
     (case ms_streams s path of
        None \<Rightarrow> True
      | Some st \<Rightarrow> isExpired env (st_metadata st) \<longrightarrow>
          sm_RefCount (st_metadata st) = 0 \<and> sm_ForkedFrom (st_metadata st) = '''')"

lemma Create_inv:
  assumes inv: "graph_inv (graph s)" and safe: "create_safe env path s"
    and run: "Create env path opts s = Some (r, t)" and room: "card (dom (ms_streams t)) < 2 ^ 31"
  shows "graph_inv (graph t)"
proof (cases "ms_streams s path")
  case None
  with run have "createNew env path opts s = Some (r, t)" by (simp add: Create_def)
  from createNew_inv [OF inv None this room] show ?thesis .
next
  case (Some st)
  show ?thesis
  proof (cases "isExpired env (st_metadata st)")
    case True
    let ?s1 = "delete_stream path s"
    from run Some True have run1: "createNew env path opts ?s1 = Some (r, t)" by (simp add: Create_def)
    have "graph ?s1 = (graph s)(path := None)" by (auto simp: graph_def)
    moreover have "graph_inv ((graph s)(path := None))"
      by (rule graph_drop_root [OF inv graph_apply [OF Some]])
         (use safe Some True in \<open>auto simp: create_safe_def\<close>)
    ultimately show ?thesis using createNew_inv [OF _ _ run1 room] by simp
  next
    case False
    with run Some inv show ?thesis by (auto simp: Create_def split: if_splits)
  qed
qed

end
