(* ===== verification/Store_Lineage.thy ===== *)
theory Store_Lineage
  imports Store_Forks
begin

text \<open>
  The content of a stream across its fork chain, and that the reads of the store return it.
  A stream's content is defined once, as the messages of its source up to the fork point
  followed by its own; the recursive read, the bounded walk, the page and the page loop of
  \<^verbatim>\<open>src/store/memory_store.go\<close> are then shown to deliver exactly that content.  Content only
  grows, and only by appends to the stream itself: neither the source of a fork nor its other
  forks can change what the fork shows.
\<close>

section \<open>Offsets along a chain\<close>

definition stream_fits :: "memoryStream \<Rightarrow> bool" where
  "stream_fits st \<longleftrightarrow>
     unat (ByteOffset (sm_ForkOffset (st_metadata st))) + total_len (st_messages st) < 2 ^ 64"

definition solid :: "Message list \<Rightarrow> bool" where
  "solid ms \<longleftrightarrow> (\<forall>m \<in> set ms. msg_Data m \<noteq> [])"

lemma solid_simps [simp]:
  "solid []" "solid (m # ms) \<longleftrightarrow> msg_Data m \<noteq> [] \<and> solid ms" "solid (xs @ ys) \<longleftrightarrow> solid xs \<and> solid ys"
  by (auto simp: solid_def)

lemma Add_unat: "unat (ByteOffset b) + n < 2 ^ 64 \<Longrightarrow> unat (ByteOffset (Add b (of_nat n))) = unat (ByteOffset b) + n"
  by (simp add: unat_word_ariths unat_of_nat_less)

lemma Add_le: "unat (ByteOffset b) + n < 2 ^ 64 \<Longrightarrow> b \<le> Add b (of_nat n)"
  by (simp add: Add_ge_iff unat_of_nat_less)

lemma Add_less: "unat (ByteOffset b) + n < 2 ^ 64 \<Longrightarrow> 0 < n \<Longrightarrow> b < Add b (of_nat n)"
  using Add_less_iff [of b "of_nat n"] unat_of_nat_less [of n] by (auto simp flip: unat_gt_0)

text \<open>Under the 64-bit limit a chain of non-empty messages has strictly increasing offsets.\<close>

lemma chain_sorted:
  assumes "chain b ms t" and "unat (ByteOffset b) + total_len ms < 2 ^ 64" and "solid ms"
  shows "b \<le> t \<and> sorted_wrt (<) (map msg_Offset ms) \<and> (\<forall>m \<in> set ms. b < msg_Offset m \<and> msg_Offset m \<le> t)"
  using assms
proof (induction ms arbitrary: b)
  case (Cons m ms)
  let ?n = "length (msg_Data m)"
  from Cons.prems have m: "msg_Offset m = Add b (of_nat ?n)" and ch: "chain (msg_Offset m) ms t"
    and lim: "unat (ByteOffset b) + ?n < 2 ^ 64" by auto
  have "unat (ByteOffset (msg_Offset m)) = unat (ByteOffset b) + ?n" unfolding m by (rule Add_unat [OF lim])
  with Cons.IH [OF ch] Cons.prems have IH: "msg_Offset m \<le> t" "sorted_wrt (<) (map msg_Offset ms)"
      "\<forall>x \<in> set ms. msg_Offset m < msg_Offset x \<and> msg_Offset x \<le> t"
    by auto
  have b: "b < msg_Offset m" unfolding m using Cons.prems by (intro Add_less [OF lim]) simp
  with IH show ?case by fastforce
qed simp

lemma chain_ReadSeq: "chain b ms t \<Longrightarrow> ReadSeq t = ReadSeq b \<and> (\<forall>m \<in> set ms. ReadSeq (msg_Offset m) = ReadSeq b)"
  by (induction ms arbitrary: b) auto

section \<open>The content of a stream\<close>

text \<open>
  What a reader of a stream is meant to see: its own messages, after the messages of its source
  up to the fork point.
\<close>

inductive lineage :: "MemoryStore \<Rightarrow> memoryStream \<Rightarrow> Message list \<Rightarrow> bool" for s where
  lineage_root: "sm_ForkedFrom (st_metadata st) = '''' \<Longrightarrow> lineage s st (st_messages st)"
| lineage_fork: "sm_ForkedFrom (st_metadata st) \<noteq> '''' \<Longrightarrow>
    ms_streams s (sm_ForkedFrom (st_metadata st)) = Some src \<Longrightarrow> lineage s src ms \<Longrightarrow>
    lineage s st (filter (\<lambda>m. msg_Offset m \<le> sm_ForkOffset (st_metadata st)) ms @ st_messages st)"

lemma lineage_unique: "lineage s st ms \<Longrightarrow> lineage s st ms' \<Longrightarrow> ms' = ms"
proof (induction arbitrary: ms' rule: lineage.induct)
  case (lineage_root st)
  from lineage_root(2,1) show ?case by (cases rule: lineage.cases) auto
next
  case (lineage_fork st src ms)
  from lineage_fork(5,1,2,4) show ?case by (cases rule: lineage.cases) auto
qed

text \<open>Streams whose content is meaningful: within the 64-bit limit, forked inside their source.\<close>

definition content_ok :: "MemoryStore \<Rightarrow> bool" where
  "content_ok s \<longleftrightarrow>
     (\<forall>p st. ms_streams s p = Some st \<longrightarrow>
        stream_ok st \<and> stream_fits st \<and> solid (st_messages st) \<and>
        ReadSeq (sm_ForkOffset (st_metadata st)) = 0 \<and>
        (\<forall>src. sm_ForkedFrom (st_metadata st) \<noteq> '''' \<and>
               ms_streams s (sm_ForkedFrom (st_metadata st)) = Some src \<longrightarrow>
           sm_ForkOffset (st_metadata st) \<le> sm_CurrentOffset (st_metadata src)))"

lemma content_okD:
  assumes "content_ok s" and "ms_streams s p = Some st"
  shows "stream_ok st" "stream_fits st" "solid (st_messages st)" "ReadSeq (sm_ForkOffset (st_metadata st)) = 0"
    and "sm_ForkedFrom (st_metadata st) \<noteq> '''' \<Longrightarrow> ms_streams s (sm_ForkedFrom (st_metadata st)) = Some src \<Longrightarrow>
           sm_ForkOffset (st_metadata st) \<le> sm_CurrentOffset (st_metadata src)"
  using assms unfolding content_ok_def by blast+

lemma own_sorted:
  assumes "stream_ok st" and "stream_fits st" and "solid (st_messages st)"
  shows "sm_ForkOffset (st_metadata st) \<le> sm_CurrentOffset (st_metadata st)"
    and "sorted_wrt (<) (map msg_Offset (st_messages st))"
    and "m \<in> set (st_messages st) \<Longrightarrow>
      sm_ForkOffset (st_metadata st) < msg_Offset m \<and> msg_Offset m \<le> sm_CurrentOffset (st_metadata st)"
  using chain_sorted [of "sm_ForkOffset (st_metadata st)" "st_messages st" "sm_CurrentOffset (st_metadata st)"] assms
  by (auto simp: stream_ok_def stream_fits_def)

lemma sorted_filter: "sorted_wrt (<) (map f xs) \<Longrightarrow> sorted_wrt (<) (map f (filter P xs))"
  by (induction xs) auto

lemma lineage_sorted:
  assumes "lineage s st ms" and "content_ok s" and "ms_streams s p = Some st"
  shows "sorted_wrt (<) (map msg_Offset ms) \<and> (\<forall>m \<in> set ms. msg_Offset m \<le> sm_CurrentOffset (st_metadata st))"
  using assms(1,3)
proof (induction arbitrary: p rule: lineage.induct)
  case (lineage_root st)
  then show ?case using own_sorted [OF content_okD(1-3) [OF assms(2)]] by blast
next
  case (lineage_fork st src ms)
  note own = own_sorted [OF content_okD(1-3) [OF assms(2) lineage_fork.prems]]
  from lineage_fork.IH [OF lineage_fork(2)] have "sorted_wrt (<) (map msg_Offset ms)" by simp
  then show ?case using own by (fastforce simp: sorted_wrt_append intro: sorted_filter)
qed
text \<open>On a sound graph every stream has a content.\<close>

lemma lineage_exists_below:
  assumes "ranked r (graph s)"
    and "sm_ForkedFrom (st_metadata st) \<noteq> '''' \<Longrightarrow>
      ms_streams s (sm_ForkedFrom (st_metadata st)) \<noteq> None \<and> r (sm_ForkedFrom (st_metadata st)) < n"
  shows "\<exists>ms. lineage s st ms"
  using assms(2)
proof (induction n arbitrary: st rule: less_induct)
  case (less n)
  let ?f = "sm_ForkedFrom (st_metadata st)"
  show ?case
  proof (cases "?f = ''''")
    case True
    then show ?thesis by (blast intro: lineage_root)
  next
    case False
    with less.prems obtain src where src: "ms_streams s ?f = Some src" "r ?f < n" by auto
    have "\<exists>ms. lineage s src ms"
    proof (rule less.IH [OF src(2)])
      assume "sm_ForkedFrom (st_metadata src) \<noteq> ''''"
      with rankedD [OF assms(1) graph_apply [OF src(1)] refl]
      show "ms_streams s (sm_ForkedFrom (st_metadata src)) \<noteq> None \<and> r (sm_ForkedFrom (st_metadata src)) < r ?f"
        by (auto simp: graph_def)
    qed
    with False src(1) show ?thesis by (blast intro: lineage_fork)
  qed
qed

lemma lineage_exists:
  assumes "graph_inv_but X (graph s)" and "ms_streams s p = Some st"
  shows "\<exists>ms. lineage s st ms"
proof -
  obtain r where r: "ranked r (graph s)" using assms(1) by (auto simp: graph_inv_but_def)
  show ?thesis
  proof (rule lineage_exists_below [OF r, where n = "r p"])
    assume "sm_ForkedFrom (st_metadata st) \<noteq> ''''"
    with rankedD [OF r graph_apply [OF assms(2)] refl]
    show "ms_streams s (sm_ForkedFrom (st_metadata st)) \<noteq> None \<and> r (sm_ForkedFrom (st_metadata st)) < r p"
      by (auto simp: graph_def)
  qed
qed

section \<open>Reading the content\<close>

lemma own_messages_filter: "own_messages ms off None = filter (\<lambda>m. ByteOffset off < ByteOffset (msg_Offset m)) ms"
  by (induction ms) auto

lemma readOwnMessages_filter:
  assumes "stream_ok st" and "ReadSeq (sm_ForkOffset (st_metadata st)) = 0" and "ReadSeq off = 0"
  shows "readOwnMessages st off None = filter (\<lambda>m. off < msg_Offset m) (st_messages st)"
proof -
  have "\<forall>m \<in> set (st_messages st). ReadSeq (msg_Offset m) = 0"
    using chain_ReadSeq assms(1,2) unfolding stream_ok_def by metis
  then show ?thesis
    using assms(3) by (auto simp: readOwnMessages_def own_messages_filter offset_less_same_seq intro!: filter_cong)
qed

theorem readForkedStream_lineage:
  assumes "lineage s st ms" and "content_ok s" and "ms_streams s p = Some st" and "ReadSeq off = 0"
  shows "readForkedStream s st off = Some (filter (\<lambda>m. off < msg_Offset m) ms)"
  using assms(1,3)
proof (induction arbitrary: p rule: lineage.induct)
  case (lineage_root st)
  then show ?case
    using readOwnMessages_filter [OF content_okD(1,4) [OF assms(2)] assms(4)]
    by (subst readForkedStream.simps) auto
next
  case (lineage_fork st src ms)
  have own: "readOwnMessages st off None = filter (\<lambda>m. off < msg_Offset m) (st_messages st)"
    by (rule readOwnMessages_filter [OF content_okD(1,4) [OF assms(2) lineage_fork.prems] assms(4)])
  have src: "readForkedStream s src off = Some (filter (\<lambda>m. off < msg_Offset m) ms)"
    by (rule lineage_fork.IH [OF lineage_fork(2)])
  show ?case
  proof (cases "off < sm_ForkOffset (st_metadata st)")
    case True
    then show ?thesis
      using lineage_fork(1,2) own src by (subst readForkedStream.simps) (auto simp: Let_def conj_commute)
  next
    case False
    then have "filter (\<lambda>m. msg_Offset m \<le> sm_ForkOffset (st_metadata st) \<and> off < msg_Offset m) ms = []"
      by (auto simp: filter_empty_conv)
    with False show ?thesis
      using lineage_fork(1,2) own by (subst readForkedStream.simps) (auto simp: Let_def conj_commute)
  qed
qed

text \<open>The walk visits the content between the two offsets, in order, until the visitor stops it.\<close>

fun visit_all :: "(Message \<Rightarrow> 'a \<Rightarrow> bool \<times> 'a) \<Rightarrow> Message list \<Rightarrow> 'a \<Rightarrow> bool \<times> 'a" where
  "visit_all visit [] a = (True, a)"
| "visit_all visit (m # ms) a =
     (case visit m a of (cont, a') \<Rightarrow> if \<not> cont then (False, a') else visit_all visit ms a')"

lemma visit_all_append:
  "visit_all visit (xs @ ys) a =
     (case visit_all visit xs a of (cont, a') \<Rightarrow> if \<not> cont then (False, a') else visit_all visit ys a')"
  by (induction xs arbitrary: a) (auto split: prod.splits)

abbreviation window :: "Offset \<Rightarrow> Offset \<Rightarrow> Message list \<Rightarrow> Message list" where
  "window off upper \<equiv> filter (\<lambda>m. off < msg_Offset m \<and> msg_Offset m \<le> upper)"

lemma walk_own_window:
  "sorted_wrt (<) (map msg_Offset ms) \<Longrightarrow> walk_own off upper visit ms a = visit_all visit (window off upper ms) a"
proof (induction ms arbitrary: a)
  case (Cons m ms)
  show ?case
  proof (cases "upper < msg_Offset m")
    case True
    with Cons.prems have "window off upper (m # ms) = []" by (fastforce simp: filter_empty_conv)
    moreover have "window off upper ms = []" using True Cons.prems by (fastforce simp: filter_empty_conv)
    moreover have "walk_own off upper visit ms a = visit_all visit (window off upper ms) a"
      using Cons by auto
    ultimately show ?thesis using True by simp
  next
    case False
    with Cons show ?thesis by (auto split: prod.splits)
  qed
qed simp

theorem walkForkedMessages_lineage:
  assumes "lineage s st ms" and "content_ok s" and "ms_streams s p = Some st"
  shows "walkForkedMessages s st off upper visit a = Some (visit_all visit (window off upper ms) a)"
  using assms(1,3)
proof (induction arbitrary: p upper rule: lineage.induct)
  case (lineage_root st)
  then show ?case
    using walk_own_window [OF own_sorted(2) [OF content_okD(1-3) [OF assms(2)]]]
    by (subst walkForkedMessages.simps) auto
next
  case (lineage_fork st src ms)
  let ?F = "sm_ForkOffset (st_metadata st)"
  have own: "walk_own off upper visit (st_messages st) b = visit_all visit (window off upper (st_messages st)) b" for b
    by (rule walk_own_window [OF own_sorted(2) [OF content_okD(1-3) [OF assms(2) lineage_fork.prems]]])
  have src: "walkForkedMessages s src off u visit a = Some (visit_all visit (window off u ms) a)" for u
    by (rule lineage_fork.IH [OF lineage_fork(2)])
  have "window off (if ?F < upper then ?F else upper) ms = window off upper (filter (\<lambda>m. msg_Offset m \<le> ?F) ms)"
    by (auto intro!: filter_cong)
  moreover have "window off upper (filter (\<lambda>m. msg_Offset m \<le> ?F) ms) = []" if "\<not> off < ?F"
    using that by (auto simp: filter_empty_conv)
  ultimately show ?case
    using lineage_fork(1,2) own src
    by (subst walkForkedMessages.simps) (auto simp: visit_all_append split: prod.splits)
qed

section \<open>Content grows\<close>

definition log_grows :: "memoryStream \<Rightarrow> memoryStream \<Rightarrow> Message list \<Rightarrow> bool" where
  "log_grows a b new \<longleftrightarrow>
     st_messages b = st_messages a @ new \<and> (\<forall>m \<in> set new. sm_CurrentOffset (st_metadata a) < msg_Offset m) \<and>
     sm_CurrentOffset (st_metadata a) \<le> sm_CurrentOffset (st_metadata b)"

lemma extends_grows:
  assumes "extends a b" and "stream_ok a" and "stream_ok b" and "stream_fits b" and "solid (st_messages b)"
  obtains new where "log_grows a b new" "sm_CurrentOffset (st_metadata a) \<le> sm_CurrentOffset (st_metadata b)"
    "sm_ForkedFrom (st_metadata b) = sm_ForkedFrom (st_metadata a)"
    "sm_ForkOffset (st_metadata b) = sm_ForkOffset (st_metadata a)"
proof -
  let ?F = "sm_ForkOffset (st_metadata a)" and ?T = "sm_CurrentOffset (st_metadata a)"
  have id: "sm_ForkedFrom (st_metadata b) = sm_ForkedFrom (st_metadata a)" "sm_ForkOffset (st_metadata b) = ?F"
    using assms(1) by (auto simp: extends_def identity_of_def Let_def)
  from assms(1) obtain new where new: "st_messages b = st_messages a @ new" by (auto simp: extends_def)
  have a: "chain ?F (st_messages a) ?T" using assms(2) by (simp add: stream_ok_def)
  have "chain ?F (st_messages a @ new) (sm_CurrentOffset (st_metadata b))"
    using assms(3) new id by (simp add: stream_ok_def)
  with a have ch: "chain ?T new (sm_CurrentOffset (st_metadata b))"
    by (auto simp: chain_append dest: chain_unique)
  have "unat (ByteOffset ?T) = unat (ByteOffset ?F) + total_len (st_messages a)"
    unfolding chain_tail [OF a] using assms(4) id new by (intro Add_unat) (simp add: stream_fits_def)
  then have "unat (ByteOffset ?T) + total_len new < 2 ^ 64"
    using assms(4) id new by (simp add: stream_fits_def)
  from chain_sorted [OF ch this] assms(5) new id show ?thesis
    by (intro that [of new]) (auto simp: log_grows_def)
qed

text \<open>
  One step of the store, seen from the content: every stream but possibly one just created
  without forks was there before and has only been extended.
\<close>

definition content_step :: "string option \<Rightarrow> MemoryStore \<Rightarrow> MemoryStore \<Rightarrow> bool" where
  "content_step made s t \<longleftrightarrow>
     (\<forall>p b. ms_streams t p = Some b \<longrightarrow>
        (made = Some p \<or> (\<exists>a. ms_streams s p = Some a \<and> extends a b)) \<and>
        (sm_ForkedFrom (st_metadata b) \<noteq> '''' \<longrightarrow>
           ms_streams t (sm_ForkedFrom (st_metadata b)) \<noteq> None \<and> made \<noteq> Some (sm_ForkedFrom (st_metadata b))))"

lemma lineage_grows:
  assumes step: "content_step made s t" and s: "content_ok s" and t: "content_ok t"
    and "lineage t b mt" and "ms_streams t p = Some b" and "made \<noteq> Some p"
  obtains a ms new where "ms_streams s p = Some a" "lineage s a ms" "mt = ms @ new" "log_grows a b new"
proof -
  have "\<exists>a ms new. ms_streams s p = Some a \<and> lineage s a ms \<and> mt = ms @ new \<and> log_grows a b new"
    using assms(4-6)
  proof (induction arbitrary: p rule: lineage.induct)
    case (lineage_root b)
    with step obtain a where a: "ms_streams s p = Some a" "extends a b" by (auto simp: content_step_def)
    from extends_grows [OF a(2) content_okD(1) [OF s a(1)] content_okD(1-3) [OF t lineage_root(2)]]
    obtain new where new: "log_grows a b new" "sm_ForkedFrom (st_metadata b) = sm_ForkedFrom (st_metadata a)" .
    then have "lineage s a (st_messages a)" using lineage_root(1) by (intro lineage.lineage_root) simp
    with a(1) new(1) show ?case by (auto simp: log_grows_def)
  next
    case (lineage_fork b src mt)
    let ?f = "sm_ForkedFrom (st_metadata b)" and ?F = "sm_ForkOffset (st_metadata b)"
    from step lineage_fork.prems obtain a where a: "ms_streams s p = Some a" "extends a b"
      by (auto simp: content_step_def)
    from extends_grows [OF a(2) content_okD(1) [OF s a(1)] content_okD(1-3) [OF t lineage_fork.prems(1)]]
    obtain own where own: "log_grows a b own" "sm_ForkedFrom (st_metadata b) = sm_ForkedFrom (st_metadata a)"
      "sm_ForkOffset (st_metadata b) = sm_ForkOffset (st_metadata a)" .
    have "made \<noteq> Some ?f" using step lineage_fork(1) lineage_fork.prems(1) unfolding content_step_def by blast
    from lineage_fork.IH [OF lineage_fork(2) this] obtain src0 ms new where
      src0: "ms_streams s ?f = Some src0" "lineage s src0 ms" "mt = ms @ new" "log_grows src0 src new"
      by blast
    have "?F \<le> sm_CurrentOffset (st_metadata src0)"
      using content_okD(5) [OF s a(1)] src0(1) own(2,3) lineage_fork(1) by simp
    then have "filter (\<lambda>m. msg_Offset m \<le> ?F) new = []"
      using src0(4) by (fastforce simp: log_grows_def filter_empty_conv)
    moreover have "lineage s a (filter (\<lambda>m. msg_Offset m \<le> ?F) ms @ st_messages a)"
      using lineage.lineage_fork [of a s src0 ms] lineage_fork(1) own(2,3) src0(1,2) by simp
    ultimately show ?case using a(1) own(1) src0(3)
      by (intro exI [of _ a] exI [of _ "filter (\<lambda>m. msg_Offset m \<le> ?F) ms @ st_messages a"] exI [of _ own])
         (simp add: log_grows_def)
  qed
  with that show ?thesis by blast
qed

section \<open>Runs that keep the content\<close>

text \<open>
  The limits of the representation: fewer streams than a 32-bit reference count can count, and
  no stream longer than a 64-bit offset can address.
\<close>

definition within_limits :: "MemoryStore \<Rightarrow> bool" where
  "within_limits s \<longleftrightarrow>
     card (dom (ms_streams s)) < 2 ^ 31 \<and> (\<forall>p st. ms_streams s p = Some st \<longrightarrow> stream_fits st)"

text \<open>
  The requests the handler lets through to the store: appends carry data, and a creation does
  not replace an expired stream that takes part in a fork.
\<close>

fun op_safe :: "store_env \<Rightarrow> store_op \<Rightarrow> MemoryStore \<Rightarrow> bool" where
  "op_safe env (Op_Create path opts) s = create_safe env path s"
| "op_safe env (Op_Append path data opts) s \<longleftrightarrow> data \<noteq> []"
| "op_safe env _ s = True"

definition safe_step :: "log_state \<Rightarrow> store_env \<times> store_op \<Rightarrow> log_state \<Rightarrow> bool" where
  "safe_step x eop y \<longleftrightarrow>
     log_step x eop y \<and> op_safe (fst eop) (snd eop) (fst x) \<and> within_limits (fst y)"

definition content_inv :: "log_state \<Rightarrow> bool" where
  "content_inv x \<longleftrightarrow> log_inv x \<and> graph_inv (graph (fst x)) \<and> content_ok (fst x)"

lemma exec_solid:
  assumes "exec env op s = Some t" and "\<not> is_create op" and "op_safe env op s"
    and "ms_streams t p = Some b"
  shows "\<exists>a. ms_streams s p = Some a \<and> (solid (st_messages a) \<longrightarrow> solid (st_messages b))"
proof (cases "is_delete op")
  case True
  then obtain path where op: "op = Op_Delete path" by (cases op) auto
  with assms(1) obtain e where "Delete path s = Some (e, t)" by auto
  then consider "t = s"
    | st where "ms_streams s path = Some st" "t = put_stream path (upd_meta (sm_SoftDeleted_update (\<lambda>_. True)) st) s"
    | "recounts s t"
    using deleteWithCascade_recounts [of path s "(e, t)"]
    by (auto simp: Delete_def split: option.splits if_splits)
  then show ?thesis
  proof cases
    case 3
    with assms(4) show ?thesis by (fastforce simp: recounts_def)
  qed (use assms(4) in \<open>auto split: if_splits\<close>)
next
  case False
  have new: "op_new op m \<Longrightarrow> msg_Data m \<noteq> []" for m
    using assms(2,3) by (cases op) (auto simp: append_new_def)
  from exec_refines [OF assms(1,2) False] show ?thesis
    using assms(4) new unfolding refines_at_def by (auto simp: solid_def split: if_splits)
qed

lemma evolves_content_step:
  assumes "evolves s t" and "store_ok s" and "graph_inv (graph t)"
  shows "content_step None s t"
proof -
  obtain r where r: "ranked r (graph t)" using assms(3) by (auto simp: graph_inv_but_def)
  have "ms_streams t (sm_ForkedFrom (st_metadata b)) \<noteq> None"
    if "ms_streams t p = Some b" "sm_ForkedFrom (st_metadata b) \<noteq> ''''" for p b
    using rankedD [OF r graph_apply [OF that(1)] refl] that(2) by (auto simp: graph_def)
  then show ?thesis
    using assms(1,2) unfolding content_step_def evolves_def store_ok_def by blast
qed

text \<open>The fork points stay inside their sources as long as the sources only grow.\<close>

lemma content_ok_step:
  assumes step: "content_step made s t" and s: "content_ok s" and lim: "within_limits t" and ok: "store_ok t"
    and solid: "\<And>p b. ms_streams t p = Some b \<Longrightarrow> solid (st_messages b)"
    and made: "\<And>p b. made = Some p \<Longrightarrow> ms_streams t p = Some b \<Longrightarrow>
      ReadSeq (sm_ForkOffset (st_metadata b)) = 0 \<and>
      (\<forall>src. sm_ForkedFrom (st_metadata b) \<noteq> '''' \<and> ms_streams t (sm_ForkedFrom (st_metadata b)) = Some src \<longrightarrow>
         sm_ForkOffset (st_metadata b) \<le> sm_CurrentOffset (st_metadata src))"
  shows "content_ok t"
proof -
  have t: "stream_ok b" "stream_fits b" "solid (st_messages b)" if "ms_streams t p = Some b" for p b
    using that ok lim solid by (auto simp: store_ok_def within_limits_def)
  have old: "ReadSeq (sm_ForkOffset (st_metadata b)) = 0 \<and>
      (\<forall>src. sm_ForkedFrom (st_metadata b) \<noteq> '''' \<and> ms_streams t (sm_ForkedFrom (st_metadata b)) = Some src \<longrightarrow>
         sm_ForkOffset (st_metadata b) \<le> sm_CurrentOffset (st_metadata src))"
    if b: "ms_streams t p = Some b" and "made \<noteq> Some p" for p b
  proof -
    from step that obtain a where a: "ms_streams s p = Some a" "extends a b" by (auto simp: content_step_def)
    from extends_grows [OF a(2) content_okD(1) [OF s a(1)] t [OF b]]
    have id: "sm_ForkedFrom (st_metadata b) = sm_ForkedFrom (st_metadata a)"
      "sm_ForkOffset (st_metadata b) = sm_ForkOffset (st_metadata a)" by auto
    have "sm_ForkOffset (st_metadata b) \<le> sm_CurrentOffset (st_metadata src)"
      if f: "sm_ForkedFrom (st_metadata b) \<noteq> ''''" "ms_streams t (sm_ForkedFrom (st_metadata b)) = Some src" for src
    proof -
      from step b f(1) have "made \<noteq> Some (sm_ForkedFrom (st_metadata b))" unfolding content_step_def by blast
      with step f(2) obtain src0 where src0: "ms_streams s (sm_ForkedFrom (st_metadata b)) = Some src0" "extends src0 src"
        unfolding content_step_def by blast
      from extends_grows [OF src0(2) content_okD(1) [OF s src0(1)] t [OF f(2)]]
      have "sm_CurrentOffset (st_metadata src0) \<le> sm_CurrentOffset (st_metadata src)" by auto
      moreover have "sm_ForkOffset (st_metadata b) \<le> sm_CurrentOffset (st_metadata src0)"
        using content_okD(5) [OF s a(1)] src0(1) f(1) id by simp
      ultimately show ?thesis by simp
    qed
    with content_okD(4) [OF s a(1)] id show ?thesis by simp
  qed
  show ?thesis unfolding content_ok_def using t old made by metis
qed

lemma exec_content:
  assumes "content_inv (s, U)" and "exec env op s = Some t" and "\<not> is_create op" and "op_safe env op s"
    and "within_limits t"
  shows "graph_inv (graph t) \<and> content_ok t \<and> content_step None s t"
proof -
  have I: "store_ok s" "graph_inv (graph s)" "content_ok s"
    using assms(1) by (auto simp: content_inv_def log_inv_def)
  note ev = exec_evolves [OF assms(2,3)]
  have g: "graph_inv (graph t)"
  proof (cases "is_delete op")
    case True
    then obtain path where "op = Op_Delete path" by (cases op) auto
    with assms(2) Delete_inv [OF I(2), of path] show ?thesis by auto
  next
    case False
    from refines_at_graph [OF exec_refines [OF assms(2,3) False] I(1,2)] show ?thesis .
  qed
  have st: "content_step None s t" by (rule evolves_content_step [OF ev I(1) g])
  have "content_ok t"
  proof (rule content_ok_step [OF st I(3) assms(5) evolves_store_ok [OF ev I(1)]])
    fix p b assume "ms_streams t p = Some b"
    from exec_solid [OF assms(2-4) this] content_okD(3) [OF I(3)] show "solid (st_messages b)" by blast
  qed simp
  with g st show ?thesis by simp
qed

subsection \<open>Creation\<close>

lemma tail_ReadSeq:
  assumes "content_ok s" and "ms_streams s p = Some st"
  shows "ReadSeq (sm_CurrentOffset (st_metadata st)) = 0"
  using chain_ReadSeq content_okD(1,4) [OF assms] unfolding stream_ok_def by metis

lemma le_tail_ReadSeq:
  "content_ok s \<Longrightarrow> ms_streams s p = Some st \<Longrightarrow> off \<le> sm_CurrentOffset (st_metadata st) \<Longrightarrow> ReadSeq off = 0"
  using tail_ReadSeq [of s p st] by (auto simp: offset_le_iff)

lemma sub_offset_index: "0 < sub \<Longrightarrow> \<not> (of_nat n :: uint64) < sub \<Longrightarrow> unat sub - 1 < n"
proof -
  assume "0 < sub" "\<not> (of_nat n :: uint64) < sub"
  then have "0 < unat sub" "unat sub \<le> unat (of_nat n :: uint64)"
    by (simp_all add: unat_gt_0 word_le_nat_alt linorder_not_less word_neq_0_conv)
  moreover have "unat (of_nat n :: uint64) \<le> n" by (simp add: unat_of_nat)
  ultimately show ?thesis by linarith
qed

lemma resolveForkSubOffset_bound:
  assumes "content_ok s" and "graph_inv (graph s)" and "ms_streams s p = Some src"
    and "resolveForkSubOffset s src off sub = Some (Inr (off', prefix))"
    and "off \<le> sm_CurrentOffset (st_metadata src)" and "0 < sub"
  shows "off' \<le> sm_CurrentOffset (st_metadata src)"
proof -
  from lineage_exists [OF assms(2,3)] obtain ms where ms: "lineage s src ms" ..
  have rd: "readForkedStream s src off = Some (filter (\<lambda>m. off < msg_Offset m) ms)"
    by (rule readForkedStream_lineage [OF ms assms(1,3) le_tail_ReadSeq [OF assms(1,3,5)]])
  let ?ms = "filter (\<lambda>m. off < msg_Offset m) ms"
  have "?ms ! (unat sub - 1) \<in> set ?ms" if "\<not> (of_nat (length ?ms) :: uint64) < sub"
    using sub_offset_index [OF assms(6) that] by (rule nth_mem)
  then show ?thesis
    using assms(4,5) rd lineage_sorted [OF ms assms(1,3)]
    by (auto simp: resolveForkSubOffset_def split: if_splits list.splits)
qed

lemma fork_case_offset:
  "(case y of Inl e \<Rightarrow> Inl e | Inr (a, b) \<Rightarrow> if c then Inr (ss, a, []) else Inr (ss, f, b)) =
     Inr (src, off, prefix) \<Longrightarrow> off = f \<or> (\<exists>pre. y = Inr (off, pre))"
  by (cases y) (auto split: if_splits)

lemma resolveFork_bound:
  assumes "content_ok s" and "graph_inv (graph s)" and "resolveFork env opts s = Some (Inr (src, off, prefix))"
  shows "off \<le> sm_CurrentOffset (st_metadata src) \<and> ReadSeq off = 0"
proof -
  have src: "ms_streams s (co_ForkedFrom opts) = Some src" by (rule resolveFork_source [OF assms(3)])
  obtain f where f: "f \<le> sm_CurrentOffset (st_metadata src)"
    and "off = f \<or> (\<exists>sub pre. sub \<noteq> 0 \<and> resolveForkSubOffset s src f sub = Some (Inr (off, pre)))"
    using assms(3) src
    by (auto simp: resolveFork_def Let_def bind_eq_Some_conv linorder_not_less dest!: fork_case_offset
        split: option.splits if_splits)
  with resolveForkSubOffset_bound [OF assms(1,2) src] word_gt_0 have "off \<le> sm_CurrentOffset (st_metadata src)" by blast
  with le_tail_ReadSeq [OF assms(1) src] show ?thesis by simp
qed

lemma delete_content:
  assumes "content_ok s"
  shows "content_ok (delete_stream path s)"
  using assms unfolding content_ok_def by auto

lemma within_limits_room: "within_limits t \<Longrightarrow> card (dom (ms_streams t)) < 2 ^ 31"
  by (simp add: within_limits_def)

lemma sourced:
  assumes "graph_inv (graph t)" and "ms_streams t p = Some b" and "sm_ForkedFrom (st_metadata b) \<noteq> ''''"
  shows "\<exists>src. ms_streams t (sm_ForkedFrom (st_metadata b)) = Some src \<and> 0 < sm_RefCount (st_metadata src)"
proof -
  let ?f = "sm_ForkedFrom (st_metadata b)"
  obtain r where r: "ranked r (graph t)" using assms(1) by (auto simp: graph_inv_but_def)
  from rankedD [OF r graph_apply [OF assms(2)] refl] assms(3)
  obtain src where src: "ms_streams t ?f = Some src" by (auto simp: graph_def)
  have "p \<in> graph_forks (graph t) ?f" using graph_apply [OF assms(2)] assms(3) by (auto simp: graph_forks_def)
  then have "0 < card (graph_forks (graph t) ?f)"
    using finite_graph_forks [OF graph_inv_but_finite [OF assms(1)]] by (auto simp: card_gt_0_iff)
  with graph_refs [OF assms(1) graph_apply [OF src]] src show ?thesis by simp
qed

lemma created_store_ok:
  assumes "created path inc s t" and "store_ok s"
  shows "store_ok t"
proof -
  from assms(1) obtain st u where u: "evolves s u" "ms_streams t = (ms_streams u)(path \<mapsto> st)" "stream_ok st"
    by (auto simp: created_def)
  from evolves_store_ok [OF u(1) assms(2)] u(2,3) show ?thesis by (auto simp: store_ok_def)
qed

lemma made_content_step:
  assumes g: "graph_inv (graph t)" and st: "ms_streams t path = Some st" "sm_RefCount (st_metadata st) = 0"
    and old: "\<And>p b. ms_streams t p = Some b \<Longrightarrow> p \<noteq> path \<Longrightarrow> \<exists>a. ms_streams s p = Some a \<and> extends a b"
  shows "content_step (Some path) s t"
  unfolding content_step_def
proof (intro allI impI conjI)
  fix p b assume b: "ms_streams t p = Some b"
  show "Some path = Some p \<or> (\<exists>a. ms_streams s p = Some a \<and> extends a b)" using old [OF b] by auto
  assume "sm_ForkedFrom (st_metadata b) \<noteq> ''''"
  from sourced [OF g b this] st
  show "ms_streams t (sm_ForkedFrom (st_metadata b)) \<noteq> None" "Some path \<noteq> Some (sm_ForkedFrom (st_metadata b))"
    by auto
qed

lemma createNew_content:
  assumes I: "content_ok s" "graph_inv (graph s)" and new: "ms_streams s path = None"
    and run: "createNew env path opts s = Some (r, t)" and lim: "within_limits t"
  obtains made where "content_step made s t" "content_ok t" "made = None \<or> made = Some path \<and> fst (snd r) \<and> snd (snd r) = None"
proof -
  have g: "graph_inv (graph t)" by (rule createNew_inv [OF I(2) new run within_limits_room [OF lim]])
  have "store_ok s" using I(1) by (auto simp: store_ok_def content_ok_def)
  then have ok: "store_ok t" using createNew_cases [OF run] by (auto intro: evolves_store_ok created_store_ok)
  from run show ?thesis
  proof (cases rule: createNew_streams)
    case refused
    then have "evolves s t" by simp
    moreover have "content_ok t" using I(1) refused(2) by (simp add: content_ok_def)
    ultimately show ?thesis using evolves_content_step g I(1)
      by (intro that [of None]) (auto simp: store_ok_def content_ok_def)
  next
    case (rolled_back src)
    have ev: "evolves s t" using rolled_back evolves_refcount [of s "co_ForkedFrom opts" src] by (simp add: evolves_def)
    have "content_step None s t"
      by (rule evolves_content_step [OF ev _ g]) (use I(1) in \<open>auto simp: store_ok_def content_ok_def\<close>)
    moreover from this have "content_ok t"
      by (rule content_ok_step [OF _ I(1) lim ok])
         (use content_okD(3) [OF I(1)] rolled_back in \<open>auto split: if_splits\<close>)
    ultimately show ?thesis by (intro that) auto
  next
    case (root st)
    have "content_step (Some path) s t"
      by (rule made_content_step [OF g]) (use root(3,4) in \<open>auto simp: fresh_stream_def\<close>)
    moreover from this have "content_ok t"
      by (rule content_ok_step [OF _ I(1) lim ok])
         (use content_okD(3) [OF I(1)] root in \<open>auto simp: fresh_stream_def solid_def ZeroOffset_def split: if_splits\<close>)
    ultimately show ?thesis using root(1) by (intro that) auto
  next
    case (forked src0 off prefix st)
    let ?f = "co_ForkedFrom opts"
    have s0: "ms_streams s ?f = Some src0" by (rule resolveFork_source [OF forked(3)])
    with new have "?f \<noteq> path" by auto
    note b = resolveFork_bound [OF I forked(3)]
    have "content_step (Some path) s t"
      by (rule made_content_step [OF g]) (use forked(4,5) s0 in \<open>auto simp: fresh_stream_def split: if_splits\<close>)
    moreover from this have "content_ok t"
      by (rule content_ok_step [OF _ I(1) lim ok])
         (use content_okD(3) [OF I(1)] forked b s0 \<open>?f \<noteq> path\<close> in
            \<open>auto simp: fresh_stream_def solid_def split: if_splits\<close>)
    ultimately show ?thesis using forked(1) by (intro that) auto
  qed
qed

lemma content_step_trans_delete:
  assumes "content_step made (delete_stream path s) t"
  shows "content_step made s t"
proof -
  have "ms_streams (delete_stream path s) p = Some a \<Longrightarrow> ms_streams s p = Some a" for p a
    by (auto split: if_splits)
  with assms show ?thesis unfolding content_step_def by blast
qed

lemma Create_content:
  assumes "content_inv (s, U)" and run: "Create env path opts s = Some (r, t)" and "create_safe env path s"
    and lim: "within_limits t"
  obtains made where "content_step made s t" "content_ok t" "graph_inv (graph t)"
    "made = None \<or> made = Some path \<and> fst (snd r) \<and> snd (snd r) = None"
proof -
  have I: "content_ok s" "graph_inv (graph s)" using assms(1) by (auto simp: content_inv_def)
  have g: "graph_inv (graph t)"
    by (rule Create_inv [OF I(2) assms(3) run within_limits_room [OF lim]])
  show ?thesis
  proof (cases "ms_streams s path")
    case None
    with run have "createNew env path opts s = Some (r, t)" by (simp add: Create_def)
    from createNew_content [OF I None this lim] that g show ?thesis by blast
  next
    case (Some st)
    show ?thesis
    proof (cases "isExpired env (st_metadata st)")
      case True
      let ?s1 = "delete_stream path s"
      from run Some True have run1: "createNew env path opts ?s1 = Some (r, t)" by (simp add: Create_def)
      have "graph_inv ((graph s)(path := None))"
        by (rule graph_drop_root [OF I(2) graph_apply [OF Some]])
           (use assms(3) Some True in \<open>auto simp: create_safe_def\<close>)
      moreover have "graph ?s1 = (graph s)(path := None)" by (auto simp: graph_def)
      ultimately have g1: "graph_inv (graph ?s1)" by simp
      have "ms_streams ?s1 path = None" by simp
      from createNew_content [OF delete_content [OF I(1)] g1 this run1 lim]
      obtain made where m: "content_step made ?s1 t" "content_ok t" "made = None \<or> made = Some path \<and> fst (snd r) \<and> snd (snd r) = None" .
      with content_step_trans_delete [OF m(1)] that g show ?thesis by blast
    next
      case False
      with run Some have "t = s" by (auto simp: Create_def split: if_splits)
      moreover have "store_ok s" using I(1) by (auto simp: store_ok_def content_ok_def)
      ultimately show ?thesis using I evolves_content_step [of s s] by (intro that [of None]) auto
    qed
  qed
qed

section \<open>The machine\<close>

text \<open>
  What an earlier state says about the content of a later one: a stream seen under an
  incarnation drawn before was there, and shows what it showed, followed by what was appended
  to the stream itself.
\<close>

definition content_rel :: "log_state \<Rightarrow> log_state \<Rightarrow> bool" where
  "content_rel x y \<longleftrightarrow>
     snd x \<subseteq> snd y \<and>
     (\<forall>p b mt. ms_streams (fst y) p = Some b \<and> sm_Incarnation (st_metadata b) \<in> snd x \<and>
        lineage (fst y) b mt \<longrightarrow>
        (\<exists>a ms new. ms_streams (fst x) p = Some a \<and>
           sm_Incarnation (st_metadata a) = sm_Incarnation (st_metadata b) \<and>
           lineage (fst x) a ms \<and> mt = ms @ new \<and> log_grows a b new))"

lemma content_relD:
  assumes "content_rel x y" and "ms_streams (fst x) p = Some a" and "ms_streams (fst y) p = Some b"
    and "sm_Incarnation (st_metadata b) \<in> snd x" and "lineage (fst y) b mt"
  obtains ms new where "lineage (fst x) a ms" "mt = ms @ new" "log_grows a b new"
proof -
  from assms(1,3-5) obtain a' ms new where "ms_streams (fst x) p = Some a'" "lineage (fst x) a' ms" "mt = ms @ new"
      "log_grows a' b new"
    unfolding content_rel_def by blast
  with assms(2) that show ?thesis by simp
qed

lemma content_rel_refl: "content_rel x x"
  unfolding content_rel_def log_grows_def by auto

lemma log_grows_trans: "log_grows a b new \<Longrightarrow> log_grows b c new' \<Longrightarrow> log_grows a c (new @ new')"
  unfolding log_grows_def by (auto intro: order_le_less_trans)

lemma content_rel_trans:
  assumes "content_rel x y" and "content_rel y z"
  shows "content_rel x z"
  unfolding content_rel_def
proof (intro conjI allI impI)
  show "snd x \<subseteq> snd z" using assms by (auto simp: content_rel_def)
  fix p c mt
  assume c: "ms_streams (fst z) p = Some c \<and> sm_Incarnation (st_metadata c) \<in> snd x \<and> lineage (fst z) c mt"
  with assms(1) have "sm_Incarnation (st_metadata c) \<in> snd y" by (auto simp: content_rel_def)
  with c assms(2) obtain b ms new where b: "ms_streams (fst y) p = Some b"
      "sm_Incarnation (st_metadata b) = sm_Incarnation (st_metadata c)" "lineage (fst y) b ms" "mt = ms @ new"
      "log_grows b c new"
    unfolding content_rel_def by metis
  with c assms(1) obtain a ms0 new0 where a: "ms_streams (fst x) p = Some a"
      "sm_Incarnation (st_metadata a) = sm_Incarnation (st_metadata b)" "lineage (fst x) a ms0" "ms = ms0 @ new0"
      "log_grows a b new0"
    unfolding content_rel_def by metis
  from log_grows_trans [OF a(5) b(5)] a b
  show "\<exists>a ms new. ms_streams (fst x) p = Some a \<and>
      sm_Incarnation (st_metadata a) = sm_Incarnation (st_metadata c) \<and>
      lineage (fst x) a ms \<and> mt = ms @ new \<and> log_grows a c new" by auto
qed

lemma content_step_rel:
  assumes step: "content_step made s t" and ok: "content_ok s" "content_ok t" and sub: "U \<subseteq> V"
    and made: "\<And>p b. made = Some p \<Longrightarrow> ms_streams t p = Some b \<Longrightarrow> sm_Incarnation (st_metadata b) \<notin> U"
  shows "content_rel (s, U) (t, V)"
  unfolding content_rel_def fst_conv snd_conv
proof (intro conjI allI impI sub)
  fix p b mt
  assume b: "ms_streams t p = Some b \<and> sm_Incarnation (st_metadata b) \<in> U \<and> lineage t b mt"
  then have m: "made \<noteq> Some p" using made by blast
  from b have b': "lineage t b mt" "ms_streams t p = Some b" by auto
  from lineage_grows [OF step ok b' m] obtain a ms new where
    a: "ms_streams s p = Some a" "lineage s a ms" "mt = ms @ new" "log_grows a b new" .
  from step b'(2) m a(1) have "extends a b" unfolding content_step_def by force
  then have "sm_Incarnation (st_metadata a) = sm_Incarnation (st_metadata b)" by (simp add: extends_incarnation)
  with a show "\<exists>a ms new. ms_streams s p = Some a \<and> sm_Incarnation (st_metadata a) = sm_Incarnation (st_metadata b) \<and>
      lineage s a ms \<and> mt = ms @ new \<and> log_grows a b new" by blast
qed

lemma safe_step_props:
  assumes "content_inv x" and "safe_step x eop y"
  shows "content_inv y \<and> content_rel x y"
proof -
  obtain s U where x: "x = (s, U)" by fastforce
  obtain t V where y: "y = (t, V)" by fastforce
  obtain env op where eop: "eop = (env, op)" by fastforce
  have st: "log_step (s, U) (env, op) (t, V)" and safe: "op_safe env op s" and lim: "within_limits t"
    using assms(2) by (auto simp: safe_step_def x y eop)
  have ex: "exec env op s = Some t" using st by (simp add: log_step_def)
  have I: "content_inv (s, U)" "log_inv (s, U)" "content_ok s" using assms(1) by (auto simp: content_inv_def x)
  have L: "log_inv (t, V)" "U \<subseteq> V" using log_step_props [OF I(2) st] by (auto simp: log_rel_def)
  show ?thesis
  proof (cases "is_create op")
    case False
    from exec_content [OF I(1) ex False safe lim] L content_step_rel [of None s t U V] I(3) show ?thesis
      by (auto simp: content_inv_def x y)
  next
    case True
    then obtain path opts where op: "op = Op_Create path opts" by (cases op) auto
    with ex obtain r where cr: "Create env path opts s = Some (r, t)" by auto
    from safe op have "create_safe env path s" by simp
    from Create_content [OF I(1) cr this lim] obtain made where
      m: "content_step made s t" "content_ok t" "graph_inv (graph t)"
        "made = None \<or> made = Some path \<and> fst (snd r) \<and> snd (snd r) = None" .
    have "sm_Incarnation (st_metadata b) \<notin> U" if "made = Some p" "ms_streams t p = Some b" for p b
    proof -
      from that m(4) Create_cases [OF cr] obtain raw where
        raw: "env_rand env = Some raw" "created path (hex_EncodeToString raw) s t" "p = path" by auto
      then have "sm_Incarnation (st_metadata b) = hex_EncodeToString raw" using that(2) by (auto simp: created_def)
      with st raw(1) op show ?thesis by (simp add: log_step_def)
    qed
    from content_step_rel [OF m(1) I(3) m(2) L(2) this] m L(1) show ?thesis by (simp add: content_inv_def x y)
  qed
qed

lemma content_init: "log_init x \<Longrightarrow> content_inv x"
  using log_init_inv [of x]
  by (auto simp: log_init_def content_inv_def NewMemoryStore_def content_ok_def graph_inv_but_def graph_def ranked_def)

interpretation store_machine: step_machine log_init safe_step content_inv
  by unfold_locales (auto intro: content_init dest: safe_step_props)

lemma store_run_rel: "store_machine.run x ops y \<Longrightarrow> content_inv x \<Longrightarrow> content_rel x y"
  by (rule store_machine.run_relation [where R = content_rel])
     (auto intro: content_rel_refl content_rel_trans dest: safe_step_props)

section \<open>Every operation returns\<close>

lemma resolveFork_returns:
  assumes "graph_inv_but X (graph s)"
  shows "\<exists>r. resolveFork env opts s = Some r"
proof (cases "ms_streams s (co_ForkedFrom opts)")
  case None
  then show ?thesis by (simp add: resolveFork_def)
next
  case (Some src)
  have "\<exists>r. resolveForkSubOffset s src off sub = Some r" for off sub
    using readForkedStream_returns [OF assms Some, of off] by (auto simp: resolveForkSubOffset_def)
  then have sub: "\<exists>r. Option.bind (resolveForkSubOffset s src off sub) (\<lambda>r. Some (g r)) = Some r"
    for off sub and g :: "store_error + Offset \<times> bytes \<Rightarrow> store_error + memoryStream \<times> Offset \<times> bytes"
    by (metis bind.bind_lunit)
  show ?thesis unfolding resolveFork_def Some option.case Let_def
    using sub by (simp split: option.split)
qed

lemma createNew_returns:
  assumes "graph_inv_but X (graph s)"
  shows "createNew env path opts s \<noteq> None"
  using resolveFork_returns [OF assms, of env opts]
  by (auto simp: createNew_def Let_def bind_eq_None_conv simp del: not_None_eq split: sum.splits prod.splits)

lemma Create_returns:
  assumes "graph_inv (graph s)" and "create_safe env path s"
  shows "Create env path opts s \<noteq> None"
proof (cases "ms_streams s path")
  case None
  with createNew_returns [OF assms(1)] show ?thesis by (auto simp: Create_def)
next
  case (Some st)
  show ?thesis
  proof (cases "isExpired env (st_metadata st)")
    case True
    have "graph_inv ((graph s)(path := None))"
      by (rule graph_drop_root [OF assms(1) graph_apply [OF Some]])
         (use assms(2) Some True in \<open>auto simp: create_safe_def\<close>)
    moreover have "graph (delete_stream path s) = (graph s)(path := None)" by (auto simp: graph_def)
    ultimately have "createNew env path opts (delete_stream path s) \<noteq> None"
      using createNew_returns [of "{}" "delete_stream path s"] by simp
    with Some True show ?thesis by (simp add: Create_def)
  next
    case False
    with Some show ?thesis by (auto simp: Create_def)
  qed
qed

lemma collect_page_returns:
  assumes "graph_inv (graph s)" and "ms_streams s path = Some st"
  shows "collect_page s st off sn opts \<noteq> None"
proof -
  have "walkForkedMessages s st o1 u v (a::page_acc) \<noteq> None" for o1 u v a
    using walkForkedMessages_returns [OF assms, of o1 u v a] by simp
  then show ?thesis by (simp add: collect_page_def Let_def bind_eq_None_conv del: not_None_eq)
qed

lemma store_ReadPage_returns:
  assumes "graph_inv (graph s)"
  shows "store_ReadPage env ctx path off opts s \<noteq> None"
proof (cases "ms_streams s path")
  case None
  then show ?thesis by (cases ctx) (simp_all add: store_ReadPage_def Let_def)
next
  case (Some st)
  let ?t = "put_stream path (touch env st) s"
  have "graph ?t = graph s" using Some by (auto simp: graph_def node_of_def)
  with assms have "graph_inv (graph ?t)" by simp
  then have page: "collect_page s st off sn os \<noteq> None" "collect_page ?t (touch env st) off sn os \<noteq> None" for sn os
    using collect_page_returns [OF assms Some] collect_page_returns [of ?t path] by simp_all
  show ?thesis
    using Some page
    by (cases ctx) (simp_all add: store_ReadPage_def Let_def bind_eq_None_conv del: not_None_eq)
qed

lemma exec_returns:
  assumes "graph_inv (graph s)" and "op_safe env op s"
  shows "exec env op s \<noteq> None"
proof (cases op)
  case (Op_Create path opts)
  with assms Create_returns [of s env path opts] show ?thesis by simp
next
  case (Op_Delete path)
  with Delete_inv [OF assms(1), of path] show ?thesis by auto
next
  case (Op_ReadPage ctx path off opts)
  with store_ReadPage_returns [OF assms(1), of env ctx path off opts] show ?thesis by simp
qed simp_all

end
