(* ===== verification/Store_Pages.thy ===== *)
theory Store_Pages
  imports Store_Lineage
begin

text \<open>
  Bounded pages of \<^verbatim>\<open>src/store/memory_store.go\<close>: what one page of a stream's content holds, and
  that the page loop of \<^verbatim>\<open>Read\<close> returns the whole content of one snapshot.
\<close>

section \<open>One page\<close>

text \<open>The page under construction: what it holds, and the two limits it respects.\<close>

definition page_inv :: "ReadPageOptions \<Rightarrow> page_acc \<Rightarrow> bool" where
  "page_inv opts a \<longleftrightarrow>
     rst_ReturnedBytes (pa_stats a) = int (total_len (pa_messages a)) \<and>
     int (length (pa_messages a)) \<le> rpo_MaxFrames opts \<and>
     (length (pa_messages a) \<le> 1 \<or> int (total_len (pa_messages a)) \<le> rpo_TargetBytes opts)"

text \<open>Why a page stopped before the end of the window.\<close>

definition page_full :: "ReadPageOptions \<Rightarrow> Message list \<Rightarrow> Message \<Rightarrow> bool" where
  "page_full opts taken next \<longleftrightarrow>
     rpo_MaxFrames opts \<le> int (length taken) \<or> rpo_TargetBytes opts \<le> int (total_len taken) \<or>
     taken \<noteq> [] \<and> rpo_TargetBytes opts < int (total_len taken + length (msg_Data next))"

definition page_spec :: "ReadPageOptions \<Rightarrow> Message list \<Rightarrow> page_acc \<Rightarrow> page_acc \<Rightarrow> bool" where
  "page_spec opts ms a a' \<longleftrightarrow>
     (\<exists>k \<le> length ms. pa_messages a' = pa_messages a @ take k ms \<and>
        pa_next a' = (if k = 0 then pa_next a else msg_Offset (ms ! (k - 1))) \<and> page_inv opts a' \<and>
        (k < length ms \<longrightarrow> page_full opts (pa_messages a') (ms ! k)))"

lemma page_spec_refl: "page_inv opts a \<Longrightarrow> ms = [] \<or> page_full opts (pa_messages a) (hd ms) \<Longrightarrow> page_spec opts ms a a"
  unfolding page_spec_def by (intro exI [of _ 0]) (auto simp: hd_conv_nth)

lemma page_spec_Cons:
  assumes "page_spec opts ms a1 a'" and "pa_messages a1 = pa_messages a @ [m]" and "pa_next a1 = msg_Offset m"
  shows "page_spec opts (m # ms) a a'"
proof -
  from assms(1) obtain k where k: "k \<le> length ms" "pa_messages a' = pa_messages a1 @ take k ms"
      "pa_next a' = (if k = 0 then pa_next a1 else msg_Offset (ms ! (k - 1)))" "page_inv opts a'"
      "k < length ms \<longrightarrow> page_full opts (pa_messages a') (ms ! k)"
    unfolding page_spec_def by blast
  then show ?thesis
    using assms(2,3) unfolding page_spec_def by (intro exI [of _ "Suc k"]) (auto simp: nth_Cons')
qed


lemma page_spec_stats:
  assumes "page_spec opts ms a a1" and "pa_messages a2 = pa_messages a1" "pa_next a2 = pa_next a1" "page_inv opts a2"
  shows "page_spec opts ms a a2"
  using assms(1) unfolding page_spec_def assms(2,3) using assms(4) by blast

lemma visit_page:
  assumes "page_inv opts a"
  shows "page_spec opts ms a (snd (visit_all (page_visit opts) ms a))"
  using assms
proof (induction ms arbitrary: a)
  case Nil
  then show ?case by (simp add: page_spec_refl)
next
  case (Cons m ms)
  let ?n = "int (length (msg_Data m))" and ?R = "rst_ReturnedBytes (pa_stats a)"
  have R: "?R = int (total_len (pa_messages a))" using Cons.prems by (simp add: page_inv_def)
  obtain cont a1 where v: "page_visit opts m a = (cont, a1)" by fastforce
  show ?case
  proof (cases "rpo_MaxFrames opts \<le> int (length (pa_messages a))")
    case True
    then have "page_spec opts (m # ms) a a" using Cons.prems by (intro page_spec_refl) (auto simp: page_full_def)
    with True v show ?thesis by (auto simp: page_visit_def)
  next
    case room: False
    show ?thesis
    proof (cases "pa_messages a \<noteq> [] \<and> rpo_TargetBytes opts < ?R + ?n")
      case True
      then have spec: "page_spec opts (m # ms) a a"
        using Cons.prems R by (intro page_spec_refl) (auto simp: page_full_def)
      have "\<not> cont" "pa_messages a1 = pa_messages a" "pa_next a1 = pa_next a"
          "rst_ReturnedBytes (pa_stats a1) = ?R"
        using v room True by (auto simp: page_visit_def Let_def)
      moreover from this have "page_inv opts a1" using Cons.prems by (simp add: page_inv_def)
      ultimately show ?thesis using v page_spec_stats [OF spec, of a1] by simp
    next
      case False
      then have a1: "pa_messages a1 = pa_messages a @ [m]" "pa_next a1 = msg_Offset m"
          "rst_ReturnedBytes (pa_stats a1) = ?R + ?n" "cont \<longleftrightarrow> ?R + ?n < rpo_TargetBytes opts"
        using v room by (auto simp: page_visit_def Let_def)
      have inv: "page_inv opts a1"
        unfolding page_inv_def a1 using R room False by (cases "pa_messages a = []") simp_all
      show ?thesis
      proof (cases cont)
        case True
        with page_spec_Cons [OF Cons.IH [OF inv] a1(1,2)] v show ?thesis by simp
      next
        case False
        then have "page_spec opts ms a1 a1"
          using a1 R inv by (intro page_spec_refl) (simp_all add: page_full_def)
        from page_spec_Cons [OF this a1(1,2)] False v show ?thesis by simp
      qed
    qed
  qed
qed

section \<open>A page of a stream\<close>

text \<open>
  What a page delivers of a content: a prefix of what lies between the offset and the tail of
  its snapshot, never empty unless that is, cut only by one of the two limits.
\<close>

definition read_start :: "Offset \<Rightarrow> ReadSnapshot \<Rightarrow> Offset" where
  "read_start off snapshot = (if IsNow off then rs_Tail snapshot else off)"

definition delivers ::
    "ReadPageOptions \<Rightarrow> ReadSnapshot \<Rightarrow> Offset \<Rightarrow> Message list \<Rightarrow> ReadPage \<Rightarrow> bool" where
  "delivers opts snapshot off ms page \<longleftrightarrow>
     (let w = window (read_start off snapshot) (rs_Tail snapshot) ms; k = length (rp_Messages page)
      in rp_Messages page = take k w \<and> k \<le> length w \<and>
         rp_NextOffset page = (if k = 0 then rs_Tail snapshot else msg_Offset (w ! (k - 1))) \<and>
         rp_UpToDate page = (rp_NextOffset page = rs_Tail snapshot) \<and> rp_Snapshot page = snapshot \<and>
         (w \<noteq> [] \<longrightarrow> 0 < k) \<and> int k \<le> rpo_MaxFrames opts \<and>
         (k \<le> 1 \<or> int (total_len (rp_Messages page)) \<le> rpo_TargetBytes opts) \<and>
         (k < length w \<longrightarrow> page_full opts (rp_Messages page) (w ! k)))"

lemma collect_page_delivers:
  assumes "lineage s st ms" and "content_ok s" and "ms_streams s p = Some st"
    and "0 < rpo_TargetBytes opts" and "0 < rpo_MaxFrames opts"
  shows "\<exists>page. collect_page s st off snapshot opts = Some page \<and> delivers opts snapshot off ms page"
proof -
  let ?r = "read_start off snapshot" and ?w = "window (read_start off snapshot) (rs_Tail snapshot) ms"
  let ?a = "snd (visit_all (page_visit opts) ?w (page_start opts ?r))"
  let ?page = "page_finish snapshot ?a"
  have "page_inv opts (page_start opts ?r)" using assms(5) by (simp add: page_inv_def page_start_def)
  moreover have start: "pa_messages (page_start opts ?r) = []" "pa_next (page_start opts ?r) = ?r"
    by (simp_all add: page_start_def)
  ultimately obtain k where k: "k \<le> length ?w" "pa_messages ?a = take k ?w"
      "pa_next ?a = (if k = 0 then ?r else msg_Offset (?w ! (k - 1)))" "page_inv opts ?a"
      "k < length ?w \<longrightarrow> page_full opts (pa_messages ?a) (?w ! k)"
    using visit_page [of opts "page_start opts ?r" ?w] unfolding page_spec_def start append_Nil by blast
  have "collect_page s st off snapshot opts = Some ?page"
    by (simp add: collect_page_def Let_def read_start_def walkForkedMessages_lineage [OF assms(1-3)])
  moreover have m: "rp_Messages ?page = take k ?w" "length (take k ?w) = k"
    using k(1,2) by (simp_all add: page_finish_def Let_def)
  have "0 < k" if "?w \<noteq> []"
    using that k(2,5) assms(4,5) by (cases "k = 0") (auto simp: page_full_def)
  then have "delivers opts snapshot off ms ?page"
    unfolding delivers_def Let_def m using k
    by (auto simp: page_finish_def Let_def page_inv_def)
  ultimately show ?thesis by blast
qed

text \<open>A read may touch the access time of its stream; the content stays.\<close>

definition same_log :: "memoryStream \<Rightarrow> memoryStream \<Rightarrow> bool" where
  "same_log a b \<longleftrightarrow>
     st_messages b = st_messages a \<and> sm_ForkedFrom (st_metadata b) = sm_ForkedFrom (st_metadata a) \<and>
     sm_ForkOffset (st_metadata b) = sm_ForkOffset (st_metadata a)"

lemma lineage_same:
  assumes "lineage s st ms" and "same_log st st'"
    and "\<And>p a. ms_streams s p = Some a \<Longrightarrow> \<exists>b. ms_streams t p = Some b \<and> same_log a b"
  shows "lineage t st' ms"
  using assms(1,2)
proof (induction arbitrary: st' rule: lineage.induct)
  case (lineage_root st)
  then show ?case using lineage.lineage_root [of st' t] by (simp add: same_log_def)
next
  case (lineage_fork st src ms)
  from assms(3) [OF lineage_fork(2)] obtain src' where
    src': "ms_streams t (sm_ForkedFrom (st_metadata st)) = Some src'" "same_log src src'" by blast
  from lineage_fork.IH [OF src'(2)] src'(1) lineage_fork(1,5) show ?case
    using lineage.lineage_fork [of st' t src' ms] by (simp add: same_log_def)
qed

definition touched :: "store_env \<Rightarrow> string \<Rightarrow> memoryStream \<Rightarrow> bool \<Rightarrow> MemoryStore \<Rightarrow> MemoryStore" where
  "touched env path st renew s = (if renew then put_stream path (touch env st) s else s)"

lemma touched_content:
  assumes "content_ok s" and "ms_streams s path = Some st" and "lineage s st ms"
  obtains st' where "ms_streams (touched env path st renew s) path = Some st'"
    "content_ok (touched env path st renew s)" "lineage (touched env path st renew s) st' ms"
    "st' = (if renew then touch env st else st)"
proof (cases renew)
  case True
  let ?t = "put_stream path (touch env st) s"
  have "content_ok ?t"
    using assms(1,2) unfolding content_ok_def by (auto simp: stream_fits_def split: if_splits)
  moreover have "lineage ?t (touch env st) ms"
  proof (rule lineage_same [OF assms(3)])
    show "same_log st (touch env st)" by (simp add: same_log_def)
    show "\<exists>b. ms_streams ?t p = Some b \<and> same_log a b" if "ms_streams s p = Some a" for p a
      using that assms(2) by (auto simp: same_log_def)
  qed
  ultimately show ?thesis using True by (intro that [of "touch env st"]) (simp_all add: touched_def)
next
  case False
  with assms show ?thesis by (intro that [of st]) (simp_all add: touched_def)
qed

lemma memoryReadIncarnation_not_Nil [simp]: "memoryReadIncarnation m \<noteq> ''''"
  by (simp add: memoryReadIncarnation_def FormatInt_def)

lemma current_snapshot_sel [simp]:
  "rs_Tail (current_snapshot m) = sm_CurrentOffset m" "rs_Closed (current_snapshot m) = sm_Closed m"
  "rs_Incarnation (current_snapshot m) = memoryReadIncarnation m"
  "rs_ContentType (current_snapshot m) = sm_ContentType m"
  by (simp_all add: current_snapshot_def ReadSnapshotFromMetadata_def)

definition readable :: "store_env \<Rightarrow> memoryStream \<Rightarrow> bool" where
  "readable env st \<longleftrightarrow> \<not> isExpired env (st_metadata st) \<and> \<not> sm_SoftDeleted (st_metadata st)"

lemma ReadPage_delivers:
  assumes "content_ok s" and "ms_streams s path = Some st" and "lineage s st ms" and "readable env st"
    and "rpo_Snapshot opts = None \<or>
         (\<exists>sn. rpo_Snapshot opts = Some sn \<and> SameReadStream sn (current_snapshot (st_metadata st)))"
  shows "\<exists>page. store_ReadPage env Ctx_live path off opts s =
      Some (Inr page, touched env path st (\<not> rpo_NoTouch opts \<and> rpo_Snapshot opts = None \<and>
              sm_TTLSeconds (st_metadata st) \<noteq> None) s) \<and>
    delivers (Normalize opts)
      (case rpo_Snapshot opts of None \<Rightarrow> current_snapshot (st_metadata st) | Some sn \<Rightarrow> sn) off ms page"
proof -
  let ?renew = "\<not> rpo_NoTouch opts \<and> rpo_Snapshot opts = None \<and> sm_TTLSeconds (st_metadata st) \<noteq> None"
  let ?sn = "case rpo_Snapshot opts of None \<Rightarrow> current_snapshot (st_metadata st) | Some sn \<Rightarrow> sn"
  from touched_content [OF assms(1-3)] obtain st' where
    t: "ms_streams (touched env path st ?renew s) path = Some st'" "content_ok (touched env path st ?renew s)"
      "lineage (touched env path st ?renew s) st' ms" "st' = (if ?renew then touch env st else st)" .
  from collect_page_delivers [OF t(3,2,1), of "Normalize opts" off ?sn] obtain page where
    page: "collect_page (touched env path st ?renew s) st' off ?sn (Normalize opts) = Some page"
      "delivers (Normalize opts) ?sn off ms page" by auto
  have "store_ReadPage env Ctx_live path off opts s = Some (Inr page, touched env path st ?renew s)"
    using assms(2,4,5) page(1) t(4)
    by (auto simp: store_ReadPage_def Let_def readable_def touched_def ShouldRenewReadAccess_def)
  with page(2) show ?thesis by blast
qed

section \<open>Reading to the tail\<close>

lemma window_tail:
  "\<forall>m \<in> set ms. msg_Offset m \<le> t \<Longrightarrow> window off t ms = filter (\<lambda>m. off < msg_Offset m) ms"
  by (auto intro: filter_cong)

lemma filter_after_prefix:
  assumes "sorted_wrt (<) (map msg_Offset w)" and "k < length w"
  shows "filter (\<lambda>m. msg_Offset (w ! k) < msg_Offset m) w = drop (Suc k) w"
  using assms
proof (induction w arbitrary: k)
  case (Cons m w)
  show ?case
  proof (cases k)
    case 0
    with Cons.prems have "\<forall>x \<in> set w. msg_Offset m < msg_Offset x" by simp
    with 0 show ?thesis by simp
  next
    case (Suc j)
    with Cons.prems have "msg_Offset m < msg_Offset (w ! j)" by simp
    then have "\<not> msg_Offset (w ! j) < msg_Offset m" by simp
    with Suc Cons show ?thesis by simp
  qed
qed simp

lemma delivers_flags:
  assumes "delivers opts sn off ms page"
  shows "rp_UpToDate page \<longleftrightarrow> rp_NextOffset page = rs_Tail sn" and "rp_Snapshot page = sn"
  using assms unfolding delivers_def Let_def by blast+

text \<open>The rest of a content after a page: nothing when the page reached the tail.\<close>

lemma delivers_rest:
  assumes "delivers opts sn off ms page" and "sorted_wrt (<) (map msg_Offset ms)"
    and "\<forall>m \<in> set ms. msg_Offset m \<le> rs_Tail sn" and "\<not> IsNow off"
  shows "filter (\<lambda>m. off < msg_Offset m) ms =
           rp_Messages page @ filter (\<lambda>m. rp_NextOffset page < msg_Offset m) ms"
    and "\<not> rp_UpToDate page \<Longrightarrow> rp_Messages page \<noteq> [] \<and> rp_NextOffset page \<in> msg_Offset ` set ms \<and>
           off < rp_NextOffset page"
proof -
  let ?w = "filter (\<lambda>m. off < msg_Offset m) ms" and ?k = "length (rp_Messages page)"
  have w: "window (read_start off sn) (rs_Tail sn) ms = ?w"
    using assms(3,4) by (simp add: read_start_def window_tail)
  have d: "rp_Messages page = take ?k ?w" "?k \<le> length ?w" "?w \<noteq> [] \<longrightarrow> 0 < ?k"
      "rp_NextOffset page = (if ?k = 0 then rs_Tail sn else msg_Offset (?w ! (?k - 1)))"
      "rp_UpToDate page \<longleftrightarrow> rp_NextOffset page = rs_Tail sn"
    using assms(1) unfolding delivers_def Let_def w by auto
  have sw: "sorted_wrt (<) (map msg_Offset ?w)" by (rule sorted_filter [OF assms(2)])
  have mem: "?w ! (?k - 1) \<in> set ?w" if "?k \<noteq> 0" using that d(2) by (intro nth_mem) linarith
  show "?w = rp_Messages page @ filter (\<lambda>m. rp_NextOffset page < msg_Offset m) ms"
  proof (cases "?k = 0")
    case True
    then have "?w = []" using d(3) by auto
    moreover have "filter (\<lambda>m. rs_Tail sn < msg_Offset m) ms = []" using assms(3) by (auto simp: filter_empty_conv)
    ultimately show ?thesis using True d(4) by simp
  next
    case False
    have "filter (\<lambda>m. rp_NextOffset page < msg_Offset m) ms = filter (\<lambda>m. msg_Offset (?w ! (?k - 1)) < msg_Offset m) ?w"
      using mem [OF False] d(4) False by (auto intro!: filter_cong)
    also have "\<dots> = drop (Suc (?k - 1)) ?w" using False d(2) by (intro filter_after_prefix [OF sw]) linarith
    also have "\<dots> = drop ?k ?w" using False by simp
    finally show ?thesis using d(1) by (metis append_take_drop_id)
  qed
  show "rp_Messages page \<noteq> [] \<and> rp_NextOffset page \<in> msg_Offset ` set ms \<and> off < rp_NextOffset page"
    if "\<not> rp_UpToDate page"
    using that d(4,5) mem by (cases "?k = 0") auto
qed

text \<open>Continuation pages keep the snapshot and touch nothing.\<close>

lemma read_loop_rest:
  assumes "content_ok s" and "ms_streams s path = Some st" and "lineage s st ms" and "\<And>i. readable (envs i) st"
    and "sn = current_snapshot (st_metadata st0)" and "sm_CurrentOffset (st_metadata st0) = sm_CurrentOffset (st_metadata st)"
    and "SameReadStream sn (current_snapshot (st_metadata st))"
    and "\<not> IsNow nxt"
  shows "read_loop envs path off i acc (Some sn) nxt s =
    Some (Inr (acc @ filter (\<lambda>m. nxt < msg_Offset m) ms,
               acc @ filter (\<lambda>m. nxt < msg_Offset m) ms \<noteq> [] \<or> off = rs_Tail sn \<or> rs_Tail sn = ZeroOffset), s)"
  using assms(8)
proof (induction "length (filter (\<lambda>m. nxt < msg_Offset m) ms)" arbitrary: nxt i acc rule: less_induct)
  case less
  let ?opts = "ReadPageOptions0\<lparr>rpo_Snapshot := Some sn\<rparr>"
  from ReadPage_delivers [OF assms(1-3) assms(4) [of i], of ?opts nxt] assms(7)
  obtain page where run: "store_ReadPage (envs i) Ctx_live path nxt ?opts s = Some (Inr page, s)"
    and d: "delivers (Normalize ?opts) sn nxt ms page"
    by (auto simp: touched_def)
  note sorted = lineage_sorted [OF assms(3,1,2)]
  have tail: "\<forall>m \<in> set ms. msg_Offset m \<le> rs_Tail sn" using sorted assms(5,6) by simp
  note rest = delivers_rest [OF d conjunct1 [OF sorted] tail less.prems]
  show ?case
  proof (cases "rp_UpToDate page")
    case True
    then have "rp_NextOffset page = rs_Tail sn" using delivers_flags [OF d] by simp
    then have "filter (\<lambda>m. rp_NextOffset page < msg_Offset m) ms = []" using tail by (auto simp: filter_empty_conv)
    then have eq: "filter (\<lambda>m. nxt < msg_Offset m) ms = rp_Messages page" using rest(1) by simp
    show ?thesis
      by (subst read_loop.simps) (auto simp: run True eq Let_def)
  next
    case False
    note prog = rest(2) [OF False]
    have ne: "rp_NextOffset page \<noteq> nxt" using prog by auto
    have nn: "\<not> IsNow (rp_NextOffset page)"
    proof -
      from prog tail have "rp_NextOffset page \<le> sm_CurrentOffset (st_metadata st)" using assms(5,6) by auto
      from le_tail_ReadSeq [OF assms(1,2) this] show ?thesis by (auto simp: NowOffset_def)
    qed
    have "length (filter (\<lambda>m. rp_NextOffset page < msg_Offset m) ms) < length (filter (\<lambda>m. nxt < msg_Offset m) ms)"
      unfolding rest(1) using prog by simp
    from less.hyps [OF this nn, of "Suc i" "acc @ rp_Messages page"] prog
    show ?thesis unfolding rest(1)
      by (subst read_loop.simps) (simp add: run False ne Let_def)
  qed
qed

lemma SameReadStream_current:
  assumes "memoryReadIncarnation m' = memoryReadIncarnation m" and "sm_ContentType m' = sm_ContentType m"
  shows "SameReadStream (current_snapshot m) (current_snapshot m')"
  using assms by (simp add: SameReadStream_def ContentTypeMatches_iff)

text \<open>
  \<^verbatim>\<open>Read\<close> returns, whatever the page limits, and gives the content after the offset; a stream with
  a TTL has its access time renewed once.
\<close>

lemma Read_content:
  assumes ok: "content_ok s" and st: "ms_streams s path = Some st" and ms: "lineage s st ms"
    and live: "\<And>i. readable (envs i) st" "\<And>i. readable (envs i) (touch (envs 0) st)"
  shows "Read envs path off s =
    Some (Inr (filter (\<lambda>m. off < msg_Offset m) ms,
               filter (\<lambda>m. off < msg_Offset m) ms \<noteq> [] \<or> off = sm_CurrentOffset (st_metadata st) \<or>
               sm_CurrentOffset (st_metadata st) = ZeroOffset),
          touched (envs 0) path st (sm_TTLSeconds (st_metadata st) \<noteq> None) s)"
proof -
  let ?sn = "current_snapshot (st_metadata st)" and ?t = "touched (envs 0) path st (sm_TTLSeconds (st_metadata st) \<noteq> None) s"
  have opts: "rpo_Snapshot (ReadPageOptions0\<lparr>rpo_Snapshot := None\<rparr>) = None" "\<not> rpo_NoTouch (ReadPageOptions0\<lparr>rpo_Snapshot := None\<rparr>)"
    by (simp_all add: ReadPageOptions0_def)
  from ReadPage_delivers [OF ok st ms live(1) [of 0], of "ReadPageOptions0\<lparr>rpo_Snapshot := None\<rparr>" off] opts
  obtain page where run: "store_ReadPage (envs 0) Ctx_live path off (ReadPageOptions0\<lparr>rpo_Snapshot := None\<rparr>) s = Some (Inr page, ?t)"
    and d: "delivers (Normalize (ReadPageOptions0\<lparr>rpo_Snapshot := None\<rparr>)) ?sn off ms page"
    by auto
  note sorted = lineage_sorted [OF ms ok st]
  have tail: "\<forall>m \<in> set ms. msg_Offset m \<le> rs_Tail ?sn" using sorted by simp
  note up = delivers_flags [OF d]
  show ?thesis
  proof (cases "rp_UpToDate page")
    case True
    have "rp_Messages page = filter (\<lambda>m. off < msg_Offset m) ms"
    proof (cases "IsNow off")
      case now: True
      have "window (rs_Tail ?sn) (rs_Tail ?sn) ms = []" by (auto simp: filter_empty_conv)
      then have "rp_Messages page = []" using d now by (auto simp: delivers_def Let_def read_start_def)
      moreover have "filter (\<lambda>m. off < msg_Offset m) ms = []"
        using now by (simp add: filter_empty_conv linorder_not_less NowOffset_greatest)
      ultimately show ?thesis by simp
    next
      case False
      have "filter (\<lambda>m. rp_NextOffset page < msg_Offset m) ms = []"
        using True tail up by (auto simp: filter_empty_conv)
      with delivers_rest(1) [OF d conjunct1 [OF sorted] tail False] show ?thesis by simp
    qed
    with True run up show ?thesis unfolding Read_def
      by (subst read_loop.simps) (simp add: Let_def)
  next
    case False
    have nn: "\<not> IsNow off"
    proof
      assume now: "IsNow off"
      have "window (rs_Tail ?sn) (rs_Tail ?sn) ms = []" by (auto simp: filter_empty_conv)
      then have "rp_NextOffset page = rs_Tail ?sn" using d now by (auto simp: delivers_def Let_def read_start_def)
      with False up show False by simp
    qed
    note rest = delivers_rest [OF d conjunct1 [OF sorted] tail nn]
    note prog = rest(2) [OF False]
    have ne: "rp_NextOffset page \<noteq> off" using prog by auto
    from touched_content [OF ok st ms] obtain st' where
      t: "ms_streams ?t path = Some st'" "content_ok ?t" "lineage ?t st' ms"
        "st' = (if sm_TTLSeconds (st_metadata st) \<noteq> None then touch (envs 0) st else st)" .
    have nn': "\<not> IsNow (rp_NextOffset page)"
    proof -
      from prog tail have "rp_NextOffset page \<le> sm_CurrentOffset (st_metadata st)" by auto
      from le_tail_ReadSeq [OF ok st this] show ?thesis by (auto simp: NowOffset_def)
    qed
    have "SameReadStream ?sn (current_snapshot (st_metadata st'))"
      using t(4) by (intro SameReadStream_current) (auto simp: memoryReadIncarnation_def)
    then have "read_loop envs path off 1 (rp_Messages page) (Some ?sn) (rp_NextOffset page) ?t =
      Some (Inr (rp_Messages page @ filter (\<lambda>m. rp_NextOffset page < msg_Offset m) ms,
        rp_Messages page @ filter (\<lambda>m. rp_NextOffset page < msg_Offset m) ms \<noteq> [] \<or> off = rs_Tail ?sn \<or> rs_Tail ?sn = ZeroOffset), ?t)"
      by (intro read_loop_rest [OF t(2,1,3), where ?st0.0 = st]) (use live t(4) nn' in auto)
    with False run up prog ne show ?thesis unfolding Read_def rest(1)
      by (subst read_loop.simps) (simp add: Let_def)
  qed
qed

end
