(* ===== verification/Store_Wakeups.thy ===== *)
theory Store_Wakeups
  imports Store_Forks
begin

text \<open>
  The long-poll manager of \<^verbatim>\<open>src/store/memory_store.go\<close>: which operations signal which waiters.
  Every operation keeps the registered channels and their tokens, and an operation that changes
  what a reader of a stream can see puts a token into the channel of every waiter registered on
  the stream.  A reader that registered before it looked, and finds no token, has missed nothing.
\<close>

section \<open>Signals\<close>

definition lp_ext :: "longPollManager \<Rightarrow> longPollManager \<Rightarrow> bool" where
  "lp_ext m m' \<longleftrightarrow> lp_waiters m' = lp_waiters m \<and> (\<forall>ch. lp_signal m ch \<longrightarrow> lp_signal m' ch)"

definition lp_wakes :: "string \<Rightarrow> longPollManager \<Rightarrow> longPollManager \<Rightarrow> bool" where
  "lp_wakes path m m' \<longleftrightarrow> lp_ext m m' \<and> (\<forall>ch \<in> set (lp_waiters m path). lp_signal m' ch)"

lemma signal_fold: "fold (\<lambda>ch sig. sig(ch := True)) chs sig x \<longleftrightarrow> x \<in> set chs \<or> sig x"
  by (induction chs arbitrary: sig) auto

lemma lp_ext_refl [simp]: "lp_ext m m"
  by (simp add: lp_ext_def)

lemma lp_ext_trans: "lp_ext a b \<Longrightarrow> lp_ext b c \<Longrightarrow> lp_ext a c"
  by (simp add: lp_ext_def)

lemma lp_notify_wakes: "lp_wakes path m (lp_notify path m)" "lp_wakes path m (lp_notifyClosed path m)"
  by (simp_all add: lp_wakes_def lp_ext_def lp_notify_def lp_notifyClosed_def signal_fold)

lemma lp_wakes_ext: "lp_wakes path m m' \<Longrightarrow> lp_ext m m'"
  by (simp add: lp_wakes_def)

lemma lp_wakes_trans: "lp_wakes path a b \<Longrightarrow> lp_ext b c \<Longrightarrow> lp_wakes path a c" "lp_ext a b \<Longrightarrow> lp_wakes path b c \<Longrightarrow> lp_wakes path a c"
  by (auto simp: lp_wakes_def lp_ext_def)

text \<open>The helpers that leave the waiters alone, and the two that wake them.\<close>

lemma longPoll_frame [simp]:
  "ms_longPoll (put_stream path st s) = ms_longPoll s" "ms_longPoll (delete_stream path s) = ms_longPoll s"
  "ms_longPoll (getProducerLock path pid s) = ms_longPoll s" "ms_longPoll (setMarker path a m t s) = ms_longPoll s"
  by (simp_all add: put_stream_def delete_stream_def getProducerLock_def setMarker_def Let_def)

lemma notify_longPoll [simp]:
  "ms_longPoll (notify path s) = lp_notify path (ms_longPoll s)"
  "ms_longPoll (notifyClosed path s) = lp_notifyClosed path (ms_longPoll s)"
  by (simp_all add: notify_def notifyClosed_def)

lemma tombstone_longPoll [simp]: "ms_longPoll (snd (tombstone env path a f s)) = ms_longPoll s"
  by (auto simp: tombstone_def case_prod_beta)

lemma append_commit_wakes: "lp_wakes path (ms_longPoll s) (ms_longPoll (append_commit path opts ps off st s))"
  by (simp add: append_commit_def Let_def lp_notify_wakes lp_wakes_trans(1) [OF lp_notify_wakes(2) lp_wakes_ext [OF lp_notify_wakes(1)]])

lemma append_data_longPoll: "lp_ext (ms_longPoll s) (ms_longPoll (snd (append_data path data opts ps res lseq st s)))"
  by (simp add: append_data_def lp_wakes_ext [OF append_commit_wakes] split: sum.splits prod.splits)

lemma append_open_longPoll: "lp_ext (ms_longPoll s) (ms_longPoll (snd (append_open env path data opts st s)))"
  by (simp add: append_open_def Let_def append_data_longPoll split: prod.splits)

lemma Append_longPoll: "lp_ext (ms_longPoll s) (ms_longPoll (snd (Append env path data opts s)))"
proof -
  define s0 where "s0 = (if HasAllProducerHeaders opts then getProducerLock path (ao_ProducerId opts) s else s)"
  have lp: "ms_longPoll s0 = ms_longPoll s" "ms_streams s0 = ms_streams s" by (simp_all add: s0_def)
  have rung: "lp_ext (ms_longPoll s) (ms_longPoll (snd (append_open env path data opts st (put_stream path st' (snd (fenceRung env path st'' f pid e s0))))))"
    for st st' st'' f pid e
    using append_open_longPoll [of "put_stream path st' (snd (fenceRung env path st'' f pid e s0))"] lp by simp
  show ?thesis
    unfolding Append_def Let_def s0_def [symmetric] case_prod_beta
    by (cases "ms_streams s path") (simp_all add: lp rung)
qed

lemma closeStream_longPoll: "lp_ext (ms_longPoll s) (ms_longPoll (snd (closeStream env path f s)))"
  by (simp add: closeStream_def Let_def case_prod_beta lp_wakes_ext [OF lp_notify_wakes(2)] split: option.splits)

lemma CloseStreamWithProducer_longPoll: "lp_ext (ms_longPoll s) (ms_longPoll (snd (CloseStreamWithProducer env path opts s)))"
  by (simp add: CloseStreamWithProducer_def Let_def case_prod_beta lp_wakes_ext [OF lp_notify_wakes(2)] split: option.splits)

lemma GrantAppendFence_longPoll [simp]: "ms_longPoll (snd (GrantAppendFence env path f s)) = ms_longPoll s"
  by (simp add: GrantAppendFence_def Let_def case_prod_beta split: option.splits)

lemma SealAppendFence_longPoll [simp]: "ms_longPoll (snd (SealAppendFence env path f s)) = ms_longPoll s"
  by (simp add: SealAppendFence_def Let_def case_prod_beta split: option.splits)

lemma RevokeAppendFence_longPoll [simp]: "ms_longPoll (snd (RevokeAppendFence env path f s)) = ms_longPoll s"
  by (simp add: RevokeAppendFence_def)

lemma finishCreate_longPoll [simp]: "ms_longPoll (snd (finishCreate path opts st s)) = ms_longPoll s"
  by (simp add: finishCreate_def Let_def case_prod_beta split: option.splits sum.splits)

lemma createNew_longPoll: "createNew env path opts s = Some r \<Longrightarrow> ms_longPoll (snd r) = ms_longPoll s"
  by (cases "NewIncarnationID env"; cases "resolveFork env opts s"; cases "the (resolveFork env opts s)")
     (auto simp: createNew_def Let_def split: if_splits)

lemma Create_longPoll: "Create env path opts s = Some r \<Longrightarrow> ms_longPoll (snd r) = ms_longPoll s"
  by (auto simp: Create_def dest: createNew_longPoll split: option.splits if_splits)

lemma store_ReadPage_longPoll: "store_ReadPage env ctx path off opts s = Some r \<Longrightarrow> ms_longPoll (snd r) = ms_longPoll s"
  by (cases ctx; cases "ms_streams s path") (auto simp: store_ReadPage_def Let_def bind_eq_Some_conv split: if_splits)

lemma deleteWithCascade_longPoll:
  "deleteWithCascade path s = Some r \<Longrightarrow> lp_ext (ms_longPoll s) (ms_longPoll (snd r))"
proof (induction path s r rule: deleteWithCascade.raw_induct [rotated 1, consumes 1, case_names 1])
  case (1 f path s r)
  note ext = lp_wakes_ext [OF lp_notify_wakes(1), of "ms_longPoll s" path]
  have rec: "lp_ext (ms_longPoll s) (ms_longPoll (snd r))"
    if "f q (put_stream q st (notify path (delete_stream path s))) = Some r" for q st
    using 1(1) [OF that] ext by (auto intro: lp_ext_trans)
  show ?case
    using 1(2) ext rec by (auto simp: Let_def split: option.splits if_splits)
qed

lemma Delete_longPoll: "Delete path s = Some r \<Longrightarrow> lp_ext (ms_longPoll s) (ms_longPoll (snd r))"
  by (auto simp: Delete_def dest: deleteWithCascade_longPoll split: option.splits if_splits)

section \<open>No lost wake-up\<close>

text \<open>What a waiting reader compares: the incarnation, the messages, the tail and the closure.\<close>

definition same_view :: "memoryStream \<Rightarrow> memoryStream \<Rightarrow> bool" where
  "same_view a b \<longleftrightarrow>
     st_messages b = st_messages a \<and>
     sm_Incarnation (st_metadata b) = sm_Incarnation (st_metadata a) \<and>
     sm_CurrentOffset (st_metadata b) = sm_CurrentOffset (st_metadata a) \<and>
     sm_Closed (st_metadata b) = sm_Closed (st_metadata a)"

lemma same_view_refl [simp]: "same_view a a"
  by (simp add: same_view_def)

lemma same_view_trans: "same_view a b \<Longrightarrow> same_view b c \<Longrightarrow> same_view a c"
  by (simp add: same_view_def)

lemma same_view_upd [simp]:
  "same_view st (touch env st)" "same_view st (upd_meta (sm_SoftDeleted_update f) st)"
  "same_view st (upd_meta (sm_RefCount_update g) st)" "same_view st (snd (stream_seal a g' w st))"
  by (simp_all add: same_view_def stream_seal_def Let_def)

text \<open>An operation that changes the view of a stream wakes the stream's waiters.\<close>

definition view_step :: "string \<Rightarrow> MemoryStore \<Rightarrow> MemoryStore \<Rightarrow> bool" where
  "view_step path s t \<longleftrightarrow>
     lp_wakes path (ms_longPoll s) (ms_longPoll t) \<or>
     (\<forall>b. ms_streams t path = Some b \<longrightarrow> (\<exists>a. ms_streams s path = Some a \<and> same_view a b))"

lemma view_step_put:
  "ms_streams s path = Some a \<Longrightarrow> same_view a b \<Longrightarrow> ms_streams t = (ms_streams s)(path \<mapsto> b) \<Longrightarrow> view_step path s t"
  by (auto simp: view_step_def)

lemma view_step_same [simp]: "ms_streams t path = ms_streams s path \<Longrightarrow> view_step path s t"
  by (auto simp: view_step_def)

lemma Append_view:
  assumes "Append env path data opts s = (r, t)"
  shows "view_step path s t"
  using assms
proof (cases rule: Append_cases)
  case refused
  then show ?thesis by simp
next
  case (touched st)
  show ?thesis by (rule view_step_put [OF touched(1) _ touched(4)]) simp
next
  case (accepted st ps off st1 u)
  have "lp_wakes path (ms_longPoll s) (ms_longPoll t)"
    using append_commit_wakes [of path u opts ps off st1] accepted(6,8) by simp
  then show ?thesis by (simp add: view_step_def)
qed

lemma notifyClosed_view: "ms_longPoll u = ms_longPoll s \<Longrightarrow> view_step path s (notifyClosed path (put_stream p st u))"
  using lp_notify_wakes(2) [of path "ms_longPoll s"] by (simp add: view_step_def)

lemma closeStream_view: "closeStream env path f s = (r, t) \<Longrightarrow> view_step path s t"
  by (drule closeStream_cases) (auto intro: notifyClosed_view)

lemma CloseStreamWithProducer_view: "CloseStreamWithProducer env path opts s = (r, t) \<Longrightarrow> view_step path s t"
  by (drule CloseStreamWithProducer_cases) (auto intro: notifyClosed_view)

lemma GrantAppendFence_view:
  assumes "GrantAppendFence env path f s = (r, t)"
  shows "view_step path s t"
proof (cases "ms_streams t = ms_streams s")
  case False
  obtain cur u where m: "store_marker env path (FenceAuthority f) s = (cur, u)" by fastforce
  from GrantAppendFence_streams [OF assms False m] show ?thesis by (auto simp: view_step_def)
qed simp

lemma SealAppendFence_view:
  assumes "SealAppendFence env path f s = (r, t)"
  shows "view_step path s t"
proof (cases "ms_streams t = ms_streams s")
  case False
  from SealAppendFence_streams [OF assms False] show ?thesis by (auto simp: view_step_def)
qed simp

lemma Delete_view: "Delete p s = Some (e, t) \<Longrightarrow> view_step path s t"
proof -
  assume "Delete p s = Some (e, t)"
  then consider "t = s"
    | st where "ms_streams s p = Some st" "t = put_stream p (upd_meta (sm_SoftDeleted_update (\<lambda>_. True)) st) s"
    | "recounts s t"
    using deleteWithCascade_recounts [of p s "(e, t)"] by (auto simp: Delete_def split: option.splits if_splits)
  then show ?thesis
  proof cases
    case 2
    then show ?thesis by (cases "p = path") (auto simp: view_step_def)
  next
    case 3
    then show ?thesis unfolding view_step_def recounts_def by fastforce
  qed simp
qed

lemma ReadPage_view: "store_ReadPage env ctx path off opts s = Some (r, t) \<Longrightarrow> view_step path s t"
proof -
  assume run: "store_ReadPage env ctx path off opts s = Some (r, t)"
  show ?thesis
  proof (cases "ms_streams s path")
    case None
    with run show ?thesis by (cases ctx) (auto simp: store_ReadPage_def Let_def)
  next
    case (Some st)
    from store_ReadPage_streams [OF run Some] Some show ?thesis by (auto simp: view_step_def)
  qed
qed

lemma refines_at_other: "refines_at Q p s t \<Longrightarrow> p \<noteq> path \<Longrightarrow> view_step path s t"
  unfolding refines_at_def by (auto intro!: view_step_same)

lemma exec_view:
  assumes "exec env op s = Some t" and "\<not> is_create op"
  shows "view_step path s t"
proof (cases "op_path op = path \<or> is_delete op")
  case False
  then show ?thesis using refines_at_other [OF exec_refines [OF assms]] by blast
next
  case True
  with assms show ?thesis
    by (cases op)
       (auto dest: Delete_view ReadPage_view
         intro: Append_view closeStream_view CloseStreamWithProducer_view GrantAppendFence_view SealAppendFence_view
         simp: CloseStream_def CloseStreamFenced_def RevokeAppendFence_def intro!: prod.collapse [symmetric])
qed

subsection \<open>Runs around a waiter\<close>

text \<open>The steps of the others: only the waiter itself drops its registration or takes its token.\<close>

fun op_ignores :: "nat \<Rightarrow> store_op \<Rightarrow> bool" where
  "op_ignores ch (Op_unregister path c) \<longleftrightarrow> c \<noteq> ch"
| "op_ignores ch (Op_take_token c) \<longleftrightarrow> c \<noteq> ch"
| "op_ignores ch op = True"

definition wait_step :: "nat \<Rightarrow> log_state \<Rightarrow> store_env \<times> store_op \<Rightarrow> log_state \<Rightarrow> bool" where
  "wait_step ch x eop y \<longleftrightarrow> log_step x eop y \<and> op_ignores ch (snd eop)"

definition waiting :: "string \<Rightarrow> nat \<Rightarrow> MemoryStore \<Rightarrow> bool" where
  "waiting path ch s \<longleftrightarrow> ch \<in> set (lp_waiters (ms_longPoll s) path)"

definition token :: "nat \<Rightarrow> MemoryStore \<Rightarrow> bool" where
  "token ch s \<longleftrightarrow> lp_signal (ms_longPoll s) ch"

lemma lp_ext_waiting: "lp_ext (ms_longPoll s) (ms_longPoll t) \<Longrightarrow> waiting path ch s \<Longrightarrow> waiting path ch t \<and> (token ch s \<longrightarrow> token ch t)"
  by (simp add: lp_ext_def waiting_def token_def)

lemma exec_waiting:
  assumes "exec env op s = Some t" and "op_ignores ch op" and "waiting path ch s"
  shows "waiting path ch t \<and> (token ch s \<longrightarrow> token ch t)"
proof (cases op)
  case (Op_register p c)
  with assms show ?thesis by (auto simp: register_def lp_register_def waiting_def token_def)
next
  case (Op_unregister p c)
  with assms show ?thesis by (auto simp: unregister_def lp_unregister_def waiting_def token_def in_set_remove1)
next
  case (Op_take_token c)
  with assms show ?thesis by (auto simp: take_token_def waiting_def token_def)
qed (use assms lp_ext_waiting [of s t path ch] Append_longPoll closeStream_longPoll CloseStreamWithProducer_longPoll in
  \<open>auto simp: CloseStream_def CloseStreamFenced_def dest!: Delete_longPoll Create_longPoll store_ReadPage_longPoll
     intro!: lp_ext_waiting\<close>)

definition wait_rel :: "string \<Rightarrow> nat \<Rightarrow> log_state \<Rightarrow> log_state \<Rightarrow> bool" where
  "wait_rel path ch x y \<longleftrightarrow>
     snd x \<subseteq> snd y \<and>
     (waiting path ch (fst x) \<longrightarrow>
        waiting path ch (fst y) \<and> (token ch (fst x) \<longrightarrow> token ch (fst y)) \<and>
        (token ch (fst y) \<or>
         (\<forall>b. ms_streams (fst y) path = Some b \<and> sm_Incarnation (st_metadata b) \<in> snd x \<longrightarrow>
            (\<exists>a. ms_streams (fst x) path = Some a \<and> same_view a b))))"

lemma wait_rel_refl: "wait_rel path ch x x"
  by (auto simp: wait_rel_def)

lemma wait_rel_trans:
  assumes "wait_rel path ch x y" and "wait_rel path ch y z"
  shows "wait_rel path ch x z"
proof -
  have "\<exists>a. ms_streams (fst x) path = Some a \<and> same_view a c"
    if "waiting path ch (fst x)" "\<not> token ch (fst z)" "ms_streams (fst z) path = Some c"
      "sm_Incarnation (st_metadata c) \<in> snd x" for c
  proof -
    from that assms have "waiting path ch (fst y)" "\<not> token ch (fst y)" "sm_Incarnation (st_metadata c) \<in> snd y"
      unfolding wait_rel_def by blast+
    with that assms(2) obtain b where b: "ms_streams (fst y) path = Some b" "same_view b c"
      unfolding wait_rel_def by blast
    then have "sm_Incarnation (st_metadata b) \<in> snd x" using that(4) by (simp add: same_view_def)
    with b that \<open>\<not> token ch (fst y)\<close> assms(1) obtain a where "ms_streams (fst x) path = Some a" "same_view a b"
      unfolding wait_rel_def by blast
    with b(2) show ?thesis by (blast intro: same_view_trans)
  qed
  with assms show ?thesis unfolding wait_rel_def by blast
qed

text \<open>A creation changes no view: it adds a stream under a fresh incarnation.\<close>

lemma createNew_view:
  assumes "createNew env p opts s = Some (r, t)" and "ms_streams t path = Some b"
  shows "(\<exists>a. ms_streams s path = Some a \<and> same_view a b) \<or> path = p \<and> fst (snd r) \<and> snd (snd r) = None"
  using assms(1)
proof (cases rule: createNew_streams)
  case refused
  with assms(2) show ?thesis by simp
next
  case (rolled_back src)
  with assms(2) show ?thesis by (cases "path = co_ForkedFrom opts") auto
next
  case (root st)
  with assms(2) show ?thesis by (cases "path = p") auto
next
  case (forked src off prefix st)
  note src = resolveFork_source [OF forked(3)]
  show ?thesis
  proof (cases "path = p")
    case False
    with forked(5) src assms(2) show ?thesis by (cases "path = co_ForkedFrom opts") auto
  qed (use forked(1) in simp)
qed

lemma Create_view:
  assumes "Create env p opts s = Some (r, t)" and "ms_streams t path = Some b"
  shows "(\<exists>a. ms_streams s path = Some a \<and> same_view a b) \<or>
    (\<exists>raw. env_rand env = Some raw \<and> path = p \<and> sm_Incarnation (st_metadata b) = hex_EncodeToString raw)"
proof -
  have new: ?thesis if "path = p" "fst (snd r)" "snd (snd r) = None"
  proof -
    from Create_cases [OF assms(1)] that(2,3) obtain raw where
      raw: "env_rand env = Some raw" "created p (hex_EncodeToString raw) s t" by auto
    then have "sm_Incarnation (st_metadata b) = hex_EncodeToString raw"
      using that(1) assms(2) by (auto simp: created_def)
    with raw(1) that(1) show ?thesis by blast
  qed
  from assms(1) consider "t = s" | "createNew env p opts s = Some (r, t)"
    | "createNew env p opts (delete_stream p s) = Some (r, t)"
    by (auto simp: Create_def split: option.splits if_splits)
  then show ?thesis
  proof cases
    case 1
    with assms(2) show ?thesis by simp
  next
    case 2
    from createNew_view [OF this assms(2)] show ?thesis
    proof
      assume "path = p \<and> fst (snd r) \<and> snd (snd r) = None"
      then show ?thesis using new by simp
    qed simp
  next
    case 3
    from createNew_view [OF this assms(2)] show ?thesis
    proof
      assume "path = p \<and> fst (snd r) \<and> snd (snd r) = None"
      then show ?thesis using new by simp
    qed (auto split: if_splits)
  qed
qed

lemma wait_step_rel:
  assumes "log_inv x" and "wait_step ch x eop y"
  shows "wait_rel path ch x y"
proof -
  obtain s U where x: "x = (s, U)" by fastforce
  obtain t V where y: "y = (t, V)" by fastforce
  obtain env op where eop: "eop = (env, op)" by fastforce
  have st: "log_step (s, U) (env, op) (t, V)" and ig: "op_ignores ch op"
    using assms(2) by (auto simp: wait_step_def x y eop)
  have ex: "exec env op s = Some t" using st by (simp add: log_step_def)
  have U: "U \<subseteq> V" using log_step_props [OF assms(1) assms(2) [unfolded wait_step_def, THEN conjunct1]]
    by (simp add: log_rel_def x y)
  have view: "\<exists>a. ms_streams s path = Some a \<and> same_view a b"
    if "waiting path ch s" "\<not> token ch t" "ms_streams t path = Some b" "sm_Incarnation (st_metadata b) \<in> U" for b
  proof (cases "is_create op")
    case False
    with exec_view [OF ex False, of path] that show ?thesis
      by (auto simp: view_step_def lp_wakes_def waiting_def token_def)
  next
    case True
    then obtain p opts where op: "op = Op_Create p opts" by (cases op) auto
    with ex obtain r where cr: "Create env p opts s = Some (r, t)" by auto
    from Create_view [OF cr that(3)] show ?thesis
    proof
      assume "\<exists>raw. env_rand env = Some raw \<and> path = p \<and> sm_Incarnation (st_metadata b) = hex_EncodeToString raw"
      with st op that(4) show ?thesis by (auto simp: log_step_def)
    qed
  qed
  show ?thesis
    unfolding wait_rel_def x y fst_conv snd_conv using U view exec_waiting [OF ex ig] by blast
qed

interpretation wait_machine: step_machine log_init "wait_step ch" log_inv for ch
  by unfold_locales (auto simp: wait_step_def intro: log_init_inv dest: log_step_props)

lemma wait_run_rel: "wait_machine.run ch x ops y \<Longrightarrow> log_inv x \<Longrightarrow> wait_rel path ch x y"
  by (rule wait_machine.run_relation [where R = "wait_rel path ch"])
     (auto intro: wait_rel_refl wait_rel_trans wait_step_rel)

end
