(* ===== verification/Store_Fencing.thy ===== *)
theory Store_Fencing
  imports Store_Runs
begin

text \<open>
  The write fence of the in-memory store over runs: a seal stays on its stream and only rises, so
  a sealed generation is refused on every later append, close and grant; and a fenced append
  commits only under the live marker of its own generation, wake and holder.
\<close>

section \<open>Seals over runs\<close>

definition sealed_at :: "memoryStream \<Rightarrow> string \<Rightarrow> int64 \<Rightarrow> bool" where
  "sealed_at st authority g \<longleftrightarrow>
     sm_WriteFence (st_metadata st) \<and> ws_Present (seal_of st authority) \<and> g \<le> ws_Generation (seal_of st authority)"

lemma sealed_at_extends:
  assumes "sealed_at a auth g" and "extends a b" and "stream_ok b"
  shows "sealed_at b auth g"
proof -
  from assms(1) obtain x where x: "st_seals a auth = Some x" "g \<le> ws_Generation x"
    by (auto simp: sealed_at_def seal_of_def WriteFenceSeal0_def split: option.splits)
  with assms(2) obtain y where y: "st_seals b auth = Some y" "y = x \<or> ws_Generation x < ws_Generation y"
    unfolding extends_def seals_le_def by blast
  moreover have "sm_WriteFence (st_metadata b)"
    using assms(1,2) by (auto simp: extends_def identity_of_def Let_def sealed_at_def)
  moreover have "ws_Present y" using assms(3) y(1) by (auto simp: stream_ok_def)
  ultimately show ?thesis using x by (auto simp: sealed_at_def seal_of_def)
qed

text \<open>A seal that was reported is on the stream.\<close>

lemma SealAppendFence_sealed:
  assumes "SealAppendFence env path f s = (Inr res, t)" and "sr_Outcome res = SealSealed \<or> sr_Outcome res = SealAlready"
  shows "\<exists>st. ms_streams t path = Some st \<and> sealed_at st (FenceAuthority f) (af_Generation f)"
proof -
  obtain ok u where tb: "tombstone env path (FenceAuthority f) f s = (ok, u)" by fastforce
  have fc: "fence_Complete f" using assms(1) by (auto simp: SealAppendFence_def split: if_splits)
  have ok: "ok" using assms fc tb by (auto simp: SealAppendFence_def SealResult0_def Let_def split: if_splits)
  obtain st where st: "ms_streams u path = Some st" "sm_WriteFence (st_metadata st)"
    using assms fc tb ok by (auto simp: SealAppendFence_def SealResult0_def Let_def split: option.splits if_splits)
  show ?thesis
  proof (cases "ws_Present (seal_of st (FenceAuthority f)) \<and> af_Generation f \<le> ws_Generation (seal_of st (FenceAuthority f))")
    case True
    with assms(1) fc tb ok st have "t = u" by (auto simp: SealAppendFence_def Let_def)
    with True st show ?thesis by (auto simp: sealed_at_def)
  next
    case False
    with assms(1) fc tb ok st
    have "t = put_stream path (snd (stream_seal (FenceAuthority f) (af_Generation f) (af_WakeID f) st)) u"
      by (auto simp: SealAppendFence_def Let_def split: prod.splits)
    then show ?thesis using st by (auto simp: sealed_at_def seal_of_def stream_seal_def Let_def)
  qed
qed

lemma fenceRung_sealed:
  assumes "sealed_at st (FenceAuthority g) (af_Generation g)"
  shows "wo_Reason (fst (fenceRung env path st (Some g) pid e s)) = FenceSealed"
  using assms
  by (auto simp: fenceRung_def Let_def case_prod_beta EvaluateWriteFence_fenced sealed_for_def sealed_at_def
      split: option.splits)

lemma Append_sealed:
  assumes "Append env path data opts s = (r, t)" and "ms_streams s path = Some st" and "ao_Fence opts = Some g"
    and "sealed_at st (FenceAuthority g) (af_Generation g)"
  shows "snd r \<noteq> None \<and> ms_streams t = ms_streams s"
proof -
  define s0 where "s0 = (if HasAllProducerHeaders opts then getProducerLock path (ao_ProducerId opts) s else s)"
  have s0: "ms_streams s0 = ms_streams s" by (simp add: s0_def)
  note rung = fenceRung_sealed [OF assms(4), of env path "ao_ProducerId opts" "ao_ProducerEpoch opts" s0]
  show ?thesis
    using assms(1,2,3) rung s0 unfolding Append_def Let_def s0_def [symmetric] case_prod_beta
    by (auto split: if_splits)
qed

lemma CloseStreamFenced_sealed:
  assumes "CloseStreamFenced env path g s = (r, t)" and "ms_streams s path = Some st"
    and "sealed_at st (FenceAuthority g) (af_Generation g)"
  shows "snd r \<noteq> None \<and> ms_streams t = ms_streams s"
  using assms fenceRung_sealed [OF assms(3), of env path "''''" None s]
  by (auto simp: CloseStreamFenced_def closeStream_def case_prod_beta split: if_splits)

lemma GrantAppendFence_sealed:
  assumes "ms_streams s path = Some st" and "sealed_at st (FenceAuthority g) (af_Generation g)"
    and "sm_Incarnation (st_metadata st) \<noteq> ''''"
  shows "GrantAppendFence env path g s = ((False, Some ErrAppendFenced), s)"
  using assms by (auto simp: GrantAppendFence_def Let_def sealed_at_def)

section \<open>Granted fences\<close>

text \<open>A fenced append commits only under the marker the last successful grant left.\<close>

lemma Append_marker:
  assumes "Append env path data opts s = (r, t)" and "snd r = None"
    and "ar_ProducerResult (fst r) \<noteq> ProducerResultDuplicate"
    and "ao_Fence opts = Some g"
  shows "\<exists>m. ms_markers s path (FenceAuthority g) = Some m \<and> wm_State (mm_marker m) = WriteFenceMarkerLive \<and>
    wm_Generation (mm_marker m) = af_Generation g \<and> wm_WakeID (mm_marker m) = af_WakeID g \<and>
    wm_Holder (mm_marker m) = af_Holder g \<and> time_unix_nano (env_now env) < wm_LeaseUntilNs (mm_marker m) \<and>
    (\<exists>st. ms_streams s path = Some st \<and> wm_StreamIncarnation (mm_marker m) = sm_Incarnation (st_metadata st) \<and>
       (sm_WriteFence (st_metadata st) \<longrightarrow> ao_ProducerEpoch opts = Some (af_Generation g)))"
  using assms(1)
proof (cases rule: Append_cases)
  case (accepted st ps off st1 u)
  from accepted(4) assms(4) have
    "wo_Reason (EvaluateWriteFence
       \<lparr>wi_StreamFenced = sm_WriteFence (st_metadata st), wi_StreamIncarnation = sm_Incarnation (st_metadata st),
        wi_Fence = Some g, wi_Marker = fst (store_marker env path (FenceAuthority g) s),
        wi_Seal = seal_of st (FenceAuthority g), wi_NowNs = time_unix_nano (env_now env),
        wi_HasProducer = (ao_ProducerEpoch opts \<noteq> None),
        wi_ProducerEpoch = (case ao_ProducerEpoch opts of None \<Rightarrow> 0 | Some e \<Rightarrow> e),
        wi_BoundGeneration = 0\<rparr>) = FenceNone"
    by (auto simp: fenceRung_def Let_def case_prod_beta split: option.splits)
  then have m: "wm_Present (fst (store_marker env path (FenceAuthority g) s))"
      "wm_State (fst (store_marker env path (FenceAuthority g) s)) = WriteFenceMarkerLive"
      "wm_Generation (fst (store_marker env path (FenceAuthority g) s)) = af_Generation g"
      "wm_WakeID (fst (store_marker env path (FenceAuthority g) s)) = af_WakeID g"
      "wm_Holder (fst (store_marker env path (FenceAuthority g) s)) = af_Holder g"
      "time_unix_nano (env_now env) < wm_LeaseUntilNs (fst (store_marker env path (FenceAuthority g) s))"
      "wm_StreamIncarnation (fst (store_marker env path (FenceAuthority g) s)) = sm_Incarnation (st_metadata st)"
      "sm_WriteFence (st_metadata st) \<longrightarrow> ao_ProducerEpoch opts = Some (af_Generation g)"
    by (auto simp: EvaluateWriteFence_accept_fenced marker_matches_def Let_def split: option.splits)
  then obtain x where "ms_markers s path (FenceAuthority g) = Some x"
      "fst (store_marker env path (FenceAuthority g) s) = mm_marker x"
    by (auto simp: store_marker_def WriteFenceMarker0_def split: option.splits if_splits)
  with m accepted(1) show ?thesis by auto
qed (use assms in auto)

end
