(* ===== verification/Store_Demo.thy ===== *)
theory Store_Demo
  imports Store_Pages Store_Wakeups Store_Fencing
begin

text \<open>
  Concrete environments, options and short runs of the store: inputs on which the theorems about
  runs are instantiated.
\<close>

section \<open>Inputs\<close>

definition env_at :: "int \<Rightarrow> bytes \<Rightarrow> store_env" where
  "env_at t raw = \<lparr>env_now = \<lparr>tm_sec = t, tm_nsec = 0\<rparr>, env_wall = \<lparr>tm_sec = t, tm_nsec = 0\<rparr>,
                   env_rand = Some raw, env_fold = (\<lambda>_ _. False)\<rparr>"

definition opts_with :: "int64 option \<Rightarrow> bytes \<Rightarrow> string \<Rightarrow> CreateOptions" where
  "opts_with ttl data source =
     \<lparr>co_ContentType = '''', co_TTLSeconds = ttl, co_ExpiresAt = None, co_InitialData = data,
      co_Closed = False, co_WriteFence = False, co_ForkedFrom = source, co_ForkOffset = None,
      co_ForkSubOffset = None\<rparr>"

fun exec_all :: "(store_env \<times> store_op) list \<Rightarrow> MemoryStore \<Rightarrow> MemoryStore option" where
  "exec_all [] s = Some s"
| "exec_all ((env, op) # ops) s = Option.bind (exec env op s) (exec_all ops)"

lemma hex_demo:
  "hex_EncodeToString ''A'' = ''41''" "hex_EncodeToString ''B'' = ''42''" "hex_EncodeToString ''C'' = ''43''"
  by code_simp+

lemmas create_eval =
  Create_def createNew_def NewIncarnationID_def finishCreate_def appendToStream_def resolveFork_def
  new_metadata_def fork_metadata_def resolveForkExpiry_def empty_stream_def materialize_prefix_def
  isExpired_def IsExpiredAt_def put_stream_def delete_stream_def env_at_def opts_with_def
  NewMemoryStore_def Let_def i64_def i32_def wrap_signed_def hex_demo

lemma octet_stream_not_json: "IsJSONContentType ''application/octet-stream'' = False"
  by code_simp

lemma after_one_byte: "Add ZeroOffset 1 = Offset 0 1" "ZeroOffset < Offset 0 1"
  by (simp_all add: offset_less_iff ZeroOffset_def Add_def)

lemmas demo_eval = create_eval octet_stream_not_json after_one_byte

definition append_with :: "string \<Rightarrow> int64 option \<Rightarrow> int64 option \<Rightarrow> AppendFence option \<Rightarrow> AppendOptions" where
  "append_with pid epoch seq fence =
     \<lparr>ao_Seq = '''', ao_ContentType = '''', ao_Close = False, ao_ProducerId = pid, ao_ProducerEpoch = epoch,
      ao_ProducerSeq = seq, ao_Fence = fence, ao_TailHint = None\<rparr>"

section \<open>A stream, a fork of it, an append to the source\<close>

definition demo_meta :: "int \<Rightarrow> string \<Rightarrow> string \<Rightarrow> StreamMetadata" where
  "demo_meta t path inc = new_metadata (env_at t []) path inc ''application/octet-stream'' (opts_with None '''' '''')"

definition stream_a :: memoryStream where
  "stream_a = (empty_stream ((demo_meta 0 ''/a'' ''41'')\<lparr>sm_CurrentOffset := Offset 0 1\<rparr>))
     \<lparr>st_messages := [\<lparr>msg_Data = ''x'', msg_Offset = Offset 0 1\<rparr>], st_data := ''x''\<rparr>"

definition stream_b :: memoryStream where
  "stream_b = empty_stream ((demo_meta 1 ''/b'' ''42'')
     \<lparr>sm_CurrentOffset := Offset 0 1, sm_ForkedFrom := ''/a'', sm_ForkOffset := Offset 0 1\<rparr>)"

definition demo_a :: MemoryStore where
  "demo_a = NewMemoryStore\<lparr>ms_streams := [''/a'' \<mapsto> stream_a]\<rparr>"

definition demo_ab :: MemoryStore where
  "demo_ab = NewMemoryStore\<lparr>ms_streams :=
     [''/a'' \<mapsto> upd_meta (sm_RefCount_update (\<lambda>_. 1)) stream_a, ''/b'' \<mapsto> stream_b]\<rparr>"

definition append_opts :: AppendOptions where
  "append_opts = append_with ''p'' (Some 0) (Some 0) None"

definition demo_aby :: MemoryStore where
  "demo_aby = snd (Append (env_at 2 []) ''/a'' ''y'' append_opts demo_ab)"

definition stream_ay :: memoryStream where
  "stream_ay = stream_a\<lparr>st_metadata := (st_metadata stream_a)
       \<lparr>sm_CurrentOffset := Offset 0 2, sm_LastAccessedAt := \<lparr>tm_sec = 2, tm_nsec = 0\<rparr>, sm_RefCount := 1,
        sm_Producers := [''p'' \<mapsto> \<lparr>ps_Epoch = 0, ps_LastSeq = 0, ps_LastUpdated = 2\<rparr>]\<rparr>,
     st_messages := [\<lparr>msg_Data = ''x'', msg_Offset = Offset 0 1\<rparr>, \<lparr>msg_Data = ''y'', msg_Offset = Offset 0 2\<rparr>],
     st_data := ''xy''\<rparr>"

lemmas demo_streams = stream_a_def stream_b_def stream_ay_def demo_meta_def

lemma exec_demo_a: "exec (env_at 0 ''A'') (Op_Create ''/a'' (opts_with None ''x'' '''')) NewMemoryStore = Some demo_a"
  by (simp add: demo_a_def demo_eval demo_streams)

lemma exec_demo_ab: "exec (env_at 1 ''B'') (Op_Create ''/b'' (opts_with None '''' ''/a'')) demo_a = Some demo_ab"
  by (simp add: demo_a_def demo_ab_def demo_eval demo_streams fun_upd_twist)

lemma append_demo:
  "fst (Append (env_at 2 []) ''/a'' ''y'' append_opts demo_ab) = (accepted_result append_opts (Offset 0 2), None)"
  "ms_streams demo_aby = [''/a'' \<mapsto> stream_ay, ''/b'' \<mapsto> stream_b]"
  by (simp_all add: demo_aby_def demo_ab_def demo_eval demo_streams append_opts_def append_with_def Append_def append_open_def
      append_data_def append_commit_def commit_stream_def HasProducerHeaders_def HasAllProducerHeaders_def
      fenceRung_def validateProducer_def ValidateProducer_def stream_bind_def getProducerLock_def accepted_result_def
      notify_def AppendResult0_def WriteFenceOutcome0_def Add_def fun_upd_twist)

section \<open>The runs\<close>

lemma step_demo_a: "safe_step (NewMemoryStore, {}) (env_at 0 ''A'', Op_Create ''/a'' (opts_with None ''x'' '''')) (demo_a, {''41''})"
  unfolding safe_step_def log_step_def fst_conv snd_conv exec_demo_a
  by (simp add: env_at_def hex_demo within_limits_def demo_a_def NewMemoryStore_def create_safe_def
      stream_fits_def stream_a_def empty_stream_def demo_meta_def new_metadata_def ZeroOffset_def)

lemma step_demo_ab: "safe_step (demo_a, {''41''}) (env_at 1 ''B'', Op_Create ''/b'' (opts_with None '''' ''/a'')) (demo_ab, {''42'', ''41''})"
  unfolding safe_step_def log_step_def fst_conv snd_conv exec_demo_ab
  by (simp add: env_at_def hex_demo within_limits_def demo_ab_def demo_a_def NewMemoryStore_def create_safe_def
      stream_fits_def stream_a_def stream_b_def empty_stream_def demo_meta_def new_metadata_def ZeroOffset_def insert_commute)

lemma step_demo_aby: "safe_step (demo_ab, {''42'', ''41''}) (env_at 2 [], Op_Append ''/a'' ''y'' append_opts) (demo_aby, {''42'', ''41''})"
  unfolding safe_step_def log_step_def fst_conv snd_conv within_limits_def append_demo(2)
  by (simp add: demo_aby_def stream_fits_def stream_ay_def stream_a_def stream_b_def empty_stream_def demo_meta_def
      new_metadata_def ZeroOffset_def)

lemmas demo_steps = step_demo_a step_demo_ab step_demo_aby

lemma log_demo [simp]: "log_init (NewMemoryStore, {})"
  by (simp add: log_init_def)

lemma run_demo_ab:
  "store_machine.run (NewMemoryStore, {})
     [(env_at 0 ''A'', Op_Create ''/a'' (opts_with None ''x'' '''')),
      (env_at 1 ''B'', Op_Create ''/b'' (opts_with None '''' ''/a''))] (demo_ab, {''42'', ''41''})"
  by (rule store_machine.run_Cons [OF step_demo_a store_machine.run_Cons [OF step_demo_ab store_machine.run_Nil]])

lemma run_demo_aby:
  "store_machine.run (demo_ab, {''42'', ''41''}) [(env_at 2 [], Op_Append ''/a'' ''y'' append_opts)]
     (demo_aby, {''42'', ''41''})"
  by (rule store_machine.run_Cons [OF step_demo_aby store_machine.run_Nil])

lemma safe_run_log: "store_machine.run x ops y \<Longrightarrow> log_machine.run x ops y"
  by (induction rule: store_machine.run.induct)
     (auto simp: safe_step_def intro: log_machine.run.intros)

lemmas log_demo_ab = safe_run_log [OF run_demo_ab]
lemmas log_demo_aby = safe_run_log [OF run_demo_aby]

lemma demo_lookup [simp]:
  "ms_streams demo_ab ''/a'' = Some (upd_meta (sm_RefCount_update (\<lambda>_. 1)) stream_a)"
  "ms_streams demo_ab ''/b'' = Some stream_b"
  "ms_streams demo_aby ''/a'' = Some stream_ay" "ms_streams demo_aby ''/b'' = Some stream_b"
  by (simp_all add: demo_ab_def append_demo)

lemma demo_incarnation [simp]:
  "sm_Incarnation (st_metadata stream_a) = ''41''" "sm_Incarnation (st_metadata stream_ay) = ''41''"
  "sm_Incarnation (st_metadata stream_b) = ''42''"
  by (simp_all add: demo_streams empty_stream_def new_metadata_def)

lemma demo_sel [simp]:
  "sm_CurrentOffset (st_metadata stream_a) = Offset 0 1" "sm_CurrentOffset (st_metadata stream_ay) = Offset 0 2"
  "sm_CurrentOffset (st_metadata stream_b) = Offset 0 1"
  "st_messages stream_a = [\<lparr>msg_Data = ''x'', msg_Offset = Offset 0 1\<rparr>]"
  "st_messages stream_ay = [\<lparr>msg_Data = ''x'', msg_Offset = Offset 0 1\<rparr>, \<lparr>msg_Data = ''y'', msg_Offset = Offset 0 2\<rparr>]"
  "st_messages stream_b = []"
  "sm_ForkedFrom (st_metadata stream_a) = ''''" "sm_ForkedFrom (st_metadata stream_ay) = ''''"
  "sm_ForkedFrom (st_metadata stream_b) = ''/a''" "sm_ForkOffset (st_metadata stream_b) = Offset 0 1"
  "sm_Closed (st_metadata stream_a) = False" "sm_SoftDeleted (st_metadata stream_a) = False"
  "sm_SoftDeleted (st_metadata stream_ay) = False" "sm_SoftDeleted (st_metadata stream_b) = False"
  "sm_TTLSeconds (st_metadata stream_b) = None" "sm_ExpiresAt (st_metadata stream_b) = None"
  "sm_TTLSeconds (st_metadata stream_ay) = None" "sm_ExpiresAt (st_metadata stream_ay) = None"
  by (simp_all add: demo_streams empty_stream_def new_metadata_def opts_with_def)

lemma demo_readable [simp]: "readable env stream_b" "readable env stream_ay" "readable env (touch env' stream_b)"
  by (simp_all add: readable_def isExpired_def IsExpiredAt_def)

section \<open>A write-fenced stream\<close>

definition fence_demo :: AppendFence where
  "fence_demo = \<lparr>af_SubscriptionID = ''s'', af_SubscriptionIncarnation = ''i'', af_Shard = 0, af_Generation = 1,
     af_WakeID = ''w'', af_Holder = ''h'', af_LeaseUntilNs = 10000000000\<rparr>"

definition stream_f :: memoryStream where
  "stream_f = empty_stream (new_metadata (env_at 0 []) ''/f'' ''41'' ''application/octet-stream''
     ((opts_with None '''' '''')\<lparr>co_WriteFence := True\<rparr>))"

definition demo_f :: MemoryStore where
  "demo_f = NewMemoryStore\<lparr>ms_streams := [''/f'' \<mapsto> stream_f]\<rparr>"

definition demo_sealed :: MemoryStore where
  "demo_sealed = snd (SealAppendFence (env_at 1 []) ''/f'' fence_demo demo_f)"

definition demo_granted :: MemoryStore where
  "demo_granted = snd (GrantAppendFence (env_at 1 []) ''/f'' fence_demo demo_f)"

definition fenced_opts :: AppendOptions where
  "fenced_opts = append_with ''p'' (Some 1) (Some 0) (Some fence_demo)"

lemma exec_demo_f:
  "exec (env_at 0 ''A'') (Op_Create ''/f'' ((opts_with None '''' '''')\<lparr>co_WriteFence := True\<rparr>)) NewMemoryStore = Some demo_f"
  by (simp add: demo_f_def stream_f_def demo_eval)

lemma log_demo_f:
  "log_machine.run (NewMemoryStore, {})
     [(env_at 0 ''A'', Op_Create ''/f'' ((opts_with None '''' '''')\<lparr>co_WriteFence := True\<rparr>))] (demo_f, {''41''})"
  using exec_demo_f
  by (intro log_machine.run_Cons [OF _ log_machine.run_Nil]) (simp add: log_step_def env_at_def hex_demo del: exec.simps)

lemmas fence_eval =
  fence_demo_def fence_Complete_def tombstone_def store_marker_def setMarker_def stream_seal_def seal_of_def
  WriteFenceMarker0_def WriteFenceSeal0_def Let_def demo_f_def NewMemoryStore_def stream_f_def empty_stream_def
  new_metadata_def opts_with_def

lemma seal_demo:
  "fst (SealAppendFence (env_at 1 []) ''/f'' fence_demo demo_f) =
     Inr \<lparr>sr_Outcome = SealSealed, sr_Generation = 1, sr_FinalOffset = ZeroOffset\<rparr>"
  by (simp add: SealAppendFence_def fence_eval)

lemma grant_demo:
  "fst (GrantAppendFence (env_at 1 []) ''/f'' fence_demo demo_f) = (True, None)"
  by (simp add: GrantAppendFence_def fence_eval env_at_def time_unix_nano_def i64_def wrap_signed_def)

lemma granted_demo:
  "ms_streams demo_granted ''/f'' = Some stream_f"
  "ms_markers demo_granted ''/f'' (FenceAuthority fence_demo) =
     Some \<lparr>mm_marker = \<lparr>wm_Present = True, wm_State = WriteFenceMarkerLive, wm_Generation = 1, wm_WakeID = ''w'',
        wm_Holder = ''h'', wm_LeaseUntilNs = 10000000000, wm_StreamIncarnation = ''41''\<rparr>,
       mm_expiresAt = time_add (time_add \<lparr>tm_sec = 1, tm_nsec = 0\<rparr> 9000000000) appendFenceRetention\<rparr>"
  by (simp_all add: demo_granted_def GrantAppendFence_def fence_eval env_at_def time_unix_nano_def i64_def wrap_signed_def)

lemma fence_demo_sel [simp]:
  "fence_Complete fence_demo" "af_Generation fence_demo = 1" "af_WakeID fence_demo = ''w''" "af_Holder fence_demo = ''h''"
  "sm_Incarnation (st_metadata stream_f) = ''41''" "st_seals stream_f = Map.empty"
  "sm_WriteFence (st_metadata stream_f)" "sm_SoftDeleted (st_metadata stream_f) = False"
  "sm_Closed (st_metadata stream_f) = False" "sm_TTLSeconds (st_metadata stream_f) = None"
  "sm_ExpiresAt (st_metadata stream_f) = None" "sm_Producers (st_metadata stream_f) = Map.empty"
  "sm_LastSeq (st_metadata stream_f) = ''''" "sm_ContentType (st_metadata stream_f) = ''application/octet-stream''"
  "sm_CurrentOffset (st_metadata stream_f) = ZeroOffset" "st_lastFencedOff stream_f = None" "st_messages stream_f = []"
  by (simp_all add: fence_demo_def fence_Complete_def stream_f_def empty_stream_def new_metadata_def opts_with_def)

lemma fenced_rung_demo:
  "wo_Reason (fst (fenceRung (env_at 2 []) ''/f'' stream_f (Some fence_demo) ''p'' (Some 1) (getProducerLock ''/f'' ''p'' demo_granted))) = FenceNone"
  by (simp add: fenceRung_def granted_demo store_marker_def getProducerLock_def EvaluateWriteFence_def WriteFenceOutcome0_def
      time_add_def time_after_def appendFenceRetention_def env_at_def time_unix_nano_def i64_def wrap_signed_def Let_def
      seal_of_def WriteFenceSeal0_def)

lemma fenced_append_demo:
  "snd (fst (Append (env_at 2 []) ''/f'' ''z'' fenced_opts demo_granted)) = None \<and>
   ar_ProducerResult (fst (fst (Append (env_at 2 []) ''/f'' ''z'' fenced_opts demo_granted))) = ProducerResultAccepted"
  using fenced_rung_demo
  by (simp add: Append_def fenced_opts_def append_with_def HasProducerHeaders_def HasAllProducerHeaders_def
      isExpired_def IsExpiredAt_def case_prod_beta append_open_def append_data_def append_commit_def
      validateProducer_def ValidateProducer_def octet_stream_not_json appendToStream_def WriteFenceOutcome0_def granted_demo
      accepted_result_def AppendResult0_def Let_def)

end
