(* ===== verification/Redis_Memory.thy ===== *)
theory Redis_Memory
  imports Redis_Server "HOL-Library.AList"
begin

text \<open>
  A server that executes: keys and their values in association lists, every command computed.  It
  meets the contract of \<^verbatim>\<open>redis_server\<close>, so the theorems about the control plane apply to runs that
  can be evaluated.
\<close>

datatype mem_value =
    MHash "(string \<times> string) list"
  | MString string
  | MSet "string list"
  | MZSet "(string \<times> int) list"

type_synonym mem = "(string \<times> mem_value) list"

fun mem_abs :: "mem_value option \<Rightarrow> rvalue" where
  "mem_abs None = RNone"
| "mem_abs (Some (MHash h)) = (if h = [] then RNone else RHash (map_of h))"
| "mem_abs (Some (MString x)) = RString x"
| "mem_abs (Some (MSet x)) = (if x = [] then RNone else RSet (set x))"
| "mem_abs (Some (MZSet z)) = (if z = [] then RNone else RZSet (map_of z))"

lemma mem_abs_mk [simp]:
  "mem_abs (Some (MHash h)) = mk_hash (map_of h)" "mem_abs (Some (MSet x)) = mk_set (set x)" "mem_abs (Some (MZSet z)) = mk_zset (map_of z)"
  by (auto simp: mk_hash_def mk_set_def mk_zset_def)

declare mem_abs.simps(2,4,5) [simp del]

fun mem_hash :: "mem_value option \<Rightarrow> (string \<times> string) list option" where
  "mem_hash None = Some []"
| "mem_hash (Some (MHash h)) = Some h"
| "mem_hash (Some (MString _)) = None"
| "mem_hash (Some (MSet x)) = (if x = [] then Some [] else None)"
| "mem_hash (Some (MZSet z)) = (if z = [] then Some [] else None)"

fun mem_set :: "mem_value option \<Rightarrow> string list option" where
  "mem_set None = Some []"
| "mem_set (Some (MSet x)) = Some x"
| "mem_set (Some (MString _)) = None"
| "mem_set (Some (MHash h)) = (if h = [] then Some [] else None)"
| "mem_set (Some (MZSet z)) = (if z = [] then Some [] else None)"

fun mem_zset :: "mem_value option \<Rightarrow> (string \<times> int) list option" where
  "mem_zset None = Some []"
| "mem_zset (Some (MZSet z)) = Some z"
| "mem_zset (Some (MString _)) = None"
| "mem_zset (Some (MHash h)) = (if h = [] then Some [] else None)"
| "mem_zset (Some (MSet x)) = (if x = [] then Some [] else None)"

fun mem_string :: "mem_value option \<Rightarrow> string option option" where
  "mem_string None = Some None"
| "mem_string (Some (MString x)) = Some (Some x)"
| "mem_string (Some (MHash h)) = (if h = [] then Some None else None)"
| "mem_string (Some (MSet x)) = (if x = [] then Some None else None)"
| "mem_string (Some (MZSet z)) = (if z = [] then Some None else None)"

lemma mem_views:
  "mem_hash v = Some h \<Longrightarrow> hash_of (mem_abs v) = Some (map_of h)"
  "mem_set v = Some x \<Longrightarrow> set_of (mem_abs v) = Some (set x)"
  "mem_zset v = Some z \<Longrightarrow> zset_of (mem_abs v) = Some (map_of z)"
  "mem_string v = Some (Some y) \<Longrightarrow> mem_abs v = RString y"
  "mem_string v = Some None \<Longrightarrow> mem_abs v = RNone"
  by (cases v rule: mem_abs.cases; auto simp: mk_hash_def mk_set_def mk_zset_def split: if_splits)+

text \<open>The canonical number an absent or present field counts from.\<close>

definition counter_value :: "string option \<Rightarrow> int option" where
  "counter_value v =
     (case v of
        None \<Rightarrow> Some 0
      | Some x \<Rightarrow> (case ParseInt x of Inr n \<Rightarrow> if x = FormatInt n \<and> is_i64 n then Some n else None | Inl _ \<Rightarrow> None))"

lemma counter_value_Some: "counter_value v = Some n \<Longrightarrow> (v = None \<and> n = 0 \<or> v = Some (FormatInt n)) \<and> is_i64 n"
  by (auto simp: counter_value_def is_i64_def split: option.splits sum.splits if_splits)

definition set_bit_in :: "string \<Rightarrow> nat \<Rightarrow> string" where
  "set_bit_in b n =
     (let i = n div 8; p = 2 ^ (7 - n mod 8); b' = b @ replicate (Suc i - length b) (CHR 0x00); d = of_char (b' ! i) :: nat
      in if d div p mod 2 = 1 then b' else b'[i := char_of (d + p)])"

fun val_call :: "rcmd \<Rightarrow> mem_value option \<Rightarrow> (rreply \<times> mem_value option) option" where
  "val_call (EXISTS k) v = Some (RepInt (if mem_string v = Some None then 0 else 1), v)"
| "val_call (DEL k) v = Some (RepInt (if mem_string v = Some None then 0 else 1), None)"
| "val_call (HGET k f) v =
     map_option (\<lambda>h. (case map_of h f of None \<Rightarrow> RepNil | Some x \<Rightarrow> RepBulk x, v)) (mem_hash v)"
| "val_call (HEXISTS k f) v = map_option (\<lambda>h. (RepInt (if map_of h f = None then 0 else 1), v)) (mem_hash v)"
| "val_call (HLEN k) v = map_option (\<lambda>h. (RepInt (int (length (AList.clearjunk h))), v)) (mem_hash v)"
| "val_call (HGETALL k) v = map_option (\<lambda>h. (RepMap (AList.clearjunk h), v)) (mem_hash v)"
| "val_call (HSET k fvs) v =
     map_option (\<lambda>h. (RepInt (int (length [f \<leftarrow> remdups (map fst fvs). map_of h f = None])), Some (MHash (rev fvs @ h)))) (mem_hash v)"
| "val_call (HDEL k f) v =
     map_option (\<lambda>h. (RepInt (if map_of h f = None then 0 else 1), Some (MHash (AList.delete f h)))) (mem_hash v)"
| "val_call (HINCRBY k f n) v =
     (case mem_hash v of
        None \<Rightarrow> None
      | Some h \<Rightarrow> (case counter_value (map_of h f) of
                     None \<Rightarrow> None
                   | Some old \<Rightarrow> if is_i64 (old + n) then Some (RepInt (old + n), Some (MHash ((f, FormatInt (old + n)) # h))) else None))"
| "val_call (INCR k) v =
     (case mem_string v of
        None \<Rightarrow> None
      | Some x \<Rightarrow> (case counter_value x of
                     None \<Rightarrow> None
                   | Some old \<Rightarrow> if is_i64 (old + 1) then Some (RepInt (old + 1), Some (MString (FormatInt (old + 1)))) else None))"
| "val_call (SETBIT k n) v =
     map_option (\<lambda>x. let b = (case x of None \<Rightarrow> '''' | Some b \<Rightarrow> b)
                     in (RepInt (if set_bit_in b n = b then 1 else 0), Some (MString (set_bit_in b n)))) (mem_string v)"
| "val_call (GET k) v = map_option (\<lambda>x. (case x of None \<Rightarrow> RepNil | Some b \<Rightarrow> RepBulk b, v)) (mem_string v)"
| "val_call (SADD k m) v = map_option (\<lambda>x. (RepInt (if m \<in> set x then 0 else 1), Some (MSet (List.insert m x)))) (mem_set v)"
| "val_call (SREM k m) v = map_option (\<lambda>x. (RepInt (if m \<in> set x then 1 else 0), Some (MSet (removeAll m x)))) (mem_set v)"
| "val_call (SMEMBERS k) v = map_option (\<lambda>x. (RepList (remdups x), v)) (mem_set v)"
| "val_call (ZADD k sc m) v =
     map_option (\<lambda>z. (RepInt (if map_of z m = None then 1 else 0), Some (MZSet ((m, sc) # z)))) (mem_zset v)"
| "val_call (ZREM k m) v =
     map_option (\<lambda>z. (RepInt (if map_of z m = None then 0 else 1), Some (MZSet (AList.delete m z)))) (mem_zset v)"
| "val_call (ZRANGEBYSCORE k mx lim) v =
     map_option (\<lambda>z. let due = map fst (sort_key snd [e \<leftarrow> AList.clearjunk z. snd e \<le> mx])
                     in (RepList (if lim < 0 then due else take (nat lim) due), v)) (mem_zset v)"
| "val_call (ZRANGE k) v = map_option (\<lambda>z. (RepList (map fst (sort_key snd (AList.clearjunk z))), v)) (mem_zset v)"
| "val_call (HMGET k fs) v = map_option (\<lambda>h. (RepOpts (map (map_of h) fs), v)) (mem_hash v)"
| "val_call (HSETNX k f x) v =
     map_option (\<lambda>h. (RepInt (if map_of h f = None then 1 else 0), Some (MHash (if map_of h f = None then (f, x) # h else h)))) (mem_hash v)"
| "val_call (ZADDS k ms) v =
     map_option (\<lambda>z. (RepInt (int (length [m \<leftarrow> remdups (map snd ms). map_of z m = None])),
                      Some (MZSet (rev (map (\<lambda>(sc, m). (m, sc)) ms) @ z)))) (mem_zset v)"
| "val_call (ZCARD k) v = map_option (\<lambda>z. (RepInt (int (length (AList.clearjunk z))), v)) (mem_zset v)"
| "val_call (ZRANGEBYLEX k lo hi n) v =
     map_option (\<lambda>z. (RepList (take n (sort [m \<leftarrow> map fst (AList.clearjunk z). lex_above lo m \<and> lex_below hi m])), v)) (mem_zset v)"
| "val_call (PERSIST k) v = Some (RepInt 0, v)"
| "val_call (PEXPIRE k ms) v =
     Some (RepInt (if mem_string v = Some None then 0 else 1), if ms \<le> 0 then None else v)"
| "val_call (PUBLISH ch x) v = Some (RepInt 0, v)"

lemma mem_absent: "mem_string v = Some None \<longleftrightarrow> mem_abs v = RNone"
  by (cases v rule: mem_abs.cases) (auto simp: mk_hash_def mk_set_def mk_zset_def)

lemma clearjunk_facts:
  "map_of (AList.clearjunk h) = map_of h" "distinct (map fst (AList.clearjunk h))" "length (AList.clearjunk h) = card (dom (map_of h))"
proof -
  show m: "map_of (AList.clearjunk h) = map_of h" by (rule map_of_clearjunk)
  show d: "distinct (map fst (AList.clearjunk h))" by (rule distinct_clearjunk)
  show "length (AList.clearjunk h) = card (dom (map_of h))"
    using distinct_card [OF d] m by (metis dom_map_of_conv_image_fst length_map set_map)
qed

lemma mk_nonempty [simp]:
  "mk_hash (h(f \<mapsto> x)) = RHash (h(f \<mapsto> x))" "mk_set (insert m s) = RSet (insert m s)" "mk_zset (z(m \<mapsto> sc)) = RZSet (z(m \<mapsto> sc))"
  by (auto simp: mk_hash_def mk_set_def mk_zset_def)

lemma val_call_hash:
  assumes "val_call c v = Some (r, w)" and "\<exists>k f n fvs. c \<in> {HLEN k, HGETALL k, HSET k fvs, HDEL k f, HINCRBY k f n}"
  shows "cmd_rel c (mem_abs v) r (mem_abs w)"
  using assms
  by (auto simp: clearjunk_facts delete_conv' dest!: mem_views(1) counter_value_Some split: option.splits if_splits)

lemma val_call_HGET:
  assumes "val_call (HGET k f) v = Some (r, w)"
  shows "cmd_rel (HGET k f) (mem_abs v) r (mem_abs w)"
proof -
  obtain h where "mem_hash v = Some h" "w = v" using assms by auto
  moreover from mem_views(1) [OF this(1)] have "hash_of (mem_abs v) = Some (map_of h)" .
  ultimately show ?thesis using assms by auto
qed

lemma val_call_HEXISTS:
  assumes "val_call (HEXISTS k f) v = Some (r, w)"
  shows "cmd_rel (HEXISTS k f) (mem_abs v) r (mem_abs w)"
proof -
  obtain h where "mem_hash v = Some h" "w = v" using assms by auto
  moreover from mem_views(1) [OF this(1)] have "hash_of (mem_abs v) = Some (map_of h)" .
  ultimately show ?thesis using assms by auto
qed

lemma val_call_ZRANGEBYSCORE:
  assumes "val_call (ZRANGEBYSCORE k mx lim) v = Some (r, w)"
  shows "cmd_rel (ZRANGEBYSCORE k mx lim) (mem_abs v) r (mem_abs w)"
proof -
  define due where "due = (\<lambda>z. map fst (sort_key snd [e \<leftarrow> AList.clearjunk (z :: (string \<times> int) list). snd e \<le> mx]))"
  have s: "\<exists>sc. map_of z m = Some sc \<and> sc \<le> mx" if "m \<in> set (due z)" for z m
    using that map_of_is_SomeI [OF clearjunk_facts(2), of m _ z] by (auto simp: clearjunk_facts due_def)
  have d: "distinct (due z)" for z
    using clearjunk_facts(2) [of z] by (simp add: due_def distinct_map inj_on_def)
  obtain z where z: "mem_zset v = Some z" and r: "w = v" "r = RepList (if lim < 0 then due z else take (nat lim) (due z))"
    using assms unfolding due_def by (auto simp: Let_def)
  show ?thesis using mem_views(3) [OF z] r d [of z] s [of _ z]
    by (cases "lim < 0") (auto dest: in_set_takeD)
qed

lemma val_call_ZRANGE:
  assumes "val_call (ZRANGE k) v = Some (r, w)"
  shows "cmd_rel (ZRANGE k) (mem_abs v) r (mem_abs w)"
proof -
  have s: "fst ` set (AList.clearjunk z) = dom (map_of z)" "distinct (AList.clearjunk z)" "inj_on fst (set (AList.clearjunk z))"
    for z :: "(string \<times> int) list"
    using clearjunk_facts(1,2) [of z] by (simp_all add: distinct_map flip: dom_map_of_conv_image_fst)
  show ?thesis using assms by (auto simp: distinct_map s simp flip: s(1) dest!: mem_views(3))
qed

lemma val_call_INCR:
  assumes "val_call (INCR k) v = Some (r, w)"
  shows "cmd_rel (INCR k) (mem_abs v) r (mem_abs w)"
proof -
  obtain x old where x: "mem_string v = Some x" and old: "counter_value x = Some old" "is_i64 (old + 1)"
    and r: "r = RepInt (old + 1)" "w = Some (MString (FormatInt (old + 1)))"
    using assms by (auto split: option.splits if_splits)
  have "(mem_abs v = RNone \<and> old = 0 \<or> mem_abs v = RString (FormatInt old)) \<and> is_i64 old"
    using counter_value_Some [OF old(1)] mem_views(4,5) [of v] x by auto
  then show ?thesis using old(2) r by auto
qed

lemma val_call_SETBIT:
  assumes "val_call (SETBIT k n) v = Some (r, w)"
  shows "cmd_rel (SETBIT k n) (mem_abs v) r (mem_abs w)"
proof -
  obtain x where x: "mem_string v = Some x" "\<exists>b. mem_abs w = RString b" "\<exists>i. r = RepInt i"
    using assms by (auto simp: Let_def)
  have "mem_abs v = RNone \<or> (\<exists>b. mem_abs v = RString b)" using mem_views(4,5) [of v] x(1) by (cases x) auto
  with x show ?thesis by auto
qed

lemma val_call_GET:
  assumes "val_call (GET k) v = Some (r, w)"
  shows "cmd_rel (GET k) (mem_abs v) r (mem_abs w)"
proof -
  obtain x where x: "mem_string v = Some x" "w = v" "r = (case x of None \<Rightarrow> RepNil | Some b \<Rightarrow> RepBulk b)"
    using assms by auto
  then show ?thesis using mem_views(4,5) [of v] by (cases x) auto
qed

lemma val_call_SADD:
  assumes "val_call (SADD k m) v = Some (r, w)"
  shows "cmd_rel (SADD k m) (mem_abs v) r (mem_abs w)"
proof -
  obtain x where x: "mem_set v = Some x" "mem_abs w = RSet (insert m (set x))" "\<exists>i. r = RepInt i"
    using assms by auto
  then show ?thesis using mem_views(2) [OF x(1)] by auto
qed

lemma val_call_SREM:
  assumes "val_call (SREM k m) v = Some (r, w)"
  shows "cmd_rel (SREM k m) (mem_abs v) r (mem_abs w)"
proof -
  obtain x where x: "mem_set v = Some x" "mem_abs w = mk_set (set x - {m})" "r = RepInt (if m \<in> set x then 1 else 0)"
    using assms by auto
  then show ?thesis using mem_views(2) [OF x(1)] by auto
qed

lemma val_call_SMEMBERS:
  assumes "val_call (SMEMBERS k) v = Some (r, w)"
  shows "cmd_rel (SMEMBERS k) (mem_abs v) r (mem_abs w)"
proof -
  obtain x where x: "mem_set v = Some x" "w = v" "r = RepList (remdups x)" using assms by auto
  then show ?thesis using mem_views(2) [OF x(1)] by auto
qed

lemma val_call_ZADD:
  assumes "val_call (ZADD k sc m) v = Some (r, w)"
  shows "cmd_rel (ZADD k sc m) (mem_abs v) r (mem_abs w)"
proof -
  obtain z where z: "mem_zset v = Some z" "mem_abs w = RZSet ((map_of z)(m \<mapsto> sc))" "\<exists>i. r = RepInt i"
    using assms by auto
  then show ?thesis using mem_views(3) [OF z(1)] by auto
qed

lemma val_call_ZREM:
  assumes "val_call (ZREM k m) v = Some (r, w)"
  shows "cmd_rel (ZREM k m) (mem_abs v) r (mem_abs w)"
proof -
  obtain z where z: "mem_zset v = Some z" "mem_abs w = mk_zset ((map_of z)(m := None))" "\<exists>i. r = RepInt i"
    using assms by (auto simp: delete_conv')
  then show ?thesis using mem_views(3) [OF z(1)] by auto
qed

lemma val_call_HMGET:
  assumes "val_call (HMGET k fs) v = Some (r, w)"
  shows "cmd_rel (HMGET k fs) (mem_abs v) r (mem_abs w)"
proof -
  obtain h where h: "mem_hash v = Some h" "w = v" "r = RepOpts (map (map_of h) fs)" using assms by auto
  then show ?thesis using mem_views(1) [OF h(1)] by auto
qed

lemma val_call_HSETNX:
  assumes "val_call (HSETNX k f x) v = Some (r, w)"
  shows "cmd_rel (HSETNX k f x) (mem_abs v) r (mem_abs w)"
proof -
  obtain h where h: "mem_hash v = Some h" "w = Some (MHash (if map_of h f = None then (f, x) # h else h))" "\<exists>n. r = RepInt n"
    using assms by auto
  have "mem_abs w = RHash (if map_of h f = None then (map_of h)(f \<mapsto> x) else map_of h)"
    using h(2) by (cases "map_of h f") (auto simp: mk_hash_def)
  then show ?thesis using mem_views(1) [OF h(1)] h(3) by auto
qed

lemma map_of_zadd: "map_of (rev (map (\<lambda>(sc, m). (m, sc)) ms) @ z) = zadd_all ms (map_of z)"
proof (induction ms arbitrary: z)
  case (Cons p ms)
  obtain sc m where "p = (sc, m)" by fastforce
  moreover have "map_of ((m, sc) # z) = (map_of z)(m \<mapsto> sc)" by (auto simp: fun_eq_iff)
  ultimately show ?case using Cons [of "(m, sc) # z"] by (simp only: zadd_all_def) simp
qed (simp add: zadd_all_def)

lemma val_call_ZADDS:
  assumes "val_call (ZADDS k ms) v = Some (r, w)"
  shows "cmd_rel (ZADDS k ms) (mem_abs v) r (mem_abs w)"
proof -
  obtain z where z: "mem_zset v = Some z" "mem_abs w = mk_zset (zadd_all ms (map_of z))" "\<exists>n. r = RepInt n"
    using assms by (auto simp flip: map_of_zadd)
  then show ?thesis using mem_views(3) [OF z(1)] by auto
qed

lemma val_call_ZCARD:
  assumes "val_call (ZCARD k) v = Some (r, w)"
  shows "cmd_rel (ZCARD k) (mem_abs v) r (mem_abs w)"
proof -
  obtain z where z: "mem_zset v = Some z" "w = v" "r = RepInt (int (length (AList.clearjunk z)))" using assms by auto
  then show ?thesis using mem_views(3) [OF z(1)] by (auto simp: clearjunk_facts)
qed

lemma val_call_ZRANGEBYLEX:
  assumes "val_call (ZRANGEBYLEX k lo hi n) v = Some (r, w)"
  shows "cmd_rel (ZRANGEBYLEX k lo hi n) (mem_abs v) r (mem_abs w)"
proof -
  define ys where "ys = (\<lambda>z :: (string \<times> int) list. sort [m \<leftarrow> map fst (AList.clearjunk z). lex_above lo m \<and> lex_below hi m])"
  obtain z where z: "mem_zset v = Some z" "w = v" "r = RepList (take n (ys z))" using assms by (auto simp: ys_def)
  have "fst ` set (AList.clearjunk z) = dom (map_of z)"
    using clearjunk_facts(1) [of z] by (simp flip: dom_map_of_conv_image_fst)
  then have "sorted (ys z) \<and> distinct (ys z) \<and> set (ys z) = {m \<in> dom (map_of z). lex_above lo m \<and> lex_below hi m}"
    using clearjunk_facts(2) [of z] by (auto simp: ys_def)
  then show ?thesis using mem_views(3) [OF z(1)] z(2,3) by auto
qed

lemma val_call_rel:
  assumes "val_call c v = Some (r, w)"
  shows "cmd_rel c (mem_abs v) r (mem_abs w)"
proof (cases "\<exists>k f n fvs. c \<in> {HLEN k, HGETALL k, HSET k fvs, HDEL k f, HINCRBY k f n}")
  case False
  then show ?thesis using assms
    by (cases c) (simp_all only: val_call_HGET val_call_HEXISTS val_call_ZRANGEBYSCORE val_call_ZRANGE val_call_INCR val_call_SETBIT val_call_GET val_call_SADD val_call_SREM val_call_SMEMBERS val_call_ZADD val_call_ZREM
      val_call_HMGET val_call_HSETNX val_call_ZADDS val_call_ZCARD val_call_ZRANGEBYLEX, auto simp: mem_absent)
qed (rule val_call_hash [OF assms])

section \<open>The server\<close>

definition mem_put :: "string \<Rightarrow> mem_value option \<Rightarrow> mem \<Rightarrow> mem" where
  "mem_put k v s = (case v of None \<Rightarrow> AList.delete k s | Some x \<Rightarrow> AList.update k x s)"

definition mem_call :: "rcmd \<Rightarrow> mem \<Rightarrow> rreply option \<times> mem" where
  "mem_call c s =
     (case val_call c (map_of s (cmd_key c)) of
        None \<Rightarrow> (None, s)
      | Some (r, w) \<Rightarrow> (Some r, mem_put (cmd_key c) w s))"

definition mem_redis :: "mem redis" where
  "mem_redis = \<lparr>rd_call = mem_call, rd_val = (\<lambda>s k. mem_abs (map_of s k))\<rparr>"

lemma mem_redis_sel [simp]: "rd_call mem_redis = mem_call" "rd_val mem_redis s k = mem_abs (map_of s k)"
  by (simp_all add: mem_redis_def)

lemma map_of_mem_put: "map_of (mem_put k v s) = (map_of s)(k := v)"
  by (simp add: mem_put_def update_conv' delete_conv' split: option.split)

interpretation mem: redis_server mem_redis
proof
  fix c s r t
  assume "rd_call mem_redis c s = (Some r, t)"
  then obtain w where "val_call c (map_of s (cmd_key c)) = Some (r, w)" and "t = mem_put (cmd_key c) w s"
    by (auto simp: mem_call_def split: option.splits)
  then show "cmd_rel c (rd_val mem_redis s (cmd_key c)) r (rd_val mem_redis t (cmd_key c)) \<and>
      (\<forall>k. k \<noteq> cmd_key c \<longrightarrow> rd_val mem_redis t k = rd_val mem_redis s k)"
    by (simp add: val_call_rel map_of_mem_put)
next
  fix c s t
  assume "rd_call mem_redis c s = (None, t)"
  then show "rd_val mem_redis t = rd_val mem_redis s" by (auto simp: mem_call_def split: option.splits)
qed

lemma mem_typed:
  "hash_of (mem_abs v) = Some h \<Longrightarrow> \<exists>l. mem_hash v = Some l \<and> h = map_of l"
  "set_of (mem_abs v) = Some x \<Longrightarrow> \<exists>l. mem_set v = Some l"
  "zset_of (mem_abs v) = Some z \<Longrightarrow> \<exists>l. mem_zset v = Some l"
  "mem_abs v = RNone \<Longrightarrow> mem_string v = Some None" "mem_abs v = RString b \<Longrightarrow> mem_string v = Some (Some b)"
  by (cases v rule: mem_abs.cases; auto simp: mk_hash_def mk_set_def mk_zset_def split: if_splits)+

lemma counter_value_known: "counter_value None = Some 0" "is_i64 n \<Longrightarrow> counter_value (Some (FormatInt n)) = Some n"
  by (simp_all add: counter_value_def)

text \<open>The server refuses a command only where the type of the key or a counter rules it out.\<close>

lemma val_call_typed: "cmd_rel c (mem_abs v) r w \<Longrightarrow> val_call c v \<noteq> None"
  by (cases c) (auto dest!: mem_typed simp: Let_def counter_value_known)

lemma mem_reliable: "reliable mem_redis"
  unfolding reliable_def using val_call_typed by (fastforce simp: mem_call_def split: option.splits)

end
