(* ===== verification/Redis_Demo.thy ===== *)
theory Redis_Demo
  imports Redis_Append Store_Demo Redis_Memory
begin

text \<open>A Redis server that holds one short stream: the stored form of \<^const>\<open>stream_a\<close>.\<close>

definition demo_fields :: "(string \<times> string) list" where
  "demo_fields = [(''ct'', ''application/octet-stream''), (''tail'', offset_String (Offset 0 1)), (''createdAtNs'', ''0''),
         (''accessedAtNs'', ''0''), (''incarnation'', ''41''), (''refCount'', ''0'')]"

definition demo_redis :: mem where
  "demo_redis = [(metaKey ''/a'', MHash demo_fields), (msgKey ''/a'', MZSet [(frame_of \<lparr>msg_Data = ''x'', msg_Offset = Offset 0 1\<rparr>, 0)])]"

lemma demo_fields_stored: "meta_stored (map_of demo_fields) stream_a"
  unfolding meta_stored_def plain_fields_def
  by (simp add: demo_fields_def stream_a_def demo_meta_def new_metadata_def demo_eval metaToFields_def Let_def time_unix_nano_def FormatInt_0)


lemma demo_redis_ready: "append_ready (rd_val mem_redis demo_redis) (env_at 0 []) ''/a'' ''y'' append_opts stream_a demo_a"
proof -
  have s: "st_messages stream_a = [\<lparr>msg_Data = ''x'', msg_Offset = Offset 0 1\<rparr>]" "sm_Producers (st_metadata stream_a) = Map.empty"
    "sm_TTLSeconds (st_metadata stream_a) = None" "sm_ExpiresAt (st_metadata stream_a) = None" "sm_Incarnation (st_metadata stream_a) = ''41''"
    "st_seals stream_a = Map.empty" "st_bound stream_a = Map.empty"
    by (simp_all add: stream_a_def demo_meta_def new_metadata_def empty_stream_def opts_with_def Let_def)
  have "stream_stored (rd_val mem_redis demo_redis) ''/a'' stream_a"
    unfolding stream_stored_def
  proof (intro conjI exI)
    show "hash_of (rd_val mem_redis demo_redis (metaKey ''/a'')) = Some (map_of demo_fields)" by (simp add: demo_redis_def)
    show "hash_of (rd_val mem_redis demo_redis (prodKey ''/a'')) = Some Map.empty" by (simp add: demo_redis_def)
    show "zset_of (rd_val mem_redis demo_redis (msgKey ''/a'')) = Some [frame_of \<lparr>msg_Data = ''x'', msg_Offset = Offset 0 1\<rparr> \<mapsto> 0]"
      by (simp add: demo_redis_def)
  qed (simp_all add: demo_fields_stored producers_stored_def frames_stored_def s fun_eq_iff)
  then show ?thesis
    by (simp add: append_ready_def s redis_fit_def fence_stored_def lua_expired_def isExpired_def IsExpiredAt_def append_opts_def append_with_def
        demo_a_def headers_i64_def is_i64_def)
qed

end
