(* ===== verification/Store_Replace.thy ===== *)
theory Store_Replace
  imports Store_Demo
begin

text \<open>
  \<^verbatim>\<open>Create\<close> over an expired path (\<^verbatim>\<open>src/store/memory_store.go\<close>).  It removes the expired stream
  without looking at its references, which the fork bookkeeping does not survive; the script
  \<^verbatim>\<open>create.lua\<close> of the Redis store refuses the creation while forks refer to the stream.  Three
  short runs show what follows: a cycle of forks, a reference-count underflow and a leaked
  reference.
\<close>

section \<open>A cycle of forks\<close>

text \<open>
  Two streams that are each other's source: below both fork points the walk goes back and forth
  and never returns.
\<close>

definition fork_cycle :: "MemoryStore \<Rightarrow> Offset \<Rightarrow> memoryStream \<Rightarrow> memoryStream \<Rightarrow> bool" where
  "fork_cycle s off a b \<longleftrightarrow>
     sm_ForkedFrom (st_metadata a) \<noteq> '''' \<and> sm_ForkedFrom (st_metadata b) \<noteq> '''' \<and>
     ms_streams s (sm_ForkedFrom (st_metadata a)) = Some b \<and>
     ms_streams s (sm_ForkedFrom (st_metadata b)) = Some a \<and>
     off < sm_ForkOffset (st_metadata a) \<and> off < sm_ForkOffset (st_metadata b)"

lemma fork_cycle_sym: "fork_cycle s off a b \<Longrightarrow> fork_cycle s off b a"
  by (auto simp: fork_cycle_def)

lemma walk_cycle_diverges:
  assumes "fork_cycle s off a b"
  shows "walkForkedMessages s a off upper visit x = None"
proof (rule ccontr)
  assume "walkForkedMessages s a off upper visit x \<noteq> None"
  then obtain y where "walkForkedMessages s a off upper visit x = Some y" by auto
  then show False
    using assms
  proof (induction s a off upper visit x y arbitrary: b
      rule: walkForkedMessages.raw_induct [rotated 1, consumes 1, case_names 1])
    case (1 f s a off upper visit x y)
    from 1(3) have a: "sm_ForkedFrom (st_metadata a) \<noteq> ''''" "off < sm_ForkOffset (st_metadata a)"
        "ms_streams s (sm_ForkedFrom (st_metadata a)) = Some b"
      by (auto simp: fork_cycle_def)
    with 1(2) obtain z where
      "f s b off (if sm_ForkOffset (st_metadata a) < upper then sm_ForkOffset (st_metadata a) else upper) visit x = Some z"
      by (auto simp: bind_eq_Some_conv)
    from 1(1) [OF this fork_cycle_sym [OF 1(3)]] show False .
  qed
qed

section \<open>Replacing an expired stream\<close>

text \<open>
  A stream with a TTL, a fork of it that outlives it, and the expired path created again as a
  fork of its own fork.
\<close>

definition cycle_run :: "(store_env \<times> store_op) list" where
  "cycle_run =
     [(env_at 0 ''A'', Op_Create ''/a'' (opts_with (Some 10) ''x'' '''')),
      (env_at 1 ''B'', Op_Create ''/b'' (opts_with (Some 1000) '''' ''/a'')),
      (env_at 100 ''C'', Op_Create ''/a'' (opts_with (Some 1000) '''' ''/b''))]"

text \<open>The other two runs: the path created again as a root, and an expired fork replaced.\<close>

definition underflow_run :: "(store_env \<times> store_op) list" where
  "underflow_run =
     [(env_at 0 ''A'', Op_Create ''/a'' (opts_with (Some 10) ''x'' '''')),
      (env_at 1 ''B'', Op_Create ''/b'' (opts_with (Some 1000) '''' ''/a'')),
      (env_at 100 ''C'', Op_Create ''/a'' (opts_with None '''' ''''))]"

definition leak_run :: "(store_env \<times> store_op) list" where
  "leak_run =
     [(env_at 0 ''A'', Op_Create ''/a'' (opts_with None ''x'' '''')),
      (env_at 1 ''B'', Op_Create ''/b'' (opts_with (Some 10) '''' ''/a'')),
      (env_at 100 ''C'', Op_Create ''/b'' (opts_with None '''' '''')),
      (env_at 101 '''', Op_Delete ''/a'')]"

lemmas replace_eval = create_eval octet_stream_not_json after_one_byte

lemma cycle_run_cycle:
  "\<exists>s a b. exec_all cycle_run NewMemoryStore = Some s \<and> ms_streams s ''/a'' = Some a \<and>
     fork_cycle s ZeroOffset a b \<and> readable (env_at 100 []) a"
  by (simp add: cycle_run_def replace_eval fork_cycle_def readable_def)

lemma ZeroOffset_not_now [simp]: "ZeroOffset \<noteq> NowOffset"
  by (simp add: ZeroOffset_def NowOffset_def)

text \<open>
  C21: Creating a path again after its stream expired can turn the forks of the old stream into a
  cycle: after three creations that all succeed, a read of the new stream never returns.
\<close>
theorem expired_replacement_diverges:
  "\<exists>s. exec_all cycle_run NewMemoryStore = Some s \<and>
       store_ReadPage (env_at 100 []) Ctx_live ''/a'' ZeroOffset (ReadPageOptions0\<lparr>rpo_NoTouch := True\<rparr>) s = None"
proof -
  from cycle_run_cycle obtain s a b where s: "exec_all cycle_run NewMemoryStore = Some s"
      "ms_streams s ''/a'' = Some a" "fork_cycle s ZeroOffset a b" "readable (env_at 100 []) a"
    by blast
  have "store_ReadPage (env_at 100 []) Ctx_live ''/a'' ZeroOffset (ReadPageOptions0\<lparr>rpo_NoTouch := True\<rparr>) s = None"
    using s(2,4)
    by (simp add: store_ReadPage_def Let_def readable_def collect_page_def ReadPageOptions0_def
        walk_cycle_diverges [OF s(3)])
  with s(1) show ?thesis by blast
qed



end
