(* ===== verification/Webhook_Glob.thy ===== *)
theory Webhook_Glob
  imports Chronicle_Prelude
begin

text \<open>
  The subscription glob patterns of \<^verbatim>\<open>webhook/glob.go\<close>: the index-based matcher, the reference
  relation it decides, and the literal prefix that bounds every match of a pattern.
\<close>

section \<open>The matcher\<close>

text \<open>\<^verbatim>\<open>strings.ReplaceAll(seg, "%2A", "*")\<close>, and the same for \<^verbatim>\<open>"%2a"\<close>.\<close>

fun replace_pct :: "char \<Rightarrow> string \<Rightarrow> string" where
  "replace_pct c (x # y # z # s) =
     (if x = CHR ''%'' \<and> y = CHR ''2'' \<and> z = c then CHR ''*'' # replace_pct c s
      else x # replace_pct c (y # z # s))"
| "replace_pct c s = s"

definition decode_segment :: "string \<Rightarrow> string" where
  "decode_segment seg = replace_pct (CHR ''a'') (replace_pct (CHR ''A'') seg)"

definition splitPath :: "string \<Rightarrow> string list" where
  "splitPath p = (let p = trim_slashes p in if p = '''' then [] else split_on (CHR ''/'') p)"

text \<open>The closing loop of \<^verbatim>\<open>matchParts\<close>: the index after the trailing \<^verbatim>\<open>**\<close> segments.\<close>

function skip_stars :: "string list \<Rightarrow> nat \<Rightarrow> nat" where
  "skip_stars pattern pi =
     (if pi < length pattern \<and> pattern ! pi = ''**'' then skip_stars pattern (pi + 1) else pi)"
  by auto
termination by (relation "measure (\<lambda>(pattern, pi). length pattern - pi)") auto

declare skip_stars.simps [simp del]

function matchParts :: "string list \<Rightarrow> nat \<Rightarrow> string list \<Rightarrow> nat \<Rightarrow> bool" where
  "matchParts pattern pi path si =
     (if pi < length pattern \<and> si < length path then
        (let seg = pattern ! pi
         in if seg = ''**'' then list_ex (\<lambda>i. matchParts pattern (pi + 1) path i) [si ..< length path + 1]
            else if seg = ''*'' then matchParts pattern (pi + 1) path (si + 1)
            else if decode_segment seg \<noteq> path ! si then False
            else matchParts pattern (pi + 1) path (si + 1))
      else (let pi = skip_stars pattern pi in pi = length pattern \<and> si = length path))"
  by auto
termination by (relation "measure (\<lambda>(pattern, pi, path, si). length pattern - pi)") auto

declare matchParts.simps [simp del]

definition GlobMatch :: "string \<Rightarrow> string \<Rightarrow> bool" where
  "GlobMatch pattern path = matchParts (splitPath pattern) 0 (splitPath path) 0"

text \<open>The loop of \<^verbatim>\<open>GlobLiteralPrefix\<close> over the segments, up to the first wildcard.\<close>

fun literal_segments :: "string list \<Rightarrow> string list" where
  "literal_segments [] = []"
| "literal_segments (seg # parts) =
     (if seg = ''*'' \<or> seg = ''**'' then [] else decode_segment seg # literal_segments parts)"

definition GlobLiteralPrefix :: "string \<Rightarrow> string \<times> bool" where
  "GlobLiteralPrefix pattern =
     (let lits = literal_segments (splitPath pattern)
      in if lits = [] then ('''', False) else (join_with ''/'' lits, True))"

section \<open>The reference semantics\<close>

text \<open>
  \<^verbatim>\<open>*\<close> stands for exactly one segment, \<^verbatim>\<open>**\<close> for any number of them, and every other segment
  for itself after decoding.
\<close>

inductive glob_matches :: "string list \<Rightarrow> string list \<Rightarrow> bool" where
  glob_Nil: "glob_matches [] []"
| glob_star: "glob_matches ps ss \<Longrightarrow> glob_matches (''*'' # ps) (s # ss)"
| glob_stars_none: "glob_matches ps ss \<Longrightarrow> glob_matches (''**'' # ps) ss"
| glob_stars_more: "glob_matches (''**'' # ps) ss \<Longrightarrow> glob_matches (''**'' # ps) (s # ss)"
| glob_literal: "p \<noteq> ''*'' \<Longrightarrow> p \<noteq> ''**'' \<Longrightarrow> glob_matches ps ss \<Longrightarrow> glob_matches (p # ps) (decode_segment p # ss)"

inductive_cases glob_NilE: "glob_matches [] ss"
inductive_cases glob_ConsE: "glob_matches (p # ps) ss"

lemma glob_Nil_iff: "glob_matches [] ss \<longleftrightarrow> ss = []"
  by (auto elim: glob_NilE intro: glob_Nil)

lemma glob_star_iff: "glob_matches (''*'' # ps) ss \<longleftrightarrow> (\<exists>s ss'. ss = s # ss' \<and> glob_matches ps ss')"
  by (auto elim: glob_ConsE intro: glob_star)

lemma glob_literal_iff:
  "p \<noteq> ''*'' \<Longrightarrow> p \<noteq> ''**'' \<Longrightarrow>
     glob_matches (p # ps) ss \<longleftrightarrow> (\<exists>ss'. ss = decode_segment p # ss' \<and> glob_matches ps ss')"
  by (auto elim: glob_ConsE intro: glob_literal)

lemma glob_stars_drop: "glob_matches ps (drop i ss) \<Longrightarrow> i \<le> length ss \<Longrightarrow> glob_matches (''**'' # ps) ss"
proof (induction i arbitrary: ss)
  case 0
  then show ?case by (simp add: glob_stars_none)
next
  case (Suc i)
  then show ?case by (cases ss) (auto intro: glob_stars_more)
qed

lemma glob_stars_dropD: "glob_matches (''**'' # ps) ss \<Longrightarrow> \<exists>i \<le> length ss. glob_matches ps (drop i ss)"
proof (induction "''**'' # ps" ss rule: glob_matches.induct)
  case (glob_stars_none ss)
  then show ?case by (intro exI [of _ 0]) simp
next
  case (glob_stars_more ss s)
  then obtain i where "i \<le> length ss" "glob_matches ps (drop i ss)" by auto
  then show ?case by (intro exI [of _ "Suc i"]) simp
qed auto

lemma glob_stars_iff: "glob_matches (''**'' # ps) ss \<longleftrightarrow> (\<exists>i \<le> length ss. glob_matches ps (drop i ss))"
  using glob_stars_dropD glob_stars_drop by blast

section \<open>The matcher decides the relation\<close>

lemma skip_stars_iff: "pi \<le> length pattern \<Longrightarrow> skip_stars pattern pi = length pattern \<longleftrightarrow> glob_matches (drop pi pattern) []"
proof (induction pattern pi rule: skip_stars.induct)
  case (1 pattern pi)
  show ?case
  proof (cases "pi < length pattern")
    case False
    then show ?thesis using 1(2) by (subst skip_stars.simps) (simp add: glob_Nil)
  next
    case True
    then have d: "drop pi pattern = pattern ! pi # drop (pi + 1) pattern" by (simp add: Cons_nth_drop_Suc)
    show ?thesis
    proof (cases "pattern ! pi = ''**''")
      case stars: True
      with 1 True show ?thesis unfolding d by (simp add: skip_stars.simps [of pattern pi] glob_stars_iff)
    next
      case False
      with True show ?thesis unfolding d
        by (cases "pattern ! pi = ''*''") (auto simp: skip_stars.simps [of pattern pi] glob_star_iff glob_literal_iff)
    qed
  qed
qed

lemma matchParts_iff:
  "pi \<le> length pattern \<Longrightarrow> si \<le> length path \<Longrightarrow>
     matchParts pattern pi path si \<longleftrightarrow> glob_matches (drop pi pattern) (drop si path)"
proof (induction pattern pi path si rule: matchParts.induct)
  case (1 pattern pi path si)
  note le = 1(4,5)
  show ?case
  proof (cases "pi < length pattern \<and> si < length path")
    case True
    then have d: "drop pi pattern = pattern ! pi # drop (pi + 1) pattern" "drop si path = path ! si # drop (si + 1) path"
      by (simp_all add: Cons_nth_drop_Suc)
    consider "pattern ! pi = ''**''" | "pattern ! pi = ''*''" | "pattern ! pi \<noteq> ''**''" "pattern ! pi \<noteq> ''*''" by blast
    then show ?thesis
    proof cases
      case 1
      have upto: "set [si ..< Suc (length path)] = {si..length path}" by auto
      have "matchParts pattern pi path si \<longleftrightarrow> (\<exists>i \<in> {si..length path}. matchParts pattern (pi + 1) path i)"
        using True 1 by (subst matchParts.simps) (simp add: list_ex_iff upto del: upt_Suc set_upt)
      also have "\<dots> \<longleftrightarrow> (\<exists>i \<in> {si..length path}. glob_matches (drop (pi + 1) pattern) (drop i path))"
        using True 1 by (intro bex_cong refl "1.IH"(1) [OF True refl]) (auto simp del: upt_Suc)
      also have "\<dots> \<longleftrightarrow> (\<exists>j \<le> length (drop si path). glob_matches (drop (pi + 1) pattern) (drop j (drop si path)))"
      proof
        assume "\<exists>i \<in> {si..length path}. glob_matches (drop (pi + 1) pattern) (drop i path)"
        then obtain i where "si \<le> i" "i \<le> length path" "glob_matches (drop (pi + 1) pattern) (drop i path)" by auto
        then show "\<exists>j \<le> length (drop si path). glob_matches (drop (pi + 1) pattern) (drop j (drop si path))"
          by (intro exI [of _ "i - si"]) simp
      next
        assume "\<exists>j \<le> length (drop si path). glob_matches (drop (pi + 1) pattern) (drop j (drop si path))"
        then obtain j where "j \<le> length path - si" "glob_matches (drop (pi + 1) pattern) (drop (j + si) path)" by auto
        then show "\<exists>i \<in> {si..length path}. glob_matches (drop (pi + 1) pattern) (drop i path)"
          using True by (intro bexI [of _ "j + si"]) auto
      qed
      finally show ?thesis unfolding d(1) using 1 by (simp add: glob_stars_iff)
    next
      case 2
      with True "1.IH"(2) [OF True refl] show ?thesis
        unfolding d by (subst matchParts.simps) (simp add: glob_star_iff)
    next
      case 3
      with True "1.IH"(3) [OF True refl 3(1,2)] show ?thesis
        unfolding d by (subst matchParts.simps) (auto simp: glob_literal_iff)
    qed
  next
    case False
    then consider "pi = length pattern" | "pi < length pattern" "si = length path" using le by linarith
    then show ?thesis
    proof cases
      case 1
      then have "skip_stars pattern pi = length pattern" by (subst skip_stars.simps) simp
      with 1 le show ?thesis by (subst matchParts.simps) (auto simp: glob_Nil_iff)
    next
      case 2
      then show ?thesis by (subst matchParts.simps) (simp add: skip_stars_iff)
    qed
  qed
qed

lemma GlobMatch_iff: "GlobMatch pattern path \<longleftrightarrow> glob_matches (splitPath pattern) (splitPath path)"
  by (simp add: GlobMatch_def matchParts_iff)

section \<open>The literal prefix\<close>

lemma glob_literal_prefix: "glob_matches ps ss \<Longrightarrow> \<exists>rest. ss = literal_segments ps @ rest"
  by (induction rule: glob_matches.induct) auto

lemma replace_pct_no_slash: "CHR ''/'' \<notin> set s \<Longrightarrow> CHR ''/'' \<notin> set (replace_pct c s)"
  by (induction c s rule: replace_pct.induct) auto

lemma splitPath_no_slash: "seg \<in> set (splitPath p) \<Longrightarrow> CHR ''/'' \<notin> set seg"
  by (auto simp: splitPath_def Let_def split: if_splits dest: split_on_parts)

lemma literal_segments_no_slash:
  "\<forall>seg \<in> set ps. CHR ''/'' \<notin> set seg \<Longrightarrow> \<forall>seg \<in> set (literal_segments ps). CHR ''/'' \<notin> set seg"
  by (induction ps) (auto simp: decode_segment_def replace_pct_no_slash)

lemma GlobLiteralPrefix_bounds:
  assumes "GlobLiteralPrefix pattern = (prefix, True)" and "GlobMatch pattern path"
  shows "\<exists>rest. splitPath path = split_on (CHR ''/'') prefix @ rest"
proof -
  let ?lits = "literal_segments (splitPath pattern)"
  have p: "?lits \<noteq> []" "prefix = join_with ''/'' ?lits"
    using assms(1) by (auto simp: GlobLiteralPrefix_def Let_def split: if_splits)
  have "split_on (CHR ''/'') prefix = ?lits"
    unfolding p(2) using literal_segments_no_slash [of "splitPath pattern"] splitPath_no_slash p(1)
    by (intro split_on_join) auto
  with glob_literal_prefix assms(2) show ?thesis by (simp add: GlobMatch_iff)
qed

section \<open>Properties\<close>

text \<open>
  C25: Glob matching is the documented one: segment by segment, one star for exactly one segment,
  two stars for any number, other segments literally after decoding an escaped star.
\<close>
theorem glob_match_correct:
  "GlobMatch pattern path \<longleftrightarrow> glob_matches (splitPath pattern) (splitPath path)"
  by (rule GlobMatch_iff)

text \<open>
  C26: The literal prefix of a pattern bounds its matches: every path the pattern matches starts with
  the segments of the prefix, so a caller allowed on the prefix is allowed on every match.
\<close>
theorem glob_prefix_sound:
  assumes "GlobLiteralPrefix pattern = (prefix, True)" and "GlobMatch pattern path"
  shows "\<exists>rest. splitPath path = split_on (CHR ''/'') prefix @ rest"
  by (rule GlobLiteralPrefix_bounds [OF assms])

theorem glob_prefix_sound_witness:
  "\<exists>rest. splitPath ''/a/*/c'' = split_on (CHR ''/'') ''a/*'' @ rest"
proof -
  have "GlobLiteralPrefix ''a/%2A/**'' = (''a/*'', True)" by code_simp
  moreover have "GlobMatch ''a/%2A/**'' ''/a/*/c''" by code_simp
  ultimately show ?thesis by (rule glob_prefix_sound)
qed

end
