(* ===== verification/Webhook_Slots.thy ===== *)
theory Webhook_Slots
  imports Chronicle_Prelude
begin

text \<open>
  How the control plane spreads its work: the key schema and the slot a subscription is homed in
  (\<^verbatim>\<open>webhook/keys.go\<close>), the claim shards of one subscription (\<^verbatim>\<open>webhook/shard.go\<close>), and the
  rendezvous assignment of slots to replicas (\<^verbatim>\<open>webhook/ownership.go\<close>).  The hashes are the FNV-1a
  functions of \<^verbatim>\<open>hash/fnv\<close> on 32 and 64 bits.  Slot indices are naturals; a replica id is its string.
\<close>

unbundle bit_operations_syntax

section \<open>FNV-1a\<close>

definition fnv32a :: "bytes \<Rightarrow> 32 word" where
  "fnv32a s = foldl (\<lambda>h c. (h XOR of_nat (of_char c)) * 16777619) 2166136261 s"

definition fnv64a :: "bytes \<Rightarrow> 64 word" where
  "fnv64a s = foldl (\<lambda>h c. (h XOR of_nat (of_char c)) * 1099511628211) 14695981039346656037 s"

section \<open>Keys\<close>

definition subSlots :: nat where "subSlots = 256"

text \<open>\<^verbatim>\<open>strings.LastIndex(s, sub)\<close> and \<^verbatim>\<open>strings.Index(s, sub)\<close> for a non-empty \<^verbatim>\<open>sub\<close>.\<close>

fun LastIndex :: "string \<Rightarrow> string \<Rightarrow> nat option" where
  "LastIndex [] sub = None"
| "LastIndex (c # s) sub =
     (case LastIndex s sub of
        Some i \<Rightarrow> Some (Suc i)
      | None \<Rightarrow> if has_prefix (c # s) sub then Some 0 else None)"

fun strings_Index :: "string \<Rightarrow> string \<Rightarrow> nat option" where
  "strings_Index [] sub = None"
| "strings_Index (c # s) sub =
     (if has_prefix (c # s) sub then Some 0 else map_option Suc (strings_Index s sub))"

definition baseSubID :: "string \<Rightarrow> string" where
  "baseSubID sid =
     (case LastIndex sid '':g:'' of
        None \<Rightarrow> sid
      | Some i \<Rightarrow>
          (let suffix = drop (i + 3) sid
           in if suffix = '''' then sid
              else if \<not> list_all is_digit suffix then sid
              else take i sid))"

definition slotOf :: "string \<Rightarrow> nat" where
  "slotOf sid = unat (fnv32a (baseSubID sid) mod of_nat subSlots)"

definition slotTagAt :: "nat \<Rightarrow> string" where
  "slotTagAt h = ''{__ds:'' @ FormatInt (int h) @ ''}''"

definition slotTag :: "string \<Rightarrow> string" where
  "slotTag sid = slotTagAt (slotOf sid)"

definition subKey :: "string \<Rightarrow> string" where
  "subKey sid = ''ds:'' @ slotTag sid @ '':sub:'' @ sid"

definition subShardKey :: "string \<Rightarrow> int \<Rightarrow> string" where
  "subShardKey sid g = (if g \<le> 0 then subKey sid else subKey sid @ '':g:'' @ FormatInt g)"

definition subShardRegistryKey :: "string \<Rightarrow> string" where
  "subShardRegistryKey sid = subKey sid @ '':shards''"

definition subIncarnationKey :: "string \<Rightarrow> string" where
  "subIncarnationKey sid = subKey sid @ '':incarnation''"

definition shardMember :: "string \<Rightarrow> int \<Rightarrow> string" where
  "shardMember sid g = (if g \<le> 0 then sid else sid @ '':g:'' @ FormatInt g)"

definition linksKey :: "string \<Rightarrow> string" where
  "linksKey sid = ''ds:'' @ slotTag sid @ '':sub:'' @ sid @ '':links''"

definition subsKey :: "nat \<Rightarrow> string" where
  "subsKey h = ''ds:'' @ slotTagAt h @ '':subs''"

definition leaseZKey :: "nat \<Rightarrow> string" where
  "leaseZKey h = ''ds:'' @ slotTagAt h @ '':sched:lease''"

definition retryZKey :: "nat \<Rightarrow> string" where
  "retryZKey h = ''ds:'' @ slotTagAt h @ '':sched:retry''"

definition dueZKey :: "nat \<Rightarrow> string" where
  "dueZKey h = ''ds:'' @ slotTagAt h @ '':due''"

datatype Schedule = ScheduleLease | ScheduleRetry | ScheduleDue

fun zkey :: "Schedule \<Rightarrow> nat \<Rightarrow> string" where
  "zkey ScheduleLease h = leaseZKey h"
| "zkey ScheduleRetry h = retryZKey h"
| "zkey ScheduleDue h = dueZKey h"

definition streamSubsKey :: "nat \<Rightarrow> string \<Rightarrow> string" where
  "streamSubsKey h path = ''ds:'' @ slotTagAt h @ '':stream:'' @ path"

text \<open>One byte of the bitmap: its bits from the most significant one, as slots below the bound.\<close>

definition occupied_in_byte :: "nat \<Rightarrow> char \<Rightarrow> nat list" where
  "occupied_in_byte byteIdx b =
     (if (of_nat (of_char b) :: 8 word) = 0 then []
      else filter (\<lambda>h. h < subSlots)
             (map (\<lambda>k. byteIdx * 8 + k)
                (filter (\<lambda>k. (of_nat (of_char b) :: 8 word) AND push_bit (7 - k) 1 \<noteq> 0) [0 ..< 8])))"

definition decodeOccupiedSlots :: "string \<Rightarrow> nat list" where
  "decodeOccupiedSlots raw = concat (map (\<lambda>i. occupied_in_byte i (raw ! i)) [0 ..< length raw])"

definition OwnershipSlotKey :: "nat \<Rightarrow> string" where
  "OwnershipSlotKey h = ''ds:'' @ slotTagAt h @ '':ownership:slot:'' @ FormatInt (int h)"

definition ownershipSlotIndex :: "string \<Rightarrow> int \<times> bool" where
  "ownershipSlotIndex key =
     (if \<not> has_prefix key ''ds:{__ds:'' then (0, False)
      else (let rest = drop 9 key; mid = ''}:ownership:slot:''
            in case strings_Index rest mid of
                 None \<Rightarrow> (0, False)
               | Some i \<Rightarrow>
                   (if i = 0 then (0, False)
                    else (case ParseInt (take i rest) of
                            Inl _ \<Rightarrow> (0, False)
                          | Inr tagH \<Rightarrow>
                              (if tagH < 0 \<or> int subSlots \<le> tagH then (0, False)
                               else (case ParseInt (drop (i + length mid) rest) of
                                       Inl _ \<Rightarrow> (0, False)
                                     | Inr bodyH \<Rightarrow> if bodyH \<noteq> tagH then (0, False) else (tagH, True)))))))"

section \<open>Claim shards\<close>

datatype ShardCount = ShardCount (shard_g: int)

record ShardKey =
  sk_SubID :: string
  sk_Index :: int

datatype shard_error = ShardError int string

definition NewShardCount :: "int \<Rightarrow> shard_error + ShardCount" where
  "NewShardCount g = (if g < 1 then Inl (ShardError g ''shard count must be >= 1'') else Inr (ShardCount g))"

text \<open>\<^verbatim>\<open>h.Sum32() % uint32(g)\<close>: no value when \<^verbatim>\<open>uint32(g)\<close> is zero, where Go panics.\<close>

definition ShardIndex :: "string \<Rightarrow> int \<Rightarrow> int option" where
  "ShardIndex entityID g =
     (if g \<le> 1 then Some 0
      else (let m = (word_of_int g :: 32 word)
            in if m = 0 then None else Some (uint (fnv32a entityID mod m))))"

definition Shard :: "ShardCount \<Rightarrow> string \<Rightarrow> string \<Rightarrow> ShardKey option" where
  "Shard c subID entityID =
     map_option (\<lambda>i. \<lparr>sk_SubID = subID, sk_Index = i\<rparr>) (ShardIndex entityID (shard_g c))"

definition ShardAt :: "ShardCount \<Rightarrow> string \<Rightarrow> int \<Rightarrow> shard_error + ShardKey" where
  "ShardAt c subID index =
     (if index < 0 \<or> shard_g c \<le> index then Inl (ShardError (shard_g c) ''shard index out of range'')
      else Inr \<lparr>sk_SubID = subID, sk_Index = index\<rparr>)"

section \<open>Slot ownership\<close>

definition ownershipSlots :: nat where "ownershipSlots = subSlots"

definition NewSlotID :: "int \<Rightarrow> nat option" where
  "NewSlotID h = (if h < 0 \<or> int ownershipSlots \<le> h then None else Some (nat h))"

definition AllSlots :: "nat list" where
  "AllSlots = [0 ..< ownershipSlots]"

definition parseOwnerEpoch :: "string \<Rightarrow> int64" where
  "parseOwnerEpoch s = (case ParseInt s of Inl _ \<Rightarrow> 0 | Inr n \<Rightarrow> n)"

text \<open>The nonce is the 16 bytes read from the random source, if it can be read.\<close>

definition GenerateReplicaID :: "string \<Rightarrow> bytes option \<Rightarrow> string option" where
  "GenerateReplicaID podName nonce =
     map_option (\<lambda>n. (if podName = '''' then ''local'' else podName) @ ''-'' @ hex_EncodeToString n) nonce"

definition mix64 :: "64 word \<Rightarrow> 64 word" where
  "mix64 z =
     (let z = (z XOR drop_bit 30 z) * 0xbf58476d1ce4e5b9;
          z = (z XOR drop_bit 27 z) * 0x94d049bb133111eb
      in z XOR drop_bit 31 z)"

definition hrwScore :: "string \<Rightarrow> nat \<Rightarrow> 64 word" where
  "hrwScore r h = mix64 (fnv64a (r @ '':'' @ FormatInt (int h)))"

text \<open>The loop of \<^verbatim>\<open>HRWOwner\<close> over the members, with the owner and its score so far.\<close>

fun hrw_loop :: "nat \<Rightarrow> string list \<Rightarrow> string \<times> 64 word \<times> bool \<Rightarrow> string \<times> 64 word \<times> bool" where
  "hrw_loop h [] best = best"
| "hrw_loop h (m # members) (owner, bestScore, ok) =
     (let s = hrwScore m h
      in hrw_loop h members
           (if \<not> ok \<or> bestScore < s \<or> s = bestScore \<and> owner < m then (m, s, True) else (owner, bestScore, ok)))"

definition HRWOwner :: "string list \<Rightarrow> nat \<Rightarrow> string \<times> bool" where
  "HRWOwner members h = (case hrw_loop h members ('''', 0, False) of (owner, _, ok) \<Rightarrow> (owner, ok))"

definition TargetedSlots :: "string \<Rightarrow> string list \<Rightarrow> nat list \<Rightarrow> nat set" where
  "TargetedSlots me members slots = {h \<in> set slots. HRWOwner members h = (me, True)}"

definition OwnedSlots :: "nat set \<Rightarrow> nat set \<Rightarrow> nat list" where
  "OwnedSlots targeted held = sorted_list_of_set (targeted \<inter> held)"

record OwnerScope =
  os_SlotKey :: string
  os_ReplicaID :: string
  os_Epoch :: string

definition scope_active :: "OwnerScope \<Rightarrow> bool" where
  "scope_active o' \<longleftrightarrow> os_SlotKey o' \<noteq> '''' \<and> os_ReplicaID o' \<noteq> '''' \<and> os_Epoch o' \<noteq> ''''"

definition scopedOwnerArgs :: "OwnerScope \<Rightarrow> OwnerScope option" where
  "scopedOwnerArgs scope = (if \<not> scope_active scope then None else Some scope)"

datatype ownership_config_error = NotPositive | HeartbeatTooSlow | ReconcileTooSlow | SlotLeaseTooShort

definition CheckOwnershipConfig :: "int64 \<Rightarrow> int64 \<Rightarrow> int64 \<Rightarrow> int64 \<Rightarrow> ownership_config_error option" where
  "CheckOwnershipConfig memberLeaseTTL heartbeatInterval slotLeaseTTL slotReconcileInterval =
     (if memberLeaseTTL \<le> 0 \<or> heartbeatInterval \<le> 0 \<or> slotLeaseTTL \<le> 0 \<or> slotReconcileInterval \<le> 0
      then Some NotPositive
      else if memberLeaseTTL div 2 \<le> heartbeatInterval then Some HeartbeatTooSlow
      else if heartbeatInterval < slotReconcileInterval then Some ReconcileTooSlow
      else if slotLeaseTTL \<le> slotReconcileInterval then Some SlotLeaseTooShort
      else None)"

section \<open>Rendezvous assignment\<close>

text \<open>
  What the slot assignment relies on: every non-empty member list has an owner, a member that beats
  every other one.  The consequences do not mention the scores.
\<close>

locale rendezvous =
  fixes owner :: "'r list \<Rightarrow> 'k \<Rightarrow> 'r option"
    and beats :: "'k \<Rightarrow> 'r \<Rightarrow> 'r \<Rightarrow> bool"
  assumes owner_exists: "ms \<noteq> [] \<Longrightarrow> \<exists>r. owner ms k = Some r"
    and owner_member: "owner ms k = Some r \<Longrightarrow> r \<in> set ms"
    and owner_beats: "owner ms k = Some r \<Longrightarrow> m \<in> set ms \<Longrightarrow> m = r \<or> beats k r m"
    and beats_asym: "beats k r m \<Longrightarrow> \<not> beats k m r"
begin

lemma owner_Nil: "owner [] k = None"
  using owner_member [of "[]" k] by (cases "owner [] k") auto

lemma owner_unique:
  assumes "r \<in> set ms" and "\<And>m. m \<in> set ms \<Longrightarrow> m = r \<or> beats k r m"
  shows "owner ms k = Some r"
proof -
  obtain q where q: "owner ms k = Some q" using owner_exists [of ms k] assms(1) by (cases ms) auto
  have "q = r" using owner_beats [OF q assms(1)] assms(2) [OF owner_member [OF q]] beats_asym by blast
  with q show ?thesis by simp
qed

text \<open>The list only matters as a set.\<close>

lemma owner_set: "set ms = set ns \<Longrightarrow> owner ms k = owner ns k"
proof (cases "ms = []")
  case False
  assume eq: "set ms = set ns"
  obtain r where r: "owner ms k = Some r" using owner_exists [OF False] by blast
  have "owner ns k = Some r"
    using owner_member [OF r] owner_beats [OF r] eq by (intro owner_unique) auto
  with r show ?thesis by simp
qed (auto simp: owner_Nil)

text \<open>A member that joins takes the keys it wins and moves no other.\<close>

lemma owner_join: "owner (m # ms) k = Some m \<or> owner (m # ms) k = owner ms k"
proof -
  obtain r where r: "owner (m # ms) k = Some r" using owner_exists [of "m # ms" k] by blast
  show ?thesis
  proof (cases "r = m")
    case False
    then have "owner ms k = Some r" using owner_member [OF r] owner_beats [OF r] by (intro owner_unique) auto
    with r show ?thesis by simp
  qed (use r in simp)
qed

text \<open>A member that leaves gives up its keys and moves no other.\<close>

lemma owner_leave: "owner ms k \<noteq> Some m \<Longrightarrow> owner (removeAll m ms) k = owner ms k"
proof (cases "owner ms k")
  case None
  then have "ms = []" using owner_exists [of ms k] by (cases "ms = []") simp_all
  then show ?thesis by simp
next
  case (Some r)
  assume "owner ms k \<noteq> Some m"
  then have "owner (removeAll m ms) k = Some r"
    using Some owner_member [OF Some] owner_beats [OF Some] by (intro owner_unique) auto
  with Some show ?thesis by simp
qed

end

definition hrw_owner :: "string list \<Rightarrow> nat \<Rightarrow> string option" where
  "hrw_owner members h = (case HRWOwner members h of (owner, ok) \<Rightarrow> if ok then Some owner else None)"

definition hrw_beats :: "nat \<Rightarrow> string \<Rightarrow> string \<Rightarrow> bool" where
  "hrw_beats h r m \<longleftrightarrow> hrwScore m h < hrwScore r h \<or> hrwScore m h = hrwScore r h \<and> m < r"

lemma hrw_beats_trans: "hrw_beats h a b \<Longrightarrow> hrw_beats h b c \<Longrightarrow> hrw_beats h a c"
  unfolding hrw_beats_def by (metis less_trans)

lemma hrw_beats_total: "a \<noteq> b \<Longrightarrow> hrw_beats h a b \<or> hrw_beats h b a"
  unfolding hrw_beats_def by (metis neqE)

lemma hrw_beats_asym: "hrw_beats h a b \<Longrightarrow> \<not> hrw_beats h b a"
  unfolding hrw_beats_def by (metis less_asym less_irrefl)

lemma hrw_loop_best:
  "ok \<Longrightarrow> s = hrwScore owner h \<Longrightarrow> hrw_loop h members (owner, s, ok) = (r, s', ok') \<Longrightarrow>
     ok' \<and> s' = hrwScore r h \<and> r \<in> insert owner (set members) \<and>
     (\<forall>m \<in> insert owner (set members). m = r \<or> hrw_beats h r m)"
proof (induction members arbitrary: owner s ok)
  case (Cons m members)
  show ?case
  proof (cases "hrw_beats h m owner")
    case True
    then have "s < hrwScore m h \<or> hrwScore m h = s \<and> owner < m"
      using Cons.prems(2) unfolding hrw_beats_def by metis
    then have "hrw_loop h members (m, hrwScore m h, True) = (r, s', ok')"
      using Cons.prems(3) by (simp only: hrw_loop.simps Let_def simp_thms if_True)
    from Cons.IH [OF _ _ this] have IH: "ok'" "s' = hrwScore r h" "r \<in> insert m (set members)"
      "\<forall>n \<in> insert m (set members). n = r \<or> hrw_beats h r n" by simp_all
    then have "hrw_beats h r owner" using True hrw_beats_trans [of h r m owner] by (cases "m = r") simp_all
    with IH show ?thesis by simp
  next
    case False
    then have "\<not> (\<not> ok \<or> s < hrwScore m h \<or> hrwScore m h = s \<and> owner < m)"
      using Cons.prems(1,2) unfolding hrw_beats_def by metis
    then have "hrw_loop h members (owner, s, ok) = (r, s', ok')"
      using Cons.prems(3) by (simp only: hrw_loop.simps Let_def if_False)
    from Cons.IH [OF Cons.prems(1,2) this] have IH: "ok'" "s' = hrwScore r h" "r \<in> insert owner (set members)"
      "owner = r \<or> hrw_beats h r owner" "\<forall>n \<in> set members. n = r \<or> hrw_beats h r n" by simp_all
    have "m = owner \<or> hrw_beats h owner m" using False hrw_beats_total by blast
    then have "m = r \<or> hrw_beats h r m" using IH(4) hrw_beats_trans by blast
    with IH show ?thesis by simp blast
  qed
qed auto

lemma HRWOwner_Cons: "HRWOwner (m # ms) h = (case hrw_loop h ms (m, hrwScore m h, True) of (r, s, ok) \<Rightarrow> (r, ok))"
  by (simp only: HRWOwner_def hrw_loop.simps Let_def simp_thms if_True case_prod_beta)

lemma hrw_owner_best:
  assumes "ms \<noteq> []"
  shows "\<exists>r. hrw_owner ms h = Some r \<and> r \<in> set ms \<and> (\<forall>m \<in> set ms. m = r \<or> hrw_beats h r m)"
proof -
  from assms obtain m ns where ms: "ms = m # ns" by (cases ms) auto
  obtain r s ok where l: "hrw_loop h ns (m, hrwScore m h, True) = (r, s, ok)" using prod_cases3 by blast
  from hrw_loop_best [OF _ refl l] show ?thesis by (auto simp: ms hrw_owner_def HRWOwner_Cons l)
qed

interpretation hrw: rendezvous hrw_owner hrw_beats
proof unfold_locales
  fix ms :: "string list" and h r m
  show "ms \<noteq> [] \<Longrightarrow> \<exists>r. hrw_owner ms h = Some r" using hrw_owner_best by blast
  have nil: "hrw_owner [] h = None" by (simp add: hrw_owner_def HRWOwner_def)
  show "hrw_owner ms h = Some r \<Longrightarrow> r \<in> set ms" using hrw_owner_best [of ms h] nil by (cases "ms = []") auto
  show "hrw_owner ms h = Some r \<Longrightarrow> m \<in> set ms \<Longrightarrow> m = r \<or> hrw_beats h r m"
    using hrw_owner_best [of ms h] nil by (cases "ms = []") auto
  show "hrw_beats h r m \<Longrightarrow> \<not> hrw_beats h m r" by (rule hrw_beats_asym)
qed

lemma HRWOwner_eq: "HRWOwner ms h = (r, True) \<longleftrightarrow> hrw_owner ms h = Some r"
  by (cases "HRWOwner ms h") (auto simp: hrw_owner_def)

section \<open>The score mixer\<close>

lemma xorshift_inject:
  fixes y z :: "64 word"
  assumes "0 < n" and "z XOR drop_bit n z = y XOR drop_bit n y"
  shows "z = y"
proof -
  let ?d = "z XOR y"
  have d: "?d = drop_bit n ?d"
  proof (rule bit_eqI)
    fix i
    have "bit (z XOR drop_bit n z) i = bit (y XOR drop_bit n y) i" by (simp only: assms(2))
    then show "bit ?d i \<longleftrightarrow> bit (drop_bit n ?d) i" unfolding bit_xor_iff bit_drop_bit_eq comp_def by blast
  qed
  have "unat ?d = unat (drop_bit n ?d)" by (rule arg_cong [OF d])
  also have "\<dots> = unat ?d div 2 ^ n" unfolding unat_drop_bit_eq by (rule drop_bit_eq_div)
  finally have "unat ?d = unat ?d div 2 ^ n" .
  moreover have "unat ?d div 2 ^ n < unat ?d" if "unat ?d \<noteq> 0"
    using that one_less_power [of "2 :: nat" n] assms(1) by (intro div_less_dividend) simp_all
  ultimately have "unat ?d = 0" by linarith
  then have "?d = 0" by (simp add: unat_eq_0)
  have "z = ?d XOR y" by (simp only: xor.assoc xor_self_eq xor.right_neutral)
  also have "\<dots> = y" unfolding \<open>?d = 0\<close> by (rule xor.left_neutral)
  finally show ?thesis .
qed

lemma odd_factor_inject:
  fixes c :: "64 word"
  assumes "c * c' = 1" and "y * c = z * c"
  shows "y = z"
proof -
  have "y * c * c' = z * c * c'" using assms(2) by simp
  then show ?thesis using assms(1) by (simp only: mult.assoc mult_1_right)
qed

lemma mix64_inject: "mix64 y = mix64 z \<longleftrightarrow> y = z"
proof
  assume "mix64 y = mix64 z"
  note e1 = xorshift_inject [OF _ this [unfolded mix64_def Let_def]]
  have m: "(0x94d049bb133111eb :: 64 word) * 0x319642b2d24d8ec3 = 1" "(0xbf58476d1ce4e5b9 :: 64 word) * 0x96de1b173f119089 = 1"
    by simp_all
  have p: "0 < (31 :: nat)" "0 < (27 :: nat)" "0 < (30 :: nat)" by simp_all
  show "y = z"
    by (rule xorshift_inject [OF p(3) odd_factor_inject [OF m(2) xorshift_inject [OF p(2) odd_factor_inject [OF m(1) e1 [OF p(1)]]]]])
qed simp

section \<open>Shard members and keys\<close>

lemma LastIndex_append: "LastIndex t sub = Some i \<Longrightarrow> LastIndex (s @ t) sub = Some (length s + i)"
  by (induction s) simp_all

lemma LastIndex_None: "CHR '':'' \<notin> set s \<Longrightarrow> LastIndex s '':g:'' = None"
  by (induction s) (auto simp: has_prefix_def)

lemma LastIndex_shard: "CHR '':'' \<notin> set s \<Longrightarrow> CHR ''g'' \<notin> set s \<Longrightarrow> LastIndex ('':g:'' @ s) '':g:'' = Some 0"
  by (cases s) (auto simp: has_prefix_def LastIndex_None)

lemma FormatInt_pos: "0 < g \<Longrightarrow> list_all is_digit (FormatInt g) \<and> FormatInt g \<noteq> ''''"
  by (auto simp: FormatInt_def list_all_iff dest: dec_digits_digits)

lemma baseSubID_shardMember:
  assumes "0 < g"
  shows "baseSubID (sid @ '':g:'' @ FormatInt g) = sid"
proof -
  have d: "list_all is_digit (FormatInt g)" "FormatInt g \<noteq> ''''" using FormatInt_pos [OF assms] by auto
  then have "CHR '':'' \<notin> set (FormatInt g)" "CHR ''g'' \<notin> set (FormatInt g)"
    by (auto simp: list_all_iff is_digit_def)
  from LastIndex_append [OF LastIndex_shard [OF this]] d show ?thesis by (simp add: baseSubID_def)
qed

lemma slot_bound: "slotOf sid < subSlots"
proof -
  have "fnv32a (baseSubID sid) mod 256 < 256" by (rule word_mod_less_divisor) simp
  then show ?thesis by (simp add: slotOf_def subSlots_def word_less_nat_alt)
qed

section \<open>Properties\<close>

text \<open>
  C33: The slot assignment is a rendezvous: it depends on the set of live replicas only, a replica
  that joins takes over only the slots it wins, and a replica that leaves gives up only its own.
\<close>
theorem hrw_minimal_disruption:
  "(set ms = set ns \<longrightarrow> HRWOwner ms h = (r, True) \<longrightarrow> HRWOwner ns h = (r, True)) \<and>
   (HRWOwner ms h = (r, True) \<longrightarrow> HRWOwner (m # ms) h = (r, True) \<or> HRWOwner (m # ms) h = (m, True)) \<and>
   (HRWOwner ms h = (r, True) \<and> r \<noteq> m \<longrightarrow> HRWOwner (removeAll m ms) h = (r, True)) \<and>
   (ms \<noteq> [] \<longrightarrow> (\<exists>q \<in> set ms. HRWOwner ms h = (q, True)))"
  unfolding HRWOwner_eq
  using hrw.owner_set [of ms ns h] hrw.owner_join [of m ms h] hrw.owner_leave [of ms h m] hrw.owner_exists [of ms h]
    hrw.owner_member [of ms h]
  by (intro conjI impI) (simp_all, metis, metis)

theorem hrw_minimal_disruption_witness:
  "\<exists>q \<in> {''a'', ''b''}. HRWOwner [''a'', ''b''] 3 = (q, True)"
  using hrw_minimal_disruption [of "[''a'', ''b'']" "[]" 3 "''''" "''''"] by simp

text \<open>
  C34: A schedule member of a claim shard leads back to the shard's own fence record, in the slot of
  its subscription, for every subscription id that does not itself end like a shard member.
\<close>
theorem shard_member_key:
  assumes "baseSubID sid = sid"
  shows "subKey (shardMember sid g) = subShardKey sid g \<and> slotOf (shardMember sid g) = slotOf sid \<and>
    slotOf sid < subSlots"
  using assms baseSubID_shardMember [of g sid] slot_bound [of sid]
  by (simp add: shardMember_def subShardKey_def subKey_def slotTag_def slotOf_def)

theorem shard_member_key_witness: "subKey (shardMember ''orders'' 2) = subShardKey ''orders'' 2"
proof -
  have "baseSubID ''orders'' = ''orders''" by code_simp
  from shard_member_key [OF this] show ?thesis by simp
qed


end
