(* ===== verification/Webhook_Types.thy ===== *)
theory Webhook_Types
  imports Chronicle_Prelude
begin

text \<open>
  The records of the subscription control plane (\<^verbatim>\<open>webhook/types.go\<close>) and the normal form of a
  subscription's configuration with its hash (\<^verbatim>\<open>webhook/config.go\<close>).  The string types of the
  source (dispatch type, phase, link type, status) stay strings: a record read back from Redis
  can hold any value there.  SHA-256 is an argument of \<open>ConfigHash\<close>.
\<close>

section \<open>Records\<close>

type_synonym DispatchType = string
type_synonym Phase = string
type_synonym LinkType = string
type_synonym Status = string

definition DispatchWebhook :: DispatchType where "DispatchWebhook = ''webhook''"
definition DispatchPullWake :: DispatchType where "DispatchPullWake = ''pull-wake''"

definition PhaseIdle :: Phase where "PhaseIdle = ''idle''"
definition PhaseWaking :: Phase where "PhaseWaking = ''waking''"
definition PhaseLive :: Phase where "PhaseLive = ''live''"

definition LinkGlob :: LinkType where "LinkGlob = ''glob''"
definition LinkExplicit :: LinkType where "LinkExplicit = ''explicit''"

definition MinLeaseTTLMs :: int64 where "MinLeaseTTLMs = 1000"
definition MaxLeaseTTLMs :: int64 where "MaxLeaseTTLMs = 600000"
definition DefaultLeaseTTLMs :: int64 where "DefaultLeaseTTLMs = 30000"

lemmas webhook_consts =
  DispatchWebhook_def DispatchPullWake_def PhaseIdle_def PhaseWaking_def PhaseLive_def LinkGlob_def LinkExplicit_def

lemmas lease_consts = MinLeaseTTLMs_def MaxLeaseTTLMs_def DefaultLeaseTTLMs_def

record Config =
  cf_Type :: DispatchType
  cf_Pattern :: string
  cf_Streams :: "string list"
  cf_WebhookURL :: string
  cf_WakeStream :: string
  cf_LeaseTTLMs :: int64
  cf_Description :: string

record StreamLink =
  sl_Path :: string
  sl_LinkType :: LinkType
  sl_AckedOffset :: string

record StreamSnapshot =
  ss_Path :: string
  ss_LinkType :: LinkType
  ss_AckedOffset :: string
  ss_TailOffset :: string
  ss_HasPending :: bool

record Ack =
  ack_Stream :: string
  ack_Offset :: string

record Subscription =
  sub_ID :: string
  sub_Config :: Config
  sub_CfgHash :: string
  sub_CreatedAt :: gotime
  sub_OwnerSubject :: string
  sub_Incarnation :: string
  sub_Status :: Status
  sub_Phase :: Phase
  sub_Generation :: int64
  sub_WakeID :: string
  sub_Holder :: bool
  sub_HolderWorker :: string
  sub_LeaseUntilNs :: int64
  sub_RetryCount :: int
  sub_FirstFailNs :: int64
  sub_NextAttemptNs :: int64
  sub_WakeEventSentNs :: int64
  sub_Links :: "StreamLink list"

definition ErrCodeFenced :: string where "ErrCodeFenced = ''FENCED''"
definition ErrCodeAlreadyClaimed :: string where "ErrCodeAlreadyClaimed = ''ALREADY_CLAIMED''"

section \<open>Configuration\<close>

definition ClampLeaseTTL :: "int64 \<Rightarrow> int64" where
  "ClampLeaseTTL ms =
     (if ms = 0 then DefaultLeaseTTLMs
      else if ms < MinLeaseTTLMs then MinLeaseTTLMs
      else if MaxLeaseTTLMs < ms then MaxLeaseTTLMs
      else ms)"

text \<open>The loop of \<^verbatim>\<open>normalizeStreams\<close>: trimmed, non-empty and new streams, in input order.\<close>

fun collect_streams :: "string list \<Rightarrow> string list \<Rightarrow> string list" where
  "collect_streams [] out = out"
| "collect_streams (s # rest) out =
     (let s = trim_slashes s
      in if s = '''' then collect_streams rest out
         else if s \<in> set out then collect_streams rest out
         else collect_streams rest (out @ [s]))"

definition normalizeStreams :: "string list \<Rightarrow> string list" where
  "normalizeStreams input = sort (collect_streams input [])"

definition NormalizeConfig :: "Config \<Rightarrow> Config" where
  "NormalizeConfig c =
     c\<lparr>cf_LeaseTTLMs := ClampLeaseTTL (cf_LeaseTTLMs c), cf_Streams := normalizeStreams (cf_Streams c)\<rparr>"

definition writeField :: "string \<Rightarrow> string \<Rightarrow> string" where
  "writeField key val = key @ ''='' @ FormatInt (int (length val)) @ '':'' @ val @ '';''"

text \<open>The text whose SHA-256 is the configuration hash.\<close>

definition config_text :: "Config \<Rightarrow> string" where
  "config_text c =
     (let n = NormalizeConfig c
      in writeField ''type'' (cf_Type n) @
         writeField ''pattern'' (cf_Pattern n) @
         writeField ''streams'' (join_with [CHR 0x1F] (cf_Streams n)) @
         writeField ''webhook_url'' (cf_WebhookURL n) @
         writeField ''wake_stream'' (cf_WakeStream n) @
         writeField ''lease_ttl_ms'' (FormatInt (cf_LeaseTTLMs n)) @
         writeField ''description'' (cf_Description n))"

definition ConfigHash :: "(bytes \<Rightarrow> bytes) \<Rightarrow> Config \<Rightarrow> string" where
  "ConfigHash sha256 c = hex_EncodeToString (sha256 (config_text c))"

text \<open>\<^verbatim>\<open>ValidateConfig\<close>: the reason for a 400, empty when the configuration is valid.\<close>

definition ValidateConfig :: "Config \<Rightarrow> string" where
  "ValidateConfig c =
     (if cf_Type c \<noteq> DispatchWebhook \<and> cf_Type c \<noteq> DispatchPullWake
      then ''type must be \"webhook\" or \"pull-wake\"''
      else if cf_Pattern c = '''' \<and> cf_Streams c = [] then ''at least one of pattern or streams is required''
      else if cf_Type c = DispatchWebhook \<and> cf_WebhookURL c = '''' then ''webhook.url is required for type \"webhook\"''
      else if cf_Type c = DispatchPullWake \<and> cf_WakeStream c = '''' then ''wake_stream is required for type \"pull-wake\"''
      else '''')"

section \<open>The normal form\<close>

lemma ClampLeaseTTL_bounds: "MinLeaseTTLMs \<le> ClampLeaseTTL ms \<and> ClampLeaseTTL ms \<le> MaxLeaseTTLMs"
  by (simp add: ClampLeaseTTL_def lease_consts)

lemma ClampLeaseTTL_idem [simp]: "ClampLeaseTTL (ClampLeaseTTL ms) = ClampLeaseTTL ms"
  by (simp add: ClampLeaseTTL_def lease_consts)

definition stream_names :: "string list \<Rightarrow> string set" where
  "stream_names input = trim_slashes ` set input - {''''}"

lemma collect_streams_set: "set (collect_streams input out) = set out \<union> stream_names input"
  by (induction input out rule: collect_streams.induct) (auto simp: Let_def stream_names_def)

lemma collect_streams_distinct: "distinct out \<Longrightarrow> distinct (collect_streams input out)"
  by (induction input out rule: collect_streams.induct) (auto simp: Let_def)

lemma normalizeStreams_props:
  "set (normalizeStreams input) = stream_names input \<and> distinct (normalizeStreams input) \<and> sorted (normalizeStreams input)"
  by (simp add: normalizeStreams_def collect_streams_set collect_streams_distinct)

lemma normalizeStreams_cong: "stream_names xs = stream_names ys \<Longrightarrow> normalizeStreams xs = normalizeStreams ys"
  using normalizeStreams_props [of xs] normalizeStreams_props [of ys] by (intro sorted_distinct_set_unique) auto

lemma dropWhile_idem: "dropWhile P (dropWhile P xs) = dropWhile P xs"
  by (induction xs) auto

lemma trim_slashes_idem [simp]: "trim_slashes (trim_slashes s) = trim_slashes s"
proof -
  let ?P = "\<lambda>c. c = CHR ''/''"
  let ?a = "dropWhile ?P s"
  have "dropWhile ?P (rev (dropWhile ?P (rev ?a))) = rev (dropWhile ?P (rev ?a))"
  proof (cases "rev (dropWhile ?P (rev ?a))")
    case (Cons x xs)
    have "?a = rev (takeWhile ?P (rev ?a) @ dropWhile ?P (rev ?a))" by (simp only: takeWhile_dropWhile_id rev_rev_ident)
    then have "?a = x # xs @ rev (takeWhile ?P (rev ?a))" using Cons by (simp only: rev_append append_Cons)
    then have "hd ?a = x" "?a \<noteq> []" by (metis list.sel(1), metis list.discI)
    then have "\<not> ?P x" using hd_dropWhile [of ?P s] by auto
    then show ?thesis unfolding Cons by simp
  next
    case Nil
    show ?thesis unfolding Nil by simp
  qed
  then show ?thesis unfolding trim_slashes_def by (simp only: rev_rev_ident dropWhile_idem)
qed

lemma stream_names_idem: "stream_names (normalizeStreams xs) = stream_names xs"
proof -
  have names: "set (normalizeStreams xs) = stream_names xs" using normalizeStreams_props by blast
  have fixed: "trim_slashes p = p \<and> p \<noteq> ''''" if "p \<in> stream_names xs" for p using that by (auto simp: stream_names_def)
  have "trim_slashes ` stream_names xs = (\<lambda>p. p) ` stream_names xs" using fixed by (intro image_cong) auto
  then show ?thesis unfolding stream_names_def [of "normalizeStreams xs"] names using fixed by auto
qed

lemma NormalizeConfig_idem: "NormalizeConfig (NormalizeConfig c) = NormalizeConfig c"
  using normalizeStreams_cong [OF stream_names_idem] by (simp add: NormalizeConfig_def)

section \<open>The hashed text\<close>

lemma colon_not_FormatInt: "CHR '':'' \<notin> set (FormatInt n)"
  using dec_digits_digits [of "CHR '':''"] by (auto simp: FormatInt_def is_digit_def)

lemma FormatInt_nat_inject: "FormatInt (int m) = FormatInt (int n) \<longleftrightarrow> m = n"
  by (metis FormatInt_def dec_value_dec_digits nat_int of_nat_less_0_iff)

lemma writeField_inject: "writeField k v @ r = writeField k v' @ r' \<longleftrightarrow> v = v' \<and> r = r'"
  by (auto simp: writeField_def append_sep_inject colon_not_FormatInt FormatInt_nat_inject)

lemma join_inject:
  fixes xs ys :: "string list"
  assumes "\<forall>p \<in> set xs. sep \<notin> set p \<and> p \<noteq> []" and "\<forall>p \<in> set ys. sep \<notin> set p \<and> p \<noteq> []"
    and "join_with [sep] xs = join_with [sep] ys"
  shows "xs = ys"
proof -
  have nn: "join_with [sep] zs \<noteq> []" if "zs \<noteq> []" "\<forall>p \<in> set zs. sep \<notin> set p \<and> p \<noteq> []" for zs :: "string list"
    using that by (cases zs; cases "tl zs") auto
  show ?thesis
  proof (cases "xs = [] \<or> ys = []")
    case True
    then show ?thesis using assms nn [OF _ assms(1)] nn [OF _ assms(2)] by (cases xs; cases ys) auto
  next
    case False
    with assms split_on_join [of xs sep] split_on_join [of ys sep] show ?thesis by metis
  qed
qed

definition unit_free :: "Config \<Rightarrow> bool" where
  "unit_free c \<longleftrightarrow> (\<forall>s \<in> set (cf_Streams c). CHR 0x1F \<notin> set s)"

lemma set_trim_slashes: "set (trim_slashes s) \<subseteq> set s"
  by (auto simp: trim_slashes_def dest!: set_dropWhileD)

lemma unit_free_names: "unit_free c \<Longrightarrow> \<forall>p \<in> set (normalizeStreams (cf_Streams c)). CHR 0x1F \<notin> set p \<and> p \<noteq> []"
  using normalizeStreams_props [of "cf_Streams c"] set_trim_slashes
  by (fastforce simp: stream_names_def unit_free_def)

lemma config_text_inject:
  assumes "unit_free c" and "unit_free d"
    and "is_i64 (cf_LeaseTTLMs c)" and "is_i64 (cf_LeaseTTLMs d)"
  shows "config_text c = config_text d \<longleftrightarrow> NormalizeConfig c = NormalizeConfig d"
proof
  assume "NormalizeConfig c = NormalizeConfig d"
  then show "config_text c = config_text d" by (simp add: config_text_def)
next
  let ?c = "NormalizeConfig c" and ?d = "NormalizeConfig d"
  assume eq: "config_text c = config_text d"
  have last_field: "writeField k v = writeField k v' \<longleftrightarrow> v = v'" for k v v'
    using writeField_inject [of k v "''''" v' "''''"] by simp
  from eq have f: "cf_Type ?c = cf_Type ?d" "cf_Pattern ?c = cf_Pattern ?d"
      "join_with [CHR 0x1F] (cf_Streams ?c) = join_with [CHR 0x1F] (cf_Streams ?d)"
      "cf_WebhookURL ?c = cf_WebhookURL ?d" "cf_WakeStream ?c = cf_WakeStream ?d"
      "FormatInt (cf_LeaseTTLMs ?c) = FormatInt (cf_LeaseTTLMs ?d)" "cf_Description ?c = cf_Description ?d"
    by (simp_all add: config_text_def Let_def writeField_inject last_field)
  have "cf_Streams ?c = cf_Streams ?d"
    using f(3) join_inject [OF unit_free_names [OF assms(1)] unit_free_names [OF assms(2)]] by (simp add: NormalizeConfig_def)
  moreover have "cf_LeaseTTLMs ?c = cf_LeaseTTLMs ?d"
    using f(6) ClampLeaseTTL_bounds [of "cf_LeaseTTLMs c"] ClampLeaseTTL_bounds [of "cf_LeaseTTLMs d"]
      int_codec.enc_inject [of "cf_LeaseTTLMs ?c" "cf_LeaseTTLMs ?d"]
    by (simp add: NormalizeConfig_def is_i64_def lease_consts)
  ultimately show "?c = ?d" using f by (simp add: Config.equality)
qed

section \<open>The hash\<close>

lemma hex_digit_inject: "m < 16 \<Longrightarrow> n < 16 \<Longrightarrow> hex_digit m = hex_digit n \<longleftrightarrow> m = n"
  by (auto simp: hex_digit_def char_of_eq_iff take_bit_eq_mod split: if_splits)

lemma hex_EncodeToString_inject: "hex_EncodeToString a = hex_EncodeToString b \<Longrightarrow> a = b"
proof (induction a arbitrary: b)
  case Nil
  then show ?case by (cases b) (auto simp: hex_EncodeToString_def)
next
  case (Cons x a)
  from Cons.prems obtain y b' where b: "b = y # b'" by (cases b) (auto simp: hex_EncodeToString_def)
  have le: "(of_char z :: nat) div 16 < 16" for z :: char using of_char_nat_less [of z] by (intro less_mult_imp_div_less) simp
  from Cons.prems b have "hex_digit (of_char x div 16) = hex_digit (of_char y div 16)"
      "hex_digit (of_char x mod 16) = hex_digit (of_char y mod 16)" "hex_EncodeToString a = hex_EncodeToString b'"
    by (simp_all add: hex_EncodeToString_def)
  then have "(of_char x :: nat) div 16 = of_char y div 16" "(of_char x :: nat) mod 16 = of_char y mod 16" "a = b'"
    using Cons.IH le by (simp_all add: hex_digit_inject)
  then show ?case using b by (metis div_mult_mod_eq of_char_eq_iff)
qed

text \<open>
  C27: The configuration hash identifies the configuration: two configurations have the same hash
  exactly when their normal forms agree, if no stream name contains the separator byte 0x1F and
  SHA-256 does not collide on the two texts.  The normal form does not depend on the order, the
  repetition or the surrounding slashes of the stream names, and is its own normal form.
\<close>
theorem config_hash_identifies:
  assumes "unit_free c" and "unit_free d" and "is_i64 (cf_LeaseTTLMs c)" and "is_i64 (cf_LeaseTTLMs d)"
    and "sha256 (config_text c) = sha256 (config_text d) \<Longrightarrow> config_text c = config_text d"
  shows "(ConfigHash sha256 c = ConfigHash sha256 d \<longleftrightarrow> NormalizeConfig c = NormalizeConfig d) \<and>
    NormalizeConfig (NormalizeConfig c) = NormalizeConfig c \<and>
    (trim_slashes ` set xs - {''''} = trim_slashes ` set (cf_Streams c) - {''''} \<longrightarrow>
       NormalizeConfig (c\<lparr>cf_Streams := xs\<rparr>) = NormalizeConfig c)"
proof -
  have "ConfigHash sha256 c = ConfigHash sha256 d \<longleftrightarrow> config_text c = config_text d"
    using assms(5) by (auto simp: ConfigHash_def dest: hex_EncodeToString_inject)
  then show ?thesis
    using config_text_inject [OF assms(1-4)] NormalizeConfig_idem [of c] normalizeStreams_cong [of xs "cf_Streams c"]
    by (simp add: stream_names_def) (simp add: NormalizeConfig_def)
qed

definition demo_config :: "string list \<Rightarrow> Config" where
  "demo_config streams =
     \<lparr>cf_Type = DispatchPullWake, cf_Pattern = '''', cf_Streams = streams, cf_WebhookURL = '''', cf_WakeStream = ''wake'',
      cf_LeaseTTLMs = 0, cf_Description = ''''\<rparr>"

lemma char_demo: "CHR ''a'' < CHR ''b''" "CHR ''a'' < CHR ''c''"
  by (simp_all add: less_char_def)

lemma demo_names:
  "normalizeStreams [''a'', ''b''] = [''a'', ''b'']" "normalizeStreams [''a'', ''c''] = [''a'', ''c'']"
  "normalizeStreams [''a'' @ CHR 0x1F # ''b''] = [''a'' @ CHR 0x1F # ''b'']"
  by (simp_all add: normalizeStreams_def trim_slashes_def char_demo)

theorem config_hash_identifies_witness:
  "ConfigHash (\<lambda>b. b) (demo_config [''a'', ''b'']) \<noteq> ConfigHash (\<lambda>b. b) (demo_config [''a'', ''c''])"
proof -
  have ne: "NormalizeConfig (demo_config [''a'', ''b'']) \<noteq> NormalizeConfig (demo_config [''a'', ''c''])"
    by (simp add: NormalizeConfig_def demo_config_def demo_names)
  have u: "unit_free (demo_config [''a'', ''b''])" "unit_free (demo_config [''a'', ''c''])"
    by (simp_all add: unit_free_def demo_config_def)
  have i: "is_i64 (cf_LeaseTTLMs (demo_config s))" for s by (simp add: demo_config_def is_i64_def)
  from config_hash_identifies [OF u i i, of "\<lambda>b. b"] ne show ?thesis by blast
qed


end
