(* ===== verification/Webhook_State.thy ===== *)
theory Webhook_State
  imports Webhook_Types Stream_Offset
begin

text \<open>
  The pure core of the subscription control plane (\<^verbatim>\<open>webhook/state.go\<close>): pending work, leases,
  the fence and claim decisions, the reconciliation of the due set and of the lease schedule, and
  the merge of acknowledgements.  The tail of a stream is an argument, as \<^verbatim>\<open>TailFunc\<close> is.
\<close>

section \<open>Pending work\<close>

definition offsetGreater :: "string \<Rightarrow> string \<Rightarrow> bool" where
  "offsetGreater a b =
     (if a = b then False
      else if b = ''-1'' \<or> b = '''' then a \<noteq> ''-1'' \<and> a \<noteq> ''''
      else if a = ''-1'' \<or> a = '''' then False
      else b < a)"

type_synonym TailFunc = "string \<Rightarrow> string \<times> bool"

definition link_snapshot :: "TailFunc \<Rightarrow> StreamLink \<Rightarrow> StreamSnapshot" where
  "link_snapshot tailOf l =
     (case tailOf (sl_Path l) of (tail, ok) \<Rightarrow>
        let tail = (if \<not> ok then sl_AckedOffset l else tail)
        in \<lparr>ss_Path = sl_Path l, ss_LinkType = sl_LinkType l, ss_AckedOffset = sl_AckedOffset l,
            ss_TailOffset = tail, ss_HasPending = offsetGreater tail (sl_AckedOffset l)\<rparr>)"

fun Snapshot :: "StreamLink list \<Rightarrow> TailFunc \<Rightarrow> StreamSnapshot list \<times> bool" where
  "Snapshot [] tailOf = ([], False)"
| "Snapshot (l # links) tailOf =
     (let s = link_snapshot tailOf l; (out, anyPending) = Snapshot links tailOf
      in (s # out, ss_HasPending s \<or> anyPending))"

definition HasPendingWork :: "StreamLink list \<Rightarrow> TailFunc \<Rightarrow> bool" where
  "HasPendingWork links tailOf = snd (Snapshot links tailOf)"

fun HasPendingWorkFrom :: "StreamLink list \<Rightarrow> (string \<rightharpoonup> string) \<Rightarrow> bool" where
  "HasPendingWorkFrom [] tails = False"
| "HasPendingWorkFrom (l # links) tails =
     (case tails (sl_Path l) of
        None \<Rightarrow> HasPendingWorkFrom links tails
      | Some tail \<Rightarrow>
          (if offsetGreater tail (sl_AckedOffset l) then True else HasPendingWorkFrom links tails))"

section \<open>Leases\<close>

definition LeaseDeadlineNs :: "gotime \<Rightarrow> int64 \<Rightarrow> int64" where
  "LeaseDeadlineNs now leaseTTLMs = i64 (time_unix_nano now + i64 (ClampLeaseTTL leaseTTLMs * 1000000))"

definition LeaseExpired :: "int64 \<Rightarrow> gotime \<Rightarrow> bool" where
  "LeaseExpired leaseUntilNs now \<longleftrightarrow> leaseUntilNs \<noteq> 0 \<and> leaseUntilNs \<le> time_unix_nano now"

section \<open>Fences and claims\<close>

definition FenceDecision :: "Subscription \<Rightarrow> int64 \<Rightarrow> string \<Rightarrow> int64 \<Rightarrow> string" where
  "FenceDecision cur reqGeneration reqWakeID tokenGeneration =
     (if tokenGeneration \<noteq> sub_Generation cur \<or> reqGeneration \<noteq> sub_Generation cur \<or>
         reqWakeID = '''' \<or> reqWakeID \<noteq> sub_WakeID cur
      then ErrCodeFenced else '''')"

definition WebhookHolder :: "string \<Rightarrow> string" where
  "WebhookHolder wakeID = ''wake:'' @ wakeID"

definition claimHolder :: "Subscription \<Rightarrow> string" where
  "claimHolder sub =
     (if cf_Type (sub_Config sub) = DispatchWebhook then WebhookHolder (sub_WakeID sub) else sub_HolderWorker sub)"

definition claimHolds :: "Subscription \<Rightarrow> bool" where
  "claimHolds sub =
     (if sub_WakeID sub = '''' then False
      else if cf_Type (sub_Config sub) = DispatchWebhook
      then \<not> sub_Holder sub \<and> (sub_Phase sub = PhaseWaking \<or> sub_Phase sub = PhaseLive)
      else sub_Holder sub \<and> sub_Phase sub = PhaseLive)"

definition claimLive :: "Subscription \<Rightarrow> gotime \<Rightarrow> bool" where
  "claimLive sub now \<longleftrightarrow> claimHolds sub \<and> time_unix_nano now < sub_LeaseUntilNs sub"

definition WriteFenceDecision ::
    "Subscription \<Rightarrow> string \<Rightarrow> int64 \<Rightarrow> string \<Rightarrow> string \<Rightarrow> gotime \<Rightarrow> string" where
  "WriteFenceDecision sub incarnation generation wakeID holder now =
     (if (incarnation \<noteq> '''' \<and> incarnation \<noteq> sub_Incarnation sub) \<or> \<not> claimLive sub now \<or>
         generation \<noteq> sub_Generation sub \<or> wakeID = '''' \<or> wakeID \<noteq> sub_WakeID sub \<or>
         holder = '''' \<or> holder \<noteq> claimHolder sub
      then ErrCodeFenced else '''')"

definition ClaimDecision :: "Subscription \<Rightarrow> gotime \<Rightarrow> string \<times> string" where
  "ClaimDecision cur now =
     (if sub_Phase cur = PhaseLive \<and> sub_Holder cur \<and> \<not> LeaseExpired (sub_LeaseUntilNs cur) now
      then (ErrCodeAlreadyClaimed, sub_HolderWorker cur) else ('''', ''''))"

definition ClaimRotatesFence :: "Phase \<Rightarrow> string \<Rightarrow> bool" where
  "ClaimRotatesFence phase wakeID \<longleftrightarrow> phase \<noteq> PhaseWaking \<or> wakeID = ''''"

section \<open>Reconciliation\<close>

datatype DueAction = DueClear | DueFire | DueSkip

definition DecideDue :: "bool \<Rightarrow> Phase \<Rightarrow> bool \<Rightarrow> DueAction" where
  "DecideDue exists phase hasPending =
     (if \<not> exists then DueClear
      else if phase \<noteq> PhaseIdle then DueSkip
      else if \<not> hasPending then DueClear
      else DueFire)"

datatype LeaseReconcile = LeaseIntact | LeaseStranded

definition DecideLeaseReconcile :: "Phase \<Rightarrow> int64 \<Rightarrow> bool \<Rightarrow> LeaseReconcile" where
  "DecideLeaseReconcile phase leaseUntilNs inLeaseZSet =
     (if (phase = PhaseLive \<or> phase = PhaseWaking) \<and> 0 < leaseUntilNs \<and> \<not> inLeaseZSet
      then LeaseStranded else LeaseIntact)"

section \<open>Acknowledgements\<close>

text \<open>The map built from the acknowledgements: a later one for the same stream replaces an earlier one.\<close>

fun acks_by_path :: "Ack list \<Rightarrow> (string \<rightharpoonup> string) \<Rightarrow> (string \<rightharpoonup> string)" where
  "acks_by_path [] byPath = byPath"
| "acks_by_path (a # acks) byPath = acks_by_path acks (byPath(ack_Stream a \<mapsto> ack_Offset a))"

definition merge_ack :: "(string \<rightharpoonup> string) \<Rightarrow> StreamLink \<Rightarrow> StreamLink" where
  "merge_ack byPath l =
     (case byPath (sl_Path l) of
        None \<Rightarrow> l
      | Some off \<Rightarrow> if offsetGreater off (sl_AckedOffset l) then l\<lparr>sl_AckedOffset := off\<rparr> else l)"

definition MergeAcks :: "StreamLink list \<Rightarrow> Ack list \<Rightarrow> StreamLink list" where
  "MergeAcks links acks = map (merge_ack (acks_by_path acks Map.empty)) links"

section \<open>The order on offsets with sentinels\<close>

text \<open>The beginning sentinels \<^verbatim>\<open>"-1"\<close> and \<^verbatim>\<open>""\<close> rank below every other string and alike.\<close>

definition offset_key :: "string \<Rightarrow> string option" where
  "offset_key s = (if s = ''-1'' \<or> s = '''' then None else Some s)"

fun key_less :: "string option \<Rightarrow> string option \<Rightarrow> bool" where
  "key_less _ None = False"
| "key_less None (Some _) = True"
| "key_less (Some a) (Some b) = (a < b)"

lemma offsetGreater_key: "offsetGreater a b \<longleftrightarrow> key_less (offset_key b) (offset_key a)"
  by (auto simp: offsetGreater_def offset_key_def)

lemma key_less_irrefl [simp]: "\<not> key_less k k"
  by (cases k) auto

lemma key_less_trans: "key_less j k \<Longrightarrow> key_less k l \<Longrightarrow> key_less j l"
  by (cases j; cases k; cases l) auto

lemma key_less_total: "j \<noteq> k \<Longrightarrow> key_less j k \<or> key_less k j"
  by (cases j; cases k) auto

lemma offset_key_String: "offset_key (offset_String a) = Some (offset_String a)"
proof -
  have "length (offset_String a) \<ge> 33" by (simp add: offset_String_def pad16_def)
  then show ?thesis by (auto simp: offset_key_def)
qed

lemma offsetGreater_String:
  "narrow_offset a \<Longrightarrow> narrow_offset b \<Longrightarrow> offsetGreater (offset_String a) (offset_String b) \<longleftrightarrow> b < a"
  by (simp add: offsetGreater_key offset_key_String offset_String_less_iff)

section \<open>Pending work, one link at a time or in a batch\<close>

lemma HasPendingWork_iff:
  "HasPendingWork links tailOf \<longleftrightarrow>
     (\<exists>l \<in> set links. snd (tailOf (sl_Path l)) \<and> offsetGreater (fst (tailOf (sl_Path l))) (sl_AckedOffset l))"
  unfolding HasPendingWork_def
  by (induction links) (auto simp: Let_def link_snapshot_def offsetGreater_key split: prod.splits)

lemma HasPendingWorkFrom_iff:
  "HasPendingWorkFrom links tails \<longleftrightarrow>
     (\<exists>l \<in> set links. \<exists>tail. tails (sl_Path l) = Some tail \<and> offsetGreater tail (sl_AckedOffset l))"
  by (induction links) (auto split: option.splits)

lemma merge_ack_forward:
  "merge_ack m l = l \<or>
   (\<exists>off. m (sl_Path l) = Some off \<and> merge_ack m l = l\<lparr>sl_AckedOffset := off\<rparr> \<and> offsetGreater off (sl_AckedOffset l))"
  by (auto simp: merge_ack_def split: option.splits)

lemma acks_by_path_range:
  "acks_by_path acks m p = Some off \<Longrightarrow> m p = Some off \<or> (\<exists>a \<in> set acks. ack_Stream a = p \<and> ack_Offset a = off)"
  by (induction acks m rule: acks_by_path.induct) (auto split: if_splits)


section \<open>Properties\<close>

text \<open>
  C29: Acknowledgements only move cursors forward: merging keeps the links in place, a cursor either
  stays or moves to a greater offset that an acknowledgement for its stream names, and merging the
  same acknowledgements again changes nothing.
\<close>
theorem acks_forward_only:
  "length (MergeAcks links acks) = length links \<and>
   (\<forall>i < length links.
      sl_Path (MergeAcks links acks ! i) = sl_Path (links ! i) \<and>
      sl_LinkType (MergeAcks links acks ! i) = sl_LinkType (links ! i) \<and>
      (sl_AckedOffset (MergeAcks links acks ! i) = sl_AckedOffset (links ! i) \<or>
       offsetGreater (sl_AckedOffset (MergeAcks links acks ! i)) (sl_AckedOffset (links ! i)) \<and>
       (\<exists>a \<in> set acks. ack_Stream a = sl_Path (links ! i) \<and> ack_Offset a = sl_AckedOffset (MergeAcks links acks ! i)))) \<and>
   MergeAcks (MergeAcks links acks) acks = MergeAcks links acks"
proof -
  let ?m = "acks_by_path acks Map.empty"
  have one: "sl_Path (merge_ack ?m l) = sl_Path l \<and> sl_LinkType (merge_ack ?m l) = sl_LinkType l \<and>
      (sl_AckedOffset (merge_ack ?m l) = sl_AckedOffset l \<or>
       offsetGreater (sl_AckedOffset (merge_ack ?m l)) (sl_AckedOffset l) \<and>
       (\<exists>a \<in> set acks. ack_Stream a = sl_Path l \<and> ack_Offset a = sl_AckedOffset (merge_ack ?m l)))" for l
    using merge_ack_forward [of ?m l] acks_by_path_range [of acks Map.empty "sl_Path l"] by auto
  have "merge_ack ?m (merge_ack ?m l) = merge_ack ?m l" for l
    by (auto simp: merge_ack_def offsetGreater_key split: option.splits)
  then show ?thesis using one by (simp add: MergeAcks_def)
qed

theorem acks_forward_only_witness:
  "length (MergeAcks [\<lparr>sl_Path = ''a'', sl_LinkType = LinkGlob, sl_AckedOffset = ''-1''\<rparr>]
     [\<lparr>ack_Stream = ''a'', ack_Offset = ''5''\<rparr>]) = 1"
  using acks_forward_only [of "[\<lparr>sl_Path = ''a'', sl_LinkType = LinkGlob, sl_AckedOffset = ''-1''\<rparr>]"
      "[\<lparr>ack_Stream = ''a'', ack_Offset = ''5''\<rparr>]"] by simp

text \<open>
  C30: The batched test for pending work agrees with the one that asks for one tail at a time, and
  both hold exactly when some linked stream exists with a tail beyond its acknowledged offset.
\<close>
theorem pending_work_batched:
  "HasPendingWorkFrom links tails =
     HasPendingWork links (\<lambda>p. case tails p of None \<Rightarrow> (unused, False) | Some tail \<Rightarrow> (tail, True)) \<and>
   HasPendingWorkFrom links tails =
     (\<exists>l \<in> set links. \<exists>tail. tails (sl_Path l) = Some tail \<and> offsetGreater tail (sl_AckedOffset l))"
  unfolding HasPendingWorkFrom_iff HasPendingWork_iff
  by (intro conjI refl bex_cong) (auto split: option.split)



text \<open>
  C32: A write token that passes the fence belongs to the one current claim: its generation, wake and
  holder are the subscription's, and for pull-wake no other worker can claim at that moment.
\<close>
theorem write_token_excludes_claims:
  assumes "WriteFenceDecision sub inc generation wakeID holder now = ''''"
  shows "generation = sub_Generation sub \<and> wakeID = sub_WakeID sub \<and> holder = claimHolder sub \<and>
    FenceDecision sub generation wakeID generation = '''' \<and>
    (cf_Type (sub_Config sub) \<noteq> DispatchWebhook \<longrightarrow> ClaimDecision sub now = (ErrCodeAlreadyClaimed, holder))"
  using assms
  by (auto simp: WriteFenceDecision_def FenceDecision_def ClaimDecision_def claimLive_def claimHolds_def claimHolder_def
      LeaseExpired_def ErrCodeFenced_def split: if_splits)

definition demo_sub :: Subscription where
  "demo_sub =
     \<lparr>sub_ID = ''s'', sub_Config = demo_config [''a''], sub_CfgHash = '''', sub_CreatedAt = \<lparr>tm_sec = 0, tm_nsec = 0\<rparr>,
      sub_OwnerSubject = '''', sub_Incarnation = ''1'', sub_Status = ''active'', sub_Phase = PhaseLive, sub_Generation = 3,
      sub_WakeID = ''w'', sub_Holder = True, sub_HolderWorker = ''h'', sub_LeaseUntilNs = 10, sub_RetryCount = 0,
      sub_FirstFailNs = 0, sub_NextAttemptNs = 0, sub_WakeEventSentNs = 0, sub_Links = []\<rparr>"

theorem write_token_excludes_claims_witness:
  "ClaimDecision demo_sub \<lparr>tm_sec = 0, tm_nsec = 5\<rparr> = (ErrCodeAlreadyClaimed, ''h'')"
proof -
  have "WriteFenceDecision demo_sub ''1'' 3 ''w'' ''h'' \<lparr>tm_sec = 0, tm_nsec = 5\<rparr> = ''''"
    by (simp add: demo_sub_def demo_config_def webhook_consts WriteFenceDecision_def claimLive_def claimHolds_def
        claimHolder_def time_unix_nano_def i64_def wrap_signed_def)
  from write_token_excludes_claims [OF this] show ?thesis by (simp add: demo_sub_def demo_config_def webhook_consts)
qed

end
