(* ===== verification/Webhook_Abi.thy ===== *)
theory Webhook_Abi
  imports Webhook_Slots Lua_Numbers
begin

text \<open>
  The typed boundary between Go and the Lua scripts of the control plane (\<^verbatim>\<open>webhook/script_abi.go\<close>,
  \<^verbatim>\<open>webhook/script_keys.go\<close>, the schemas of \<^verbatim>\<open>webhook/scripts.go\<close>): the validation of a call before
  it is sent and the reading of a reply.  A Go \<^verbatim>\<open>any\<close> is a \<^verbatim>\<open>go_any\<close>; the error texts are the
  constructors of \<^verbatim>\<open>script_error\<close>.
\<close>

section \<open>Values and errors\<close>

datatype go_any = AnyNil | AnyString string | AnyInt int64 | AnyOther

datatype raw_reply = RawArray "go_any list" | RawOther

datatype script_error =
    KeyVectorLength | EmptyKey | WrongKeyRoles | WrongArgvArity nat | ArgvShape nat
  | GroupCount int64 nat | ArgNil | ArgType | ArgParse num_error | ArgBool int64 | ArgMissing
  | UnexpectedReply | NilElement nat | BadElement nat
  | WrongReplyArity nat nat | MissingField nat | FieldType nat | FieldParse nat
  | EmptyReply | UnexpectedStatus string | UnhandledStatus string
  | OwnerKeyMismatch | EmptyOwnerScope | EmptyExpectedPath | DuplicateExpectedPath string
  | NoPinnedConn | WaitFailed | DurabilityShort | ActionRefused

definition bindE :: "'e + 'a \<Rightarrow> ('a \<Rightarrow> 'e + 'b) \<Rightarrow> 'e + 'b" where
  "bindE m f = (case m of Inl e \<Rightarrow> Inl e | Inr x \<Rightarrow> f x)"

lemma bindE_simps [simp]: "bindE (Inl e) f = Inl e" "bindE (Inr x) f = f x"
  by (simp_all add: bindE_def)

lemma bindE_Inr_iff: "bindE m f = Inr y \<longleftrightarrow> (\<exists>x. m = Inr x \<and> f x = Inr y)"
  by (cases m) auto

section \<open>The schema of a call\<close>

type_synonym scriptKeyRole = string

text \<open>A key vector: the fields of the Go structure in order, each with its role.\<close>

type_synonym scriptKeyVector = "(scriptKeyRole \<times> string) list"

definition redisKeys :: "scriptKeyVector \<Rightarrow> string list" where
  "redisKeys k = map snd k"

definition keyRoles :: "scriptKeyVector \<Rightarrow> scriptKeyRole list" where
  "keyRoles k = map fst k"

datatype scriptArgKind = argString | argInt | argUnixNS | argBool01 | argDuration

record scriptArg =
  sa_Name :: string
  sa_Kind :: scriptArgKind

record scriptVariadicArgs =
  va_AfterFixed :: nat
  va_Group :: "scriptArg list"
  va_Trailing :: "scriptArg list"

record scriptArgSchema =
  as_Args :: "scriptArg list"
  as_Variadic :: "scriptVariadicArgs option"
  as_MinArgs :: nat

record scriptABI =
  abi_Name :: string
  abi_File :: string
  abi_Keys :: "scriptKeyRole list list"
  abi_Args :: scriptArgSchema

definition exactArgs :: "scriptArg list \<Rightarrow> scriptArgSchema" where
  "exactArgs args = \<lparr>as_Args = args, as_Variadic = None, as_MinArgs = 0\<rparr>"

definition variadicArgs :: "scriptArg list \<Rightarrow> scriptArg list \<Rightarrow> scriptArg list \<Rightarrow> scriptArgSchema" where
  "variadicArgs fixed grp trailing =
     \<lparr>as_Args = fixed,
      as_Variadic = Some \<lparr>va_AfterFixed = length fixed, va_Group = grp, va_Trailing = trailing\<rparr>,
      as_MinArgs = length fixed + length trailing\<rparr>"

definition arg :: "string \<Rightarrow> scriptArgKind \<Rightarrow> scriptArg" where
  "arg name kind = \<lparr>sa_Name = name, sa_Kind = kind\<rparr>"

definition parseArgInt :: "go_any \<Rightarrow> script_error + int64" where
  "parseArgInt v =
     (case v of
        AnyInt x \<Rightarrow> Inr x
      | AnyString x \<Rightarrow> (case ParseInt x of Inl e \<Rightarrow> Inl (ArgParse e) | Inr n \<Rightarrow> Inr n)
      | _ \<Rightarrow> Inl ArgType)"

definition validateArgKind :: "scriptArgKind \<Rightarrow> go_any \<Rightarrow> script_error + unit" where
  "validateArgKind kind v =
     (if v = AnyNil then Inl ArgNil
      else (case kind of
              argString \<Rightarrow> (case v of AnyString _ \<Rightarrow> Inr () | _ \<Rightarrow> Inl ArgType)
            | argBool01 \<Rightarrow> bindE (parseArgInt v) (\<lambda>n. if n \<noteq> 0 \<and> n \<noteq> 1 then Inl (ArgBool n) else Inr ())
            | _ \<Rightarrow> bindE (parseArgInt v) (\<lambda>_. Inr ())))"

text \<open>The loop over the schema; a missing argument would be an index panic.\<close>

fun validateArgKinds :: "scriptArg list \<Rightarrow> go_any list \<Rightarrow> script_error + unit" where
  "validateArgKinds [] args = Inr ()"
| "validateArgKinds (spec # schema) [] = Inl ArgMissing"
| "validateArgKinds (spec # schema) (a # args) =
     bindE (validateArgKind (sa_Kind spec) a) (\<lambda>_. validateArgKinds schema args)"

fun validate_groups :: "nat \<Rightarrow> scriptArg list \<Rightarrow> go_any list \<Rightarrow> script_error + go_any list" where
  "validate_groups 0 grp args = Inr args"
| "validate_groups (Suc n) grp args =
     bindE (validateArgKinds grp (take (length grp) args))
       (\<lambda>_. validate_groups n grp (drop (length grp) args))"

definition group_count_ok :: "scriptArgSchema \<Rightarrow> nat \<Rightarrow> go_any list \<Rightarrow> nat \<Rightarrow> script_error + unit" where
  "group_count_ok s fixed args groups =
     (if 0 < fixed \<and> sa_Kind (as_Args s ! (fixed - 1)) = argInt
      then (case parseArgInt (args ! (fixed - 1)) of
              Inl _ \<Rightarrow> Inr ()
            | Inr n \<Rightarrow> if n \<noteq> int groups then Inl (GroupCount n groups) else Inr ())
      else Inr ())"

definition argSchema_validate :: "scriptArgSchema \<Rightarrow> go_any list \<Rightarrow> script_error + unit" where
  "argSchema_validate s args =
     (case as_Variadic s of
        None \<Rightarrow>
          (if length args \<noteq> length (as_Args s) then Inl (WrongArgvArity (length args))
           else validateArgKinds (as_Args s) args)
      | Some v \<Rightarrow>
          (if length args < as_MinArgs s then Inl (WrongArgvArity (length args))
           else (let fixed = va_AfterFixed v; size = length (va_Group v);
                     middle = int (length args) - int fixed - int (length (va_Trailing v))
                 in if middle < 0 \<or> size = 0 \<or> nat middle mod size \<noteq> 0 then Inl (ArgvShape (length args))
                    else bindE (validateArgKinds (as_Args s) (take fixed args)) (\<lambda>_.
                         bindE (group_count_ok s fixed args (nat middle div size)) (\<lambda>_.
                         bindE (validate_groups (nat middle div size) (va_Group v) (drop fixed args)) (\<lambda>rest.
                         validateArgKinds (va_Trailing v) rest))))))"

fun equalRoles :: "scriptKeyRole list \<Rightarrow> scriptKeyRole list \<Rightarrow> bool" where
  "equalRoles [] [] = True"
| "equalRoles (a # as) (b # bs) = (if a \<noteq> b then False else equalRoles as bs)"
| "equalRoles _ _ = False"

definition validateCall :: "scriptABI \<Rightarrow> scriptKeyVector \<Rightarrow> go_any list \<Rightarrow> script_error + unit" where
  "validateCall a k args =
     (if length (redisKeys k) \<noteq> length (keyRoles k) then Inl KeyVectorLength
      else if list_ex (\<lambda>key. key = '''') (redisKeys k) then Inl EmptyKey
      else if \<not> list_ex (equalRoles (keyRoles k)) (abi_Keys a) then Inl WrongKeyRoles
      else argSchema_validate (abi_Args a) args)"

section \<open>Reading a reply\<close>

type_synonym scriptReply = "go_any list"

fun reply_elements_ok :: "nat \<Rightarrow> go_any list \<Rightarrow> script_error + unit" where
  "reply_elements_ok i [] = Inr ()"
| "reply_elements_ok i (e # es) =
     (case e of
        AnyNil \<Rightarrow> Inl (NilElement i)
      | AnyOther \<Rightarrow> Inl (BadElement i)
      | _ \<Rightarrow> reply_elements_ok (Suc i) es)"

definition decodeScriptReply :: "raw_reply \<Rightarrow> script_error + scriptReply" where
  "decodeScriptReply raw =
     (case raw of
        RawOther \<Rightarrow> Inl UnexpectedReply
      | RawArray arr \<Rightarrow> bindE (reply_elements_ok 0 arr) (\<lambda>_. Inr arr))"

definition wantArity :: "scriptReply \<Rightarrow> nat \<Rightarrow> script_error + unit" where
  "wantArity r n = (if length r \<noteq> n then Inl (WrongReplyArity (length r) n) else Inr ())"

definition stringAt :: "scriptReply \<Rightarrow> nat \<Rightarrow> script_error + string" where
  "stringAt r i =
     (if length r \<le> i then Inl (MissingField i)
      else case r ! i of AnyString s \<Rightarrow> Inr s | _ \<Rightarrow> Inl (FieldType i))"

definition int64At :: "scriptReply \<Rightarrow> nat \<Rightarrow> script_error + int64" where
  "int64At r i =
     (if length r \<le> i then Inl (MissingField i)
      else case r ! i of
             AnyInt v \<Rightarrow> Inr v
           | AnyString v \<Rightarrow> (case ParseInt v of Inl _ \<Rightarrow> Inl (FieldParse i) | Inr n \<Rightarrow> Inr n)
           | _ \<Rightarrow> Inl (FieldType i))"

definition intAt :: "scriptReply \<Rightarrow> nat \<Rightarrow> script_error + int64" where
  "intAt r i = bindE (int64At r i) (\<lambda>n. Inr n)"

definition nsAt :: "scriptReply \<Rightarrow> nat \<Rightarrow> script_error + int64" where
  "nsAt r i =
     (if length r \<le> i then Inl (MissingField i)
      else case r ! i of
             AnyInt v \<Rightarrow> Inr v
           | AnyString v \<Rightarrow>
               (case ParseInt v of
                  Inr n \<Rightarrow> Inr n
                | Inl _ \<Rightarrow> (case parse_double v of None \<Rightarrow> Inl (FieldParse i) | Some f \<Rightarrow> Inr (int64_of_double f)))
           | _ \<Rightarrow> Inl (FieldType i))"

datatype replyFieldKind = replyString | replyInteger | replyNS

record replyVariant =
  rv_Status :: string
  rv_Fields :: "replyFieldKind list"

abbreviation unit_variant :: "string \<Rightarrow> replyVariant" where
  "unit_variant st \<equiv> \<lparr>rv_Status = st, rv_Fields = []\<rparr>"

definition decodeStatus :: "scriptReply \<Rightarrow> replyVariant list \<Rightarrow> script_error + string" where
  "decodeStatus r variants =
     (if r = [] then Inl EmptyReply
      else bindE (stringAt r 0) (\<lambda>st.
             if list_ex (\<lambda>allowed. st = rv_Status allowed) variants then Inr st else Inl (UnexpectedStatus st)))"

definition decodeUnitStatus :: "scriptReply \<Rightarrow> replyVariant list \<Rightarrow> script_error + string" where
  "decodeUnitStatus r variants =
     bindE (decodeStatus r variants) (\<lambda>st. bindE (wantArity r 1) (\<lambda>_. Inr st))"

record 'r typedScript =
  ts_abi :: scriptABI
  ts_variants :: "replyVariant list"
  ts_decode :: "scriptReply \<Rightarrow> script_error + 'r"

definition script_decode :: "'r typedScript \<Rightarrow> raw_reply \<Rightarrow> script_error + 'r" where
  "script_decode s raw = bindE (decodeScriptReply raw) (ts_decode s)"

end
