(* ===== verification/Webhook_Replies.thy ===== *)
theory Webhook_Replies
  imports Webhook_Abi
begin

text \<open>
  The replies of the control-plane scripts as Go types, their decoders
  (\<^verbatim>\<open>webhook/script_replies.go\<close>, \<^verbatim>\<open>script_status_replies.go\<close>, \<^verbatim>\<open>script_ownership_replies.go\<close>), the
  key vectors of the calls (\<^verbatim>\<open>webhook/script_keys.go\<close>) and the table of scripts
  (\<^verbatim>\<open>webhook/scripts.go\<close>).  A sealed Go interface is a datatype with the structures as constructors.
\<close>

section \<open>Replies with fields\<close>

datatype createSubReply = createSubCreated string | createSubMatched string | createSubConflict string

definition createSubReplyVariants :: "replyVariant list" where
  "createSubReplyVariants =
     [\<lparr>rv_Status = ''CREATED'', rv_Fields = [replyString]\<rparr>, \<lparr>rv_Status = ''MATCHED'', rv_Fields = [replyString]\<rparr>,
      \<lparr>rv_Status = ''CONFLICT'', rv_Fields = [replyString]\<rparr>]"

definition decodeCreateSubReply :: "scriptReply \<Rightarrow> script_error + createSubReply" where
  "decodeCreateSubReply r =
     bindE (decodeStatus r createSubReplyVariants) (\<lambda>st.
     bindE (wantArity r 2) (\<lambda>_.
     bindE (stringAt r 1) (\<lambda>owner.
       if st = ''CREATED'' then Inr (createSubCreated owner)
       else if st = ''MATCHED'' then Inr (createSubMatched owner)
       else if st = ''CONFLICT'' then Inr (createSubConflict owner)
       else Inl (UnhandledStatus st))))"

datatype armWakeReply = armWakeArmed int64 string | armWakeBusy int64 string | armWakeNoSub | armWakeFenced

definition armWakeReplyVariants :: "replyVariant list" where
  "armWakeReplyVariants =
     [\<lparr>rv_Status = ''ARMED'', rv_Fields = [replyInteger, replyString]\<rparr>,
      \<lparr>rv_Status = ''BUSY'', rv_Fields = [replyInteger, replyString]\<rparr>, unit_variant ''NOSUB'', unit_variant ''FENCED'']"

definition decodeArmWakeReply :: "scriptReply \<Rightarrow> script_error + armWakeReply" where
  "decodeArmWakeReply r =
     bindE (decodeStatus r armWakeReplyVariants) (\<lambda>st.
       if st = ''ARMED'' then
         bindE (wantArity r 3) (\<lambda>_. bindE (int64At r 1) (\<lambda>gen. bindE (stringAt r 2) (\<lambda>wake.
           Inr (armWakeArmed gen wake))))
       else if st = ''BUSY'' then
         bindE (wantArity r 3) (\<lambda>_. bindE (int64At r 1) (\<lambda>gen. bindE (stringAt r 2) (\<lambda>wake.
           Inr (armWakeBusy gen wake))))
       else if st = ''NOSUB'' then bindE (wantArity r 1) (\<lambda>_. Inr armWakeNoSub)
       else if st = ''FENCED'' then bindE (wantArity r 1) (\<lambda>_. Inr armWakeFenced)
       else Inl (UnhandledStatus st))"

datatype claimReply = claimClaimed int64 string string | claimBusy int64 string | claimNoSub | claimForbidden

definition claimReplyVariants :: "replyVariant list" where
  "claimReplyVariants =
     [\<lparr>rv_Status = ''CLAIMED'', rv_Fields = [replyInteger, replyString, replyString]\<rparr>,
      \<lparr>rv_Status = ''BUSY'', rv_Fields = [replyInteger, replyString, replyString]\<rparr>,
      unit_variant ''NOSUB'', unit_variant ''FORBIDDEN'']"

definition decodeClaimReply :: "scriptReply \<Rightarrow> script_error + claimReply" where
  "decodeClaimReply r =
     bindE (decodeStatus r claimReplyVariants) (\<lambda>st.
       if st = ''CLAIMED'' then
         bindE (wantArity r 4) (\<lambda>_. bindE (int64At r 1) (\<lambda>gen. bindE (stringAt r 2) (\<lambda>wake. bindE (stringAt r 3) (\<lambda>holder.
           Inr (claimClaimed gen wake holder)))))
       else if st = ''BUSY'' then
         bindE (wantArity r 4) (\<lambda>_. bindE (int64At r 1) (\<lambda>gen. bindE (stringAt r 2) (\<lambda>_. bindE (stringAt r 3) (\<lambda>holder.
           Inr (claimBusy gen holder)))))
       else if st = ''NOSUB'' then bindE (wantArity r 1) (\<lambda>_. Inr claimNoSub)
       else if st = ''FORBIDDEN'' then bindE (wantArity r 1) (\<lambda>_. Inr claimForbidden)
       else Inl (UnhandledStatus st))"

datatype scheduleRetryReply =
  scheduleRetryOK int64 int64 | scheduleRetryNoSub | scheduleRetryStale | scheduleRetryFenced

definition scheduleRetryReplyVariants :: "replyVariant list" where
  "scheduleRetryReplyVariants =
     [\<lparr>rv_Status = ''OK'', rv_Fields = [replyInteger, replyNS]\<rparr>, unit_variant ''NOSUB'',
      unit_variant ''STALE'', unit_variant ''FENCED'']"

definition decodeScheduleRetryReply :: "scriptReply \<Rightarrow> script_error + scheduleRetryReply" where
  "decodeScheduleRetryReply r =
     bindE (decodeStatus r scheduleRetryReplyVariants) (\<lambda>st.
       if st = ''OK'' then
         bindE (wantArity r 3) (\<lambda>_. bindE (intAt r 1) (\<lambda>count. bindE (int64At r 2) (\<lambda>first.
           Inr (scheduleRetryOK count first))))
       else if st = ''NOSUB'' then bindE (wantArity r 1) (\<lambda>_. Inr scheduleRetryNoSub)
       else if st = ''STALE'' then bindE (wantArity r 1) (\<lambda>_. Inr scheduleRetryStale)
       else if st = ''FENCED'' then bindE (wantArity r 1) (\<lambda>_. Inr scheduleRetryFenced)
       else Inl (UnhandledStatus st))"

text \<open>The list decoder reads every element as a string.\<close>

fun list_strings :: "scriptReply \<Rightarrow> nat \<Rightarrow> nat \<Rightarrow> script_error + string list" where
  "list_strings r i 0 = Inr []"
| "list_strings r i (Suc n) =
     bindE (stringAt r i) (\<lambda>s. bindE (list_strings r (Suc i) n) (\<lambda>out. Inr (s # out)))"

definition decodeStringListReply :: "scriptReply \<Rightarrow> script_error + string list" where
  "decodeStringListReply r = list_strings r 0 (length r)"

record keyMaterialReply =
  km_Kid :: string
  km_Material :: string

definition decodeKeyMaterialReply :: "scriptReply \<Rightarrow> script_error + keyMaterialReply" where
  "decodeKeyMaterialReply r =
     bindE (wantArity r 2) (\<lambda>_. bindE (stringAt r 0) (\<lambda>kid. bindE (stringAt r 1) (\<lambda>material.
       Inr \<lparr>km_Kid = kid, km_Material = material\<rparr>)))"

datatype rotateKeyReply = rotateKeyRotated string | rotateKeyConflict string

definition rotateKeyReplyVariants :: "replyVariant list" where
  "rotateKeyReplyVariants =
     [\<lparr>rv_Status = ''rotated'', rv_Fields = [replyString]\<rparr>, \<lparr>rv_Status = ''conflict'', rv_Fields = [replyString]\<rparr>]"

definition decodeRotateKeyReply :: "scriptReply \<Rightarrow> script_error + rotateKeyReply" where
  "decodeRotateKeyReply r =
     bindE (decodeStatus r rotateKeyReplyVariants) (\<lambda>st.
     bindE (wantArity r 2) (\<lambda>_.
     bindE (stringAt r 1) (\<lambda>kid.
       if st = ''rotated'' then Inr (rotateKeyRotated kid)
       else if st = ''conflict'' then Inr (rotateKeyConflict kid)
       else Inl (UnhandledStatus st))))"

datatype writeFenceReply = writeFenceOK int64 int64 | writeFenceFenced | writeFenceNoSub

definition writeFenceReplyVariants :: "replyVariant list" where
  "writeFenceReplyVariants =
     [\<lparr>rv_Status = ''OK'', rv_Fields = [replyNS, replyInteger]\<rparr>, unit_variant ''FENCED'', unit_variant ''NOSUB'']"

definition decodeWriteFenceReply :: "scriptReply \<Rightarrow> script_error + writeFenceReply" where
  "decodeWriteFenceReply r =
     bindE (decodeStatus r writeFenceReplyVariants) (\<lambda>st.
       if st = ''OK'' then
         bindE (wantArity r 3) (\<lambda>_. bindE (nsAt r 1) (\<lambda>leaseUntil. bindE (int64At r 2) (\<lambda>leaseTTL.
           Inr (writeFenceOK leaseUntil leaseTTL))))
       else if st = ''FENCED'' then bindE (wantArity r 1) (\<lambda>_. Inr writeFenceFenced)
       else if st = ''NOSUB'' then bindE (wantArity r 1) (\<lambda>_. Inr writeFenceNoSub)
       else Inl (UnhandledStatus st))"

section \<open>Replies that are a status\<close>

text \<open>
  Each of these decoders reads a one-element reply and returns the constructor of its status; what
  they share is the table from statuses to constructors.
\<close>

definition status_reply :: "(string \<times> 'r) list \<Rightarrow> string \<Rightarrow> script_error + 'r" where
  "status_reply table st = (case map_of table st of Some r \<Rightarrow> Inr r | None \<Rightarrow> Inl (UnhandledStatus st))"

datatype linkStreamReply = linkStreamLinked | linkStreamUpgraded | linkStreamExists | linkStreamNoSub | linkStreamForbidden

definition linkStreamReplyVariants :: "replyVariant list" where
  "linkStreamReplyVariants = map unit_variant [''LINKED'', ''UPGRADED'', ''EXISTS'', ''NOSUB'', ''FORBIDDEN'']"

definition decodeLinkStreamReply :: "scriptReply \<Rightarrow> script_error + linkStreamReply" where
  "decodeLinkStreamReply r =
     bindE (decodeUnitStatus r linkStreamReplyVariants)
       (status_reply [(''LINKED'', linkStreamLinked), (''UPGRADED'', linkStreamUpgraded), (''EXISTS'', linkStreamExists),
          (''NOSUB'', linkStreamNoSub), (''FORBIDDEN'', linkStreamForbidden)])"

datatype unlinkStreamReply =
  unlinkStreamRemoved | unlinkStreamGlob | unlinkStreamGone | unlinkStreamNoSub | unlinkStreamForbidden

definition unlinkStreamReplyVariants :: "replyVariant list" where
  "unlinkStreamReplyVariants = map unit_variant [''REMOVED'', ''GLOB'', ''GONE'', ''NOSUB'', ''FORBIDDEN'']"

definition decodeUnlinkStreamReply :: "scriptReply \<Rightarrow> script_error + unlinkStreamReply" where
  "decodeUnlinkStreamReply r =
     bindE (decodeUnitStatus r unlinkStreamReplyVariants)
       (status_reply [(''REMOVED'', unlinkStreamRemoved), (''GLOB'', unlinkStreamGlob), (''GONE'', unlinkStreamGone),
          (''NOSUB'', unlinkStreamNoSub), (''FORBIDDEN'', unlinkStreamForbidden)])"

datatype deindexStaleReply = deindexStaleRemoved | deindexStaleLinked | deindexStaleAbsent

definition deindexStaleReplyVariants :: "replyVariant list" where
  "deindexStaleReplyVariants = map unit_variant [''REMOVED'', ''LINKED'', ''ABSENT'']"

definition decodeDeindexStaleReply :: "scriptReply \<Rightarrow> script_error + deindexStaleReply" where
  "decodeDeindexStaleReply r =
     bindE (decodeUnitStatus r deindexStaleReplyVariants)
       (status_reply [(''REMOVED'', deindexStaleRemoved), (''LINKED'', deindexStaleLinked), (''ABSENT'', deindexStaleAbsent)])"

datatype ackReply = ackOK | ackFenced | ackNoSub

definition ackReplyVariants :: "replyVariant list" where
  "ackReplyVariants = map unit_variant [''OK'', ''FENCED'', ''NOSUB'']"

definition decodeAckReply :: "scriptReply \<Rightarrow> script_error + ackReply" where
  "decodeAckReply r =
     bindE (decodeUnitStatus r ackReplyVariants)
       (status_reply [(''OK'', ackOK), (''FENCED'', ackFenced), (''NOSUB'', ackNoSub)])"

datatype releaseReply = releaseOK | releaseFenced | releaseNoSub

definition releaseReplyVariants :: "replyVariant list" where
  "releaseReplyVariants = map unit_variant [''OK'', ''FENCED'', ''NOSUB'']"

definition decodeReleaseReply :: "scriptReply \<Rightarrow> script_error + releaseReply" where
  "decodeReleaseReply r =
     bindE (decodeUnitStatus r releaseReplyVariants)
       (status_reply [(''OK'', releaseOK), (''FENCED'', releaseFenced), (''NOSUB'', releaseNoSub)])"

datatype expireLeaseReply = expireLeaseExpired | expireLeaseActive | expireLeaseNoSub | expireLeaseFenced

definition expireLeaseReplyVariants :: "replyVariant list" where
  "expireLeaseReplyVariants = map unit_variant [''EXPIRED'', ''ACTIVE'', ''NOSUB'', ''FENCED'']"

definition decodeExpireLeaseReply :: "scriptReply \<Rightarrow> script_error + expireLeaseReply" where
  "decodeExpireLeaseReply r =
     bindE (decodeUnitStatus r expireLeaseReplyVariants)
       (status_reply [(''EXPIRED'', expireLeaseExpired), (''ACTIVE'', expireLeaseActive), (''NOSUB'', expireLeaseNoSub),
          (''FENCED'', expireLeaseFenced)])"

datatype restoreLeaseReply = restoreLeaseRestored | restoreLeaseIntact | restoreLeaseNoSub

definition restoreLeaseReplyVariants :: "replyVariant list" where
  "restoreLeaseReplyVariants = map unit_variant [''RESTORED'', ''INTACT'', ''NOSUB'']"

definition decodeRestoreLeaseReply :: "scriptReply \<Rightarrow> script_error + restoreLeaseReply" where
  "decodeRestoreLeaseReply r =
     bindE (decodeUnitStatus r restoreLeaseReplyVariants)
       (status_reply [(''RESTORED'', restoreLeaseRestored), (''INTACT'', restoreLeaseIntact), (''NOSUB'', restoreLeaseNoSub)])"

datatype recordSuccessReply = recordSuccessOK | recordSuccessStale | recordSuccessFenced | recordSuccessNoSub

definition recordSuccessReplyVariants :: "replyVariant list" where
  "recordSuccessReplyVariants = map unit_variant [''OK'', ''STALE'', ''FENCED'', ''NOSUB'']"

definition decodeRecordSuccessReply :: "scriptReply \<Rightarrow> script_error + recordSuccessReply" where
  "decodeRecordSuccessReply r =
     bindE (decodeUnitStatus r recordSuccessReplyVariants)
       (status_reply [(''OK'', recordSuccessOK), (''STALE'', recordSuccessStale), (''FENCED'', recordSuccessFenced),
          (''NOSUB'', recordSuccessNoSub)])"

datatype recordWakeSentReply = recordWakeSentOK | recordWakeSentStale | recordWakeSentNoSub

definition recordWakeSentReplyVariants :: "replyVariant list" where
  "recordWakeSentReplyVariants = map unit_variant [''OK'', ''STALE'', ''NOSUB'']"

definition decodeRecordWakeSentReply :: "scriptReply \<Rightarrow> script_error + recordWakeSentReply" where
  "decodeRecordWakeSentReply r =
     bindE (decodeUnitStatus r recordWakeSentReplyVariants)
       (status_reply [(''OK'', recordWakeSentOK), (''STALE'', recordWakeSentStale), (''NOSUB'', recordWakeSentNoSub)])"

datatype deleteSubReply = deleteSubOK | deleteSubNoSub | deleteSubForbidden

definition deleteSubReplyVariants :: "replyVariant list" where
  "deleteSubReplyVariants = map unit_variant [''OK'', ''NOSUB'', ''FORBIDDEN'']"

definition decodeDeleteSubReply :: "scriptReply \<Rightarrow> script_error + deleteSubReply" where
  "decodeDeleteSubReply r =
     bindE (decodeUnitStatus r deleteSubReplyVariants)
       (status_reply [(''OK'', deleteSubOK), (''NOSUB'', deleteSubNoSub), (''FORBIDDEN'', deleteSubForbidden)])"

section \<open>Slot ownership\<close>

datatype SlotClaimStatus = SlotClaimed | SlotRenewed | SlotBusy

record SlotClaim =
  sc_Status :: SlotClaimStatus
  sc_Owner :: string
  sc_Epoch :: int64
  sc_ExpiryNs :: int64

definition Granted :: "SlotClaim \<Rightarrow> bool" where
  "Granted c \<longleftrightarrow> sc_Status c = SlotClaimed \<or> sc_Status c = SlotRenewed"

definition Transferred :: "SlotClaim \<Rightarrow> bool" where
  "Transferred c \<longleftrightarrow> sc_Status c = SlotClaimed"

datatype slotClaimReply =
    slotClaimClaimed string int64 int64 | slotClaimRenewed string int64 int64 | slotClaimBusy string int64 int64

fun toSlotClaim :: "slotClaimReply \<Rightarrow> SlotClaim" where
  "toSlotClaim (slotClaimClaimed w e x) = \<lparr>sc_Status = SlotClaimed, sc_Owner = w, sc_Epoch = e, sc_ExpiryNs = x\<rparr>"
| "toSlotClaim (slotClaimRenewed w e x) = \<lparr>sc_Status = SlotRenewed, sc_Owner = w, sc_Epoch = e, sc_ExpiryNs = x\<rparr>"
| "toSlotClaim (slotClaimBusy w e x) = \<lparr>sc_Status = SlotBusy, sc_Owner = w, sc_Epoch = e, sc_ExpiryNs = x\<rparr>"

definition slotClaimReplyVariants :: "replyVariant list" where
  "slotClaimReplyVariants =
     map (\<lambda>st. \<lparr>rv_Status = st, rv_Fields = [replyString, replyInteger, replyNS]\<rparr>) [''CLAIMED'', ''RENEWED'', ''BUSY'']"

definition decodeSlotClaimReply :: "scriptReply \<Rightarrow> script_error + slotClaimReply" where
  "decodeSlotClaimReply r =
     bindE (decodeStatus r slotClaimReplyVariants) (\<lambda>st.
     bindE (wantArity r 4) (\<lambda>_. bindE (stringAt r 1) (\<lambda>owner. bindE (int64At r 2) (\<lambda>epoch. bindE (nsAt r 3) (\<lambda>expiry.
       if st = ''CLAIMED'' then Inr (slotClaimClaimed owner epoch expiry)
       else if st = ''RENEWED'' then Inr (slotClaimRenewed owner epoch expiry)
       else if st = ''BUSY'' then Inr (slotClaimBusy owner epoch expiry)
       else Inl (UnhandledStatus st))))))"

datatype OwnerCheck = OwnerCheckOwner | OwnerCheckFenced | OwnerCheckUnowned

definition ownerCheckReplyVariants :: "replyVariant list" where
  "ownerCheckReplyVariants = map unit_variant [''OWNER'', ''FENCED'', ''UNOWNED'']"

definition decodeOwnerCheckReply :: "scriptReply \<Rightarrow> script_error + OwnerCheck" where
  "decodeOwnerCheckReply r =
     bindE (decodeStatus r ownerCheckReplyVariants) (\<lambda>st.
     bindE (wantArity r 1) (\<lambda>_.
       status_reply [(''OWNER'', OwnerCheckOwner), (''FENCED'', OwnerCheckFenced), (''UNOWNED'', OwnerCheckUnowned)] st))"

end
