(* ===== verification/Webhook_Calls.thy ===== *)
theory Webhook_Calls
  imports Webhook_Replies
begin

text \<open>
  The key vectors of the script calls (\<^verbatim>\<open>webhook/script_keys.go\<close>) and the table of scripts with
  their key roles, argument schemas and decoders (\<^verbatim>\<open>webhook/scripts.go\<close>).
\<close>

section \<open>Key vectors\<close>

definition unscopedOwnerArgs :: OwnerScope where
  "unscopedOwnerArgs = \<lparr>os_SlotKey = '''', os_ReplicaID = '''', os_Epoch = ''''\<rparr>"

definition ownerScriptKey :: "nat \<Rightarrow> OwnerScope \<Rightarrow> script_error + string" where
  "ownerScriptKey h owner =
     (if os_Epoch owner = '''' then Inr ''''
      else if os_SlotKey owner \<noteq> OwnershipSlotKey h then Inl OwnerKeyMismatch
      else Inr (os_SlotKey owner))"

text \<open>The optional trailing key of an owner-scoped call.\<close>

definition slot_role :: "string \<Rightarrow> scriptKeyVector" where
  "slot_role slot = (if slot \<noteq> '''' then [(''slot'', slot)] else [])"

definition newCreateSubKeys :: "string \<Rightarrow> scriptKeyVector" where
  "newCreateSubKeys sid =
     [(''sub'', subKey sid), (''subs_set'', subsKey (slotOf sid)), (''links'', linksKey sid),
      (''incarnation_counter'', subIncarnationKey sid)]"

definition newLinkStreamKeys :: "string \<Rightarrow> scriptKeyVector" where
  "newLinkStreamKeys sid = [(''sub'', subKey sid), (''links'', linksKey sid)]"

definition newUnlinkStreamKeys :: "string \<Rightarrow> scriptKeyVector" where
  "newUnlinkStreamKeys sid = [(''sub'', subKey sid), (''links'', linksKey sid)]"

definition newDeindexStaleKeys :: "string \<Rightarrow> string \<Rightarrow> scriptKeyVector" where
  "newDeindexStaleKeys sid path =
     [(''sub'', subKey sid), (''links'', linksKey sid), (''stream_subs'', streamSubsKey (slotOf sid) path)]"

definition armWakeKeys :: "string \<Rightarrow> OwnerScope \<Rightarrow> script_error + scriptKeyVector" where
  "armWakeKeys sid owner =
     (let h = slotOf sid in bindE (ownerScriptKey h owner) (\<lambda>slot.
        Inr ([(''sub'', subKey sid), (''lease_zset'', leaseZKey h), (''due_zset'', dueZKey h)] @ slot_role slot)))"

definition claimKeys :: "string \<Rightarrow> int \<Rightarrow> scriptKeyVector" where
  "claimKeys sid g =
     [(''sub_config'', subKey sid), (''shardstate'', subShardKey sid g), (''lease_zset'', leaseZKey (slotOf sid)),
      (''incarnation_counter'', subIncarnationKey sid), (''shard_registry'', subShardRegistryKey sid), (''links'', linksKey sid)]"

definition newWriteFenceKeys :: "string \<Rightarrow> int \<Rightarrow> scriptKeyVector" where
  "newWriteFenceKeys sid g = [(''shardstate'', subShardKey sid g), (''sub_config'', subKey sid)]"

definition ackKeys :: "string \<Rightarrow> int \<Rightarrow> OwnerScope \<Rightarrow> script_error + scriptKeyVector" where
  "ackKeys sid g owner =
     (let h = slotOf sid in bindE (ownerScriptKey h owner) (\<lambda>slot.
        Inr ([(''shardstate'', subShardKey sid g), (''links'', linksKey sid), (''lease_zset'', leaseZKey h),
              (''retry_zset'', retryZKey h), (''due_zset'', dueZKey h), (''sub_config'', subKey sid)] @ slot_role slot)))"

definition releaseKeys :: "string \<Rightarrow> OwnerScope \<Rightarrow> script_error + scriptKeyVector" where
  "releaseKeys sid owner =
     (let h = slotOf sid in bindE (ownerScriptKey h owner) (\<lambda>slot.
        Inr ([(''sub'', subKey sid), (''lease_zset'', leaseZKey h), (''retry_zset'', retryZKey h),
              (''due_zset'', dueZKey h)] @ slot_role slot)))"

definition expireLeaseKeys :: "string \<Rightarrow> OwnerScope \<Rightarrow> script_error + scriptKeyVector" where
  "expireLeaseKeys sid owner =
     (let h = slotOf sid in bindE (ownerScriptKey h owner) (\<lambda>slot.
        Inr ([(''sub'', subKey sid), (''lease_zset'', leaseZKey h), (''due_zset'', dueZKey h)] @ slot_role slot)))"

definition newRestoreLeaseKeys :: "string \<Rightarrow> scriptKeyVector" where
  "newRestoreLeaseKeys sid =
     [(''sub'', subKey sid), (''lease_zset'', leaseZKey (slotOf sid)), (''due_zset'', dueZKey (slotOf sid))]"

definition newClaimDueKeys :: "string \<Rightarrow> scriptKeyVector" where
  "newClaimDueKeys zk = [(''zset'', zk)]"

definition scheduleRetryKeys :: "string \<Rightarrow> OwnerScope \<Rightarrow> script_error + scriptKeyVector" where
  "scheduleRetryKeys sid owner =
     (let h = slotOf sid in bindE (ownerScriptKey h owner) (\<lambda>slot.
        Inr ([(''sub'', subKey sid), (''retry_zset'', retryZKey h)] @ slot_role slot)))"

definition recordSuccessKeys :: "string \<Rightarrow> OwnerScope \<Rightarrow> script_error + scriptKeyVector" where
  "recordSuccessKeys sid owner =
     (let h = slotOf sid in bindE (ownerScriptKey h owner) (\<lambda>slot.
        Inr ([(''sub'', subKey sid), (''retry_zset'', retryZKey h)] @ slot_role slot)))"

definition newRecordWakeSentKeys :: "string \<Rightarrow> scriptKeyVector" where
  "newRecordWakeSentKeys sid = [(''sub'', subKey sid)]"

definition newDeleteSubKeys :: "string \<Rightarrow> scriptKeyVector" where
  "newDeleteSubKeys sid =
     (let h = slotOf sid in
      [(''sub'', subKey sid), (''subs_set'', subsKey h), (''links'', linksKey sid), (''lease_zset'', leaseZKey h),
       (''retry_zset'', retryZKey h), (''due_zset'', dueZKey h), (''shard_registry'', subShardRegistryKey sid)])"

definition newClaimShardKeys :: "string \<Rightarrow> scriptKeyVector" where
  "newClaimShardKeys slot = [(''slot'', slot)]"

definition newCheckOwnerKeys :: "string \<Rightarrow> scriptKeyVector" where
  "newCheckOwnerKeys slot = [(''slot'', slot)]"

section \<open>The table of scripts\<close>

definition expectation_args :: "scriptArg list" where
  "expectation_args =
     [arg ''expected_owner'' argString, arg ''expected_incarnation'' argString, arg ''expected_cfg_hash'' argString,
      arg ''num_paths'' argInt]"

definition owner_args :: "scriptArg list" where
  "owner_args = [arg ''replica_id'' argString, arg ''expected_epoch'' argString]"

definition createSubScript :: "createSubReply typedScript" where
  "createSubScript =
     \<lparr>ts_abi = \<lparr>abi_Name = ''create_sub'', abi_File = ''create_sub.lua'',
        abi_Keys = [[''sub'', ''subs_set'', ''links'', ''incarnation_counter'']],
        abi_Args = variadicArgs
          [arg ''id'' argString, arg ''cfg_hash'' argString, arg ''now_ns'' argUnixNS, arg ''type'' argString,
           arg ''pattern'' argString, arg ''webhook_url'' argString, arg ''wake_stream'' argString,
           arg ''lease_ttl_ms'' argInt, arg ''description'' argString, arg ''owner'' argString, arg ''num_links'' argInt]
          [arg ''path'' argString, arg ''link_type'' argString, arg ''offset'' argString] []\<rparr>,
      ts_variants = createSubReplyVariants, ts_decode = decodeCreateSubReply\<rparr>"

definition linkStreamScript :: "linkStreamReply typedScript" where
  "linkStreamScript =
     \<lparr>ts_abi = \<lparr>abi_Name = ''link_stream'', abi_File = ''link_stream.lua'', abi_Keys = [[''sub'', ''links'']],
        abi_Args = variadicArgs
          ([arg ''path'' argString, arg ''link_type'' argString, arg ''offset'' argString, arg ''authorized'' argBool01]
             @ expectation_args)
          [arg ''expected_path'' argString] []\<rparr>,
      ts_variants = linkStreamReplyVariants, ts_decode = decodeLinkStreamReply\<rparr>"

definition unlinkStreamScript :: "unlinkStreamReply typedScript" where
  "unlinkStreamScript =
     \<lparr>ts_abi = \<lparr>abi_Name = ''unlink_stream'', abi_File = ''unlink_stream.lua'', abi_Keys = [[''sub'', ''links'']],
        abi_Args = variadicArgs
          ([arg ''path'' argString, arg ''still_glob'' argBool01, arg ''authorized'' argBool01] @ expectation_args)
          [arg ''expected_path'' argString] []\<rparr>,
      ts_variants = unlinkStreamReplyVariants, ts_decode = decodeUnlinkStreamReply\<rparr>"

definition deindexStaleScript :: "deindexStaleReply typedScript" where
  "deindexStaleScript =
     \<lparr>ts_abi = \<lparr>abi_Name = ''deindex_stale'', abi_File = ''deindex_stale.lua'',
        abi_Keys = [[''sub'', ''links'', ''stream_subs'']],
        abi_Args = exactArgs [arg ''id'' argString, arg ''path'' argString]\<rparr>,
      ts_variants = deindexStaleReplyVariants, ts_decode = decodeDeindexStaleReply\<rparr>"

definition armWakeScript :: "armWakeReply typedScript" where
  "armWakeScript =
     \<lparr>ts_abi = \<lparr>abi_Name = ''arm_wake'', abi_File = ''arm_wake.lua'',
        abi_Keys = [[''sub'', ''lease_zset'', ''due_zset''], [''sub'', ''lease_zset'', ''due_zset'', ''slot'']],
        abi_Args = exactArgs
          ([arg ''id'' argString, arg ''now_ns'' argUnixNS, arg ''lease_ttl_ms'' argInt, arg ''arm_lease'' argBool01,
            arg ''new_wake_id'' argString] @ owner_args)\<rparr>,
      ts_variants = armWakeReplyVariants, ts_decode = decodeArmWakeReply\<rparr>"

definition claimScript :: "claimReply typedScript" where
  "claimScript =
     \<lparr>ts_abi = \<lparr>abi_Name = ''claim'', abi_File = ''claim.lua'',
        abi_Keys = [[''sub_config'', ''shardstate'', ''lease_zset'', ''incarnation_counter'', ''shard_registry'', ''links'']],
        abi_Args = variadicArgs
          ([arg ''member'' argString, arg ''worker'' argString, arg ''now_ns'' argUnixNS, arg ''lease_ttl_ms'' argInt,
            arg ''new_wake_id'' argString, arg ''shard_index'' argInt] @ expectation_args)
          [arg ''path'' argString] []\<rparr>,
      ts_variants = claimReplyVariants, ts_decode = decodeClaimReply\<rparr>"

definition writeFenceScript :: "writeFenceReply typedScript" where
  "writeFenceScript =
     \<lparr>ts_abi = \<lparr>abi_Name = ''check_write_fence'', abi_File = ''check_write_fence.lua'',
        abi_Keys = [[''shardstate'', ''sub_config'']],
        abi_Args = exactArgs
          [arg ''now_ns'' argUnixNS, arg ''generation'' argInt, arg ''wake_id'' argString, arg ''holder'' argString,
           arg ''incarnation'' argString]\<rparr>,
      ts_variants = writeFenceReplyVariants, ts_decode = decodeWriteFenceReply\<rparr>"

definition ackScript :: "ackReply typedScript" where
  "ackScript =
     \<lparr>ts_abi = \<lparr>abi_Name = ''ack'', abi_File = ''ack.lua'',
        abi_Keys = [[''shardstate'', ''links'', ''lease_zset'', ''retry_zset'', ''due_zset'', ''sub_config''],
                    [''shardstate'', ''links'', ''lease_zset'', ''retry_zset'', ''due_zset'', ''sub_config'', ''slot'']],
        abi_Args = variadicArgs
          [arg ''member'' argString, arg ''req_gen'' argInt, arg ''req_wake'' argString, arg ''token_gen'' argInt,
           arg ''done'' argBool01, arg ''now_ns'' argUnixNS, arg ''lease_ttl_ms'' argInt, arg ''num_acks'' argInt]
          [arg ''path'' argString, arg ''offset'' argString] owner_args\<rparr>,
      ts_variants = ackReplyVariants, ts_decode = decodeAckReply\<rparr>"

definition releaseScript :: "releaseReply typedScript" where
  "releaseScript =
     \<lparr>ts_abi = \<lparr>abi_Name = ''release'', abi_File = ''release.lua'',
        abi_Keys = [[''sub'', ''lease_zset'', ''retry_zset'', ''due_zset''],
                    [''sub'', ''lease_zset'', ''retry_zset'', ''due_zset'', ''slot'']],
        abi_Args = exactArgs
          ([arg ''id'' argString, arg ''req_gen'' argInt, arg ''req_wake'' argString, arg ''token_gen'' argInt] @ owner_args)\<rparr>,
      ts_variants = releaseReplyVariants, ts_decode = decodeReleaseReply\<rparr>"

definition expireLeaseScript :: "expireLeaseReply typedScript" where
  "expireLeaseScript =
     \<lparr>ts_abi = \<lparr>abi_Name = ''expire_lease'', abi_File = ''expire_lease.lua'',
        abi_Keys = [[''sub'', ''lease_zset'', ''due_zset''], [''sub'', ''lease_zset'', ''due_zset'', ''slot'']],
        abi_Args = exactArgs ([arg ''id'' argString, arg ''now_ns'' argUnixNS] @ owner_args)\<rparr>,
      ts_variants = expireLeaseReplyVariants, ts_decode = decodeExpireLeaseReply\<rparr>"

definition restoreLeaseScript :: "restoreLeaseReply typedScript" where
  "restoreLeaseScript =
     \<lparr>ts_abi = \<lparr>abi_Name = ''restore_lease'', abi_File = ''restore_lease.lua'',
        abi_Keys = [[''sub'', ''lease_zset'', ''due_zset'']],
        abi_Args = exactArgs [arg ''id'' argString, arg ''now_ns'' argUnixNS, arg ''owed'' argBool01]\<rparr>,
      ts_variants = restoreLeaseReplyVariants, ts_decode = decodeRestoreLeaseReply\<rparr>"

definition claimDueScript :: "string list typedScript" where
  "claimDueScript =
     \<lparr>ts_abi = \<lparr>abi_Name = ''claim_due'', abi_File = ''claim_due.lua'', abi_Keys = [[''zset'']],
        abi_Args = exactArgs [arg ''now_ns'' argUnixNS, arg ''limit'' argInt, arg ''visibility_ns'' argDuration]\<rparr>,
      ts_variants = [], ts_decode = decodeStringListReply\<rparr>"

definition scheduleRetryScript :: "scheduleRetryReply typedScript" where
  "scheduleRetryScript =
     \<lparr>ts_abi = \<lparr>abi_Name = ''schedule_retry'', abi_File = ''schedule_retry.lua'',
        abi_Keys = [[''sub'', ''retry_zset''], [''sub'', ''retry_zset'', ''slot'']],
        abi_Args = exactArgs
          ([arg ''id'' argString, arg ''now_ns'' argUnixNS, arg ''next_attempt_ns'' argUnixNS, arg ''generation'' argInt,
            arg ''wake_id'' argString] @ owner_args)\<rparr>,
      ts_variants = scheduleRetryReplyVariants, ts_decode = decodeScheduleRetryReply\<rparr>"

definition recordSuccessScript :: "recordSuccessReply typedScript" where
  "recordSuccessScript =
     \<lparr>ts_abi = \<lparr>abi_Name = ''record_success'', abi_File = ''record_success.lua'',
        abi_Keys = [[''sub'', ''retry_zset''], [''sub'', ''retry_zset'', ''slot'']],
        abi_Args = exactArgs ([arg ''id'' argString, arg ''generation'' argInt, arg ''wake_id'' argString] @ owner_args)\<rparr>,
      ts_variants = recordSuccessReplyVariants, ts_decode = decodeRecordSuccessReply\<rparr>"

definition recordWakeSentScript :: "recordWakeSentReply typedScript" where
  "recordWakeSentScript =
     \<lparr>ts_abi = \<lparr>abi_Name = ''record_wake_sent'', abi_File = ''record_wake_sent.lua'', abi_Keys = [[''sub'']],
        abi_Args = exactArgs [arg ''now_ns'' argUnixNS, arg ''generation'' argInt, arg ''wake_id'' argString]\<rparr>,
      ts_variants = recordWakeSentReplyVariants, ts_decode = decodeRecordWakeSentReply\<rparr>"

definition deleteSubScript :: "deleteSubReply typedScript" where
  "deleteSubScript =
     \<lparr>ts_abi = \<lparr>abi_Name = ''delete_sub'', abi_File = ''delete_sub.lua'',
        abi_Keys = [[''sub'', ''subs_set'', ''links'', ''lease_zset'', ''retry_zset'', ''due_zset'', ''shard_registry'']],
        abi_Args = variadicArgs ([arg ''id'' argString, arg ''authorized'' argBool01] @ expectation_args)
          [arg ''expected_path'' argString] []\<rparr>,
      ts_variants = deleteSubReplyVariants, ts_decode = decodeDeleteSubReply\<rparr>"

definition claimShardScript :: "slotClaimReply typedScript" where
  "claimShardScript =
     \<lparr>ts_abi = \<lparr>abi_Name = ''claim_shard'', abi_File = ''claim_shard.lua'', abi_Keys = [[''slot'']],
        abi_Args = exactArgs [arg ''replica_id'' argString, arg ''now_ns'' argUnixNS, arg ''slot_lease_ttl_ms'' argDuration]\<rparr>,
      ts_variants = slotClaimReplyVariants, ts_decode = decodeSlotClaimReply\<rparr>"

definition checkOwnerScript :: "OwnerCheck typedScript" where
  "checkOwnerScript =
     \<lparr>ts_abi = \<lparr>abi_Name = ''check_owner'', abi_File = ''check_owner.lua'', abi_Keys = [[''slot'']],
        abi_Args = exactArgs owner_args\<rparr>,
      ts_variants = ownerCheckReplyVariants, ts_decode = decodeOwnerCheckReply\<rparr>"

end
