(* ===== verification/Webhook_Scripts.thy ===== *)
theory Webhook_Scripts
  imports Redis_Server Webhook_Abi
begin

text \<open>
  The Lua scripts of the subscription control plane (\<^verbatim>\<open>webhook/scripts/*.lua\<close>) as programs over
  Redis commands, with the helpers of \<^verbatim>\<open>common.lua\<close>.  \<^verbatim>\<open>KEYS\<close> and \<^verbatim>\<open>ARGV\<close> are lists, read by
  position as in the scripts; an absent entry reads as the empty string, which no modelled branch
  uses because the Go side fixes the lengths.  A reply table is a list of \<^typ>\<open>go_any\<close>.
\<close>

type_synonym lua_script = "string list \<Rightarrow> string list \<Rightarrow> go_any list rprog"

definition lua_at :: "string list \<Rightarrow> nat \<Rightarrow> string" where
  "lua_at xs i = (if 1 \<le> i \<and> i \<le> length xs then xs ! (i - 1) else '''')"

abbreviation status :: "string \<Rightarrow> go_any list rprog" where
  "status st \<equiv> Ret [AnyString st]"

text \<open>A field of a reply table; \<^verbatim>\<open>false\<close> reaches Go as a nil element.\<close>

definition reply_field :: "string option \<Rightarrow> go_any" where
  "reply_field v = (case v of None \<Rightarrow> AnyNil | Some s \<Rightarrow> AnyString s)"

text \<open>A number the script computes with; \<^verbatim>\<open>nil\<close> raises.\<close>

definition lua_num :: "string \<Rightarrow> (int \<Rightarrow> 'a rprog) \<Rightarrow> 'a rprog" where
  "lua_num s f = (case parse_double s of None \<Rightarrow> Fail | Some n \<Rightarrow> f n)"

abbreviation deadline :: "int \<Rightarrow> int \<Rightarrow> int" where
  "deadline now ttl_ms \<equiv> lua_add now (lua_mult ttl_ms 1000000)"

section \<open>common.lua\<close>

definition offset_greater :: "string \<Rightarrow> string \<Rightarrow> bool" where
  "offset_greater a b =
     (if a = b then False
      else if b = ''-1'' \<or> b = '''' then a \<noteq> ''-1'' \<and> a \<noteq> ''''
      else if a = ''-1'' \<or> a = '''' then False
      else b < a)"

definition split_link :: "string \<Rightarrow> (string \<times> string) option" where
  "split_link v =
     (let lt = takeWhile (\<lambda>c. c \<noteq> CHR '':'') v
      in if length lt = length v then None else Some (lt, drop (length lt + 1) v))"

definition fenced :: "string option \<Rightarrow> string option \<Rightarrow> string \<Rightarrow> string \<Rightarrow> string \<Rightarrow> bool" where
  "fenced cur_gen cur_wake req_gen req_wake token_gen \<longleftrightarrow>
     Some token_gen \<noteq> cur_gen \<or> Some req_gen \<noteq> cur_gen \<or> req_wake = '''' \<or> Some req_wake \<noteq> cur_wake"

definition owner_fenced :: "string \<Rightarrow> string \<Rightarrow> string \<Rightarrow> bool rprog" where
  "owner_fenced slot me epoch =
     (if epoch = '''' then Ret False
      else hget slot ''owner_id'' (\<lambda>owner.
             if owner \<noteq> Some me then Ret True
             else hget slot ''owner_epoch'' (\<lambda>e. Ret (e \<noteq> Some epoch))))"

fun expected_paths_linked :: "string \<Rightarrow> string list \<Rightarrow> string list \<Rightarrow> string rprog" where
  "expected_paths_linked links seen [] = Ret ''MATCHED''"
| "expected_paths_linked links seen (path # paths) =
     (if path \<in> set seen then Ret ''FORBIDDEN''
      else Call (HEXISTS links path) (\<lambda>r.
             if lua_int r = 0 then Ret ''FORBIDDEN'' else expected_paths_linked links (path # seen) paths))"

definition subscription_expectation_status ::
    "string \<Rightarrow> string \<Rightarrow> string \<Rightarrow> string \<Rightarrow> string \<Rightarrow> string \<Rightarrow> string list \<Rightarrow> string rprog" where
  "subscription_expectation_status sub links expected_owner expected_incarnation expected_cfg_hash num_paths expected_paths =
     exists_key sub (\<lambda>found. if \<not> found then Ret ''NOSUB'' else
     hget sub ''incarnation'' (\<lambda>incarnation.
     hget sub ''owner'' (\<lambda>owner.
     hget sub ''cfg_hash'' (\<lambda>cfg_hash.
       let incarnation = (case incarnation of None \<Rightarrow> '''' | Some x \<Rightarrow> x);
           owner = (case owner of None \<Rightarrow> '''' | Some x \<Rightarrow> x);
           cfg_hash = (case cfg_hash of None \<Rightarrow> '''' | Some x \<Rightarrow> x)
       in if parse_double num_paths \<noteq> Some (int (length expected_paths)) \<or> incarnation \<noteq> expected_incarnation \<or>
             owner \<noteq> expected_owner \<or> cfg_hash \<noteq> expected_cfg_hash
          then Ret ''FORBIDDEN''
          else Call (HLEN links) (\<lambda>r.
                 if lua_int r \<noteq> int (length expected_paths) then Ret ''FORBIDDEN''
                 else expected_paths_linked links [] expected_paths)))))"

text \<open>The paths that follow the count in \<^verbatim>\<open>ARGV\<close>, and the check the authorized mutations share.\<close>

definition paths_from :: "string list \<Rightarrow> nat \<Rightarrow> string \<Rightarrow> string list" where
  "paths_from argv i num_paths = take (nat (tonumber_or_0 (Some num_paths))) (drop (i - 1) argv)"

definition authorized :: "string \<Rightarrow> string rprog \<Rightarrow> go_any list rprog \<Rightarrow> go_any list rprog" where
  "authorized flag expectation body =
     (if flag = ''1''
      then rbind expectation (\<lambda>st.
             if st = ''NOSUB'' then status ''NOSUB'' else if st \<noteq> ''MATCHED'' then status ''FORBIDDEN'' else body)
      else body)"

section \<open>Subscriptions and links\<close>

fun create_links :: "string \<Rightarrow> string list \<Rightarrow> nat \<Rightarrow> nat \<Rightarrow> 'a rprog \<Rightarrow> 'a rprog" where
  "create_links k_links argv i 0 p = p"
| "create_links k_links argv i (Suc n) p =
     hset k_links [(lua_at argv i, lua_at argv (i + 1) @ '':'' @ lua_at argv (i + 2))]
       (create_links k_links argv (i + 3) n p)"

definition create_sub :: lua_script where
  "create_sub keys argv =
     (let k_sub = lua_at keys 1; k_subs_set = lua_at keys 2; k_links = lua_at keys 3; k_incarnation_counter = lua_at keys 4;
          a_id = lua_at argv 1; a_cfg_hash = lua_at argv 2; a_now_ns = lua_at argv 3; a_owner = lua_at argv 10;
          a_num_links = lua_at argv 11
      in exists_key k_sub (\<lambda>found. if found then
           hget k_sub ''owner'' (\<lambda>owner. hget k_sub ''cfg_hash'' (\<lambda>cfg_hash.
             let o' = AnyString (case owner of None \<Rightarrow> '''' | Some x \<Rightarrow> x)
             in if cfg_hash = Some a_cfg_hash then Ret [AnyString ''MATCHED'', o'] else Ret [AnyString ''CONFLICT'', o']))
         else
           Call (INCR k_incarnation_counter) (\<lambda>r.
           hset k_sub
             [(''id'', a_id), (''cfg_hash'', a_cfg_hash), (''created_ns'', a_now_ns), (''type'', lua_at argv 4),
              (''pattern'', lua_at argv 5), (''webhook_url'', lua_at argv 6), (''wake_stream'', lua_at argv 7),
              (''lease_ttl_ms'', lua_at argv 8), (''description'', lua_at argv 9), (''owner'', a_owner),
              (''incarnation'', lua_tostring (lua_int r)), (''status'', ''active''), (''phase'', ''idle''),
              (''generation'', ''0''), (''wake_id'', ''''), (''holder'', ''0''), (''holder_worker'', ''''),
              (''lease_until_ns'', ''0''), (''retry_count'', ''0''), (''first_fail_ns'', ''0''), (''next_attempt_ns'', ''0'')]
           (Call (SADD k_subs_set a_id) (\<lambda>_.
            lua_num a_num_links (\<lambda>n.
            create_links k_links argv 12 (nat n) (Ret [AnyString ''CREATED'', AnyString a_owner])))))))"

fun delete_shards :: "string list \<Rightarrow> string \<Rightarrow> string \<Rightarrow> string \<Rightarrow> string \<Rightarrow> string \<Rightarrow> 'a rprog \<Rightarrow> 'a rprog" where
  "delete_shards [] k_sub a_id k_lease k_retry k_due p = p"
| "delete_shards (g # gs) k_sub a_id k_lease k_retry k_due p =
     (let member = a_id @ '':g:'' @ g
      in Call (DEL (k_sub @ '':g:'' @ g)) (\<lambda>_. Call (ZREM k_lease member) (\<lambda>_. Call (ZREM k_retry member) (\<lambda>_.
         Call (ZREM k_due member) (\<lambda>_. delete_shards gs k_sub a_id k_lease k_retry k_due p)))))"

definition delete_sub :: lua_script where
  "delete_sub keys argv =
     (let k_sub = lua_at keys 1; k_subs_set = lua_at keys 2; k_links = lua_at keys 3; k_lease_zset = lua_at keys 4;
          k_retry_zset = lua_at keys 5; k_due_zset = lua_at keys 6; k_shard_registry = lua_at keys 7;
          a_id = lua_at argv 1; a_num_paths = lua_at argv 6
      in authorized (lua_at argv 2)
           (subscription_expectation_status k_sub k_links (lua_at argv 3) (lua_at argv 4) (lua_at argv 5) a_num_paths
              (paths_from argv 7 a_num_paths))
           (Call (DEL k_sub) (\<lambda>_. Call (DEL k_links) (\<lambda>_. Call (SREM k_subs_set a_id) (\<lambda>_.
            Call (ZREM k_lease_zset a_id) (\<lambda>_. Call (ZREM k_retry_zset a_id) (\<lambda>_. Call (ZREM k_due_zset a_id) (\<lambda>_.
            Call (SMEMBERS k_shard_registry) (\<lambda>r.
            delete_shards (lua_list r) k_sub a_id k_lease_zset k_retry_zset k_due_zset
              (Call (DEL k_shard_registry) (\<lambda>_. status ''OK'')))))))))))"

definition link_stream :: lua_script where
  "link_stream keys argv =
     (let k_sub = lua_at keys 1; k_links = lua_at keys 2; a_path = lua_at argv 1; a_link_type = lua_at argv 2;
          a_offset = lua_at argv 3; a_num_paths = lua_at argv 8
      in authorized (lua_at argv 4)
           (subscription_expectation_status k_sub k_links (lua_at argv 5) (lua_at argv 6) (lua_at argv 7) a_num_paths
              (paths_from argv 9 a_num_paths))
           (hget k_links a_path (\<lambda>cur. case cur of
              None \<Rightarrow> hset k_links [(a_path, a_link_type @ '':'' @ a_offset)] (status ''LINKED'')
            | Some v \<Rightarrow>
                (if a_link_type = ''explicit''
                 then (case split_link v of
                         None \<Rightarrow> Fail
                       | Some (_, off) \<Rightarrow> hset k_links [(a_path, ''explicit:'' @ off)] (status ''UPGRADED''))
                 else status ''EXISTS''))))"

definition unlink_stream :: lua_script where
  "unlink_stream keys argv =
     (let k_sub = lua_at keys 1; k_links = lua_at keys 2; a_path = lua_at argv 1; a_still_glob = lua_at argv 2;
          a_num_paths = lua_at argv 7
      in authorized (lua_at argv 3)
           (subscription_expectation_status k_sub k_links (lua_at argv 4) (lua_at argv 5) (lua_at argv 6) a_num_paths
              (paths_from argv 8 a_num_paths))
           (hget k_links a_path (\<lambda>cur. case cur of
              None \<Rightarrow> status ''GONE''
            | Some v \<Rightarrow>
                (if a_still_glob = ''1''
                 then (case split_link v of
                         None \<Rightarrow> Fail
                       | Some (_, off) \<Rightarrow> hset k_links [(a_path, ''glob:'' @ off)] (status ''GLOB''))
                 else Call (HDEL k_links a_path) (\<lambda>_. status ''REMOVED'')))))"

definition deindex_stale :: lua_script where
  "deindex_stale keys argv =
     (let k_sub = lua_at keys 1; k_links = lua_at keys 2; k_stream_subs = lua_at keys 3;
          a_id = lua_at argv 1; a_path = lua_at argv 2;
          remove = Call (SREM k_stream_subs a_id) (\<lambda>r. if lua_int r = 1 then status ''REMOVED'' else status ''ABSENT'')
      in exists_key k_sub (\<lambda>found. if found
           then Call (HEXISTS k_links a_path) (\<lambda>r. if lua_int r = 1 then status ''LINKED'' else remove)
           else remove))"

section \<open>Wakes, claims and leases\<close>

definition arm_wake :: lua_script where
  "arm_wake keys argv =
     (let sub = lua_at keys 1; k_lease_zset = lua_at keys 2; k_due_zset = lua_at keys 3; k_slot = lua_at keys 4;
          a_id = lua_at argv 1; a_now_ns = lua_at argv 2; a_lease_ttl_ms = lua_at argv 3; a_arm_lease = lua_at argv 4;
          a_new_wake_id = lua_at argv 5; a_replica_id = lua_at argv 6; a_expected_epoch = lua_at argv 7
      in rbind (owner_fenced k_slot a_replica_id a_expected_epoch) (\<lambda>out. if out then status ''FENCED'' else
         exists_key sub (\<lambda>found. if \<not> found then status ''NOSUB'' else
         hget sub ''phase'' (\<lambda>phase. if phase \<noteq> Some ''idle'' then
           hget sub ''generation'' (\<lambda>gen. hget sub ''wake_id'' (\<lambda>wake.
             Ret [AnyString ''BUSY'', reply_field gen, reply_field wake]))
         else
           Call (HINCRBY sub ''generation'' 1) (\<lambda>gen.
           hset sub [(''wake_id'', a_new_wake_id), (''phase'', ''waking''), (''holder'', ''0''), (''holder_worker'', '''')]
           (lua_num a_now_ns (\<lambda>now. Call (ZADD k_due_zset now a_id) (\<lambda>_.
            let reply = Ret [AnyString ''ARMED'', AnyString (lua_tostring (lua_int gen)), AnyString a_new_wake_id]
            in if a_arm_lease = ''1'' then
                 lua_num a_lease_ttl_ms (\<lambda>ttl.
                 hset sub [(''lease_until_ns'', lua_tostring (deadline now ttl))]
                 (Call (ZADD k_lease_zset (deadline now ttl) a_id) (\<lambda>_. reply)))
               else hset sub [(''wake_event_sent_ns'', ''0'')] reply))))))))"

text \<open>The last part of \<^verbatim>\<open>claim.lua\<close>: take the lease under the minted or reused fence.\<close>

definition claim_finish ::
    "string list \<Rightarrow> string list \<Rightarrow> int \<Rightarrow> string \<Rightarrow> string option \<Rightarrow> string option \<Rightarrow> go_any list rprog" where
  "claim_finish keys argv now incarnation gen wake =
     (let cfg = lua_at keys 1; sub = lua_at keys 2; k_lease_zset = lua_at keys 3; k_shard_registry = lua_at keys 5;
          a_member = lua_at argv 1; a_worker = lua_at argv 2; a_lease_ttl_ms = lua_at argv 4; a_shard_index = lua_at argv 6
      in lua_num a_lease_ttl_ms (\<lambda>ttl.
         hset sub [(''phase'', ''live''), (''holder'', ''1''), (''holder_worker'', a_worker),
             (''lease_until_ns'', lua_tostring (deadline now ttl)), (''incarnation'', incarnation)]
         (let arm = Call (ZADD k_lease_zset (deadline now ttl) a_member) (\<lambda>_.
                Ret [AnyString ''CLAIMED'', reply_field gen, reply_field wake, AnyString a_worker])
          in if cfg \<noteq> sub then Call (SADD k_shard_registry a_shard_index) (\<lambda>_. arm) else arm)))"

definition claim_grant :: "string list \<Rightarrow> string list \<Rightarrow> int \<Rightarrow> string option \<Rightarrow> string \<Rightarrow> go_any list rprog" where
  "claim_grant keys argv now phase incarnation =
     (let sub = lua_at keys 2; a_new_wake_id = lua_at argv 5
      in hget sub ''generation'' (\<lambda>gen. hget sub ''wake_id'' (\<lambda>wake.
         if \<not> (phase = Some ''waking'' \<and> wake \<noteq> Some '''') then
           Call (HINCRBY sub ''generation'' 1) (\<lambda>r.
           hset sub [(''wake_id'', a_new_wake_id)]
             (claim_finish keys argv now incarnation (Some (lua_tostring (lua_int r))) (Some a_new_wake_id)))
         else claim_finish keys argv now incarnation gen wake)))"

text \<open>The lease check of \<^verbatim>\<open>claim.lua\<close> and the incarnation of a record from before incarnations.\<close>

definition claim_body :: lua_script where
  "claim_body keys argv =
     (let cfg = lua_at keys 1; sub = lua_at keys 2; k_incarnation_counter = lua_at keys 4; a_now_ns = lua_at argv 3
      in hget sub ''phase'' (\<lambda>phase. hget sub ''holder'' (\<lambda>holder. hget sub ''lease_until_ns'' (\<lambda>lease.
         lua_num a_now_ns (\<lambda>now.
           if phase = Some ''live'' \<and> holder = Some ''1'' \<and> now < tonumber_or_0 lease then
             hget sub ''generation'' (\<lambda>gen. hget sub ''holder_worker'' (\<lambda>worker.
               Ret [AnyString ''BUSY'', reply_field gen, AnyString '''', reply_field worker]))
           else
             hget cfg ''incarnation'' (\<lambda>incarnation.
               if incarnation = None \<or> incarnation = Some '''' then
                 Call (INCR k_incarnation_counter) (\<lambda>r.
                 hset cfg [(''incarnation'', lua_tostring (lua_int r))]
                   (claim_grant keys argv now phase (lua_tostring (lua_int r))))
               else claim_grant keys argv now phase (the incarnation)))))))"

definition claim :: lua_script where
  "claim keys argv =
     (let cfg = lua_at keys 1; sub = lua_at keys 2; k_links = lua_at keys 6;
          a_expected_incarnation = lua_at argv 8; a_num_paths = lua_at argv 10
      in rbind (subscription_expectation_status cfg k_links (lua_at argv 7) a_expected_incarnation (lua_at argv 9)
              a_num_paths (paths_from argv 11 a_num_paths)) (\<lambda>expectation.
         if expectation = ''NOSUB'' then status ''NOSUB''
         else if expectation \<noteq> ''MATCHED'' then status ''FORBIDDEN''
         else hget sub ''incarnation'' (\<lambda>shard_inc.
           if cfg \<noteq> sub \<and> a_expected_incarnation \<noteq> '''' \<and> shard_inc \<noteq> Some a_expected_incarnation
           then Call (DEL sub) (\<lambda>_. claim_body keys argv) else claim_body keys argv)))"

text \<open>The incarnation of a shard record against its subscription's, as \<^verbatim>\<open>ack\<close> and \<^verbatim>\<open>check_write_fence\<close> test it.\<close>

definition shard_foreign :: "string \<Rightarrow> string \<Rightarrow> string option \<Rightarrow> string option \<Rightarrow> bool" where
  "shard_foreign k_shardstate k_sub_config cfg_inc shard_inc =
     (if k_shardstate \<noteq> k_sub_config
      then cfg_inc = None \<or> cfg_inc = Some '''' \<or> shard_inc = None \<or> shard_inc = Some '''' \<or> shard_inc \<noteq> cfg_inc
      else cfg_inc \<noteq> None \<and> cfg_inc \<noteq> Some '''' \<and> shard_inc \<noteq> cfg_inc)"

fun ack_links :: "string \<Rightarrow> string list \<Rightarrow> nat \<Rightarrow> nat \<Rightarrow> 'a rprog \<Rightarrow> 'a rprog" where
  "ack_links k_links argv i 0 p = p"
| "ack_links k_links argv i (Suc n) p =
     (let path = lua_at argv i; off = lua_at argv (i + 1); rest = ack_links k_links argv (i + 2) n p
      in hget k_links path (\<lambda>cur. case cur of
           None \<Rightarrow> rest
         | Some v \<Rightarrow>
             (case split_link v of
                None \<Rightarrow> Fail
              | Some (lt, curoff) \<Rightarrow>
                  if offset_greater off curoff then hset k_links [(path, lt @ '':'' @ off)] rest else rest)))"

definition ack_settle :: "string list \<Rightarrow> string list \<Rightarrow> go_any list rprog" where
  "ack_settle keys argv =
     (let sub = lua_at keys 1; k_lease_zset = lua_at keys 3; k_retry_zset = lua_at keys 4; k_due_zset = lua_at keys 5;
          a_member = lua_at argv 1
      in if lua_at argv 5 = ''1'' then
           hset sub [(''phase'', ''idle''), (''holder'', ''0''), (''holder_worker'', ''''), (''wake_id'', ''''),
               (''lease_until_ns'', ''0''), (''status'', ''active''), (''retry_count'', ''0''), (''first_fail_ns'', ''0''),
               (''next_attempt_ns'', ''0'')]
           (Call (ZREM k_lease_zset a_member) (\<lambda>_. Call (ZREM k_retry_zset a_member) (\<lambda>_.
            Call (ZREM k_due_zset a_member) (\<lambda>_. status ''OK''))))
         else
           lua_num (lua_at argv 6) (\<lambda>now. lua_num (lua_at argv 7) (\<lambda>ttl.
           hset sub [(''lease_until_ns'', lua_tostring (deadline now ttl)), (''phase'', ''live'')]
           (Call (ZADD k_lease_zset (deadline now ttl) a_member) (\<lambda>_. status ''OK'')))))"

definition ack_beat_ok :: "string option \<Rightarrow> string option \<Rightarrow> string option \<Rightarrow> bool" where
  "ack_beat_ok dispatch_type phase holder =
     (if dispatch_type = Some ''webhook''
      then (phase = Some ''waking'' \<or> phase = Some ''live'') \<and> holder = Some ''0''
      else phase = Some ''live'' \<and> holder = Some ''1'')"

definition ack :: lua_script where
  "ack keys argv =
     (let sub = lua_at keys 1; k_links = lua_at keys 2; k_sub_config = lua_at keys 6; k_slot = lua_at keys 7;
          a_done = lua_at argv 5; a_now_ns = lua_at argv 6;
          apply_acks = lua_num (lua_at argv 8) (\<lambda>n. ack_links k_links argv 9 (nat n) (ack_settle keys argv))
      in rbind (owner_fenced k_slot (lua_at argv (length argv - 1)) (lua_at argv (length argv))) (\<lambda>out.
         if out then status ''FENCED'' else
         exists_key sub (\<lambda>found. if \<not> found then status ''NOSUB'' else
         exists_key k_sub_config (\<lambda>found. if \<not> found then status ''NOSUB'' else
         hget k_sub_config ''incarnation'' (\<lambda>cfg_inc. hget sub ''incarnation'' (\<lambda>shard_inc.
         if shard_foreign sub k_sub_config cfg_inc shard_inc then status ''FENCED'' else
         hget sub ''generation'' (\<lambda>gen. hget sub ''wake_id'' (\<lambda>wake.
         if fenced gen wake (lua_at argv 2) (lua_at argv 3) (lua_at argv 4) then status ''FENCED'' else
         if a_done \<noteq> ''1'' then
           hget k_sub_config ''type'' (\<lambda>dispatch_type. hget sub ''phase'' (\<lambda>phase. hget sub ''holder'' (\<lambda>holder.
           hget sub ''lease_until_ns'' (\<lambda>lease.
           case (tonumber lease, parse_double a_now_ns) of
             (Some lease_until_ns, Some now_ns) \<Rightarrow>
               (if lease_until_ns \<le> now_ns then status ''FENCED''
                else if \<not> ack_beat_ok dispatch_type phase holder then status ''FENCED''
                else apply_acks)
           | _ \<Rightarrow> status ''FENCED''))))
         else apply_acks))))))))"

definition release :: lua_script where
  "release keys argv =
     (let sub = lua_at keys 1; k_lease_zset = lua_at keys 2; k_retry_zset = lua_at keys 3; k_due_zset = lua_at keys 4;
          k_slot = lua_at keys 5; a_id = lua_at argv 1
      in rbind (owner_fenced k_slot (lua_at argv 5) (lua_at argv 6)) (\<lambda>out. if out then status ''FENCED'' else
         exists_key sub (\<lambda>found. if \<not> found then status ''NOSUB'' else
         hget sub ''generation'' (\<lambda>gen. hget sub ''wake_id'' (\<lambda>wake.
         if fenced gen wake (lua_at argv 2) (lua_at argv 3) (lua_at argv 4) then status ''FENCED'' else
         hset sub [(''phase'', ''idle''), (''holder'', ''0''), (''holder_worker'', ''''), (''wake_id'', ''''), (''lease_until_ns'', ''0'')]
         (Call (ZREM k_lease_zset a_id) (\<lambda>_. Call (ZREM k_retry_zset a_id) (\<lambda>_.
          Call (ZREM k_due_zset a_id) (\<lambda>_. status ''OK'')))))))))"

definition lease_runs :: "string option \<Rightarrow> int \<Rightarrow> bool" where
  "lease_runs phase lease_until \<longleftrightarrow> (phase = Some ''live'' \<or> phase = Some ''waking'') \<and> 0 < lease_until"

definition expire_lease :: lua_script where
  "expire_lease keys argv =
     (let sub = lua_at keys 1; k_lease_zset = lua_at keys 2; k_due_zset = lua_at keys 3; k_slot = lua_at keys 4;
          a_id = lua_at argv 1; a_now_ns = lua_at argv 2
      in rbind (owner_fenced k_slot (lua_at argv 3) (lua_at argv 4)) (\<lambda>out. if out then status ''FENCED'' else
         exists_key sub (\<lambda>found. if \<not> found then status ''NOSUB'' else
         hget sub ''lease_until_ns'' (\<lambda>lease. hget sub ''phase'' (\<lambda>phase. lua_num a_now_ns (\<lambda>now.
         if lease_runs phase (tonumber_or_0 lease) \<and> tonumber_or_0 lease \<le> now then
           hset sub [(''phase'', ''idle''), (''holder'', ''0''), (''holder_worker'', ''''), (''wake_id'', ''''), (''lease_until_ns'', ''0'')]
           (Call (ZREM k_lease_zset a_id) (\<lambda>_. Call (ZADD k_due_zset now a_id) (\<lambda>_. status ''EXPIRED'')))
         else status ''ACTIVE''))))))"

definition restore_lease :: lua_script where
  "restore_lease keys argv =
     (let sub = lua_at keys 1; k_lease_zset = lua_at keys 2; k_due_zset = lua_at keys 3;
          a_id = lua_at argv 1; a_now_ns = lua_at argv 2; a_owed = lua_at argv 3
      in exists_key sub (\<lambda>found. if \<not> found then status ''NOSUB'' else
         hget sub ''phase'' (\<lambda>phase. hget sub ''lease_until_ns'' (\<lambda>lease.
         if lease_runs phase (tonumber_or_0 lease) then
           Call (ZADD k_lease_zset (tonumber_or_0 lease) a_id) (\<lambda>_.
             if a_owed = ''1'' then lua_num a_now_ns (\<lambda>now. Call (ZADD k_due_zset now a_id) (\<lambda>_. status ''RESTORED''))
             else status ''RESTORED'')
         else status ''INTACT''))))"

definition check_write_fence :: lua_script where
  "check_write_fence keys argv =
     (let k_shardstate = lua_at keys 1; k_sub_config = lua_at keys 2;
          a_generation = lua_at argv 2; a_wake_id = lua_at argv 3; a_holder = lua_at argv 4; a_incarnation = lua_at argv 5
      in lua_num (lua_at argv 1) (\<lambda>now.
         exists_key k_shardstate (\<lambda>found. if \<not> found then status ''NOSUB'' else
         exists_key k_sub_config (\<lambda>found. if \<not> found then status ''NOSUB'' else
         hget k_sub_config ''incarnation'' (\<lambda>cfg_inc. hget k_shardstate ''incarnation'' (\<lambda>shard_inc.
         if shard_foreign k_shardstate k_sub_config cfg_inc shard_inc then status ''FENCED'' else
         hget k_shardstate ''phase'' (\<lambda>phase. hget k_shardstate ''holder'' (\<lambda>holder.
         hget k_shardstate ''holder_worker'' (\<lambda>holder_worker. hget k_shardstate ''generation'' (\<lambda>gen.
         hget k_shardstate ''wake_id'' (\<lambda>wake. hget k_shardstate ''lease_until_ns'' (\<lambda>lease.
         hget k_sub_config ''type'' (\<lambda>dispatch.
         if \<not> ack_beat_ok dispatch phase holder \<or> tonumber_or_0 lease \<le> now then status ''FENCED'' else
         if wake = None \<or> wake = Some '''' then status ''FENCED'' else
         let claim_holder = (if dispatch = Some ''webhook'' then Some (''wake:'' @ the wake) else holder_worker)
         in if (a_incarnation \<noteq> '''' \<and> Some a_incarnation \<noteq> cfg_inc) \<or> gen \<noteq> Some a_generation \<or>
               wake \<noteq> Some a_wake_id \<or> a_holder = '''' \<or> Some a_holder \<noteq> claim_holder
            then status ''FENCED''
            else hget k_sub_config ''lease_ttl_ms'' (\<lambda>ttl.
                   Ret [AnyString ''OK'', reply_field lease, reply_field ttl]))))))))))))))"

section \<open>Delivery bookkeeping\<close>

definition schedule_retry :: lua_script where
  "schedule_retry keys argv =
     (let sub = lua_at keys 1; k_retry_zset = lua_at keys 2; k_slot = lua_at keys 3;
          a_id = lua_at argv 1; a_now_ns = lua_at argv 2; a_next_attempt_ns = lua_at argv 3; a_generation = lua_at argv 4;
          a_wake_id = lua_at argv 5
      in rbind (owner_fenced k_slot (lua_at argv 6) (lua_at argv 7)) (\<lambda>out. if out then status ''FENCED'' else
         exists_key sub (\<lambda>found. if \<not> found then status ''NOSUB'' else
         hget sub ''generation'' (\<lambda>gen. hget sub ''wake_id'' (\<lambda>wake.
         if fenced gen wake a_generation a_wake_id a_generation then status ''STALE'' else
         Call (HINCRBY sub ''retry_count'' 1) (\<lambda>_.
         hget sub ''first_fail_ns'' (\<lambda>first.
         let finish = (\<lambda>first'.
               hset sub [(''status'', ''failed''), (''next_attempt_ns'', a_next_attempt_ns)]
               (lua_num a_next_attempt_ns (\<lambda>at. Call (ZADD k_retry_zset at a_id) (\<lambda>_.
                hget sub ''retry_count'' (\<lambda>count. Ret [AnyString ''OK'', reply_field count, reply_field first'])))))
         in if first = Some ''0'' \<or> first = None
            then hset sub [(''first_fail_ns'', a_now_ns)] (finish (Some a_now_ns))
            else finish first)))))))"

definition record_success :: lua_script where
  "record_success keys argv =
     (let sub = lua_at keys 1; k_retry_zset = lua_at keys 2; k_slot = lua_at keys 3;
          a_id = lua_at argv 1; a_generation = lua_at argv 2; a_wake_id = lua_at argv 3
      in rbind (owner_fenced k_slot (lua_at argv 4) (lua_at argv 5)) (\<lambda>out. if out then status ''FENCED'' else
         exists_key sub (\<lambda>found. if \<not> found then status ''NOSUB'' else
         hget sub ''generation'' (\<lambda>gen.
         if gen \<noteq> Some a_generation then status ''STALE'' else
         hget sub ''wake_id'' (\<lambda>wake.
         if wake \<noteq> Some a_wake_id then status ''STALE'' else
         hset sub [(''status'', ''active''), (''retry_count'', ''0''), (''first_fail_ns'', ''0''), (''next_attempt_ns'', ''0'')]
         (Call (ZREM k_retry_zset a_id) (\<lambda>_. status ''OK'')))))))"

definition record_wake_sent :: lua_script where
  "record_wake_sent keys argv =
     (let sub = lua_at keys 1; a_now_ns = lua_at argv 1; a_generation = lua_at argv 2; a_wake_id = lua_at argv 3
      in exists_key sub (\<lambda>found. if \<not> found then status ''NOSUB'' else
         hget sub ''generation'' (\<lambda>gen.
         if gen \<noteq> Some a_generation then status ''STALE'' else
         hget sub ''wake_id'' (\<lambda>wake.
         if wake \<noteq> Some a_wake_id then status ''STALE'' else
         hset sub [(''wake_event_sent_ns'', a_now_ns)] (status ''OK'')))))"

fun rescore :: "string \<Rightarrow> int \<Rightarrow> string list \<Rightarrow> 'a rprog \<Rightarrow> 'a rprog" where
  "rescore k_zset vis [] p = p"
| "rescore k_zset vis (m # ms) p = Call (ZADD k_zset vis m) (\<lambda>_. rescore k_zset vis ms p)"

definition claim_due :: lua_script where
  "claim_due keys argv =
     (let k_zset = lua_at keys 1
      in lua_num (lua_at argv 1) (\<lambda>now. lua_num (lua_at argv 2) (\<lambda>limit. lua_num (lua_at argv 3) (\<lambda>visibility.
         Call (ZRANGEBYSCORE k_zset now limit) (\<lambda>due.
         rescore k_zset (lua_add now visibility) (lua_list due) (Ret (map AnyString (lua_list due))))))))"

section \<open>Slot ownership\<close>

definition claim_shard :: lua_script where
  "claim_shard keys argv =
     (let slot = lua_at keys 1; me = lua_at argv 1
      in lua_num (lua_at argv 2) (\<lambda>now.
         hget slot ''owner_id'' (\<lambda>owner. hget slot ''lease_expiry_ns'' (\<lambda>exp.
         if owner \<noteq> None \<and> owner \<noteq> Some me \<and> now < tonumber_or_0 exp then
           hget slot ''owner_epoch'' (\<lambda>epoch. hget slot ''lease_expiry_ns'' (\<lambda>exp.
             Ret [AnyString ''BUSY'', reply_field owner, reply_field epoch, reply_field exp]))
         else
           (let finish = (\<lambda>epoch.
                  lua_num (lua_at argv 3) (\<lambda>ttl.
                  hset slot [(''owner_id'', me), (''lease_expiry_ns'', lua_tostring (deadline now ttl))]
                  (Ret [AnyString (if owner = Some me then ''RENEWED'' else ''CLAIMED''), AnyString me, reply_field epoch,
                        AnyString (lua_tostring (deadline now ttl))])))
            in if owner = Some me then hget slot ''owner_epoch'' finish
               else Call (HINCRBY slot ''owner_epoch'' 1) (\<lambda>r. finish (Some (lua_tostring (lua_int r)))))))))"

definition check_owner :: lua_script where
  "check_owner keys argv =
     (let k_slot = lua_at keys 1
      in hget k_slot ''owner_id'' (\<lambda>owner.
         if owner = None then status ''UNOWNED''
         else if owner \<noteq> Some (lua_at argv 1) then status ''FENCED''
         else hget k_slot ''owner_epoch'' (\<lambda>epoch.
                if epoch \<noteq> Some (lua_at argv 2) then status ''FENCED'' else status ''OWNER'')))"

end
