(* ===== verification/Webhook_Consistency.thy ===== *)
theory Webhook_Consistency
  imports Json_Frames Stream_Types Durable_Externalization
begin

text \<open>
  The durability tiers of the control plane (\<^verbatim>\<open>webhook/consistency.go\<close>): which barrier a
  fence-minting write waits for, how its reply is judged, and the boot-time check of the Redis
  configuration; and the outbox declarations of the control plane
  (\<^verbatim>\<open>webhook/durable_externalization.go\<close>).  Lower-casing and trimming are on ASCII bytes.
\<close>

section \<open>Tiers and plans\<close>

datatype ConsistencyTier = TierA | TierB | TierC

fun tier_String :: "ConsistencyTier \<Rightarrow> string" where
  "tier_String TierA = ''A''"
| "tier_String TierB = ''B''"
| "tier_String TierC = ''C''"

definition TrimPrefix :: "string \<Rightarrow> string \<Rightarrow> string" where
  "TrimPrefix s p = (if has_prefix s p then drop (length p) s else s)"

datatype ConsistencyError = ConsistencyError string

definition ParseConsistencyTier :: "string \<Rightarrow> ConsistencyError + ConsistencyTier" where
  "ParseConsistencyTier s =
     (let v = foldl TrimPrefix (toLower (TrimSpace s)) [''tier-'', ''tier_'', ''tier'']
      in if v = '''' \<or> v = ''a'' then Inr TierA
         else if v = ''b'' then Inr TierB
         else if v = ''c'' then Inr TierC
         else Inl (ConsistencyError s))"

definition defaultWaitTimeoutMs :: int64 where "defaultWaitTimeoutMs = 1000"

record DurabilityPlan =
  dp_Wait :: bool
  dp_UseAOF :: bool
  dp_NumLocal :: int64
  dp_NumReplicas :: int64
  dp_TimeoutMs :: int64

definition DurabilityFor :: "ConsistencyTier \<Rightarrow> int64 \<Rightarrow> int64 \<Rightarrow> DurabilityPlan" where
  "DurabilityFor tier numReplicas timeoutMs =
     (if tier \<noteq> TierB
      then \<lparr>dp_Wait = False, dp_UseAOF = False, dp_NumLocal = 0, dp_NumReplicas = 0, dp_TimeoutMs = 0\<rparr>
      else \<lparr>dp_Wait = True, dp_UseAOF = True, dp_NumLocal = 1,
            dp_NumReplicas = (if numReplicas < 0 then 0 else numReplicas),
            dp_TimeoutMs = (if timeoutMs \<le> 0 then defaultWaitTimeoutMs else timeoutMs)\<rparr>)"

record AOFConfigError =
  ac_AppendOnly :: string
  ac_WantReplicas :: int64
  ac_GotReplicas :: int64

definition AssertAOFEnabled :: "ConsistencyTier \<Rightarrow> string \<Rightarrow> int64 \<Rightarrow> int64 \<Rightarrow> AOFConfigError option" where
  "AssertAOFEnabled tier appendonlyValue onlineReplicas wantReplicas =
     (if tier \<noteq> TierB then None
      else if toLower (TrimSpace appendonlyValue) \<noteq> ''yes''
      then Some \<lparr>ac_AppendOnly = appendonlyValue, ac_WantReplicas = wantReplicas, ac_GotReplicas = onlineReplicas\<rparr>
      else if onlineReplicas < wantReplicas
      then Some \<lparr>ac_AppendOnly = ''yes'', ac_WantReplicas = wantReplicas, ac_GotReplicas = onlineReplicas\<rparr>
      else None)"

record DurabilityShortError =
  ds_WantLocal :: int64
  ds_GotLocal :: int64
  ds_WantReplicas :: int64
  ds_GotReplicas :: int64
  ds_UseAOF :: bool

definition InterpretWaitAOF :: "DurabilityPlan \<Rightarrow> int64 \<Rightarrow> int64 \<Rightarrow> DurabilityShortError option" where
  "InterpretWaitAOF plan gotLocal gotReplicas =
     (if \<not> dp_Wait plan then None
      else if gotLocal < dp_NumLocal plan \<or> gotReplicas < dp_NumReplicas plan
      then Some \<lparr>ds_WantLocal = dp_NumLocal plan, ds_GotLocal = gotLocal, ds_WantReplicas = dp_NumReplicas plan,
                 ds_GotReplicas = gotReplicas, ds_UseAOF = True\<rparr>
      else None)"

definition InterpretWait :: "DurabilityPlan \<Rightarrow> int64 \<Rightarrow> DurabilityShortError option" where
  "InterpretWait plan gotReplicas =
     (if \<not> dp_Wait plan then None
      else if gotReplicas < dp_NumReplicas plan
      then Some \<lparr>ds_WantLocal = 0, ds_GotLocal = 0, ds_WantReplicas = dp_NumReplicas plan,
                 ds_GotReplicas = gotReplicas, ds_UseAOF = False\<rparr>
      else None)"

section \<open>The replicas of INFO replication\<close>

fun atoi_loop :: "int \<Rightarrow> string \<Rightarrow> int64" where
  "atoi_loop n [] = n"
| "atoi_loop n (c # cs) = (if \<not> is_digit c then 0 else atoi_loop (i64 (n * 10 + int (digit_val c))) cs)"

definition atoiSafe :: "string \<Rightarrow> int64" where
  "atoiSafe s = atoi_loop 0 (TrimSpace s)"

definition isSlaveStatLine :: "string \<Rightarrow> bool" where
  "isSlaveStatLine line =
     (let rest = TrimPrefix line ''slave''
      in if rest = line then False
         else (let i = length (takeWhile is_digit rest) in 0 < i \<and> i < length rest \<and> rest ! i = CHR '':''))"

fun contains :: "string \<Rightarrow> string \<Rightarrow> bool" where
  "contains [] p = (p = [])"
| "contains (c # cs) p = (has_prefix (c # cs) p \<or> contains cs p)"

definition count_line :: "string \<Rightarrow> int64 \<times> int64 \<times> bool \<Rightarrow> int64 \<times> int64 \<times> bool" where
  "count_line raw st =
     (case st of (connected, online, saw) \<Rightarrow>
        let line = TrimSpace raw
        in if has_prefix line ''connected_slaves:'' then (atoiSafe (TrimPrefix line ''connected_slaves:''), online, saw)
           else if isSlaveStatLine line
           then (connected, if contains line ''state=online'' then online + 1 else online, True)
           else st)"

definition ParseConnectedReplicas :: "string \<Rightarrow> int64" where
  "ParseConnectedReplicas infoReplication =
     (case fold count_line (split_on (CHR 0x0A) infoReplication) (0, 0, False) of
        (connected, online, saw) \<Rightarrow> if saw then online else connected)"

section \<open>Freshness tokens\<close>

datatype FreshnessToken = FreshnessToken (ft_Generation: int64)

definition Stale :: "FreshnessToken \<Rightarrow> int64 \<Rightarrow> bool" where
  "Stale t appliedGeneration \<longleftrightarrow> appliedGeneration < ft_Generation t"

section \<open>The outbox declarations of the control plane\<close>

text \<open>A declaration whose scanner queries its marker and redrives its action.\<close>

definition scan_redrive :: "Marker \<Rightarrow> Action_name \<Rightarrow> ScannerFunc" where
  "scan_redrive marker action rt =
     (case QueryMarker marker rt of (Some err, rt') \<Rightarrow> (Some err, rt') | (None, rt') \<Rightarrow> RedriveAction action rt')"

definition declare_externalization ::
    "Marker \<Rightarrow> Action_name \<Rightarrow> IdempotenceKey \<Rightarrow> string \<Rightarrow> Externalization option" where
  "declare_externalization marker action key name =
     (case NewScanner name marker action (Some (scan_redrive marker action)) of
        None \<Rightarrow> None
      | Some scanner \<Rightarrow> NewExternalization marker action key scanner)"

definition KeySubscriptionGenerationWake :: IdempotenceKey where
  "KeySubscriptionGenerationWake = ''subscription_id + generation + wake_id''"

definition KeyClaimShardGenerationWake :: IdempotenceKey where
  "KeyClaimShardGenerationWake = ''subscription_id + shard + generation + wake_id''"

definition KeySlotOwnerEpoch :: IdempotenceKey where
  "KeySlotOwnerEpoch = ''slot_key + owner_epoch''"

definition wakeIntentExternalization :: "Externalization option" where
  "wakeIntentExternalization =
     declare_externalization ''webhook:wake-intent'' ''dispatch wake'' KeySubscriptionGenerationWake
       ''sweep/due scan owed wake intents''"

definition pullWakeUnstampedExternalization :: "Externalization option" where
  "pullWakeUnstampedExternalization =
     declare_externalization ''webhook:pull-wake-emit-unstamped'' ''append pull-wake event'' KeySubscriptionGenerationWake
       ''ReemitUnstampedPullWakes scan''"

definition pullWakeStampedExternalization :: "Externalization option" where
  "pullWakeStampedExternalization =
     declare_externalization ''webhook:pull-wake-emit-stamped'' ''append pull-wake event'' KeySubscriptionGenerationWake
       ''ReemitStalePullWakes scan''"

definition webhookDeliveryExternalization :: "Externalization option" where
  "webhookDeliveryExternalization =
     declare_externalization ''webhook:delivery-lease'' ''redeliver webhook'' KeySubscriptionGenerationWake
       ''retry/lease delivery scan''"

definition claimGrantExternalization :: "Externalization option" where
  "claimGrantExternalization =
     declare_externalization ''webhook:claim-grant'' ''return claim to worker'' KeyClaimShardGenerationWake
       ''claim lease takeover scan''"

definition slotOwnershipExternalization :: "Externalization option" where
  "slotOwnershipExternalization =
     declare_externalization ''webhook:slot-ownership-grant'' ''run owned background work'' KeySlotOwnerEpoch
       ''slot owner work scan''"

definition webhookDurableExternalizations :: "Externalization option list" where
  "webhookDurableExternalizations =
     [wakeIntentExternalization, pullWakeUnstampedExternalization, pullWakeStampedExternalization,
      webhookDeliveryExternalization, claimGrantExternalization, slotOwnershipExternalization]"

text \<open>Running an action under a declaration, which the package initialisation has built.\<close>

definition run_declared :: "Externalization option \<Rightarrow> durable_error option option \<Rightarrow> durable_error option" where
  "run_declared d run = (case d of None \<Rightarrow> Some ExternalizationIncomplete | Some e \<Rightarrow> RunExternalAction e run)"

lemma declare_externalization_Some:
  assumes "marker \<noteq> ''''" "action \<noteq> ''''" "key \<noteq> ''''" "name \<noteq> ''''"
  shows "\<exists>e. declare_externalization marker action key name = Some e \<and> Complete_externalization e"
proof -
  let ?s = "\<lparr>sc_name = name, sc_marker = marker, sc_action = action, sc_run = Some (scan_redrive marker action)\<rparr>"
  have "Verify ?s = None"
    using assms by (simp add: Verify_def scan_redrive_def QueryMarker_def RedriveAction_def newScanProbe_def)
  then have "declare_externalization marker action key name = NewExternalization marker action key ?s"
    "NewExternalization marker action key ?s \<noteq> None"
    using assms by (simp_all add: declare_externalization_def NewScanner_def NewExternalization_def)
  then show ?thesis using NewExternalization_Complete by (metis option.exhaust)
qed

lemma webhook_declarations: "list_all (\<lambda>d. \<exists>e. d = Some e \<and> Complete_externalization e) webhookDurableExternalizations"
  unfolding webhookDurableExternalizations_def wakeIntentExternalization_def pullWakeUnstampedExternalization_def
    pullWakeStampedExternalization_def webhookDeliveryExternalization_def claimGrantExternalization_def
    slotOwnershipExternalization_def KeySubscriptionGenerationWake_def KeyClaimShardGenerationWake_def KeySlotOwnerEpoch_def
    list.pred_inject
  by (intro conjI TrueI declare_externalization_Some) simp_all

lemma run_declared_webhook: "d \<in> set webhookDurableExternalizations \<Longrightarrow> run_declared d (Some outcome) = outcome"
  using webhook_declarations by (auto simp: list_all_iff run_declared_def RunExternalAction_def)

lemma run_declared_grants [simp]:
  "run_declared wakeIntentExternalization (Some out) = out" "run_declared claimGrantExternalization (Some out) = out"
  "run_declared slotOwnershipExternalization (Some out) = out"
  by (simp_all add: run_declared_webhook webhookDurableExternalizations_def)

end
