(* ===== verification/Webhook_Store.thy ===== *)
theory Webhook_Store
  imports Webhook_Calls Webhook_Scripts Webhook_State Webhook_Consistency
begin

text \<open>
  The Redis-backed subscription store (\<^verbatim>\<open>webhook/redis_store.go\<close>): every operation as the program of
  Redis commands it issues, built from a validated script call and the decoded reply.  Metrics are
  not represented.  The durability barrier of tier B runs on a pinned connection; whether one can be
  opened and what \<^verbatim>\<open>WAIT\<close> or \<^verbatim>\<open>WAITAOF\<close> answers are fields of the store.  SHA-256 is an argument.
\<close>

section \<open>Running a typed script\<close>

definition script_run :: "'r typedScript \<Rightarrow> lua_script \<Rightarrow> scriptKeyVector \<Rightarrow> string list \<Rightarrow> (script_error + 'r) rprog" where
  "script_run ts lua k args =
     (case validateCall (ts_abi ts) k (map AnyString args) of
        Inl e \<Rightarrow> Ret (Inl e)
      | Inr _ \<Rightarrow> rbind (lua (redisKeys k) args) (\<lambda>reply. Ret (script_decode ts (RawArray reply))))"

definition ebind :: "(script_error + 'a) rprog \<Rightarrow> ('a \<Rightarrow> (script_error + 'b) rprog) \<Rightarrow> (script_error + 'b) rprog" where
  "ebind m f = rbind m (\<lambda>r. case r of Inl e \<Rightarrow> Ret (Inl e) | Inr x \<Rightarrow> f x)"

abbreviation with_keys :: "script_error + 'k \<Rightarrow> ('k \<Rightarrow> (script_error + 'a) rprog) \<Rightarrow> (script_error + 'a) rprog" where
  "with_keys k f \<equiv> ebind (Ret k) f"

record RedisStore =
  rs_durPlan :: DurabilityPlan
  rs_pinned :: bool
  rs_wait :: "go_any list option"

definition runMaybePinned ::
    "RedisStore \<Rightarrow> 'r typedScript \<Rightarrow> lua_script \<Rightarrow> scriptKeyVector \<Rightarrow> string list \<Rightarrow> (script_error + 'r) rprog" where
  "runMaybePinned s ts lua k args =
     (if dp_Wait (rs_durPlan s) \<and> \<not> rs_pinned s then Ret (Inl NoPinnedConn) else script_run ts lua k args)"

definition replyInt :: "go_any \<Rightarrow> int64" where
  "replyInt v = (case v of AnyInt n \<Rightarrow> n | _ \<Rightarrow> 0)"

definition waitAOFCounts :: "go_any list \<Rightarrow> int64 \<times> int64" where
  "waitAOFCounts raw =
     (if 0 < length raw then replyInt (raw ! 0) else 0, if 1 < length raw then replyInt (raw ! 1) else 0)"

definition awaitDurableOn :: "RedisStore \<Rightarrow> script_error option" where
  "awaitDurableOn s =
     (let plan = rs_durPlan s
      in if \<not> dp_Wait plan then None
         else (case rs_wait s of
                 None \<Rightarrow> Some WaitFailed
               | Some raw \<Rightarrow>
                   (let (gotLocal, gotReplicas) = waitAOFCounts raw;
                        verdict = (if dp_UseAOF plan then InterpretWaitAOF plan gotLocal gotReplicas
                                   else InterpretWait plan gotLocal)
                    in if verdict = None then None else Some DurabilityShort)))"

text \<open>What follows a minted fence: the barrier, then the declared external action.\<close>

definition after_mint :: "RedisStore \<Rightarrow> Externalization option \<Rightarrow> script_error option" where
  "after_mint s d =
     (case awaitDurableOn s of
        Some e \<Rightarrow> Some e
      | None \<Rightarrow> if run_declared d (Some None) = None then None else Some ActionRefused)"

definition nsArg :: "gotime \<Rightarrow> string" where
  "nsArg t = FormatInt (time_unix_nano t)"

section \<open>Reading a subscription\<close>

definition hash_field :: "(string \<times> string) list \<Rightarrow> string \<Rightarrow> string" where
  "hash_field f k = (case map_of f k of None \<Rightarrow> '''' | Some v \<Rightarrow> v)"

definition parseLeaseUntilNs :: "string \<Rightarrow> int64" where
  "parseLeaseUntilNs s =
     (case ParseInt s of
        Inr n \<Rightarrow> n
      | Inl _ \<Rightarrow> (case parse_double s of Some f \<Rightarrow> int64_of_double f | None \<Rightarrow> 0))"

text \<open>\<^verbatim>\<open>n, _ := strconv.ParseInt(...)\<close>: a syntax error gives zero, an overflow the nearest bound.\<close>

definition atoi :: "string \<Rightarrow> int64" where
  "atoi s =
     (case ParseInt s of
        Inr n \<Rightarrow> n
      | Inl ErrSyntax \<Rightarrow> 0
      | Inl ErrRange \<Rightarrow> if has_prefix s ''-'' then - (2 ^ 63) else 2 ^ 63 - 1)"

fun linksFromHash :: "(string \<times> string) list \<Rightarrow> StreamLink list" where
  "linksFromHash [] = []"
| "linksFromHash ((path, v) # fs) =
     (case split_link v of
        None \<Rightarrow> linksFromHash fs
      | Some (lt, off) \<Rightarrow> \<lparr>sl_Path = path, sl_LinkType = lt, sl_AckedOffset = off\<rparr> # linksFromHash fs)"

definition subscriptionFromHash :: "string \<Rightarrow> (string \<times> string) list \<Rightarrow> (string \<times> string) list \<Rightarrow> Subscription" where
  "subscriptionFromHash sid f linkFields =
     (let g = hash_field f; links = linksFromHash linkFields; createdNs = atoi (g ''created_ns'')
      in \<lparr>sub_ID = sid,
          sub_Config = \<lparr>cf_Type = g ''type'', cf_Pattern = g ''pattern'',
            cf_Streams = normalizeStreams (map sl_Path (filter (\<lambda>l. sl_LinkType l = LinkExplicit) links)),
            cf_WebhookURL = g ''webhook_url'', cf_WakeStream = g ''wake_stream'', cf_LeaseTTLMs = atoi (g ''lease_ttl_ms''),
            cf_Description = g ''description''\<rparr>,
          sub_CfgHash = g ''cfg_hash'',
          sub_CreatedAt = \<lparr>tm_sec = createdNs div 1000000000, tm_nsec = createdNs mod 1000000000\<rparr>,
          sub_OwnerSubject = g ''owner'', sub_Incarnation = g ''incarnation'', sub_Status = g ''status'',
          sub_Phase = g ''phase'', sub_Generation = atoi (g ''generation''), sub_WakeID = g ''wake_id'',
          sub_Holder = (g ''holder'' = ''1''), sub_HolderWorker = g ''holder_worker'',
          sub_LeaseUntilNs = parseLeaseUntilNs (g ''lease_until_ns''), sub_RetryCount = atoi (g ''retry_count''),
          sub_FirstFailNs = atoi (g ''first_fail_ns''), sub_NextAttemptNs = atoi (g ''next_attempt_ns''),
          sub_WakeEventSentNs = atoi (g ''wake_event_sent_ns''), sub_Links = links\<rparr>)"

definition getSlotHomed :: "string \<Rightarrow> Subscription option rprog" where
  "getSlotHomed sid =
     Call (HGETALL (subKey sid)) (\<lambda>sub. Call (HGETALL (linksKey sid)) (\<lambda>links.
       if lua_pairs sub = [] then Ret None else Ret (Some (subscriptionFromHash sid (lua_pairs sub) (lua_pairs links)))))"

section \<open>The fan-out index\<close>

definition streamSlotsKey :: "string \<Rightarrow> string" where
  "streamSlotsKey path = ''ds:{__ds-occ}:streamslots:'' @ path"

definition indexStream :: "string \<Rightarrow> string \<Rightarrow> unit rprog" where
  "indexStream path sid =
     Call (SADD (streamSubsKey (slotOf sid) path) sid) (\<lambda>_. Call (SETBIT (streamSlotsKey path) (slotOf sid)) (\<lambda>_. Ret ()))"

definition deindexStream :: "string \<Rightarrow> string \<Rightarrow> unit rprog" where
  "deindexStream path sid = Call (SREM (streamSubsKey (slotOf sid) path) sid) (\<lambda>_. Ret ())"

fun each_path :: "(string \<Rightarrow> unit rprog) \<Rightarrow> string list \<Rightarrow> unit rprog" where
  "each_path f [] = Ret ()"
| "each_path f (p # ps) = rbind (f p) (\<lambda>_. each_path f ps)"

definition DeindexStale :: "string \<Rightarrow> string \<Rightarrow> (script_error + bool) rprog" where
  "DeindexStale sid path =
     ebind (script_run deindexStaleScript deindex_stale (newDeindexStaleKeys sid path) [sid, path])
       (\<lambda>reply. Ret (Inr (reply = deindexStaleRemoved)))"

section \<open>Subscriptions and links\<close>

datatype CreateStatus = CreateCreated | CreateMatched | CreateConflict

definition create_args :: "(bytes \<Rightarrow> bytes) \<Rightarrow> string \<Rightarrow> Config \<Rightarrow> StreamLink list \<Rightarrow> gotime \<Rightarrow> string \<Rightarrow> string list" where
  "create_args sha256 sid cfg links now owner =
     [sid, ConfigHash sha256 cfg, nsArg now, cf_Type cfg, cf_Pattern cfg, cf_WebhookURL cfg, cf_WakeStream cfg,
      FormatInt (cf_LeaseTTLMs cfg), cf_Description cfg, owner, FormatInt (int (length links))]
     @ concat (map (\<lambda>l. [sl_Path l, sl_LinkType l, sl_AckedOffset l]) links)"

definition CreateOrConfirmOwned ::
    "(bytes \<Rightarrow> bytes) \<Rightarrow> string \<Rightarrow> Config \<Rightarrow> StreamLink list \<Rightarrow> gotime \<Rightarrow> string \<Rightarrow> (script_error + CreateStatus \<times> string) rprog" where
  "CreateOrConfirmOwned sha256 sid cfg links now owner =
     ebind (script_run createSubScript create_sub (newCreateSubKeys sid)
              (create_args sha256 sid (NormalizeConfig cfg) links now owner)) (\<lambda>reply.
       case reply of
         createSubCreated w \<Rightarrow>
           rbind (each_path (\<lambda>p. indexStream p sid) (map sl_Path links)) (\<lambda>_. Ret (Inr (CreateCreated, w)))
       | createSubMatched w \<Rightarrow> Ret (Inr (CreateMatched, w))
       | createSubConflict w \<Rightarrow> Ret (Inr (CreateConflict, w)))"

record SubscriptionExpectation =
  se_Incarnation :: string
  se_OwnerSubject :: string
  se_CfgHash :: string
  se_Paths :: "string list"

definition subscriptionExpectationFromSubscription :: "Subscription \<Rightarrow> SubscriptionExpectation" where
  "subscriptionExpectationFromSubscription sub =
     \<lparr>se_Incarnation = sub_Incarnation sub, se_OwnerSubject = sub_OwnerSubject sub, se_CfgHash = sub_CfgHash sub,
      se_Paths = map sl_Path (sub_Links sub)\<rparr>"

fun expected_path_args :: "string list \<Rightarrow> string list \<Rightarrow> script_error + string list" where
  "expected_path_args seen [] = Inr []"
| "expected_path_args seen (path # paths) =
     (if path = '''' then Inl EmptyExpectedPath
      else if path \<in> set seen then Inl (DuplicateExpectedPath path)
      else bindE (expected_path_args (path # seen) paths) (\<lambda>ps. Inr (path # ps)))"

definition appendSubscriptionExpectation :: "string list \<Rightarrow> SubscriptionExpectation \<Rightarrow> script_error + string list" where
  "appendSubscriptionExpectation args expected =
     bindE (expected_path_args [] (se_Paths expected)) (\<lambda>paths.
       Inr (args @ [se_OwnerSubject expected, se_Incarnation expected, se_CfgHash expected,
                    FormatInt (int (length (se_Paths expected)))] @ paths))"

definition authorizedMutationArgs :: "string list \<Rightarrow> SubscriptionExpectation option \<Rightarrow> script_error + string list" where
  "authorizedMutationArgs prefix expected =
     (case expected of
        None \<Rightarrow> Inr (prefix @ [''0'', '''', '''', '''', ''0''])
      | Some e \<Rightarrow> appendSubscriptionExpectation (prefix @ [''1'']) e)"

datatype MutationResult = MutationApplied | MutationNoSub | MutationForbidden

definition store_delete :: "string \<Rightarrow> SubscriptionExpectation option \<Rightarrow> (script_error + MutationResult) rprog" where
  "store_delete sid expected =
     Call (HGETALL (linksKey sid)) (\<lambda>links.
     with_keys (authorizedMutationArgs [sid] expected) (\<lambda>args.
     ebind (script_run deleteSubScript delete_sub (newDeleteSubKeys sid) args) (\<lambda>reply.
       case reply of
         deleteSubOK \<Rightarrow>
           rbind (each_path (\<lambda>p. deindexStream p sid) (map fst (lua_pairs links))) (\<lambda>_. Ret (Inr MutationApplied))
       | deleteSubNoSub \<Rightarrow> Ret (Inr MutationNoSub)
       | deleteSubForbidden \<Rightarrow> Ret (Inr MutationForbidden))))"

definition store_link ::
    "string \<Rightarrow> string \<Rightarrow> LinkType \<Rightarrow> string \<Rightarrow> SubscriptionExpectation option \<Rightarrow> (script_error + MutationResult) rprog" where
  "store_link sid path linkType offset expected =
     with_keys (authorizedMutationArgs [path, linkType, offset] expected) (\<lambda>args.
     ebind (script_run linkStreamScript link_stream (newLinkStreamKeys sid) args) (\<lambda>reply.
       case reply of
         linkStreamNoSub \<Rightarrow> Ret (Inr MutationNoSub)
       | linkStreamForbidden \<Rightarrow> Ret (Inr MutationForbidden)
       | _ \<Rightarrow> rbind (indexStream path sid) (\<lambda>_. Ret (Inr MutationApplied))))"

definition store_unlink ::
    "string \<Rightarrow> string \<Rightarrow> bool \<Rightarrow> SubscriptionExpectation option \<Rightarrow> (script_error + MutationResult) rprog" where
  "store_unlink sid path stillGlob expected =
     with_keys (authorizedMutationArgs [path, if stillGlob then ''1'' else ''0''] expected) (\<lambda>args.
     ebind (script_run unlinkStreamScript unlink_stream (newUnlinkStreamKeys sid) args) (\<lambda>reply.
       case reply of
         unlinkStreamRemoved \<Rightarrow> rbind (deindexStream path sid) (\<lambda>_. Ret (Inr MutationApplied))
       | unlinkStreamGlob \<Rightarrow> Ret (Inr MutationApplied)
       | unlinkStreamGone \<Rightarrow> Ret (Inr MutationApplied)
       | unlinkStreamNoSub \<Rightarrow> Ret (Inr MutationNoSub)
       | unlinkStreamForbidden \<Rightarrow> Ret (Inr MutationForbidden)))"

section \<open>Wakes and claims\<close>

record ArmResult =
  ar_Armed :: bool
  ar_Busy :: bool
  ar_NoSub :: bool
  ar_Fenced :: bool
  ar_Generation :: int64
  ar_WakeID :: string

abbreviation zero_arm :: ArmResult where
  "zero_arm \<equiv> \<lparr>ar_Armed = False, ar_Busy = False, ar_NoSub = False, ar_Fenced = False, ar_Generation = 0, ar_WakeID = ''''\<rparr>"

text \<open>A result with an error beside it: a wake that was armed but whose durability is unproven has both.\<close>

definition arm_result :: "RedisStore \<Rightarrow> script_error + armWakeReply \<Rightarrow> ArmResult \<times> script_error option" where
  "arm_result s r =
     (case r of
        Inl e \<Rightarrow> (zero_arm, Some e)
      | Inr (armWakeArmed g w) \<Rightarrow> (zero_arm\<lparr>ar_Armed := True, ar_Generation := g, ar_WakeID := w\<rparr>, after_mint s wakeIntentExternalization)
      | Inr (armWakeBusy g w) \<Rightarrow> (zero_arm\<lparr>ar_Busy := True, ar_Generation := g, ar_WakeID := w\<rparr>, None)
      | Inr armWakeNoSub \<Rightarrow> (zero_arm\<lparr>ar_NoSub := True\<rparr>, None)
      | Inr armWakeFenced \<Rightarrow> (zero_arm\<lparr>ar_Fenced := True\<rparr>, None))"

definition armWake ::
    "RedisStore \<Rightarrow> string \<Rightarrow> gotime \<Rightarrow> int64 \<Rightarrow> bool \<Rightarrow> string \<Rightarrow> OwnerScope \<Rightarrow> (ArmResult \<times> script_error option) rprog" where
  "armWake s sid now leaseTTLMs armLease wakeID owner =
     rbind (with_keys (armWakeKeys sid owner) (\<lambda>k.
         runMaybePinned s armWakeScript arm_wake k
           [sid, nsArg now, FormatInt leaseTTLMs, if armLease then ''1'' else ''0'', wakeID, os_ReplicaID owner, os_Epoch owner]))
       (\<lambda>r. Ret (arm_result s r))"

text \<open>The explicitly scoped form of an operation refuses an empty scope before any command.\<close>

definition owned :: "'b \<Rightarrow> OwnerScope \<Rightarrow> (OwnerScope \<Rightarrow> 'a rprog) \<Rightarrow> ('b \<Rightarrow> 'a) \<Rightarrow> 'a rprog" where
  "owned zero scope f bad = (case scopedOwnerArgs scope of None \<Rightarrow> Ret (bad zero) | Some owner \<Rightarrow> f owner)"

definition ArmWakeUnscoped :: "RedisStore \<Rightarrow> string \<Rightarrow> gotime \<Rightarrow> int64 \<Rightarrow> bool \<Rightarrow> string \<Rightarrow> (ArmResult \<times> script_error option) rprog" where
  "ArmWakeUnscoped s sid now leaseTTLMs armLease wakeID = armWake s sid now leaseTTLMs armLease wakeID unscopedOwnerArgs"

definition ArmWakeOwned ::
    "RedisStore \<Rightarrow> OwnerScope \<Rightarrow> string \<Rightarrow> gotime \<Rightarrow> int64 \<Rightarrow> bool \<Rightarrow> string \<Rightarrow> (ArmResult \<times> script_error option) rprog" where
  "ArmWakeOwned s scope sid now leaseTTLMs armLease wakeID =
     owned zero_arm scope (armWake s sid now leaseTTLMs armLease wakeID) (\<lambda>z. (z, Some EmptyOwnerScope))"

record ClaimResult =
  cr_Claimed :: bool
  cr_Busy :: bool
  cr_NoSub :: bool
  cr_Forbidden :: bool
  cr_Generation :: int64
  cr_WakeID :: string
  cr_Holder :: string

abbreviation zero_claim :: ClaimResult where
  "zero_claim \<equiv>
     \<lparr>cr_Claimed = False, cr_Busy = False, cr_NoSub = False, cr_Forbidden = False, cr_Generation = 0, cr_WakeID = '''', cr_Holder = ''''\<rparr>"

definition claim_result :: "RedisStore \<Rightarrow> script_error + claimReply \<Rightarrow> ClaimResult \<times> script_error option" where
  "claim_result s r =
     (case r of
        Inl e \<Rightarrow> (zero_claim, Some e)
      | Inr (claimClaimed g w h) \<Rightarrow>
          (zero_claim\<lparr>cr_Claimed := True, cr_Generation := g, cr_WakeID := w, cr_Holder := h\<rparr>, after_mint s claimGrantExternalization)
      | Inr (claimBusy g h) \<Rightarrow> (zero_claim\<lparr>cr_Busy := True, cr_Generation := g, cr_Holder := h\<rparr>, None)
      | Inr claimNoSub \<Rightarrow> (zero_claim\<lparr>cr_NoSub := True\<rparr>, None)
      | Inr claimForbidden \<Rightarrow> (zero_claim\<lparr>cr_Forbidden := True\<rparr>, None))"

definition claimShardAuthorized ::
    "RedisStore \<Rightarrow> string \<Rightarrow> int \<Rightarrow> string \<Rightarrow> string \<Rightarrow> SubscriptionExpectation \<Rightarrow> gotime \<Rightarrow> int64
      \<Rightarrow> (ClaimResult \<times> script_error option) rprog" where
  "claimShardAuthorized s sid g worker wakeID expected now leaseTTLMs =
     rbind (with_keys
         (appendSubscriptionExpectation
            [shardMember sid g, worker, nsArg now, FormatInt leaseTTLMs, wakeID, FormatInt g] expected)
         (\<lambda>args. runMaybePinned s claimScript claim (claimKeys sid g) args))
       (\<lambda>r. Ret (claim_result s r))"

definition ClaimAuthorized ::
    "RedisStore \<Rightarrow> string \<Rightarrow> string \<Rightarrow> string \<Rightarrow> SubscriptionExpectation \<Rightarrow> gotime \<Rightarrow> int64
      \<Rightarrow> (ClaimResult \<times> script_error option) rprog" where
  "ClaimAuthorized s sid worker wakeID expected now leaseTTLMs =
     claimShardAuthorized s sid 0 worker wakeID expected now leaseTTLMs"

record WriteFenceCheck =
  wc_Status :: string
  wc_LeaseUntilNs :: int64
  wc_LeaseTTLMs :: int64

definition VerifyWriteFence ::
    "string \<Rightarrow> int \<Rightarrow> string \<Rightarrow> int64 \<Rightarrow> string \<Rightarrow> string \<Rightarrow> gotime \<Rightarrow> (script_error + WriteFenceCheck) rprog" where
  "VerifyWriteFence sid shard incarnation generation wakeID holder now =
     ebind (script_run writeFenceScript check_write_fence (newWriteFenceKeys sid shard)
              [nsArg now, FormatInt generation, wakeID, holder, incarnation]) (\<lambda>reply.
       Ret (Inr (case reply of
          writeFenceOK u t \<Rightarrow> \<lparr>wc_Status = ''OK'', wc_LeaseUntilNs = u, wc_LeaseTTLMs = t\<rparr>
        | writeFenceFenced \<Rightarrow> \<lparr>wc_Status = ''FENCED'', wc_LeaseUntilNs = 0, wc_LeaseTTLMs = 0\<rparr>
        | writeFenceNoSub \<Rightarrow> \<lparr>wc_Status = ''NOSUB'', wc_LeaseUntilNs = 0, wc_LeaseTTLMs = 0\<rparr>)))"

definition CheckWriteFence ::
    "string \<Rightarrow> int \<Rightarrow> string \<Rightarrow> int64 \<Rightarrow> string \<Rightarrow> string \<Rightarrow> gotime \<Rightarrow> (script_error + string) rprog" where
  "CheckWriteFence sid shard incarnation generation wakeID holder now =
     ebind (VerifyWriteFence sid shard incarnation generation wakeID holder now) (\<lambda>check. Ret (Inr (wc_Status check)))"

section \<open>Acknowledgement, release and expiry\<close>

definition ackShard ::
    "string \<Rightarrow> int \<Rightarrow> int64 \<Rightarrow> string \<Rightarrow> int64 \<Rightarrow> bool \<Rightarrow> Ack list \<Rightarrow> gotime \<Rightarrow> int64 \<Rightarrow> OwnerScope
      \<Rightarrow> (script_error + string) rprog" where
  "ackShard sid g reqGeneration reqWakeID tokenGeneration isDone acks now leaseTTLMs owner =
     with_keys (ackKeys sid g owner) (\<lambda>k.
     ebind (script_run ackScript ack k
        ([shardMember sid g, FormatInt reqGeneration, reqWakeID, FormatInt tokenGeneration,
          if isDone then ''1'' else ''0'', nsArg now, FormatInt leaseTTLMs, FormatInt (int (length acks))]
         @ concat (map (\<lambda>a. [ack_Stream a, ack_Offset a]) acks) @ [os_ReplicaID owner, os_Epoch owner])) (\<lambda>reply.
       Ret (Inr (case reply of ackOK \<Rightarrow> ''OK'' | ackFenced \<Rightarrow> ''FENCED'' | ackNoSub \<Rightarrow> ''NOSUB''))))"

definition AckUnscoped ::
    "string \<Rightarrow> int64 \<Rightarrow> string \<Rightarrow> int64 \<Rightarrow> bool \<Rightarrow> Ack list \<Rightarrow> gotime \<Rightarrow> int64 \<Rightarrow> (script_error + string) rprog" where
  "AckUnscoped sid reqGeneration reqWakeID tokenGeneration isDone acks now leaseTTLMs =
     ackShard sid 0 reqGeneration reqWakeID tokenGeneration isDone acks now leaseTTLMs unscopedOwnerArgs"

definition AckOwned ::
    "OwnerScope \<Rightarrow> string \<Rightarrow> int64 \<Rightarrow> string \<Rightarrow> int64 \<Rightarrow> bool \<Rightarrow> Ack list \<Rightarrow> gotime \<Rightarrow> int64 \<Rightarrow> (script_error + string) rprog" where
  "AckOwned scope sid reqGeneration reqWakeID tokenGeneration isDone acks now leaseTTLMs =
     owned () scope (ackShard sid 0 reqGeneration reqWakeID tokenGeneration isDone acks now leaseTTLMs) (\<lambda>_. Inl EmptyOwnerScope)"

definition store_release :: "string \<Rightarrow> int64 \<Rightarrow> string \<Rightarrow> int64 \<Rightarrow> OwnerScope \<Rightarrow> (script_error + string) rprog" where
  "store_release sid reqGeneration reqWakeID tokenGeneration owner =
     with_keys (releaseKeys sid owner) (\<lambda>k.
     ebind (script_run releaseScript release k
        [sid, FormatInt reqGeneration, reqWakeID, FormatInt tokenGeneration, os_ReplicaID owner, os_Epoch owner]) (\<lambda>reply.
       Ret (Inr (case reply of releaseOK \<Rightarrow> ''OK'' | releaseFenced \<Rightarrow> ''FENCED'' | releaseNoSub \<Rightarrow> ''NOSUB''))))"

definition ReleaseUnscoped :: "string \<Rightarrow> int64 \<Rightarrow> string \<Rightarrow> int64 \<Rightarrow> (script_error + string) rprog" where
  "ReleaseUnscoped sid reqGeneration reqWakeID tokenGeneration =
     store_release sid reqGeneration reqWakeID tokenGeneration unscopedOwnerArgs"

definition ReleaseOwned :: "OwnerScope \<Rightarrow> string \<Rightarrow> int64 \<Rightarrow> string \<Rightarrow> int64 \<Rightarrow> (script_error + string) rprog" where
  "ReleaseOwned scope sid reqGeneration reqWakeID tokenGeneration =
     owned () scope (store_release sid reqGeneration reqWakeID tokenGeneration) (\<lambda>_. Inl EmptyOwnerScope)"

definition expireLease :: "string \<Rightarrow> gotime \<Rightarrow> OwnerScope \<Rightarrow> (script_error + string) rprog" where
  "expireLease sid now owner =
     with_keys (expireLeaseKeys sid owner) (\<lambda>k.
     ebind (script_run expireLeaseScript expire_lease k [sid, nsArg now, os_ReplicaID owner, os_Epoch owner]) (\<lambda>reply.
       Ret (Inr (case reply of expireLeaseExpired \<Rightarrow> ''EXPIRED'' | expireLeaseActive \<Rightarrow> ''ACTIVE''
         | expireLeaseNoSub \<Rightarrow> ''NOSUB'' | expireLeaseFenced \<Rightarrow> ''FENCED''))))"

definition ExpireLeaseUnscoped :: "string \<Rightarrow> gotime \<Rightarrow> (script_error + string) rprog" where
  "ExpireLeaseUnscoped sid now = expireLease sid now unscopedOwnerArgs"

definition ExpireLeaseOwned :: "OwnerScope \<Rightarrow> string \<Rightarrow> gotime \<Rightarrow> (script_error + string) rprog" where
  "ExpireLeaseOwned scope sid now = owned () scope (expireLease sid now) (\<lambda>_. Inl EmptyOwnerScope)"

definition RestoreLease :: "string \<Rightarrow> bool \<Rightarrow> gotime \<Rightarrow> (script_error + string) rprog" where
  "RestoreLease sid owed now =
     ebind (script_run restoreLeaseScript restore_lease (newRestoreLeaseKeys sid)
              [sid, nsArg now, if owed then ''1'' else ''0'']) (\<lambda>reply.
       Ret (Inr (case reply of restoreLeaseRestored \<Rightarrow> ''RESTORED'' | restoreLeaseIntact \<Rightarrow> ''INTACT''
         | restoreLeaseNoSub \<Rightarrow> ''NOSUB'')))"

section \<open>Schedules and delivery bookkeeping\<close>

text \<open>One slot of \<^verbatim>\<open>ClaimDueSlots\<close>, which runs the same call for every slot.\<close>

definition claim_due_slot :: "Schedule \<Rightarrow> nat \<Rightarrow> gotime \<Rightarrow> int64 \<Rightarrow> int64 \<Rightarrow> (script_error + string list) rprog" where
  "claim_due_slot schedule h now limit visibility =
     script_run claimDueScript claim_due (newClaimDueKeys (zkey schedule h)) [nsArg now, FormatInt limit, FormatInt visibility]"

definition ClearDue :: "string \<Rightarrow> unit rprog" where
  "ClearDue sid = Call (ZREM (dueZKey (slotOf sid)) sid) (\<lambda>_. Ret ())"

definition scheduleRetry ::
    "string \<Rightarrow> int64 \<Rightarrow> string \<Rightarrow> gotime \<Rightarrow> gotime \<Rightarrow> OwnerScope \<Rightarrow> (script_error + int64) rprog" where
  "scheduleRetry sid generation wakeID now nextAttempt owner =
     with_keys (scheduleRetryKeys sid owner) (\<lambda>k.
     ebind (script_run scheduleRetryScript schedule_retry k
        [sid, nsArg now, nsArg nextAttempt, FormatInt generation, wakeID, os_ReplicaID owner, os_Epoch owner]) (\<lambda>reply.
       Ret (Inr (case reply of scheduleRetryOK count _ \<Rightarrow> count | _ \<Rightarrow> 0))))"

definition recordSuccess :: "string \<Rightarrow> int64 \<Rightarrow> string \<Rightarrow> OwnerScope \<Rightarrow> (script_error + string) rprog" where
  "recordSuccess sid generation wakeID owner =
     with_keys (recordSuccessKeys sid owner) (\<lambda>k.
     ebind (script_run recordSuccessScript record_success k
        [sid, FormatInt generation, wakeID, os_ReplicaID owner, os_Epoch owner]) (\<lambda>reply.
       Ret (Inr (case reply of recordSuccessOK \<Rightarrow> ''OK'' | recordSuccessStale \<Rightarrow> ''STALE'' | recordSuccessFenced \<Rightarrow> ''FENCED''
         | recordSuccessNoSub \<Rightarrow> ''NOSUB''))))"

definition RecordWakeEventSent :: "string \<Rightarrow> int64 \<Rightarrow> string \<Rightarrow> gotime \<Rightarrow> (script_error + unit) rprog" where
  "RecordWakeEventSent sid generation wakeID now =
     ebind (script_run recordWakeSentScript record_wake_sent (newRecordWakeSentKeys sid)
              [nsArg now, FormatInt generation, wakeID]) (\<lambda>_. Ret (Inr ()))"

section \<open>Slot ownership\<close>

text \<open>The claim step of \<^verbatim>\<open>ClaimSlots\<close> for one slot, without the bridge to the pre-rollout record.\<close>

definition claim_slot :: "string \<Rightarrow> string \<Rightarrow> gotime \<Rightarrow> int64 \<Rightarrow> (script_error + SlotClaim) rprog" where
  "claim_slot slotKey replicaID now slotLeaseTTLMs =
     ebind (script_run claimShardScript claim_shard (newClaimShardKeys slotKey) [replicaID, nsArg now, FormatInt slotLeaseTTLMs])
       (\<lambda>reply. Ret (Inr (toSlotClaim reply)))"

definition CheckOwner :: "string \<Rightarrow> string \<Rightarrow> string \<Rightarrow> (script_error + OwnerCheck) rprog" where
  "CheckOwner slotKey replicaID expectedEpoch =
     script_run checkOwnerScript check_owner (newCheckOwnerKeys slotKey) [replicaID, expectedEpoch]"

end
