(* ===== verification/Webhook_Keyspace.thy ===== *)
theory Webhook_Keyspace
  imports Webhook_Store Redis_Frames
begin

text \<open>
  The keys of the control plane never collide for subscription ids without a colon: the record of a
  subscription, its claim shards, its links, its registry and its incarnation counter are distinct
  from each other, from those of every other such subscription, and from the schedules, id sets,
  fan-out sets and ownership records.
\<close>

definition plain_id :: "string \<Rightarrow> bool" where
  "plain_id sid \<longleftrightarrow> CHR '':'' \<notin> set sid"

section \<open>Keys of a slot\<close>

definition slot_key :: "nat \<Rightarrow> string \<Rightarrow> string" where
  "slot_key h rest = ''ds:'' @ slotTagAt h @ '':'' @ rest"

lemma FormatInt_digits: "\<forall>c \<in> set (FormatInt (int h)). is_digit c"
  by (simp add: FormatInt_def dec_digits_digits)

lemma FormatInt_no_brace: "CHR ''}'' \<notin> set (FormatInt (int h))"
  using FormatInt_digits [of h] by (auto simp: is_digit_def)

lemma slot_key_inject [simp]: "slot_key h r = slot_key h' r' \<longleftrightarrow> h = h' \<and> r = r'"
proof -
  have "slot_key h r = slot_key h' r' \<longleftrightarrow> FormatInt (int h) @ CHR ''}'' # CHR '':'' # r = FormatInt (int h') @ CHR ''}'' # CHR '':'' # r'"
    by (simp add: slot_key_def slotTagAt_def)
  also have "\<dots> \<longleftrightarrow> FormatInt (int h) = FormatInt (int h') \<and> r = r'"
    by (simp add: append_sep_inject FormatInt_no_brace)
  finally show ?thesis by (auto simp: FormatInt_def) (metis dec_value_dec_digits)
qed

definition sub_key :: "string \<Rightarrow> string \<Rightarrow> string" where
  "sub_key sid tail = slot_key (slotOf sid) (''sub:'' @ sid @ tail)"

definition shard_tail :: "int \<Rightarrow> string" where
  "shard_tail g = (if g \<le> 0 then '''' else '':g:'' @ FormatInt g)"

lemma slot_key_forms:
  "subKey sid = sub_key sid ''''" "subShardKey sid g = sub_key sid (shard_tail g)" "linksKey sid = sub_key sid '':links''"
  "subShardRegistryKey sid = sub_key sid '':shards''" "subIncarnationKey sid = sub_key sid '':incarnation''"
  "subKey sid @ '':g:'' @ x = sub_key sid ('':g:'' @ x)"
  "subsKey h = slot_key h ''subs''" "leaseZKey h = slot_key h ''sched:lease''" "retryZKey h = slot_key h ''sched:retry''"
  "dueZKey h = slot_key h ''due''" "streamSubsKey h path = slot_key h (''stream:'' @ path)"
  "OwnershipSlotKey h = slot_key h (''ownership:slot:'' @ FormatInt (int h))"
  by (simp_all add: subKey_def subShardKey_def linksKey_def subShardRegistryKey_def subIncarnationKey_def subsKey_def leaseZKey_def
      retryZKey_def dueZKey_def streamSubsKey_def OwnershipSlotKey_def slot_key_def sub_key_def slotTag_def shard_tail_def)

section \<open>Keys of a subscription\<close>

definition colon_led :: "string \<Rightarrow> bool" where
  "colon_led t \<longleftrightarrow> t = '''' \<or> hd t = CHR '':''"

lemma colon_led_tails [simp]: "colon_led ''''" "colon_led (CHR '':'' # t)" "colon_led (shard_tail g)"
  by (simp_all add: colon_led_def shard_tail_def)

lemma colon_split:
  assumes "CHR '':'' \<notin> set a" "CHR '':'' \<notin> set b" "colon_led x" "colon_led y"
  shows "a @ x = b @ y \<longleftrightarrow> a = b \<and> x = y"
  using assms
proof (induction a arbitrary: b)
  case Nil
  then show ?case by (cases b; cases x) (auto simp: colon_led_def)
next
  case (Cons c a)
  then show ?case by (cases b; cases y) (auto simp: colon_led_def)
qed

lemma sub_key_inject:
  assumes "plain_id a" "plain_id b" "colon_led x" "colon_led y"
  shows "sub_key a x = sub_key b y \<longleftrightarrow> a = b \<and> x = y"
  using colon_split [of a b x y] assms by (auto simp: sub_key_def plain_id_def)

lemma shard_tail_inject: "shard_tail g = shard_tail g' \<longleftrightarrow> g = g' \<or> g \<le> 0 \<and> g' \<le> 0"
proof -
  have "FormatInt g = FormatInt g' \<Longrightarrow> 0 < g \<Longrightarrow> 0 < g' \<Longrightarrow> g = g'"
    by (auto simp: FormatInt_def) (metis dec_value_dec_digits nat_eq_iff order_less_imp_le)
  then show ?thesis by (auto simp: shard_tail_def)
qed

lemma shard_tail_distinct [simp]:
  "shard_tail g \<noteq> '':links''" "shard_tail g \<noteq> '':shards''" "shard_tail g \<noteq> '':incarnation''"
  by (auto simp: shard_tail_def)

text \<open>The fence record of a shard is no other kind of key.\<close>

lemma sub_key_distinct [simp]:
  "sub_key a x \<noteq> slot_key h ''subs''" "sub_key a x \<noteq> slot_key h ''sched:lease''" "sub_key a x \<noteq> slot_key h ''sched:retry''"
  "sub_key a x \<noteq> slot_key h ''due''" "sub_key a x \<noteq> slot_key h (''stream:'' @ p)" "sub_key a x \<noteq> slot_key h (''ownership:slot:'' @ n)"
  "sub_key a x \<noteq> streamSlotsKey path" "slot_key h r \<noteq> streamSlotsKey path"
  by (auto simp: sub_key_def) (simp_all add: slot_key_def slotTagAt_def streamSlotsKey_def)

lemma plain_links [simp]:
  assumes "plain_id a" "plain_id b"
  shows "sub_key a '':links'' \<noteq> sub_key b (shard_tail g)" "sub_key a '':links'' \<noteq> sub_key b ''''"
    "sub_key a '':shards'' \<noteq> sub_key b (shard_tail g)" "sub_key a '':incarnation'' \<noteq> sub_key b (shard_tail g)"
    "sub_key a '':links'' \<noteq> sub_key b '':incarnation''"
  using assms by (auto simp: sub_key_inject shard_tail_def split: if_splits)

section \<open>Positions in KEYS and ARGV\<close>

lemma lua_at_Cons [simp]: "lua_at (x # xs) (Suc 0) = x" "lua_at (x # xs) (Suc (Suc n)) = lua_at xs (Suc n)"
  by (auto simp: lua_at_def)

lemma lua_at_numeral [simp]: "lua_at (x # xs) 1 = x" "lua_at (x # xs) (numeral (num.Bit0 k)) = lua_at xs (pred_numeral (num.Bit0 k))"
  "lua_at (x # xs) (numeral (num.Bit1 k)) = lua_at xs (pred_numeral (num.Bit1 k))"
  by (auto simp: lua_at_def numeral_eq_Suc)

section \<open>Subscription ids and schedule members\<close>

text \<open>What the operations are called with: a plain id, or the schedule member of one of its shards.\<close>

definition known_id :: "string \<Rightarrow> bool" where
  "known_id sid \<longleftrightarrow> (\<exists>p g. plain_id p \<and> sid = shardMember p g)"

lemma plain_known: "plain_id sid \<Longrightarrow> known_id sid"
  unfolding known_id_def by (rule exI [of _ sid], rule exI [of _ 0]) (simp add: shardMember_def)

lemma LastIndex_plain: "CHR '':'' \<notin> set s \<Longrightarrow> LastIndex s '':g:'' = None"
  by (induction s) (auto simp: has_prefix_def)

lemma baseSubID_plain: "plain_id p \<Longrightarrow> baseSubID p = p"
  by (simp add: baseSubID_def plain_id_def LastIndex_plain)

lemma subKey_member: "plain_id p \<Longrightarrow> subKey (shardMember p g) = sub_key p (shard_tail g)"
proof -
  assume p: "plain_id p"
  have "slotOf (shardMember p g) = slotOf p"
    using baseSubID_plain [OF p] baseSubID_shardMember [of g p] by (simp add: slotOf_def shardMember_def)
  then show ?thesis
    by (simp add: subKey_def slotTag_def sub_key_def slot_key_def shardMember_def shard_tail_def)
qed

lemma links_of_key: "linksKey sid = subKey sid @ '':links''"
  by (simp add: linksKey_def subKey_def)

lemma sub_key_append: "sub_key a x @ y = sub_key a (x @ y)"
  by (simp add: sub_key_def slot_key_def)

lemma colon_led_append: "colon_led x \<Longrightarrow> colon_led y \<Longrightarrow> colon_led (x @ y)"
  by (cases x) (auto simp: colon_led_def)

lemma shard_tail_no_links: "shard_tail g @ '':links'' \<noteq> shard_tail g'"
proof
  assume eq: "shard_tail g @ '':links'' = shard_tail g'"
  then have "last (shard_tail g') = CHR ''s''" by (metis append_is_Nil_conv last_appendR last.simps list.discI last_ConsR)
  moreover have "shard_tail g' \<noteq> []" using eq by auto
  ultimately have "CHR ''s'' \<in> set (shard_tail g')" using last_in_set by metis
  then show False using FormatInt_pos [of g'] by (auto simp: shard_tail_def is_digit_def list_all_iff split: if_splits)
qed

lemma known_links: "known_id sid \<Longrightarrow> plain_id a \<Longrightarrow> linksKey sid \<noteq> sub_key a (shard_tail g)"
proof -
  assume "known_id sid" "plain_id a"
  then obtain p g' where p: "plain_id p" and s: "sid = shardMember p g'" by (auto simp: known_id_def)
  have "linksKey sid = sub_key p (shard_tail g' @ '':links'')"
    using p by (simp add: links_of_key s subKey_member sub_key_append)
  then show ?thesis using p \<open>plain_id a\<close> shard_tail_no_links [of g' g]
    by (simp add: sub_key_inject colon_led_append)
qed

end
