(* ===== verification/Webhook_Runs.thy ===== *)
theory Webhook_Runs
  imports Webhook_Keyspace
begin

text \<open>
  Executions of the control plane: any sequence of store operations, by any number of replicas and
  workers, on one Redis.  Each operation is one step; within a step a command may fail, and then the
  rest of the operation does not happen.  The theory shows what every operation other than the
  deletion of a subscription keeps of the fence of a claim shard.
\<close>

section \<open>Operations\<close>

datatype cp_op =
    Op_create "bytes \<Rightarrow> bytes" string Config "StreamLink list" gotime string
  | Op_delete string "SubscriptionExpectation option"
  | Op_link string string string string "SubscriptionExpectation option"
  | Op_unlink string string bool "SubscriptionExpectation option"
  | Op_index string string
  | Op_deindex string string
  | Op_arm RedisStore string gotime int64 bool string OwnerScope
  | Op_claim RedisStore string int string string SubscriptionExpectation gotime int64
  | Op_ack string int int64 string int64 bool "Ack list" gotime int64 OwnerScope
  | Op_release string int64 string int64 OwnerScope
  | Op_expire string gotime OwnerScope
  | Op_restore string bool gotime
  | Op_due Schedule nat gotime int64 int64
  | Op_clear string
  | Op_retry string int64 string gotime gotime OwnerScope
  | Op_success string int64 string OwnerScope
  | Op_sent string int64 string gotime
  | Op_slot nat string gotime int64

abbreviation quiet :: "'a rprog \<Rightarrow> unit rprog" where
  "quiet p \<equiv> rbind p (\<lambda>_. Ret ())"

fun op_prog :: "cp_op \<Rightarrow> unit rprog" where
  "op_prog (Op_create sha sid cfg links now owner) = quiet (CreateOrConfirmOwned sha sid cfg links now owner)"
| "op_prog (Op_delete sid e) = quiet (store_delete sid e)"
| "op_prog (Op_link sid path lt off e) = quiet (store_link sid path lt off e)"
| "op_prog (Op_unlink sid path glob e) = quiet (store_unlink sid path glob e)"
| "op_prog (Op_index path sid) = quiet (indexStream path sid)"
| "op_prog (Op_deindex sid path) = quiet (DeindexStale sid path)"
| "op_prog (Op_arm st sid now ttl lease wake owner) = quiet (armWake st sid now ttl lease wake owner)"
| "op_prog (Op_claim st sid g worker wake e now ttl) = quiet (claimShardAuthorized st sid g worker wake e now ttl)"
| "op_prog (Op_ack sid g rg rw tg d acks now ttl owner) = quiet (ackShard sid g rg rw tg d acks now ttl owner)"
| "op_prog (Op_release sid rg rw tg owner) = quiet (store_release sid rg rw tg owner)"
| "op_prog (Op_expire sid now owner) = quiet (expireLease sid now owner)"
| "op_prog (Op_restore sid owed now) = quiet (RestoreLease sid owed now)"
| "op_prog (Op_due sch h now limit vis) = quiet (claim_due_slot sch h now limit vis)"
| "op_prog (Op_clear sid) = quiet (ClearDue sid)"
| "op_prog (Op_retry sid gen wake now nxt owner) = quiet (scheduleRetry sid gen wake now nxt owner)"
| "op_prog (Op_success sid gen wake owner) = quiet (recordSuccess sid gen wake owner)"
| "op_prog (Op_sent sid gen wake now) = quiet (RecordWakeEventSent sid gen wake now)"
| "op_prog (Op_slot h replica now ttl) = quiet (claim_slot (OwnershipSlotKey h) replica now ttl)"

text \<open>
  The ids an operation is called with: a subscription is created, deleted and claimed under its own
  id, which has no colon; the workers also call with the members of the schedules.
\<close>

fun op_ids_ok :: "cp_op \<Rightarrow> bool" where
  "op_ids_ok (Op_create _ sid _ _ _ _) = plain_id sid"
| "op_ids_ok (Op_delete sid _) = plain_id sid"
| "op_ids_ok (Op_claim _ sid _ _ _ _ _ _) = plain_id sid"
| "op_ids_ok (Op_link sid _ _ _ _) = known_id sid"
| "op_ids_ok (Op_unlink sid _ _ _) = known_id sid"
| "op_ids_ok (Op_ack sid _ _ _ _ _ _ _ _ _) = known_id sid"
| "op_ids_ok _ = True"

fun deletes :: "string \<Rightarrow> cp_op \<Rightarrow> bool" where
  "deletes sid (Op_delete sid' _) = (sid' = sid)"
| "deletes sid _ = False"

fun cp_run :: "'s redis \<Rightarrow> 's \<Rightarrow> cp_op list \<Rightarrow> 's" where
  "cp_run R s [] = s"
| "cp_run R s (op # ops) = cp_run R (snd (rexec R (op_prog op) s)) ops"

section \<open>Commands of an operation\<close>

lemma all_cmds_if [simp]: "all_cmds P (if b then p else q) = (if b then all_cmds P p else all_cmds P q)"
  by simp

lemma all_cmds_lua_num: "(\<And>n. all_cmds P (f n)) \<Longrightarrow> all_cmds P (lua_num s f)"
  by (auto simp: lua_num_def split: option.split)

lemma all_cmds_quiet: "all_cmds P m \<Longrightarrow> all_cmds P (quiet m)"
  by (rule all_cmds_bind) auto

lemma all_cmds_script_run: "all_cmds P (lua (redisKeys k) args) \<Longrightarrow> all_cmds P (script_run ts lua k args)"
  by (auto simp: script_run_def intro: all_cmds_bind split: sum.split)

lemma all_cmds_ebind:
  "all_cmds P m \<Longrightarrow> (\<And>x. all_cmds P (f x)) \<Longrightarrow> all_cmds P (ebind m f)"
  unfolding ebind_def by (rule all_cmds_bind) (auto split: sum.split)

lemma fence_prog_lua_num: "(\<And>n. fence_prog F k (f n)) \<Longrightarrow> fence_prog F k (lua_num s f)"
  by (auto simp: lua_num_def split: option.split)

lemma fence_prog_map: "fence_prog F k m \<Longrightarrow> fence_prog F k (rbind m (\<lambda>x. Ret (f x)))"
  by (rule fence_prog_bind) auto

lemma fence_prog_script_run: "fence_prog F j (lua (redisKeys k) args) \<Longrightarrow> fence_prog F j (script_run ts lua k args)"
  by (auto simp: script_run_def intro: fence_prog_map split: sum.split)

lemma fence_prog_ebind:
  "fence_prog F k m \<Longrightarrow> (\<And>x. all_cmds (soft_cmd F k) (f x) \<and> all_cmds (keeps_fields k {fc_counter F}) (f x)) \<Longrightarrow>
   fence_prog F k (ebind m f)"
  unfolding ebind_def by (rule fence_prog_bind) (auto split: sum.split)

lemma fence_prog_with_keys: "(\<And>x. k = Inr x \<Longrightarrow> fence_prog F j (f x)) \<Longrightarrow> fence_prog F j (with_keys k f)"
  by (auto simp: ebind_def split: sum.split)

section \<open>The claim fence\<close>

definition sub_fence :: fence_fields where
  "sub_fence = \<lparr>fc_counter = ''generation'', fc_token = ''wake_id'', fc_phase = ''phase'', fc_open = ''waking''\<rparr>"

lemma sub_fence_sel [simp]:
  "fc_counter sub_fence = ''generation''" "fc_token sub_fence = ''wake_id''" "fc_phase sub_fence = ''phase''"
  "fc_open sub_fence = ''waking''"
  by (simp_all add: sub_fence_def)

lemma owner_fenced_reads: "all_cmds is_read (owner_fenced slot me epoch)"
  by (simp add: owner_fenced_def)

lemma is_read_soft: "is_read c \<Longrightarrow> soft_cmd F k c \<and> keeps_fields k S c"
  by (cases c) auto

lemma reads_soft: "all_cmds is_read m \<Longrightarrow> all_cmds (soft_cmd F k) m"
  by (erule all_cmds_mono) (simp add: is_read_soft)

lemma reads_keep: "all_cmds is_read m \<Longrightarrow> all_cmds (keeps_fields k S) m"
  by (erule all_cmds_mono) (simp add: is_read_soft)

lemmas fence_prog_owner = fence_prog_soft_bind [OF reads_soft [OF owner_fenced_reads]]

text \<open>The scripts that keep every fence in order, whatever keys and arguments they are given.\<close>

lemma arm_wake_fence: "fence_prog sub_fence k (arm_wake keys argv)"
  by (auto simp: arm_wake_def Let_def lua_num_def intro!: fence_prog_owner split: option.split)

lemma release_fence: "fence_prog sub_fence k (release keys argv)"
  by (auto simp: release_def Let_def intro!: fence_prog_owner)

lemma expire_lease_fence: "fence_prog sub_fence k (expire_lease keys argv)"
  by (auto simp: expire_lease_def Let_def lua_num_def intro!: fence_prog_owner split: option.split)

lemma restore_lease_fence: "fence_prog sub_fence k (restore_lease keys argv)"
  by (auto simp: restore_lease_def Let_def lua_num_def split: option.split)

lemma schedule_retry_fence: "fence_prog sub_fence k (schedule_retry keys argv)"
  by (auto simp: schedule_retry_def Let_def lua_num_def intro!: fence_prog_owner split: option.split)

lemma record_success_fence: "fence_prog sub_fence k (record_success keys argv)"
  by (auto simp: record_success_def Let_def intro!: fence_prog_owner)

lemma record_wake_sent_fence: "fence_prog sub_fence k (record_wake_sent keys argv)"
  by (auto simp: record_wake_sent_def Let_def)

lemma claim_shard_fence: "fence_prog sub_fence k (claim_shard keys argv)"
  by (auto simp: claim_shard_def Let_def lua_num_def split: option.split)

lemma rescore_soft: "all_cmds (soft_cmd F k) p \<Longrightarrow> all_cmds (soft_cmd F k) (rescore z vis ms p)"
  by (induction ms) auto

lemma claim_due_fence: "fence_prog sub_fence k (claim_due keys argv)"
  by (auto simp: claim_due_def Let_def lua_num_def intro!: fence_prog_soft rescore_soft split: option.split)

lemma deindex_stale_fence: "fence_prog sub_fence k (deindex_stale keys argv)"
  by (auto simp: deindex_stale_def Let_def)

text \<open>The scripts that write the links of a subscription, when those are not the fence.\<close>

lemma ack_links_soft: "k_links \<noteq> k \<Longrightarrow> all_cmds (soft_cmd F k) p \<Longrightarrow> all_cmds (soft_cmd F k) (ack_links k_links argv i n p)"
  by (induction n arbitrary: i) (auto simp: Let_def split: option.split)

lemma ack_settle_soft: "all_cmds (soft_cmd sub_fence k) (ack_settle keys argv)"
  by (auto simp: ack_settle_def Let_def lua_num_def split: option.split)

lemma ack_fence:
  assumes "lua_at keys 2 \<noteq> k"
  shows "fence_prog sub_fence k (ack keys argv)"
proof -
  have a: "fence_prog sub_fence k
      (lua_num (lua_at argv 8) (\<lambda>n. ack_links (lua_at keys 2) argv 9 (nat n) (ack_settle keys argv)))"
    by (intro fence_prog_lua_num fence_prog_soft ack_links_soft ack_settle_soft assms)
  show ?thesis unfolding ack_def Let_def
    by (auto intro!: fence_prog_owner a split: option.split)
qed

lemma expected_paths_reads: "all_cmds is_read (expected_paths_linked links seen paths)"
  by (induction links seen paths rule: expected_paths_linked.induct) auto

lemma expectation_reads: "all_cmds is_read (subscription_expectation_status sub links w i c n ps)"
  by (auto simp: subscription_expectation_status_def Let_def expected_paths_reads)

lemma authorized_fence: "all_cmds is_read e \<Longrightarrow> fence_prog F k p \<Longrightarrow> fence_prog F k (authorized flag e p)"
  by (auto simp: authorized_def intro!: fence_prog_soft_bind reads_soft)

lemma authorized_cmds: "all_cmds P e \<Longrightarrow> all_cmds P p \<Longrightarrow> all_cmds P (authorized flag e p)"
  by (auto simp: authorized_def intro!: all_cmds_bind)

lemma link_stream_fence: "lua_at keys 2 \<noteq> k \<Longrightarrow> fence_prog sub_fence k (link_stream keys argv)"
  unfolding link_stream_def Let_def
  by (intro authorized_fence expectation_reads) (auto split: option.split)

lemma unlink_stream_fence: "lua_at keys 2 \<noteq> k \<Longrightarrow> fence_prog sub_fence k (unlink_stream keys argv)"
  unfolding unlink_stream_def Let_def
  by (intro authorized_fence expectation_reads) (auto split: option.split)

text \<open>The creation, deletion or claim of another record.\<close>

lemma create_links_soft: "k_links \<noteq> k \<Longrightarrow> all_cmds (soft_cmd F k) p \<Longrightarrow> all_cmds (soft_cmd F k) (create_links k_links argv i n p)"
  by (induction n arbitrary: i) auto

lemma create_sub_fence:
  "lua_at keys 1 \<noteq> k \<Longrightarrow> lua_at keys 3 \<noteq> k \<Longrightarrow> fence_prog sub_fence k (create_sub keys argv)"
  by (auto simp: create_sub_def Let_def lua_num_def intro!: fence_prog_soft create_links_soft split: option.split)

lemma delete_shards_soft:
  "(\<And>g. k_sub @ '':g:'' @ g \<noteq> k) \<Longrightarrow> all_cmds (soft_cmd F k) p \<Longrightarrow>
   all_cmds (soft_cmd F k) (delete_shards gs k_sub a_id l r d p)"
  by (induction gs) (auto simp: Let_def)

lemma delete_sub_fence:
  assumes "lua_at keys 1 \<noteq> k" "lua_at keys 3 \<noteq> k" "lua_at keys 7 \<noteq> k" "\<And>g. lua_at keys 1 @ '':g:'' @ g \<noteq> k"
  shows "fence_prog sub_fence k (delete_sub keys argv)"
proof -
  have "all_cmds (soft_cmd sub_fence k) (delete_shards gs (lua_at keys 1) (lua_at argv 1) (lua_at keys 4) (lua_at keys 5)
      (lua_at keys 6) (Call (DEL (lua_at keys 7)) (\<lambda>_. status ''OK'')))" for gs
    using assms(3) by (intro delete_shards_soft assms(4)) simp
  with assms(1-3) show ?thesis unfolding delete_sub_def Let_def
    by (intro authorized_fence expectation_reads fence_prog_soft) simp
qed

lemma claim_grant_fence: "fence_prog sub_fence k (claim_grant keys argv now phase inc)"
  by (auto simp: claim_grant_def claim_finish_def Let_def lua_num_def split: option.split)

lemma claim_body_fence: "fence_prog sub_fence k (claim_body keys argv)"
  by (auto simp: claim_body_def Let_def lua_num_def claim_grant_fence split: option.split)

lemma claim_other_fence:
  assumes "lua_at keys 2 \<noteq> k"
  shows "fence_prog sub_fence k (claim keys argv)"
  unfolding claim_def Let_def
  using assms
  by (intro fence_prog_soft_bind reads_soft [OF expectation_reads]) (auto simp: claim_body_fence)

section \<open>Every operation on another record\<close>

lemma each_path_cmds: "(\<And>p. all_cmds P (f p)) \<Longrightarrow> all_cmds P (each_path f ps)"
  by (induction ps) (auto intro: all_cmds_bind)

lemma index_cmds: "all_cmds (soft_cmd F k) (indexStream p sid)" "all_cmds (keeps_fields k S) (indexStream p sid)"
  "all_cmds (soft_cmd F k) (deindexStream p sid)" "all_cmds (keeps_fields k S) (deindexStream p sid)"
  by (simp_all add: indexStream_def deindexStream_def)

lemmas index_each = each_path_cmds [OF index_cmds(1)] each_path_cmds [OF index_cmds(2)] each_path_cmds [OF index_cmds(3)]
  each_path_cmds [OF index_cmds(4)]

lemma redisKeys_simps [simp]: "redisKeys [] = []" "redisKeys ((r, k) # ks) = k # redisKeys ks"
  "redisKeys (ks @ js) = redisKeys ks @ redisKeys js"
  by (simp_all add: redisKeys_def)

lemma keys_at:
  "armWakeKeys sid owner = Inr ks \<Longrightarrow> lua_at (redisKeys ks) 1 = subKey sid"
  "releaseKeys sid owner = Inr ks \<Longrightarrow> lua_at (redisKeys ks) 1 = subKey sid"
  "expireLeaseKeys sid owner = Inr ks \<Longrightarrow> lua_at (redisKeys ks) 1 = subKey sid"
  "scheduleRetryKeys sid owner = Inr ks \<Longrightarrow> lua_at (redisKeys ks) 1 = subKey sid"
  "recordSuccessKeys sid owner = Inr ks \<Longrightarrow> lua_at (redisKeys ks) 1 = subKey sid"
  "ackKeys sid g owner = Inr ks \<Longrightarrow>
     lua_at (redisKeys ks) 1 = subShardKey sid g \<and> lua_at (redisKeys ks) 2 = linksKey sid \<and> lua_at (redisKeys ks) 6 = subKey sid"
  by (auto simp: armWakeKeys_def releaseKeys_def expireLeaseKeys_def scheduleRetryKeys_def recordSuccessKeys_def ackKeys_def Let_def
      bindE_Inr_iff)

lemma runMaybePinned_fence: "fence_prog F j (lua (redisKeys k) args) \<Longrightarrow> fence_prog F j (runMaybePinned s ts lua k args)"
  by (simp add: runMaybePinned_def fence_prog_script_run)

text \<open>An operation that may delete or reset the fence of a shard.\<close>

fun resets :: "string \<Rightarrow> int \<Rightarrow> cp_op \<Rightarrow> bool" where
  "resets sid g (Op_create _ sid' _ _ _ _) = (sid' = sid)"
| "resets sid g (Op_delete sid' _) = (sid' = sid)"
| "resets sid g (Op_claim _ sid' g' _ _ _ _ _) = (sid' = sid \<and> shard_tail g' = shard_tail g)"
| "resets sid g _ = False"

lemma op_fence:
  assumes "plain_id sid" and "op_ids_ok op" and "\<not> resets sid g op"
  shows "fence_prog sub_fence (sub_key sid (shard_tail g)) (op_prog op)"
proof (cases op)
  case (Op_create sha sid' cfg links now owner)
  with assms have "subKey sid' \<noteq> sub_key sid (shard_tail g)" "linksKey sid' \<noteq> sub_key sid (shard_tail g)"
    by (auto simp: slot_key_forms sub_key_inject)
  then show ?thesis unfolding Op_create op_prog.simps CreateOrConfirmOwned_def
    by (intro fence_prog_map fence_prog_ebind fence_prog_script_run create_sub_fence)
      (auto simp: newCreateSubKeys_def index_each all_cmds_bind split: createSubReply.split)
next
  case (Op_delete sid' e)
  with assms have "subKey sid' \<noteq> sub_key sid (shard_tail g)" "linksKey sid' \<noteq> sub_key sid (shard_tail g)"
    "subShardRegistryKey sid' \<noteq> sub_key sid (shard_tail g)" "\<And>x. subKey sid' @ '':g:'' @ x \<noteq> sub_key sid (shard_tail g)"
    by (auto simp: slot_key_forms sub_key_append sub_key_inject)
  then show ?thesis unfolding Op_delete op_prog.simps store_delete_def rbind.simps
    by (auto simp: newDeleteSubKeys_def Let_def index_each all_cmds_bind split: deleteSubReply.split
        intro!: fence_prog_map fence_prog_with_keys fence_prog_ebind fence_prog_script_run delete_sub_fence)
qed (use assms in \<open>auto simp: store_link_def store_unlink_def index_cmds fence_prog_soft DeindexStale_def
      armWake_def newLinkStreamKeys_def newUnlinkStreamKeys_def known_links plain_known keys_at
      ackShard_def store_release_def expireLease_def RestoreLease_def claim_due_slot_def ClearDue_def scheduleRetry_def
      recordSuccess_def RecordWakeEventSent_def claim_slot_def claimShardAuthorized_def claimKeys_def slot_key_forms(1,2) sub_key_inject
      intro!: fence_prog_map fence_prog_with_keys fence_prog_ebind fence_prog_script_run runMaybePinned_fence
        link_stream_fence unlink_stream_fence deindex_stale_fence arm_wake_fence claim_other_fence ack_fence release_fence
        expire_lease_fence restore_lease_fence claim_due_fence schedule_retry_fence record_success_fence
        record_wake_sent_fence claim_shard_fence all_cmds_bind
      split: linkStreamReply.split unlinkStreamReply.split\<close>)

section \<open>Claims of the shard itself\<close>

lemma expected_paths_result:
  "wp (expected_paths_linked links seen paths) (\<lambda>r W. W = V) V"
  by (rule wp_reads [OF expected_paths_reads])

text \<open>A matched expectation names the incarnation of the subscription.\<close>

lemma wp_expectation:
  assumes "\<And>r. r = None \<or> (\<exists>x. r = Some x \<and> x \<noteq> ''MATCHED'') \<Longrightarrow> Q r V"
    and "(case hash_at V sub ''incarnation'' of None \<Rightarrow> '''' | Some x \<Rightarrow> x) = inc \<Longrightarrow> Q (Some ''MATCHED'') V"
  shows "wp (subscription_expectation_status sub links owner inc cfg n ps) Q V"
proof -
  have r: "Q r V" if "r = Some ''MATCHED'' \<longrightarrow> (case hash_at V sub ''incarnation'' of None \<Rightarrow> '''' | Some x \<Rightarrow> x) = inc" for r
    using assms(1) [of r] assms(2) that by (cases "r = Some ''MATCHED''"; cases r) auto
  have linked: "wp (expected_paths_linked links [] ps) Q V"
    if "(case hash_at V sub ''incarnation'' of None \<Rightarrow> '''' | Some x \<Rightarrow> x) = inc"
    using expected_paths_result by (rule wp_mono) (simp add: r that)
  have hlen: "wp (Call (HLEN links) g) Q V" if "\<And>x. wp (g x) Q V" for g
    using that r [of None] by (intro wp_read) auto
  show ?thesis unfolding subscription_expectation_status_def Let_def
    by (rule wp_exists) (auto simp: r linked simp del: wp.simps(3) intro!: wp_hget hlen)
qed

lemma wp_lua_num: "Q None V \<Longrightarrow> (\<And>n. parse_double s = Some n \<Longrightarrow> wp (f n) Q V) \<Longrightarrow> wp (lua_num s f) Q V"
  by (auto simp: lua_num_def split: option.split)

definition not_claimed :: "go_any list option \<Rightarrow> bool" where
  "not_claimed r \<longleftrightarrow> r = None \<or> (\<exists>x xs. r = Some (AnyString x # xs) \<and> x \<noteq> ''CLAIMED'')"

text \<open>
  A claim on a subscription with an incarnation: it refuses without effect, or, after dropping the
  record of an older incarnation of the shard, it decides on the shard's record.
\<close>

lemma wp_claim:
  fixes keys :: "string list" and V :: "string \<Rightarrow> rvalue"
  defines "cfg \<equiv> lua_at keys 1" and "sub \<equiv> lua_at keys 2"
  defines "V1 \<equiv> (if cfg \<noteq> sub \<and> hash_at V sub ''incarnation'' \<noteq> hash_at V cfg ''incarnation'' then V(sub := RNone) else V)"
  assumes inc: "hash_at V cfg ''incarnation'' = Some i" "i \<noteq> ''''"
    and none: "\<And>r. not_claimed r \<Longrightarrow> Q r V \<and> Q r V1"
    and grant: "\<And>now. wp (claim_grant keys argv now (hash_at V1 sub ''phase'') i) Q V1"
  shows "wp (claim keys argv) Q V"
proof -
  have inc1: "hash_at V1 cfg ''incarnation'' = Some i" using inc by (auto simp: V1_def)
  have body: "wp (claim_body keys argv) Q V1"
    unfolding claim_body_def Let_def cfg_def [symmetric] sub_def [symmetric]
    by (intro wp_hget wp_lua_num) (auto simp: inc1 inc(2) grant none not_claimed_def simp del: wp.simps(3) intro!: wp_hget)
  have nn: "Q None V" using none [of None] by (simp add: not_claimed_def)
  have del: "wp (Call (DEL sub) (\<lambda>_. claim_body keys argv)) Q V"
    if "cfg \<noteq> sub" "hash_at V sub ''incarnation'' \<noteq> Some i"
    using that body nn inc(1) by (simp add: V1_def)
  have rest: "wp (hget sub ''incarnation'' (\<lambda>shard_inc.
      if cfg \<noteq> sub \<and> i \<noteq> '''' \<and> shard_inc \<noteq> Some i
      then Call (DEL sub) (\<lambda>_. claim_body keys argv) else claim_body keys argv)) Q V"
    using del body nn inc by (intro wp_hget) (auto simp: V1_def split: if_splits simp del: wp.simps(3))
  show ?thesis unfolding claim_def Let_def cfg_def [symmetric] sub_def [symmetric] wp_bind
    using inc rest none by (intro wp_expectation) (auto simp: not_claimed_def simp del: wp.simps(3))
qed

section \<open>Which fields the operations write\<close>

definition record_fields :: "string set" where
  "record_fields =
     {''generation'', ''wake_id'', ''phase'', ''holder'', ''holder_worker'', ''lease_until_ns'', ''wake_event_sent_ns'', ''status'',
      ''retry_count'', ''first_fail_ns'', ''next_attempt_ns''}"

definition slot_fields :: "string set" where
  "slot_fields = {''owner_id'', ''owner_epoch'', ''lease_expiry_ns''}"

lemma owner_then: "(\<And>b. all_cmds P (f b)) \<Longrightarrow> (\<And>c. is_read c \<Longrightarrow> P c) \<Longrightarrow> all_cmds P (rbind (owner_fenced s m e) f)"
  by (rule all_cmds_bind) (auto intro: all_cmds_mono [OF owner_fenced_reads])

lemma is_read_keeps: "is_read c \<Longrightarrow> keeps_fields k S c"
  by (simp add: is_read_soft)

lemmas owner_writes = owner_then [where P = "keeps_fields k F" for k F, OF _ is_read_keeps]

lemma script_writes:
  assumes "F \<inter> record_fields = {}"
  shows "all_cmds (keeps_fields k F) (arm_wake keys argv)" "all_cmds (keeps_fields k F) (release keys argv)"
    "all_cmds (keeps_fields k F) (expire_lease keys argv)" "all_cmds (keeps_fields k F) (restore_lease keys argv)"
    "all_cmds (keeps_fields k F) (schedule_retry keys argv)" "all_cmds (keeps_fields k F) (record_success keys argv)"
    "all_cmds (keeps_fields k F) (record_wake_sent keys argv)"
  using assms by (auto simp: arm_wake_def release_def expire_lease_def restore_lease_def schedule_retry_def record_success_def
      record_wake_sent_def Let_def lua_num_def record_fields_def
      intro!: owner_writes split: option.split)

lemma deindex_stale_writes: "all_cmds (keeps_fields k F) (deindex_stale keys argv)"
  by (auto simp: deindex_stale_def Let_def)

lemma claim_shard_writes: "F \<inter> slot_fields = {} \<Longrightarrow> all_cmds (keeps_fields k F) (claim_shard keys argv)"
  by (auto simp: claim_shard_def Let_def lua_num_def slot_fields_def split: option.split)

lemma rescore_writes: "all_cmds (keeps_fields k F) p \<Longrightarrow> all_cmds (keeps_fields k F) (rescore z vis ms p)"
  by (induction ms) auto

lemma claim_due_writes: "all_cmds (keeps_fields k F) (claim_due keys argv)"
  by (auto simp: claim_due_def Let_def lua_num_def intro!: rescore_writes split: option.split)

lemma ack_links_writes: "k_links \<noteq> k \<Longrightarrow> all_cmds (keeps_fields k F) p \<Longrightarrow> all_cmds (keeps_fields k F) (ack_links k_links argv i n p)"
  by (induction n arbitrary: i) (auto simp: Let_def split: option.split)

lemma ack_writes:
  assumes "lua_at keys 2 \<noteq> k" and "F \<inter> record_fields = {}"
  shows "all_cmds (keeps_fields k F) (ack keys argv)"
proof -
  have s: "all_cmds (keeps_fields k F) (ack_settle keys argv)"
    using assms(2) by (auto simp: ack_settle_def Let_def lua_num_def record_fields_def split: option.split)
  have a: "all_cmds (keeps_fields k F)
      (lua_num (lua_at argv 8) (\<lambda>n. ack_links (lua_at keys 2) argv 9 (nat n) (ack_settle keys argv)))"
    by (intro all_cmds_lua_num ack_links_writes s assms(1))
  show ?thesis unfolding ack_def Let_def by (auto intro!: owner_writes a split: option.split)
qed

lemmas expectation_keeps = reads_keep [OF expectation_reads]

lemma link_writes:
  assumes "lua_at keys 2 \<noteq> k"
  shows "all_cmds (keeps_fields k F) (link_stream keys argv)" "all_cmds (keeps_fields k F) (unlink_stream keys argv)"
  using assms unfolding link_stream_def unlink_stream_def Let_def
  by (auto intro!: authorized_cmds expectation_keeps split: option.split)

lemma create_links_writes: "k_links \<noteq> k \<Longrightarrow> all_cmds (keeps_fields k F) p \<Longrightarrow> all_cmds (keeps_fields k F) (create_links k_links argv i n p)"
  by (induction n arbitrary: i) auto

lemma create_writes: "lua_at keys 1 \<noteq> k \<Longrightarrow> lua_at keys 3 \<noteq> k \<Longrightarrow> all_cmds (keeps_fields k F) (create_sub keys argv)"
  by (auto simp: create_sub_def Let_def lua_num_def intro!: create_links_writes split: option.split)

lemma delete_shards_writes:
  "(\<And>g. k_sub @ '':g:'' @ g \<noteq> k) \<Longrightarrow> all_cmds (keeps_fields k F) p \<Longrightarrow> all_cmds (keeps_fields k F) (delete_shards gs k_sub a_id l r d p)"
  by (induction gs) (auto simp: Let_def)

lemma delete_writes:
  assumes "lua_at keys 1 \<noteq> k" "lua_at keys 3 \<noteq> k" "lua_at keys 7 \<noteq> k" "\<And>g. lua_at keys 1 @ '':g:'' @ g \<noteq> k"
  shows "all_cmds (keeps_fields k F) (delete_sub keys argv)"
proof -
  have "all_cmds (keeps_fields k F) (delete_shards gs (lua_at keys 1) (lua_at argv 1) (lua_at keys 4) (lua_at keys 5)
      (lua_at keys 6) (Call (DEL (lua_at keys 7)) (\<lambda>_. status ''OK'')))" for gs
    using assms(3) by (intro delete_shards_writes assms(4)) simp
  with assms(1-3) show ?thesis unfolding delete_sub_def Let_def
    by (intro authorized_cmds expectation_keeps) simp
qed

lemma claim_other_writes:
  assumes "lua_at keys 1 \<noteq> k" "lua_at keys 2 \<noteq> k"
  shows "all_cmds (keeps_fields k F) (claim keys argv)"
proof -
  have "all_cmds (keeps_fields k F) (claim_grant keys argv now phase inc)" for now phase inc
    using assms by (auto simp: claim_grant_def claim_finish_def Let_def lua_num_def split: option.split)
  then have "all_cmds (keeps_fields k F) (claim_body keys argv)"
    using assms by (auto simp: claim_body_def Let_def lua_num_def split: option.split)
  then show ?thesis unfolding claim_def Let_def
    using assms by (intro all_cmds_bind expectation_keeps) auto
qed

lemma runMaybePinned_cmds: "all_cmds P (lua (redisKeys k) args) \<Longrightarrow> all_cmds P (runMaybePinned s ts lua k args)"
  by (simp add: runMaybePinned_def all_cmds_script_run)

text \<open>An operation that creates, deletes or claims the given subscription.\<close>

fun owns :: "string \<Rightarrow> cp_op \<Rightarrow> bool" where
  "owns sid (Op_create _ sid' _ _ _ _) = (sid' = sid)"
| "owns sid (Op_delete sid' _) = (sid' = sid)"
| "owns sid (Op_claim _ sid' _ _ _ _ _ _) = (sid' = sid)"
| "owns sid _ = False"

lemma all_cmds_with_keys: "(\<And>x. k = Inr x \<Longrightarrow> all_cmds P (f x)) \<Longrightarrow> all_cmds P (with_keys k f)"
  by (auto simp: ebind_def split: sum.split)

lemma op_writes:
  assumes "plain_id sid" and "op_ids_ok op" and "\<not> owns sid op" and "F \<inter> record_fields = {}" and "F \<inter> slot_fields = {}"
  shows "all_cmds (keeps_fields (sub_key sid (shard_tail g)) F) (op_prog op)"
proof (cases op)
  case (Op_create sha sid' cfg links now owner)
  with assms have "subKey sid' \<noteq> sub_key sid (shard_tail g)" "linksKey sid' \<noteq> sub_key sid (shard_tail g)"
    by (auto simp: slot_key_forms sub_key_inject)
  then show ?thesis unfolding Op_create op_prog.simps CreateOrConfirmOwned_def
    by (intro all_cmds_quiet all_cmds_ebind all_cmds_script_run create_writes)
      (auto simp: newCreateSubKeys_def index_each all_cmds_bind split: createSubReply.split)
next
  case (Op_delete sid' e)
  with assms have k: "subKey sid' \<noteq> sub_key sid (shard_tail g)" "linksKey sid' \<noteq> sub_key sid (shard_tail g)"
    "subShardRegistryKey sid' \<noteq> sub_key sid (shard_tail g)" "\<And>x. subKey sid' @ '':g:'' @ x \<noteq> sub_key sid (shard_tail g)"
    by (auto simp: slot_key_forms sub_key_append sub_key_inject)
  have "all_cmds (keeps_fields (sub_key sid (shard_tail g)) F) (delete_sub (redisKeys (newDeleteSubKeys sid')) argv)"
    for argv
    using k(1-3) k(4) [unfolded append.simps]
    by (intro delete_writes) (auto simp: newDeleteSubKeys_def Let_def)
  then show ?thesis unfolding Op_delete op_prog.simps store_delete_def rbind.simps
    by (auto simp: index_each all_cmds_bind split: deleteSubReply.split
        intro!: all_cmds_quiet all_cmds_with_keys all_cmds_ebind all_cmds_script_run)
qed (use assms in \<open>auto simp: store_link_def store_unlink_def index_cmds DeindexStale_def
      armWake_def newLinkStreamKeys_def newUnlinkStreamKeys_def known_links plain_known keys_at
      ackShard_def store_release_def expireLease_def RestoreLease_def claim_due_slot_def ClearDue_def scheduleRetry_def
      recordSuccess_def RecordWakeEventSent_def claim_slot_def claimShardAuthorized_def claimKeys_def slot_key_forms(1,2) sub_key_inject
      intro!: all_cmds_quiet all_cmds_with_keys all_cmds_ebind all_cmds_script_run runMaybePinned_cmds all_cmds_bind
        script_writes deindex_stale_writes claim_shard_writes claim_due_writes ack_writes link_writes claim_other_writes
      split: linkStreamReply.split unlinkStreamReply.split\<close>)

section \<open>The fence of a claimed shard over a run\<close>

text \<open>
  A shard that has been claimed: its record has a canonical generation, and carries the incarnation
  of its subscription.
\<close>

definition bound_fence :: "string \<Rightarrow> int \<Rightarrow> (string \<Rightarrow> rvalue) \<Rightarrow> bool" where
  "bound_fence sid g V \<longleftrightarrow>
     (\<exists>n. counter_at V (subShardKey sid g) ''generation'' = Some n) \<and>
     (\<exists>i. i \<noteq> '''' \<and> hash_at V (subKey sid) ''incarnation'' = Some i \<and> hash_at V (subShardKey sid g) ''incarnation'' = Some i)"

text \<open>How the fence of such a shard may move.\<close>

definition fence_moves :: "string \<Rightarrow> int \<Rightarrow> (string \<Rightarrow> rvalue) \<Rightarrow> (string \<Rightarrow> rvalue) \<Rightarrow> bool" where
  "fence_moves sid g V W \<longleftrightarrow>
     fence_later sub_fence (subShardKey sid g) V W \<and>
     hash_at W (subKey sid) ''incarnation'' = hash_at V (subKey sid) ''incarnation'' \<and>
     hash_at W (subShardKey sid g) ''incarnation'' = hash_at V (subShardKey sid g) ''incarnation''"

lemma fence_moves_bound: "bound_fence sid g V \<Longrightarrow> fence_moves sid g V W \<Longrightarrow> bound_fence sid g W"
  by (auto simp: bound_fence_def fence_moves_def fence_later_def)

lemma fence_moves_refl: "bound_fence sid g V \<Longrightarrow> fence_moves sid g V V"
  by (auto simp: bound_fence_def fence_moves_def intro: fence_later_refl)

lemma fence_moves_trans: "fence_moves sid g U V \<Longrightarrow> fence_moves sid g V W \<Longrightarrow> fence_moves sid g U W"
  by (auto simp: fence_moves_def intro: fence_later_trans)

lemma shard_0: "shard_tail 0 = ''''"
  by (simp add: shard_tail_def)

text \<open>Programs composed from parts that move the fence this way.\<close>

lemma wp_bind_inv: "wp m (\<lambda>_. I) V \<Longrightarrow> (\<And>x W. I W \<Longrightarrow> wp (f x) (\<lambda>_. I) W) \<Longrightarrow> wp (rbind m f) (\<lambda>_. I) V"
  unfolding wp_bind by (erule wp_mono) (auto split: option.split)

lemma wp_script_run_inv: "I V \<Longrightarrow> wp (lua (redisKeys k) args) (\<lambda>_. I) V \<Longrightarrow> wp (script_run ts lua k args) (\<lambda>_. I) V"
  by (auto simp: script_run_def intro!: wp_bind_inv split: sum.split)

lemma wp_ebind_inv: "wp m (\<lambda>_. I) V \<Longrightarrow> (\<And>x W. I W \<Longrightarrow> wp (f x) (\<lambda>_. I) W) \<Longrightarrow> wp (ebind m f) (\<lambda>_. I) V"
  unfolding ebind_def by (erule wp_bind_inv) (auto split: sum.split)

lemma wp_both: "wp m (\<lambda>_. I) V \<Longrightarrow> wp m (\<lambda>_. J) V \<Longrightarrow> wp m (\<lambda>_ W. I W \<and> J W) V"
  by (simp add: wp_conj)

lemma fence_prog_moves:
  assumes "fence_prog sub_fence (sub_key sid (shard_tail g)) m"
    and "all_cmds (keeps_fields (sub_key sid (shard_tail g)) {''incarnation''}) m"
    and "all_cmds (keeps_fields (sub_key sid '''') {''incarnation''}) m"
    and "fence_moves sid g V W"
  shows "wp m (\<lambda>_. fence_moves sid g V) W"
proof -
  have "wp m (\<lambda>_ U. fence_later sub_fence (sub_key sid (shard_tail g)) V U \<and>
      (\<forall>f \<in> {''incarnation''}. hash_at U (sub_key sid (shard_tail g)) f = hash_at W (sub_key sid (shard_tail g)) f) \<and>
      (\<forall>f \<in> {''incarnation''}. hash_at U (sub_key sid '''') f = hash_at W (sub_key sid '''') f)) W"
    using assms by (intro wp_both wp_fence wp_keeps_fields) (auto simp: fence_moves_def slot_key_forms(2))
  then show ?thesis by (rule wp_mono) (use assms(4) in \<open>auto simp: fence_moves_def slot_key_forms(1,2)\<close>)
qed

text \<open>A program that writes a field only with one value.\<close>

fun sets_field :: "string \<Rightarrow> string \<Rightarrow> string \<Rightarrow> rcmd \<Rightarrow> bool" where
  "sets_field k f v (HSET j fvs) = (j \<noteq> k \<or> map_of (rev fvs) f = None \<or> map_of (rev fvs) f = Some v)"
| "sets_field k f v c = keeps_fields k {f} c"

lemma wp_sets_field:
  assumes "all_cmds (sets_field k f v) m" and "hash_at V k f = Some v"
  shows "wp m (\<lambda>_ W. hash_at W k f = Some v) V"
proof (rule wp_invariant [where P = "sets_field k f v", OF assms(1)])
  show "hash_at V k f = Some v" by (rule assms(2))
next
  fix c W r w
  assume c: "sets_field k f v c" and v: "hash_at W k f = Some v" and rel: "cmd_rel c (W (cmd_key c)) r w"
  show "hash_at (W(cmd_key c := w)) k f = Some v"
  proof (cases "\<exists>fvs. c = HSET k fvs")
    case True
    then obtain fvs where "c = HSET k fvs" by blast
    with c rel v show ?thesis by (auto simp: map_add_def hash_at_def)
  next
    case False
    with c have "keeps_fields k {f} c" by (cases c) auto
    from keeps_fields_cmd [of k "{f}" c W r w f, OF this rel] v show ?thesis by simp
  qed
qed

lemma claim_grant_sets: "all_cmds (sets_field k ''incarnation'' inc) (claim_grant keys argv now phase inc)"
  by (auto simp: claim_grant_def claim_finish_def Let_def lua_num_def split: option.split)

lemma claim_grant_moves:
  assumes "fence_moves sid g V W" and "hash_at V (subKey sid) ''incarnation'' = Some i"
    and "hash_at V (subShardKey sid g) ''incarnation'' = Some i"
  shows "wp (claim_grant keys argv now phase i) (\<lambda>_. fence_moves sid g V) W"
proof -
  have "wp (claim_grant keys argv now phase i) (\<lambda>_ U. fence_later sub_fence (subShardKey sid g) V U \<and>
      hash_at U (subKey sid) ''incarnation'' = Some i \<and> hash_at U (subShardKey sid g) ''incarnation'' = Some i) W"
    using assms by (intro wp_both wp_fence wp_sets_field claim_grant_fence claim_grant_sets) (auto simp: fence_moves_def)
  then show ?thesis by (rule wp_mono) (use assms in \<open>auto simp: fence_moves_def\<close>)
qed

lemma own_claim_moves:
  assumes "plain_id sid" and "bound_fence sid g V" and "lua_at keys 1 = subKey sid" and "lua_at keys 2 = subShardKey sid g'"
  shows "wp (claim keys argv) (\<lambda>_. fence_moves sid g V) V"
proof -
  obtain i where i: "i \<noteq> ''''" "hash_at V (subKey sid) ''incarnation'' = Some i"
    "hash_at V (subShardKey sid g) ''incarnation'' = Some i" using assms(2) by (auto simp: bound_fence_def)
  have r: "fence_moves sid g V V" using assms(2) by (rule fence_moves_refl)
  let ?V1 = "if subKey sid \<noteq> subShardKey sid g' \<and>
      hash_at V (subShardKey sid g') ''incarnation'' \<noteq> hash_at V (subKey sid) ''incarnation''
    then V(subShardKey sid g' := RNone) else V"
  have v1: "fence_moves sid g V ?V1"
  proof (cases "subKey sid \<noteq> subShardKey sid g' \<and> hash_at V (subShardKey sid g') ''incarnation'' \<noteq> hash_at V (subKey sid) ''incarnation''")
    case True
    then have "subShardKey sid g' \<noteq> subShardKey sid g" using i by auto
    then have "hash_at ?V1 k = hash_at V k" if "k \<in> {subKey sid, subShardKey sid g}" for k
      using that True by auto
    then show ?thesis using r by (simp add: fence_moves_def fence_later_def fence_open_def counter_at_def)
  qed (use r in \<open>simp only: if_False\<close>)
  show ?thesis
    using wp_claim [of V keys i "\<lambda>_. fence_moves sid g V" argv] i r v1 claim_grant_moves [OF v1 i(2,3)]
    unfolding assms(3,4) by metis
qed

lemma own_create_reads:
  assumes "V (lua_at keys 1) \<noteq> RNone"
  shows "wp (create_sub keys argv) (\<lambda>_ W. W = V) V"
  using assms unfolding create_sub_def Let_def
  by (intro wp_exists) (auto simp del: wp.simps(3) intro!: wp_hget)

lemma index_each_moves:
  "fence_moves sid g V W \<Longrightarrow> wp (each_path (\<lambda>p. indexStream p s) ps) (\<lambda>_. fence_moves sid g V) W"
  by (rule fence_prog_moves) (auto intro!: fence_prog_soft index_each)

lemma op_moves:
  assumes "plain_id sid" and "op_ids_ok op" and "\<not> deletes sid op" and b: "bound_fence sid g V"
  shows "wp (op_prog op) (\<lambda>_. fence_moves sid g V) V"
proof (cases "owns sid op")
  case False
  then have "\<not> resets sid g op" by (cases op) auto
  moreover have "{''incarnation''} \<inter> record_fields = {}" "{''incarnation''} \<inter> slot_fields = {}"
    by (auto simp: record_fields_def slot_fields_def)
  ultimately show ?thesis
    using op_writes [OF assms(1,2) False, of "{''incarnation''}" g] op_writes [OF assms(1,2) False, of "{''incarnation''}" 0]
      op_fence [OF assms(1,2)] fence_moves_refl [OF b]
    by (intro fence_prog_moves) (auto simp: shard_0)
next
  case True
  have r: "fence_moves sid g V V" using b by (rule fence_moves_refl)
  consider sha cfg links now owner where "op = Op_create sha sid cfg links now owner"
    | st g' worker wake e now ttl where "op = Op_claim st sid g' worker wake e now ttl"
    using True assms(3) by (cases op) auto
  then show ?thesis
  proof cases
    case 1
    have "V (subKey sid) \<noteq> RNone" using b by (auto simp: bound_fence_def hash_at_def)
    then have "wp (create_sub (redisKeys (newCreateSubKeys sid)) argv) (\<lambda>_ W. W = V) V" for argv
      by (intro own_create_reads) (simp add: newCreateSubKeys_def)
    then have "wp (create_sub (redisKeys (newCreateSubKeys sid)) argv) (\<lambda>_. fence_moves sid g V) V" for argv
      by (rule wp_mono) (simp add: r)
    then show ?thesis unfolding 1 op_prog.simps CreateOrConfirmOwned_def
      by (intro wp_bind_inv wp_ebind_inv wp_script_run_inv r)
        (auto intro!: wp_bind_inv index_each_moves split: createSubReply.split)
  next
    case 2
    have "wp (claim (redisKeys (claimKeys sid g')) argv) (\<lambda>_. fence_moves sid g V) V" for argv
      using assms(1) b by (intro own_claim_moves) (auto simp: claimKeys_def)
    then show ?thesis unfolding 2 op_prog.simps claimShardAuthorized_def
      using r by (auto simp: ebind_def runMaybePinned_def intro!: wp_bind_inv wp_script_run_inv split: sum.split)
  qed
qed

context redis_server
begin

text \<open>The locale's server runs the operations; what every one keeps, a run keeps.\<close>

lemma run_moves:
  assumes "plain_id sid" and "\<forall>op \<in> set ops. op_ids_ok op \<and> \<not> deletes sid op" and "bound_fence sid g (rd_val R s)"
  shows "fence_moves sid g (rd_val R s) (rd_val R (cp_run R s ops))"
  using assms(2,3)
proof (induction ops arbitrary: s)
  case Nil
  then show ?case by (simp add: fence_moves_refl)
next
  case (Cons op ops)
  obtain r t where t: "rexec R (op_prog op) s = (r, t)" by (cases "rexec R (op_prog op) s")
  have m: "fence_moves sid g (rd_val R s) (rd_val R t)"
    using rexec_wp [OF op_moves t] assms(1) Cons.prems by auto
  with Cons have "fence_moves sid g (rd_val R t) (rd_val R (cp_run R t ops))" by (auto intro: fence_moves_bound)
  with m show ?case using t by (auto intro: fence_moves_trans)
qed

end

end
