(* ===== verification/Webhook_Claims.thy ===== *)
theory Webhook_Claims
  imports Webhook_Runs
begin

text \<open>
  What a granted claim leaves behind, and what it means for earlier claims of the same shard: the
  generations of the claims of a shard increase strictly until the subscription is deleted, and
  once a later claim is granted the token of an earlier one is refused for good.
\<close>

section \<open>What a claim leaves behind\<close>

text \<open>A field that is absent or holds a canonical number.\<close>

definition canonical_at :: "string \<Rightarrow> (string \<Rightarrow> rvalue) \<Rightarrow> string \<Rightarrow> bool" where
  "canonical_at f V k \<longleftrightarrow> hash_at V k f = None \<or> (\<exists>n. counter_at V k f = Some n)"

lemma claim_finish_result:
  fixes keys :: "string list"
  defines "sub \<equiv> lua_at keys 2"
  shows "wp (claim_finish keys argv now inc gen wake) (\<lambda>r W. \<forall>l. r = Some l \<longrightarrow>
      l = [AnyString ''CLAIMED'', reply_field gen, reply_field wake, AnyString (lua_at argv 2)] \<and>
      hash_at W sub ''phase'' = Some ''live'' \<and> hash_at W sub ''incarnation'' = Some inc \<and>
      (\<forall>f \<in> {''generation'', ''wake_id''}. hash_at W sub f = hash_at V sub f) \<and>
      (\<forall>j. j \<noteq> sub \<longrightarrow> hash_at W j = hash_at V j)) V"
  unfolding claim_finish_def Let_def sub_def [symmetric]
  by (auto intro!: wp_lua_num wp_hset wp_hashless simp del: wp.simps(3) simp: map_add_def split: option.split)

definition grant_post ::
    "string \<Rightarrow> (string \<Rightarrow> rvalue) \<Rightarrow> string \<Rightarrow> go_any list option \<Rightarrow> (string \<Rightarrow> rvalue) \<Rightarrow> bool" where
  "grant_post sub V inc r W \<longleftrightarrow>
     (\<forall>l. r = Some l \<longrightarrow> (\<exists>gen wake worker. l = [AnyString ''CLAIMED'', gen, wake, worker] \<and>
        hash_at W sub ''phase'' = Some ''live'' \<and> hash_at W sub ''incarnation'' = Some inc \<and>
        (\<forall>j. j \<noteq> sub \<longrightarrow> hash_at W j = hash_at V j) \<and>
        (gen = AnyNil \<or> (\<exists>n. counter_at W sub ''generation'' = Some n \<and>
           (gen = AnyString (lua_tostring n) \<or> gen = AnyString (FormatInt n)) \<and>
           (\<forall>n0. counter_at V sub ''generation'' = Some n0 \<longrightarrow> n0 \<le> n \<and> (n = n0 \<longrightarrow> fence_open sub_fence V sub))))))"

lemma claim_grant_result:
  fixes keys :: "string list"
  defines "sub \<equiv> lua_at keys 2"
  assumes can: "canonical_at ''generation'' V sub"
  shows "wp (claim_grant keys argv now (hash_at V sub ''phase'') inc) (grant_post sub V inc) V"
proof -
  have reuse: "wp (claim_finish keys argv now inc (hash_at V sub ''generation'') (hash_at V sub ''wake_id'')) (grant_post sub V inc) V"
    if "hash_at V sub ''phase'' = Some ''waking''" "hash_at V sub ''wake_id'' \<noteq> Some ''''"
    using claim_finish_result
  proof (rule wp_mono)
    fix r W
    assume "\<forall>l. r = Some l \<longrightarrow>
      l = [AnyString ''CLAIMED'', reply_field (hash_at V sub ''generation''), reply_field (hash_at V sub ''wake_id''), AnyString (lua_at argv 2)] \<and>
      hash_at W (lua_at keys 2) ''phase'' = Some ''live'' \<and> hash_at W (lua_at keys 2) ''incarnation'' = Some inc \<and>
      (\<forall>f \<in> {''generation'', ''wake_id''}. hash_at W (lua_at keys 2) f = hash_at V (lua_at keys 2) f) \<and>
      (\<forall>j. j \<noteq> lua_at keys 2 \<longrightarrow> hash_at W j = hash_at V j)"
    moreover have "reply_field (hash_at V sub ''generation'') = AnyNil \<or>
        (\<exists>n. counter_at V sub ''generation'' = Some n \<and> reply_field (hash_at V sub ''generation'') = AnyString (FormatInt n))"
      using can by (auto simp: canonical_at_def counter_at_iff reply_field_def)
    moreover have "fence_open sub_fence V sub" using that by (simp add: fence_open_def)
    ultimately show "grant_post sub V inc r W"
      using counter_at_field [of W sub "''generation''" V] by (auto simp: grant_post_def sub_def)
  qed
  have rotate: "wp (claim_finish keys argv now inc (Some (lua_tostring (n + 1))) (Some w)) (grant_post sub V inc) U"
    if h: "hash_at U = (hash_at V)(sub := (hash_at V sub)(''generation'' \<mapsto> FormatInt (n + 1), ''wake_id'' \<mapsto> w))"
      and n: "hash_at V sub ''generation'' = None \<and> n = 0 \<or> counter_at V sub ''generation'' = Some n" "is_i64 (n + 1)" for n U w
    using claim_finish_result
  proof (rule wp_mono)
    fix r W
    assume "\<forall>l. r = Some l \<longrightarrow>
      l = [AnyString ''CLAIMED'', reply_field (Some (lua_tostring (n + 1))), reply_field (Some w), AnyString (lua_at argv 2)] \<and>
      hash_at W (lua_at keys 2) ''phase'' = Some ''live'' \<and> hash_at W (lua_at keys 2) ''incarnation'' = Some inc \<and>
      (\<forall>f \<in> {''generation'', ''wake_id''}. hash_at W (lua_at keys 2) f = hash_at U (lua_at keys 2) f) \<and>
      (\<forall>j. j \<noteq> lua_at keys 2 \<longrightarrow> hash_at W j = hash_at U j)"
    moreover have "counter_at V sub ''generation'' = Some n0 \<Longrightarrow> n0 = n" for n0
      using n(1) by (auto simp: counter_at_def)
    moreover have "counter_at W sub ''generation'' = Some (n + 1)" if "hash_at W sub ''generation'' = hash_at U sub ''generation''"
      using that h n(2) by (simp add: counter_at_iff)
    ultimately show "grant_post sub V inc r W"
      using h by (auto simp: grant_post_def sub_def reply_field_def)
  qed
  have n: "grant_post sub V inc None W" for W by (simp add: grant_post_def)
  show ?thesis unfolding claim_grant_def Let_def sub_def [symmetric]
    using rotate [where n = 0]
    by (intro wp_hget) (auto simp: n reuse rotate simp del: wp.simps(3) intro!: wp_hincrby wp_hset rotate)
qed

text \<open>
  The record a granted claim leaves, whatever was there before: live, bound to the incarnation of
  its subscription, under the generation the reply names.
\<close>

definition claim_binds :: "string \<Rightarrow> string \<Rightarrow> go_any list option \<Rightarrow> (string \<Rightarrow> rvalue) \<Rightarrow> bool" where
  "claim_binds cfg sub r W \<longleftrightarrow>
     (\<forall>l. r = Some l \<longrightarrow> \<not> not_claimed r \<longrightarrow> (\<exists>gen wake worker. l = [AnyString ''CLAIMED'', gen, wake, worker] \<and>
        hash_at W sub ''phase'' = Some ''live'' \<and>
        (\<exists>i. i \<noteq> '''' \<and> hash_at W cfg ''incarnation'' = Some i \<and> hash_at W sub ''incarnation'' = Some i) \<and>
        (gen = AnyNil \<or> (\<exists>n. counter_at W sub ''generation'' = Some n \<and>
           (gen = AnyString (lua_tostring n) \<or> gen = AnyString (FormatInt n))))))"

lemma claim_binds_refused [simp]: "not_claimed r \<Longrightarrow> claim_binds cfg sub r W"
  by (auto simp: claim_binds_def)

lemma grant_binds:
  assumes "grant_post sub V i r W" and "hash_at V cfg ''incarnation'' = Some i" and "i \<noteq> ''''"
  shows "claim_binds cfg sub r W"
  using assms by (cases "cfg = sub") (auto simp: grant_post_def claim_binds_def)

lemma lua_tostring_nonempty [simp]: "lua_tostring n \<noteq> ''''"
proof -
  have "dec_digits k \<noteq> ''''" for k by (simp add: dec_digits_not_Nil)
  then show ?thesis by (auto simp: lua_tostring_def fmt_14g_def Let_def)
qed

lemma canonical_at_field: "hash_at U k f = hash_at V k f \<Longrightarrow> canonical_at f U k = canonical_at f V k"
  by (simp add: canonical_at_def counter_at_def)

lemma claim_body_binds:
  fixes keys :: "string list"
  defines "cfg \<equiv> lua_at keys 1" and "sub \<equiv> lua_at keys 2"
  assumes can: "canonical_at ''generation'' V sub"
  shows "wp (claim_body keys argv) (claim_binds cfg sub) V"
proof -
  have grant: "wp (claim_grant keys argv now (hash_at V sub ''phase'') i) (claim_binds cfg sub) U"
    if h: "hash_at U cfg ''incarnation'' = Some i" "i \<noteq> ''''"
      "\<forall>f. f \<noteq> ''incarnation'' \<longrightarrow> hash_at U sub f = hash_at V sub f" for U i now
  proof -
    have c: "canonical_at ''generation'' U sub" using can h(3) canonical_at_field [of U sub _ V] by simp
    have p: "hash_at V sub ''phase'' = hash_at U sub ''phase''" using h(3) by simp
    have "wp (claim_grant keys argv now (hash_at U sub ''phase'') i) (grant_post sub U i) U"
      using claim_grant_result [of U keys argv now i] c by (simp add: sub_def)
    then show ?thesis unfolding p by (rule wp_mono) (rule grant_binds [OF _ h(1,2)])
  qed
  have none: "claim_binds cfg sub None W" for W by (simp add: claim_binds_def)
  have busy: "claim_binds cfg sub (Some [AnyString ''BUSY'', a, b, c]) W" for a b c W
    by (simp add: claim_binds_def not_claimed_def)
  show ?thesis unfolding claim_body_def Let_def cfg_def [symmetric] sub_def [symmetric]
    by (intro wp_hget wp_lua_num)
      (auto simp: none busy simp del: wp.simps(3) intro!: wp_hget wp_hashless wp_hset grant lua_tostring_nonempty)
qed

lemma claim_result_binds:
  fixes keys :: "string list"
  defines "cfg \<equiv> lua_at keys 1" and "sub \<equiv> lua_at keys 2"
  assumes can: "canonical_at ''generation'' V sub"
  shows "wp (claim keys argv) (claim_binds cfg sub) V"
proof -
  have body: "wp (claim_body keys argv) (claim_binds cfg sub) U" if "canonical_at ''generation'' U sub" for U
    using claim_body_binds [of U keys] that by (simp add: cfg_def sub_def)
  have "canonical_at ''generation'' (V(sub := RNone)) sub" by (simp add: canonical_at_def)
  then have del: "wp (Call (DEL sub) (\<lambda>_. claim_body keys argv)) (claim_binds cfg sub) V"
    using body by (auto simp: not_claimed_def)
  show ?thesis unfolding claim_def Let_def cfg_def [symmetric] sub_def [symmetric] wp_bind
    by (intro wp_expectation) (auto simp: not_claimed_def body can del simp del: wp.simps(3) intro!: wp_hget)
qed

section \<open>What the store reports\<close>

lemma decode_claimed:
  assumes "script_decode claimScript (RawArray l) = Inr (claimClaimed g w h)"
  shows "\<exists>gen. l = [AnyString ''CLAIMED'', gen, AnyString w, AnyString h] \<and>
    (gen = AnyInt g \<or> (\<exists>s. gen = AnyString s \<and> ParseInt s = Inr g))"
proof -
  from assms have d: "decodeClaimReply l = Inr (claimClaimed g w h)"
    by (simp add: script_decode_def decodeScriptReply_def claimScript_def bindE_Inr_iff)
  then have st: "decodeStatus l claimReplyVariants = Inr ''CLAIMED''" and len: "wantArity l 4 = Inr ()"
    and f: "int64At l 1 = Inr g" "stringAt l 2 = Inr w" "stringAt l 3 = Inr h"
    by (auto simp: decodeClaimReply_def bindE_Inr_iff split: if_splits)
  from len obtain a b c e where l: "l = [a, b, c, e]"
    by (auto simp: wantArity_def eval_nat_numeral length_Suc_conv split: if_splits)
  show ?thesis using st f unfolding l
    by (auto simp: decodeStatus_def stringAt_def int64At_def bindE_Inr_iff split: go_any.splits sum.splits if_splits)
qed

lemma wp_claimShard:
  assumes "\<And>argv. wp (claim (redisKeys (claimKeys sid g)) argv)
      (\<lambda>r W. \<forall>l gen w h. r = Some l \<longrightarrow> script_decode claimScript (RawArray l) = Inr (claimClaimed gen w h) \<longrightarrow> P gen w W) V"
  shows "wp (claimShardAuthorized st sid g worker wake e now ttl)
      (\<lambda>r W. \<forall>c err. r = Some (c, err) \<longrightarrow> cr_Claimed c \<longrightarrow> P (cr_Generation c) (cr_WakeID c) W) V"
proof -
  have res: "cr_Claimed c \<Longrightarrow> claim_result st r = (c, err) \<Longrightarrow> \<exists>h. r = Inr (claimClaimed (cr_Generation c) (cr_WakeID c) h)" for c r err
    by (cases r) (auto simp: claim_result_def split: claimReply.splits)
  have run: "wp (script_run claimScript claim (claimKeys sid g) argv)
      (\<lambda>r W. \<forall>gen w h. r = Some (Inr (claimClaimed gen w h)) \<longrightarrow> P gen w W) V" for argv
    using assms [of argv] unfolding script_run_def
    by (auto simp: wp_bind split: sum.split option.split elim!: wp_mono)
  have pinned: "wp (runMaybePinned st claimScript claim (claimKeys sid g) argv)
      (\<lambda>r W. \<forall>gen w h. r = Some (Inr (claimClaimed gen w h)) \<longrightarrow> P gen w W) V" for argv
    using run by (simp add: runMaybePinned_def)
  have "wp (runMaybePinned st claimScript claim (claimKeys sid g) argv) (\<lambda>r W. \<forall>x. r = Some x \<longrightarrow>
      (\<forall>c. (\<exists>err. claim_result st x = (c, err)) \<longrightarrow> cr_Claimed c \<longrightarrow> P (cr_Generation c) (cr_WakeID c) W)) V" for argv
    using pinned by (rule wp_mono) (blast dest: res)
  moreover have "fst (claim_result st (Inl x)) = zero_claim" for x by (simp add: claim_result_def)
  ultimately show ?thesis unfolding claimShardAuthorized_def wp_bind ebind_def
    by (auto simp: wp_bind split: sum.split option.split dest: res)
qed

text \<open>A granted claim binds the fence of its shard under the generation it reports.\<close>

lemma claimShard_binds:
  assumes "canonical_at ''generation'' V (subShardKey sid g)"
  shows "wp (claimShardAuthorized st sid g worker wake e now ttl)
    (\<lambda>r W. \<forall>c err. r = Some (c, err) \<longrightarrow> cr_Claimed c \<longrightarrow>
       bound_fence sid g W \<and> counter_at W (subShardKey sid g) ''generation'' = Some (cr_Generation c) \<and>
       hash_at W (subShardKey sid g) ''phase'' = Some ''live'') V"
proof (rule wp_claimShard)
  fix argv
  have "wp (claim (redisKeys (claimKeys sid g)) argv) (claim_binds (subKey sid) (subShardKey sid g)) V"
    using claim_result_binds [of V "redisKeys (claimKeys sid g)" argv] assms by (simp add: claimKeys_def)
  then show "wp (claim (redisKeys (claimKeys sid g)) argv) (\<lambda>r W. \<forall>l gen w h. r = Some l \<longrightarrow>
      script_decode claimScript (RawArray l) = Inr (claimClaimed gen w h) \<longrightarrow>
      bound_fence sid g W \<and> counter_at W (subShardKey sid g) ''generation'' = Some gen \<and>
      hash_at W (subShardKey sid g) ''phase'' = Some ''live'') V"
  proof (rule wp_mono, intro allI impI)
    fix r W l gen w h
    assume b: "claim_binds (subKey sid) (subShardKey sid g) r W" and r: "r = Some l"
      and d: "script_decode claimScript (RawArray l) = Inr (claimClaimed gen w h)"
    obtain x where l: "l = [AnyString ''CLAIMED'', x, AnyString w, AnyString h]"
      and x: "x = AnyInt gen \<or> (\<exists>s. x = AnyString s \<and> ParseInt s = Inr gen)" using decode_claimed [OF d] by blast
    have "\<not> not_claimed r" by (simp add: not_claimed_def r l)
    with b r l x obtain n where n: "counter_at W (subShardKey sid g) ''generation'' = Some n"
        "x = AnyString (lua_tostring n) \<or> x = AnyString (FormatInt n)"
      and p: "hash_at W (subShardKey sid g) ''phase'' = Some ''live''"
      and i: "\<exists>i. i \<noteq> '''' \<and> hash_at W (subKey sid) ''incarnation'' = Some i \<and> hash_at W (subShardKey sid g) ''incarnation'' = Some i"
      by (auto simp: claim_binds_def)
    have "gen = n" using n x by (auto simp: counter_at_iff dest: ParseInt_lua_tostring)
    with n p i show "bound_fence sid g W \<and> counter_at W (subShardKey sid g) ''generation'' = Some gen \<and>
      hash_at W (subShardKey sid g) ''phase'' = Some ''live''" by (simp add: bound_fence_def)
  qed
qed

text \<open>
  On a bound fence the granted generation is the current one only when the claim takes over a wake
  that nobody holds; otherwise it is a new one.
\<close>

lemma claimShard_advances:
  assumes b: "bound_fence sid g V" and n0: "counter_at V (subShardKey sid g) ''generation'' = Some n0"
  shows "wp (claimShardAuthorized st sid g worker wake e now ttl)
    (\<lambda>r W. \<forall>c err. r = Some (c, err) \<longrightarrow> cr_Claimed c \<longrightarrow>
       n0 \<le> cr_Generation c \<and> (cr_Generation c = n0 \<longrightarrow> fence_open sub_fence V (subShardKey sid g))) V"
proof (rule wp_claimShard)
  fix argv
  let ?sub = "subShardKey sid g" and ?keys = "redisKeys (claimKeys sid g)"
  obtain i where i: "i \<noteq> ''''" "hash_at V (subKey sid) ''incarnation'' = Some i" "hash_at V ?sub ''incarnation'' = Some i"
    using b by (auto simp: bound_fence_def)
  have k: "lua_at ?keys (Suc 0) = subKey sid" "lua_at ?keys 2 = ?sub" by (simp_all add: claimKeys_def)
  have can: "canonical_at ''generation'' V ?sub" using b by (auto simp: canonical_at_def bound_fence_def)
  have g: "wp (claim_grant ?keys argv now (hash_at V ?sub ''phase'') i) (\<lambda>r W. not_claimed r \<or> grant_post ?sub V i r W) V" for now
    using claim_grant_result [of V ?keys argv now i] can unfolding k by (auto elim: wp_mono)
  have "wp (claim ?keys argv) (\<lambda>r W. not_claimed r \<or> grant_post ?sub V i r W) V"
    by (rule wp_claim [where i = i]) (use i g in \<open>simp_all add: k\<close>)
  then show "wp (claim ?keys argv) (\<lambda>r W. \<forall>l gen w h. r = Some l \<longrightarrow>
      script_decode claimScript (RawArray l) = Inr (claimClaimed gen w h) \<longrightarrow>
      n0 \<le> gen \<and> (gen = n0 \<longrightarrow> fence_open sub_fence V ?sub)) V"
  proof (rule wp_mono, intro allI impI)
    fix r W l gen w h
    assume q: "not_claimed r \<or> grant_post ?sub V i r W" and r: "r = Some l"
      and d: "script_decode claimScript (RawArray l) = Inr (claimClaimed gen w h)"
    obtain x where l: "l = [AnyString ''CLAIMED'', x, AnyString w, AnyString h]"
      and x: "x = AnyInt gen \<or> (\<exists>s. x = AnyString s \<and> ParseInt s = Inr gen)" using decode_claimed [OF d] by blast
    with q r x obtain n where n: "counter_at W ?sub ''generation'' = Some n"
        "x = AnyString (lua_tostring n) \<or> x = AnyString (FormatInt n)"
        "n0 \<le> n \<and> (n = n0 \<longrightarrow> fence_open sub_fence V ?sub)"
      using n0 by (auto simp: grant_post_def not_claimed_def)
    have "gen = n" using n x by (auto simp: counter_at_iff dest: ParseInt_lua_tostring)
    with n show "n0 \<le> gen \<and> (gen = n0 \<longrightarrow> fence_open sub_fence V ?sub)" by simp
  qed
qed

section \<open>The generation stays a number\<close>

text \<open>
  Every command of the control plane leaves the generation of a record absent or canonical: only
  the creation of a subscription sets it, to zero, and only \<^verbatim>\<open>HINCRBY\<close> changes it.
\<close>

fun canonical_cmd :: "string \<Rightarrow> string \<Rightarrow> rcmd \<Rightarrow> bool" where
  "canonical_cmd f k (HSET j fvs) = (j \<noteq> k \<or> (\<forall>(x, v) \<in> set fvs. x = f \<longrightarrow> v = ''0''))"
| "canonical_cmd f k (HSETNX j x v) = (j \<noteq> k)"
| "canonical_cmd f k (PEXPIRE j ms) = (j \<noteq> k)"
| "canonical_cmd f k c = True"

lemma FormatInt_zero: "FormatInt 0 = ''0''"
  by code_simp

lemma canonical_cmd_keeps:
  assumes "canonical_cmd f k c" and "canonical_at f W k" and rel: "cmd_rel c (W (cmd_key c)) r w"
  shows "canonical_at f (W(cmd_key c := w)) k"
proof (cases "keeps_fields k {f} c")
  case True
  have "hash_at (W(cmd_key c := w)) k f = hash_at W k f"
    using keeps_fields_cmd [of k "{f}" c W r w "f", OF True rel] by blast
  from canonical_at_field [OF this] show ?thesis using assms(2) by blast
next
  case False
  then show ?thesis
  proof (cases c)
    case (HSET j fvs)
    with False have [simp]: "j = k" by auto
    have v: "map_of (rev fvs) f = Some x \<Longrightarrow> x = ''0''" for x
      using assms(1) HSET by (auto dest!: map_of_SomeD)
    have z: "FormatInt 0 = ''0''" "is_i64 0" by (simp_all add: FormatInt_zero is_i64_def)
    have "hash_at (W(k := w)) k f = (hash_at W k ++ map_of (rev fvs)) f"
      using rel HSET by (auto simp: hash_at_def)
    then have "hash_at (W(k := w)) k f = hash_at W k f \<or> hash_at (W(k := w)) k f = Some (FormatInt 0)"
      using v z(1) by (cases "map_of (rev fvs) f") (auto simp: map_add_def)
    then show ?thesis using assms(2) z(2) HSET canonical_at_field [of "W(k := w)" k f W]
      by (auto simp: canonical_at_def counter_at_iff simp del: hash_at_upd)
  next
    case (HINCRBY j x n)
    with False rel show ?thesis by (auto simp: canonical_at_def counter_at_iff)
  next
    case (HDEL j x)
    with False rel show ?thesis by (auto simp: canonical_at_def)
  next
    case (DEL j)
    with False rel show ?thesis by (auto simp: canonical_at_def)
  qed (use False assms(1) in auto)
qed

lemma keeps_canonical: "keeps_fields k {f} c \<Longrightarrow> canonical_cmd f k c"
  by (cases c) force+

lemma keep_canonical: "all_cmds (keeps_fields k {f}) m \<Longrightarrow> all_cmds (canonical_cmd f k) m"
  by (erule all_cmds_mono) (rule keeps_canonical)

lemma reads_canonical: "all_cmds is_read m \<Longrightarrow> all_cmds (canonical_cmd f k) m"
  by (rule keep_canonical [OF reads_keep])

lemma owner_canonical: "(\<And>b. all_cmds (canonical_cmd f k) (p b)) \<Longrightarrow> all_cmds (canonical_cmd f k) (rbind (owner_fenced s m e) p)"
  by (rule owner_then) (auto intro: keeps_canonical is_read_keeps)

lemma script_canonical:
  "all_cmds (canonical_cmd ''generation'' k) (arm_wake keys argv)" "all_cmds (canonical_cmd ''generation'' k) (release keys argv)"
  "all_cmds (canonical_cmd ''generation'' k) (expire_lease keys argv)" "all_cmds (canonical_cmd ''generation'' k) (restore_lease keys argv)"
  "all_cmds (canonical_cmd ''generation'' k) (schedule_retry keys argv)" "all_cmds (canonical_cmd ''generation'' k) (record_success keys argv)"
  "all_cmds (canonical_cmd ''generation'' k) (record_wake_sent keys argv)" "all_cmds (canonical_cmd ''generation'' k) (claim_shard keys argv)"
  "all_cmds (canonical_cmd ''generation'' k) (deindex_stale keys argv)" "all_cmds (canonical_cmd ''generation'' k) (claim_due keys argv)"
  by (auto simp: arm_wake_def release_def expire_lease_def restore_lease_def schedule_retry_def record_success_def
      record_wake_sent_def claim_shard_def deindex_stale_def Let_def lua_num_def
      intro!: owner_canonical keep_canonical [OF claim_due_writes] split: option.split)

lemma claim_canonical: "all_cmds (canonical_cmd ''generation'' k) (claim keys argv)"
proof -
  have "all_cmds (canonical_cmd ''generation'' k) (claim_grant keys argv now phase inc)" for now phase inc
    by (auto simp: claim_grant_def claim_finish_def Let_def lua_num_def split: option.split)
  then have "all_cmds (canonical_cmd ''generation'' k) (claim_body keys argv)"
    by (auto simp: claim_body_def Let_def lua_num_def split: option.split)
  then show ?thesis unfolding claim_def Let_def
    by (intro all_cmds_bind reads_canonical [OF expectation_reads]) auto
qed

lemma delete_canonical: "all_cmds (canonical_cmd ''generation'' k) (delete_sub keys argv)"
proof -
  have "all_cmds (canonical_cmd ''generation'' k) p \<Longrightarrow> all_cmds (canonical_cmd ''generation'' k) (delete_shards gs a b c d e p)" for gs a b c d e and p :: "go_any list rprog"
    by (induction gs) (auto simp: Let_def)
  then show ?thesis unfolding delete_sub_def Let_def
    by (intro authorized_cmds reads_canonical [OF expectation_reads]) auto
qed

lemma create_canonical: "lua_at keys 3 \<noteq> k \<Longrightarrow> all_cmds (canonical_cmd ''generation'' k) (create_sub keys argv)"
  by (auto simp: create_sub_def Let_def lua_num_def intro!: keep_canonical [OF create_links_writes] split: option.split)

lemma ack_canonical:
  assumes "lua_at keys 2 \<noteq> k"
  shows "all_cmds (canonical_cmd ''generation'' k) (ack keys argv)"
proof -
  have s: "all_cmds (keeps_fields k {''generation''}) (ack_settle keys argv)"
    by (auto simp: ack_settle_def Let_def lua_num_def split: option.split)
  have a: "all_cmds (canonical_cmd ''generation'' k)
      (lua_num (lua_at argv 8) (\<lambda>n. ack_links (lua_at keys 2) argv 9 (nat n) (ack_settle keys argv)))"
    by (intro keep_canonical all_cmds_lua_num ack_links_writes s assms)
  show ?thesis unfolding ack_def Let_def by (auto intro!: owner_canonical a split: option.split)
qed

lemma op_canonical:
  assumes "plain_id sid" and "op_ids_ok op"
  shows "all_cmds (canonical_cmd ''generation'' (sub_key sid (shard_tail g))) (op_prog op)"
  using assms
  by (cases op) (auto simp: store_link_def store_unlink_def index_each index_cmds DeindexStale_def CreateOrConfirmOwned_def store_delete_def
      armWake_def newLinkStreamKeys_def newUnlinkStreamKeys_def newCreateSubKeys_def known_links plain_known keys_at
      ackShard_def store_release_def expireLease_def RestoreLease_def claim_due_slot_def ClearDue_def scheduleRetry_def
      recordSuccess_def RecordWakeEventSent_def claim_slot_def claimShardAuthorized_def
      intro!: all_cmds_quiet all_cmds_with_keys all_cmds_ebind all_cmds_script_run runMaybePinned_cmds all_cmds_bind
        script_canonical claim_canonical delete_canonical create_canonical ack_canonical keep_canonical [OF link_writes(1)]
        keep_canonical [OF link_writes(2)] keep_canonical [OF index_cmds(2)] keep_canonical [OF index_cmds(4)]
        keep_canonical [OF index_each(2)] keep_canonical [OF index_each(4)]
      split: linkStreamReply.split unlinkStreamReply.split createSubReply.split deleteSubReply.split)

section \<open>Claims along a run\<close>

text \<open>A claim that the store reports as granted, whether or not its durability was confirmed.\<close>

inductive granted :: "'s redis \<Rightarrow> string \<Rightarrow> int \<Rightarrow> 's \<Rightarrow> ClaimResult \<Rightarrow> 's \<Rightarrow> bool" for R sid g where
  "rexec R (claimShardAuthorized st sid g worker wake e now ttl) s = (Some (c, err), t) \<Longrightarrow> cr_Claimed c \<Longrightarrow> granted R sid g s c t"

context redis_server
begin

lemma run_canonical:
  assumes "plain_id sid" and "\<forall>op \<in> set ops. op_ids_ok op" and "canonical_at ''generation'' (rd_val R s) (subShardKey sid g)"
  shows "canonical_at ''generation'' (rd_val R (cp_run R s ops)) (subShardKey sid g)"
  using assms(2,3)
proof (induction ops arbitrary: s)
  case (Cons op ops)
  obtain r t where t: "rexec R (op_prog op) s = (r, t)" by (cases "rexec R (op_prog op) s")
  have "wp (op_prog op) (\<lambda>_ W. canonical_at ''generation'' W (subShardKey sid g)) (rd_val R s)"
    using Cons.prems op_canonical [OF assms(1), of op g] canonical_cmd_keeps
    by (intro wp_invariant [where P = "canonical_cmd ''generation'' (subShardKey sid g)"]) (auto simp: slot_key_forms(2))
  from rexec_wp [OF this t] Cons show ?case by (simp add: t)
qed simp

lemma granted_binds:
  assumes "granted R sid g s c t" and "canonical_at ''generation'' (rd_val R s) (subShardKey sid g)"
  shows "bound_fence sid g (rd_val R t)" "counter_at (rd_val R t) (subShardKey sid g) ''generation'' = Some (cr_Generation c)"
    "hash_at (rd_val R t) (subShardKey sid g) ''phase'' = Some ''live''"
  using assms(1) by (cases; use rexec_wp [OF claimShard_binds [OF assms(2)]] in auto)+

lemma granted_advances:
  assumes "granted R sid g s c t" and "bound_fence sid g (rd_val R s)"
    and "counter_at (rd_val R s) (subShardKey sid g) ''generation'' = Some n"
  shows "n \<le> cr_Generation c \<and> (cr_Generation c = n \<longrightarrow> fence_open sub_fence (rd_val R s) (subShardKey sid g))"
  using assms(1) by cases (use rexec_wp [OF claimShard_advances [OF assms(2,3)]] in auto)

text \<open>
  Between two granted claims of a shard any operations may run, except the deletion of the
  subscription; the second claim has the larger generation.
\<close>

lemma claims_increase:
  assumes "plain_id sid" and can: "canonical_at ''generation'' (rd_val R s) (subShardKey sid g)"
    and one: "granted R sid g s c1 s1" and run: "\<forall>op \<in> set ops. op_ids_ok op \<and> \<not> deletes sid op"
    and two: "granted R sid g (cp_run R s1 ops) c2 s2"
  shows "cr_Generation c1 < cr_Generation c2"
proof -
  let ?k = "subShardKey sid g" and ?s = "cp_run R s1 ops"
  note b1 = granted_binds [OF one can]
  have m: "fence_moves sid g (rd_val R s1) (rd_val R ?s)" using run_moves [OF assms(1) run b1(1)] .
  then obtain n where n: "counter_at (rd_val R ?s) ?k ''generation'' = Some n" "cr_Generation c1 \<le> n"
    and open': "n = cr_Generation c1 \<Longrightarrow> \<not> fence_open sub_fence (rd_val R ?s) ?k"
    using b1(2,3) by (auto simp: fence_moves_def fence_later_def fence_open_def)
  from granted_advances [OF two fence_moves_bound [OF b1(1) m] n(1)] n(2) open' show ?thesis by fastforce
qed

text \<open>After the second claim the first generation is behind the record's for as long as the subscription lives.\<close>

lemma superseded:
  assumes "plain_id sid" and can: "canonical_at ''generation'' (rd_val R s) (subShardKey sid g)"
    and one: "granted R sid g s c1 s1" and run: "\<forall>op \<in> set ops. op_ids_ok op \<and> \<not> deletes sid op"
    and two: "granted R sid g (cp_run R s1 ops) c2 s2" and run': "\<forall>op \<in> set ops'. op_ids_ok op \<and> \<not> deletes sid op"
  shows "\<exists>n. counter_at (rd_val R (cp_run R s2 ops')) (subShardKey sid g) ''generation'' = Some n \<and> cr_Generation c1 < n"
proof -
  note b1 = granted_binds [OF one can]
  have "canonical_at ''generation'' (rd_val R (cp_run R s1 ops)) (subShardKey sid g)"
    using run_canonical [OF assms(1), of ops s1 g] run b1(2) by (auto simp: canonical_at_def)
  note b2 = granted_binds [OF two this]
  have "fence_moves sid g (rd_val R s2) (rd_val R (cp_run R s2 ops'))" using run_moves [OF assms(1) run' b2(1)] .
  with b2(2) claims_increase [OF assms(1) can one run two] show ?thesis
    by (auto simp: fence_moves_def fence_later_def)
qed

end

section \<open>A token behind the record is refused\<close>

lemma FormatInt_inject [simp]: "FormatInt a = FormatInt b \<longleftrightarrow> a = b"
proof -
  have d: "CHR ''-'' \<notin> set (dec_digits n)" for n using dec_digits_digits by (fastforce simp: is_digit_def)
  then have "CHR ''-'' # x \<noteq> dec_digits n" for n x by (metis list.set_intros(1))
  moreover have "dec_digits m = dec_digits n \<Longrightarrow> m = n" for m n by (metis dec_value_dec_digits)
  ultimately show ?thesis by (auto simp: FormatInt_def) (metis nat_eq_iff2 less_le_not_le linorder_le_less_linear eq_nat_nat_iff
    neg_0_le_iff_le minus_equation_iff order_less_imp_le)+
qed

abbreviation refused :: "(string \<Rightarrow> rvalue) \<Rightarrow> go_any list option \<Rightarrow> (string \<Rightarrow> rvalue) \<Rightarrow> bool" where
  "refused V r W \<equiv> W = V \<and> (r = None \<or> r = Some [AnyString ''FENCED''] \<or> r = Some [AnyString ''NOSUB''])"

lemma wp_owner:
  assumes "Q None V" and "\<And>b. wp (f b) Q V"
  shows "wp (rbind (owner_fenced slot me epoch) f) Q V"
  unfolding wp_bind using wp_reads [OF owner_fenced_reads]
  by (rule wp_mono) (use assms in \<open>auto split: option.split\<close>)

lemma ack_refused:
  assumes "hash_at V (lua_at keys 1) ''generation'' \<noteq> Some (lua_at argv 2)"
  shows "wp (ack keys argv) (refused V) V"
  using assms unfolding ack_def Let_def
  by (auto simp: fenced_def simp del: wp.simps(3) intro!: wp_owner wp_exists wp_hget)

lemma release_refused:
  assumes "hash_at V (lua_at keys 1) ''generation'' \<noteq> Some (lua_at argv 2)"
  shows "wp (release keys argv) (refused V) V"
  using assms unfolding release_def Let_def
  by (auto simp: fenced_def simp del: wp.simps(3) intro!: wp_owner wp_exists wp_hget)

lemma check_write_fence_refused:
  assumes "hash_at V (lua_at keys 1) ''generation'' \<noteq> Some (lua_at argv 2)"
  shows "wp (check_write_fence keys argv) (refused V) V"
  using assms unfolding check_write_fence_def Let_def
  by (auto simp del: wp.simps(3) intro!: wp_lua_num wp_exists wp_hget)

text \<open>The replies a refusal decodes to.\<close>

lemma wp_refused_run:
  assumes "wp (lua (redisKeys k) args) (refused V) V"
    and "\<And>x. script_decode ts (RawArray [AnyString ''FENCED'']) = Inr x \<Longrightarrow> ok x"
    and "\<And>x. script_decode ts (RawArray [AnyString ''NOSUB'']) = Inr x \<Longrightarrow> ok x"
  shows "wp (script_run ts lua k args) (\<lambda>r W. W = V \<and> (\<forall>x. r = Some (Inr x) \<longrightarrow> ok x)) V"
  using assms(1) unfolding script_run_def
  by (auto simp: wp_bind split: sum.split elim!: wp_mono intro: assms(2,3))

lemma wp_then_return:
  assumes "wp m (\<lambda>r W. W = V \<and> (\<forall>x. r = Some (Inr x) \<longrightarrow> ok x)) V" and "\<And>x. ok x \<Longrightarrow> good (f x)"
  shows "wp (ebind m (\<lambda>x. Ret (Inr (f x)))) (\<lambda>r W. W = V \<and> (\<forall>y. r = Some (Inr y) \<longrightarrow> good y)) V"
  using assms(1) unfolding ebind_def wp_bind
  by (rule wp_mono) (auto simp: assms(2) split: option.split sum.split)

lemma decode_refusals:
  "script_decode ackScript (RawArray [AnyString ''FENCED'']) = Inr ackFenced"
  "script_decode ackScript (RawArray [AnyString ''NOSUB'']) = Inr ackNoSub"
  "script_decode releaseScript (RawArray [AnyString ''FENCED'']) = Inr releaseFenced"
  "script_decode releaseScript (RawArray [AnyString ''NOSUB'']) = Inr releaseNoSub"
  "script_decode writeFenceScript (RawArray [AnyString ''FENCED'']) = Inr writeFenceFenced"
  "script_decode writeFenceScript (RawArray [AnyString ''NOSUB'']) = Inr writeFenceNoSub"
  by code_simp+

lemma ackShard_refused:
  assumes "counter_at V (subShardKey sid g) ''generation'' = Some m" and "rg \<noteq> m"
  shows "wp (ackShard sid g rg rw tg d acks now ttl owner) (\<lambda>r W. W = V \<and> (\<forall>x. r = Some (Inr x) \<longrightarrow> x \<noteq> ''OK'')) V"
proof -
  have "wp (script_run ackScript ack k ([shardMember sid g, FormatInt rg] @ args)) (\<lambda>r W. W = V \<and> (\<forall>x. r = Some (Inr x) \<longrightarrow> x \<noteq> ackOK)) V"
    if "ackKeys sid g owner = Inr k" for k args
    using keys_at(6) [OF that] assms by (intro wp_refused_run ack_refused) (auto simp: counter_at_iff decode_refusals)
  then show ?thesis unfolding ackShard_def
    by (cases "ackKeys sid g owner") (auto simp: ebind_def [of "Ret _"] split: ackReply.splits intro!: wp_then_return [where ok = "\<lambda>x. x \<noteq> ackOK"])
qed

lemma release_member_refused:
  assumes "counter_at V (subKey sid) ''generation'' = Some m" and "rg \<noteq> m"
  shows "wp (store_release sid rg rw tg owner) (\<lambda>r W. W = V \<and> (\<forall>x. r = Some (Inr x) \<longrightarrow> x \<noteq> ''OK'')) V"
proof -
  have "wp (script_run releaseScript release k ([sid, FormatInt rg] @ args)) (\<lambda>r W. W = V \<and> (\<forall>x. r = Some (Inr x) \<longrightarrow> x \<noteq> releaseOK)) V"
    if "releaseKeys sid owner = Inr k" for k args
    using keys_at(2) [OF that] assms by (intro wp_refused_run release_refused) (auto simp: counter_at_iff decode_refusals)
  then show ?thesis unfolding store_release_def
    by (cases "releaseKeys sid owner") (auto simp: ebind_def [of "Ret _"] split: releaseReply.splits intro!: wp_then_return [where ok = "\<lambda>x. x \<noteq> releaseOK"])
qed

lemma write_fence_refused:
  assumes "counter_at V (subShardKey sid g) ''generation'' = Some m" and "gen \<noteq> m"
  shows "wp (VerifyWriteFence sid g inc gen wake holder now)
    (\<lambda>r W. W = V \<and> (\<forall>x. r = Some (Inr x) \<longrightarrow> wc_Status x \<noteq> ''OK'')) V"
proof -
  have "wp (script_run writeFenceScript check_write_fence (newWriteFenceKeys sid g) ([nsArg now, FormatInt gen] @ args))
      (\<lambda>r W. W = V \<and> (\<forall>x. r = Some (Inr x) \<longrightarrow> x = writeFenceFenced \<or> x = writeFenceNoSub)) V" for args
    using assms by (intro wp_refused_run check_write_fence_refused) (auto simp: newWriteFenceKeys_def counter_at_iff decode_refusals)
  from this [of "[wake, holder, inc]"] show ?thesis unfolding VerifyWriteFence_def append.simps
    by (rule wp_then_return [where ok = "\<lambda>x. x = writeFenceFenced \<or> x = writeFenceNoSub"]) auto
qed

end
