(* ===== verification/Webhook_Owners.thy ===== *)
theory Webhook_Owners
  imports Webhook_Claims
begin

text \<open>
  Ownership of a coordination slot: the epoch of a slot grows with every transfer, whatever the
  other operations do, and an operation scoped to a deposed owner is fenced for good.
\<close>

section \<open>The operations leave the ownership records alone\<close>

abbreviation slot_identity :: "string set" where
  "slot_identity \<equiv> {''owner_id'', ''owner_epoch''}"

lemma slot_identity_records: "slot_identity \<inter> record_fields = {}"
  by (auto simp: record_fields_def)

lemma ownership_key:
  "linksKey sid \<noteq> OwnershipSlotKey h" "subKey sid \<noteq> OwnershipSlotKey h" "subShardKey sid g \<noteq> OwnershipSlotKey h"
  "subShardRegistryKey sid \<noteq> OwnershipSlotKey h" "subKey sid @ '':g:'' @ x \<noteq> OwnershipSlotKey h"
  by (simp_all only: slot_key_forms sub_key_append sub_key_distinct not_False_eq_True)

fun takes_slot :: "nat \<Rightarrow> cp_op \<Rightarrow> bool" where
  "takes_slot h (Op_slot h' _ _ _) = (h' = h)"
| "takes_slot h _ = False"

lemma claim_shard_other: "lua_at keys 1 \<noteq> k \<Longrightarrow> all_cmds (keeps_fields k F) (claim_shard keys argv)"
  by (auto simp: claim_shard_def Let_def lua_num_def split: option.split)

lemma ownership_key_inject: "OwnershipSlotKey h' = OwnershipSlotKey h \<longleftrightarrow> h' = h"
  by (auto simp: slot_key_forms(12))

lemma op_keeps_slot:
  assumes "\<not> takes_slot h op"
  shows "all_cmds (keeps_fields (OwnershipSlotKey h) slot_identity) (op_prog op)"
proof (cases op)
  case (Op_create sha sid' cfg links now owner)
  then show ?thesis unfolding Op_create op_prog.simps CreateOrConfirmOwned_def
    by (intro all_cmds_quiet all_cmds_ebind all_cmds_script_run create_writes)
      (auto simp: newCreateSubKeys_def index_each all_cmds_bind ownership_key split: createSubReply.split)
next
  case (Op_delete sid' e)
  have "all_cmds (keeps_fields (OwnershipSlotKey h) slot_identity) (delete_sub (redisKeys (newDeleteSubKeys sid')) argv)" for argv
    using ownership_key(5) [of sid' _ h, unfolded append.simps]
    by (intro delete_writes) (auto simp: newDeleteSubKeys_def Let_def ownership_key)
  then show ?thesis unfolding Op_delete op_prog.simps store_delete_def rbind.simps
    by (auto simp: index_each all_cmds_bind split: deleteSubReply.split
        intro!: all_cmds_quiet all_cmds_with_keys all_cmds_ebind all_cmds_script_run)
qed (use assms in \<open>auto simp: store_link_def store_unlink_def index_cmds DeindexStale_def
      armWake_def newLinkStreamKeys_def newUnlinkStreamKeys_def keys_at ownership_key ownership_key_inject newClaimShardKeys_def
      ackShard_def store_release_def expireLease_def RestoreLease_def claim_due_slot_def ClearDue_def scheduleRetry_def
      recordSuccess_def RecordWakeEventSent_def claim_slot_def claimShardAuthorized_def claimKeys_def
      intro!: all_cmds_quiet all_cmds_with_keys all_cmds_ebind all_cmds_script_run runMaybePinned_cmds all_cmds_bind
        script_writes [OF slot_identity_records] deindex_stale_writes claim_shard_other claim_due_writes
        ack_writes [OF _ slot_identity_records] link_writes claim_other_writes
      split: linkStreamReply.split unlinkStreamReply.split\<close>)

section \<open>Taking a slot\<close>

text \<open>How the record of a slot moves: the epoch never falls, and while it stands the owner does too.\<close>

definition epoch_later :: "string \<Rightarrow> (string \<Rightarrow> rvalue) \<Rightarrow> (string \<Rightarrow> rvalue) \<Rightarrow> bool" where
  "epoch_later k V W \<longleftrightarrow>
     (\<exists>n m. counter_at V k ''owner_epoch'' = Some n \<and> counter_at W k ''owner_epoch'' = Some m \<and>
        (n < m \<or> n = m \<and> hash_at W k ''owner_id'' = hash_at V k ''owner_id''))"

lemma epoch_later_refl: "counter_at V k ''owner_epoch'' = Some n \<Longrightarrow> epoch_later k V V"
  by (simp add: epoch_later_def)

lemma epoch_later_trans: "epoch_later k U V \<Longrightarrow> epoch_later k V W \<Longrightarrow> epoch_later k U W"
  by (auto simp: epoch_later_def)

lemma keeps_epoch_later:
  assumes "all_cmds (keeps_fields k slot_identity) m" and "counter_at V k ''owner_epoch'' = Some n"
  shows "wp m (\<lambda>_. epoch_later k V) V"
  using wp_keeps_fields [OF assms(1)]
proof (rule wp_mono)
  fix r W assume w: "\<forall>f \<in> slot_identity. hash_at W k f = hash_at V k f"
  then have "counter_at W k ''owner_epoch'' = Some n" using assms(2) counter_at_field [of W k "''owner_epoch''" V] by simp
  with w assms(2) show "epoch_later k V W" by (simp add: epoch_later_def)
qed

text \<open>The outcome of \<^verbatim>\<open>claim_shard.lua\<close>: what a grant leaves in the record, and when it keeps the epoch.\<close>

definition slot_post :: "string \<Rightarrow> (string \<Rightarrow> rvalue) \<Rightarrow> string \<Rightarrow> go_any list option \<Rightarrow> (string \<Rightarrow> rvalue) \<Rightarrow> bool" where
  "slot_post k V me r W \<longleftrightarrow>
     (\<forall>n0. counter_at V k ''owner_epoch'' = Some n0 \<longrightarrow> epoch_later k V W) \<and>
     (\<forall>st w epoch x. r = Some [AnyString st, w, epoch, x] \<longrightarrow> st \<noteq> ''BUSY'' \<longrightarrow>
        hash_at W k ''owner_id'' = Some me \<and>
        (epoch = AnyNil \<or> (\<exists>n. counter_at W k ''owner_epoch'' = Some n \<and>
           (epoch = AnyString (lua_tostring n) \<or> epoch = AnyString (FormatInt n)) \<and>
           (counter_at V k ''owner_epoch'' = Some n \<longrightarrow> hash_at V k ''owner_id'' = Some me))))"

lemma slot_post_quiet: "hash_at W = hash_at V \<Longrightarrow> r = None \<or> (\<exists>xs. r = Some (AnyString ''BUSY'' # xs)) \<Longrightarrow> slot_post k V me r W"
  by (auto simp: slot_post_def epoch_later_def counter_at_def)

lemma slot_renewed:
  assumes "canonical_at ''owner_epoch'' V k" and "hash_at V k ''owner_id'' = Some me"
    and "hash_at W = (hash_at V)(k := (hash_at V k)(''owner_id'' \<mapsto> me, ''lease_expiry_ns'' \<mapsto> x))"
  shows "slot_post k V me (Some [a, b, reply_field (hash_at V k ''owner_epoch''), c]) W"
proof -
  have "hash_at W k ''owner_epoch'' = hash_at V k ''owner_epoch''" "hash_at W k ''owner_id'' = Some me"
    using assms(3) by (simp_all add: map_add_def)
  moreover note counter_at_field [OF this(1)]
  moreover have "reply_field (hash_at V k ''owner_epoch'') = AnyNil \<or>
      (\<exists>n. counter_at V k ''owner_epoch'' = Some n \<and> reply_field (hash_at V k ''owner_epoch'') = AnyString (FormatInt n))"
    using assms(1) by (auto simp: canonical_at_def counter_at_iff reply_field_def)
  ultimately show ?thesis using assms(2) unfolding slot_post_def epoch_later_def by (elim disjE) auto
qed

lemma slot_taken:
  assumes "hash_at V k ''owner_epoch'' = None \<and> n = 0 \<or> counter_at V k ''owner_epoch'' = Some n" and "is_i64 (n + 1)"
    and "hash_at W k ''owner_epoch'' = Some (FormatInt (n + 1))"
    and "r = None \<or> (r = Some [a, b, AnyString (lua_tostring (n + 1)), c] \<and> hash_at W k ''owner_id'' = Some me)"
  shows "slot_post k V me r W"
proof -
  have w: "counter_at W k ''owner_epoch'' = Some (n + 1)" using assms(2,3) by (simp add: counter_at_iff)
  have v: "counter_at V k ''owner_epoch'' = Some m \<Longrightarrow> m = n" for m using assms(1) by (auto simp: counter_at_def)
  have later: "counter_at V k ''owner_epoch'' = Some m \<Longrightarrow> epoch_later k V W" for m
    using w v [of m] unfolding epoch_later_def by auto
  have "counter_at V k ''owner_epoch'' \<noteq> Some (n + 1)" using v [of "n + 1"] by auto
  with w later assms(4) show ?thesis unfolding slot_post_def by (elim disjE) auto
qed

lemma claim_shard_post:
  fixes keys argv :: "string list"
  defines "k \<equiv> lua_at keys 1" and "me \<equiv> lua_at argv 1"
  assumes can: "canonical_at ''owner_epoch'' V k"
  shows "wp (claim_shard keys argv) (slot_post k V me) V"
proof -
  have q: "slot_post k V me None V" "slot_post k V me (Some (AnyString ''BUSY'' # xs)) V" for xs by (simp_all add: slot_post_quiet)
  have renew: "wp (lua_num t (\<lambda>ttl. hset k [(''owner_id'', me), (''lease_expiry_ns'', d ttl)]
      (Ret [AnyString st, AnyString me, reply_field (hash_at V k ''owner_epoch''), AnyString (d ttl)]))) (slot_post k V me) V"
    if "hash_at V k ''owner_id'' = Some me" for t d st
    using that by (intro wp_lua_num wp_hset q) (auto intro!: slot_renewed can)
  have take: "wp (lua_num t (\<lambda>ttl. hset k [(''owner_id'', me), (''lease_expiry_ns'', d ttl)]
      (Ret [AnyString st, AnyString me, reply_field (Some (lua_tostring (n + 1))), AnyString (d ttl)]))) (slot_post k V me) U"
    if n: "hash_at V k ''owner_epoch'' = None \<and> n = 0 \<or> counter_at V k ''owner_epoch'' = Some n" "is_i64 (n + 1)"
      and u: "hash_at U = (hash_at V)(k := (hash_at V k)(''owner_epoch'' \<mapsto> FormatInt (n + 1)))" for t d n U st
    using u by (intro wp_lua_num wp_hset slot_taken [OF n]) (auto simp: reply_field_def intro!: slot_taken [OF n])
  show ?thesis unfolding claim_shard_def Let_def k_def [symmetric] me_def [symmetric] using take [where n = 0]
    by (intro wp_lua_num wp_hget) (auto simp: q simp del: wp.simps(3) intro!: wp_hget wp_hincrby renew take)
qed

lemma decode_slot:
  assumes "script_decode claimShardScript (RawArray l) = Inr c" and "Granted (toSlotClaim c)"
  shows "\<exists>st w epoch x. l = [AnyString st, w, epoch, x] \<and> st \<noteq> ''BUSY'' \<and>
    (epoch = AnyInt (sc_Epoch (toSlotClaim c)) \<or> (\<exists>s. epoch = AnyString s \<and> ParseInt s = Inr (sc_Epoch (toSlotClaim c))))"
proof -
  from assms(1) have d: "decodeSlotClaimReply l = Inr c"
    by (simp add: script_decode_def decodeScriptReply_def claimShardScript_def bindE_Inr_iff)
  then obtain st w e x where st: "decodeStatus l slotClaimReplyVariants = Inr st" and len: "wantArity l 4 = Inr ()"
    and e: "int64At l 2 = Inr e"
    and c: "(if st = ''CLAIMED'' then Inr (slotClaimClaimed w e x) else if st = ''RENEWED'' then Inr (slotClaimRenewed w e x)
      else if st = ''BUSY'' then Inr (slotClaimBusy w e x) else Inl (UnhandledStatus st)) = (Inr c :: script_error + slotClaimReply)"
    by (auto simp: decodeSlotClaimReply_def bindE_Inr_iff)
  from len obtain a b f g where l: "l = [a, b, f, g]"
    by (auto simp: wantArity_def eval_nat_numeral length_Suc_conv split: if_splits)
  have "a = AnyString st" using st unfolding l
    by (auto simp: decodeStatus_def stringAt_def bindE_Inr_iff split: go_any.splits if_splits)
  moreover have "st \<noteq> ''BUSY'' \<and> sc_Epoch (toSlotClaim c) = e" using c assms(2) by (auto simp: Granted_def split: if_splits)
  moreover have "f = AnyInt e \<or> (\<exists>s. f = AnyString s \<and> ParseInt s = Inr e)" using e unfolding l
    by (auto simp: int64At_def split: go_any.splits sum.splits)
  ultimately show ?thesis unfolding l by auto
qed

lemma wp_run_return:
  assumes "wp (lua (redisKeys k) args) P V" and "\<And>err. Q (Some (Inl err)) V" and "\<And>W. P None W \<Longrightarrow> Q None W"
    and "\<And>W l err. P (Some l) W \<Longrightarrow> Q (Some (Inl err)) W"
    and "\<And>W l y. P (Some l) W \<Longrightarrow> script_decode ts (RawArray l) = Inr y \<Longrightarrow> Q (Some (Inr (f y))) W"
  shows "wp (ebind (script_run ts lua k args) (\<lambda>y. Ret (Inr (f y)))) Q V"
proof -
  have "wp (lua (redisKeys k) args) (\<lambda>r W. case r of None \<Rightarrow> Q None W
      | Some l \<Rightarrow> (case script_decode ts (RawArray l) of Inl e \<Rightarrow> Q (Some (Inl e)) W | Inr y \<Rightarrow> Q (Some (Inr (f y))) W)) V"
    using assms(1) by (rule wp_mono) (auto intro: assms(3-5) split: option.split sum.split)
  then show ?thesis using assms(2) unfolding script_run_def ebind_def
    by (auto simp: wp_bind split: sum.split option.split elim!: wp_mono)
qed

lemma claim_slot_post:
  assumes "canonical_at ''owner_epoch'' V k"
  shows "wp (claim_slot k me now ttl) (\<lambda>r W.
      (\<forall>n0. counter_at V k ''owner_epoch'' = Some n0 \<longrightarrow> epoch_later k V W) \<and>
      (\<forall>c. r = Some (Inr c) \<longrightarrow> Granted c \<longrightarrow>
         hash_at W k ''owner_id'' = Some me \<and> counter_at W k ''owner_epoch'' = Some (sc_Epoch c) \<and>
         (counter_at V k ''owner_epoch'' = Some (sc_Epoch c) \<longrightarrow> hash_at V k ''owner_id'' = Some me))) V" (is "wp _ ?Q V")
proof -
  have p: "wp (claim_shard [k] (me # args)) (slot_post k V me) V" for args
    using claim_shard_post [of V "[k]" "me # args"] assms by simp
  have g: "?Q (Some (Inr (toSlotClaim c))) W" if post: "slot_post k V me (Some l) W"
    and d: "script_decode claimShardScript (RawArray l) = Inr c" for l W c
  proof (intro conjI allI impI)
    fix c' assume c': "Some (Inr (toSlotClaim c)) = Some (Inr c')" and gr: "Granted c'"
    then obtain st w epoch x where l: "l = [AnyString st, w, epoch, x]" "st \<noteq> ''BUSY''"
      and e: "epoch = AnyInt (sc_Epoch c') \<or> (\<exists>s. epoch = AnyString s \<and> ParseInt s = Inr (sc_Epoch c'))"
      using decode_slot [OF d] by auto
    with post obtain n where n: "counter_at W k ''owner_epoch'' = Some n" "epoch = AnyString (lua_tostring n) \<or> epoch = AnyString (FormatInt n)"
      "counter_at V k ''owner_epoch'' = Some n \<longrightarrow> hash_at V k ''owner_id'' = Some me" and me: "hash_at W k ''owner_id'' = Some me"
      by (auto simp: slot_post_def)
    have "sc_Epoch c' = n" using n e by (auto simp: counter_at_iff dest: ParseInt_lua_tostring)
    with n me show "hash_at W k ''owner_id'' = Some me" "counter_at W k ''owner_epoch'' = Some (sc_Epoch c')"
      "counter_at V k ''owner_epoch'' = Some (sc_Epoch c') \<Longrightarrow> hash_at V k ''owner_id'' = Some me" by simp_all
  qed (use post in \<open>auto simp: slot_post_def\<close>)
  have e: "?Q None W" "?Q (Some (Inl err)) W" if "slot_post k V me x W" for err x W
    using that by (auto simp: slot_post_def)
  have v: "?Q (Some (Inl err)) V" for err by (auto intro: epoch_later_refl)
  show ?thesis unfolding claim_slot_def
  proof (rule wp_run_return [where P = "slot_post k V me"])
    show "wp (claim_shard (redisKeys (newClaimShardKeys k)) [me, nsArg now, FormatInt ttl]) (slot_post k V me) V"
      using p by (simp add: newClaimShardKeys_def)
  qed (rule v e g, assumption?)+
qed

section \<open>Runs\<close>

lemma op_epoch:
  assumes "counter_at V (OwnershipSlotKey h) ''owner_epoch'' = Some n"
  shows "wp (op_prog op) (\<lambda>_. epoch_later (OwnershipSlotKey h) V) V"
proof (cases "takes_slot h op")
  case True
  then obtain replica now ttl where op: "op = Op_slot h replica now ttl" by (cases op) auto
  have "canonical_at ''owner_epoch'' V (OwnershipSlotKey h)" using assms by (simp add: canonical_at_def)
  from claim_slot_post [OF this] show ?thesis unfolding op op_prog.simps wp_bind
    by (rule wp_mono) (use assms in \<open>auto split: option.split\<close>)
qed (use assms op_keeps_slot keeps_epoch_later in blast)

lemma keeps_fields_mono: "keeps_fields k F c \<Longrightarrow> G \<subseteq> F \<Longrightarrow> keeps_fields k G c"
  by (cases c) auto

lemma op_slot_canonical: "all_cmds (canonical_cmd ''owner_epoch'' (OwnershipSlotKey h)) (op_prog op)"
proof (cases "takes_slot h op")
  case True
  then obtain replica now ttl where op: "op = Op_slot h replica now ttl" by (cases op) auto
  have "all_cmds (canonical_cmd ''owner_epoch'' k) (claim_shard keys argv)" for k keys argv
    by (auto simp: claim_shard_def Let_def lua_num_def split: option.split)
  then show ?thesis unfolding op op_prog.simps claim_slot_def by (intro all_cmds_quiet all_cmds_ebind all_cmds_script_run) auto
next
  case False
  have "all_cmds (keeps_fields (OwnershipSlotKey h) {''owner_epoch''}) (op_prog op)"
    using op_keeps_slot [OF False] by (rule all_cmds_mono) (erule keeps_fields_mono, simp)
  then show ?thesis by (rule keep_canonical)
qed

text \<open>A claim of a slot that the store reports as granted.\<close>

inductive took_slot :: "'s redis \<Rightarrow> nat \<Rightarrow> string \<Rightarrow> 's \<Rightarrow> SlotClaim \<Rightarrow> 's \<Rightarrow> bool" for R h me where
  "rexec R (claim_slot (OwnershipSlotKey h) me now ttl) s = (Some (Inr c), t) \<Longrightarrow> Granted c \<Longrightarrow> took_slot R h me s c t"

context redis_server
begin

lemma run_epoch:
  assumes "counter_at (rd_val R s) (OwnershipSlotKey h) ''owner_epoch'' = Some n"
  shows "epoch_later (OwnershipSlotKey h) (rd_val R s) (rd_val R (cp_run R s ops))"
  using assms
proof (induction ops arbitrary: s n)
  case (Cons op ops)
  obtain r t where t: "rexec R (op_prog op) s = (r, t)" by (cases "rexec R (op_prog op) s")
  have e: "epoch_later (OwnershipSlotKey h) (rd_val R s) (rd_val R t)" using rexec_wp [OF op_epoch [OF Cons.prems] t] .
  then obtain m where "counter_at (rd_val R t) (OwnershipSlotKey h) ''owner_epoch'' = Some m" by (auto simp: epoch_later_def)
  from Cons.IH [OF this] e show ?case using t by (auto intro: epoch_later_trans)
qed (simp add: epoch_later_refl)

lemma run_slot_canonical:
  assumes "canonical_at ''owner_epoch'' (rd_val R s) (OwnershipSlotKey h)"
  shows "canonical_at ''owner_epoch'' (rd_val R (cp_run R s ops)) (OwnershipSlotKey h)"
  using assms
proof (induction ops arbitrary: s)
  case (Cons op ops)
  obtain r t where t: "rexec R (op_prog op) s = (r, t)" by (cases "rexec R (op_prog op) s")
  have "wp (op_prog op) (\<lambda>_ W. canonical_at ''owner_epoch'' W (OwnershipSlotKey h)) (rd_val R s)"
    using Cons.prems op_slot_canonical canonical_cmd_keeps
    by (intro wp_invariant [where P = "canonical_cmd ''owner_epoch'' (OwnershipSlotKey h)"]) auto
  from rexec_wp [OF this t] Cons show ?case by (simp add: t)
qed simp

lemma took_slot_leaves:
  assumes "took_slot R h me s c t" and "canonical_at ''owner_epoch'' (rd_val R s) (OwnershipSlotKey h)"
  shows "hash_at (rd_val R t) (OwnershipSlotKey h) ''owner_id'' = Some me"
    "counter_at (rd_val R t) (OwnershipSlotKey h) ''owner_epoch'' = Some (sc_Epoch c)"
    "counter_at (rd_val R s) (OwnershipSlotKey h) ''owner_epoch'' = Some n \<Longrightarrow>
      n \<le> sc_Epoch c \<and> (n = sc_Epoch c \<longrightarrow> hash_at (rd_val R s) (OwnershipSlotKey h) ''owner_id'' = Some me)"
  using assms(1) by (cases; use rexec_wp [OF claim_slot_post [OF assms(2)]] in \<open>fastforce simp: epoch_later_def\<close>)+

text \<open>Another replica's grant comes with a larger epoch, and the slot's epoch never returns.\<close>

lemma deposed:
  assumes "canonical_at ''owner_epoch'' (rd_val R s) (OwnershipSlotKey h)"
    and one: "took_slot R h a s c1 s1" and two: "took_slot R h b (cp_run R s1 ops) c2 s2" and ne: "a \<noteq> b"
  shows "sc_Epoch c1 < sc_Epoch c2"
    and "\<exists>n. counter_at (rd_val R (cp_run R s2 ops')) (OwnershipSlotKey h) ''owner_epoch'' = Some n \<and> sc_Epoch c1 < n"
proof -
  let ?k = "OwnershipSlotKey h"
  note l1 = took_slot_leaves [OF one assms(1)]
  have e: "epoch_later ?k (rd_val R s1) (rd_val R (cp_run R s1 ops))" using run_epoch [OF l1(2)] .
  then obtain n where n: "counter_at (rd_val R (cp_run R s1 ops)) ?k ''owner_epoch'' = Some n" "sc_Epoch c1 \<le> n"
    "n = sc_Epoch c1 \<Longrightarrow> hash_at (rd_val R (cp_run R s1 ops)) ?k ''owner_id'' = Some a"
    using l1(1,2) by (auto simp: epoch_later_def)
  have "canonical_at ''owner_epoch'' (rd_val R (cp_run R s1 ops)) ?k" using n(1) by (simp add: canonical_at_def)
  note l2 = took_slot_leaves [OF two this]
  show lt: "sc_Epoch c1 < sc_Epoch c2" using l2(3) [OF n(1)] n(2,3) ne by fastforce
  have "epoch_later ?k (rd_val R s2) (rd_val R (cp_run R s2 ops'))" using run_epoch [OF l2(2)] .
  with l2(2) lt show "\<exists>n. counter_at (rd_val R (cp_run R s2 ops')) ?k ''owner_epoch'' = Some n \<and> sc_Epoch c1 < n"
    by (auto simp: epoch_later_def)
qed

end

section \<open>A deposed owner is fenced\<close>

definition owner_scope :: "nat \<Rightarrow> string \<Rightarrow> int64 \<Rightarrow> OwnerScope" where
  "owner_scope h replica epoch = \<lparr>os_SlotKey = OwnershipSlotKey h, os_ReplicaID = replica, os_Epoch = FormatInt epoch\<rparr>"

lemma owner_scope_sel [simp]:
  "os_SlotKey (owner_scope h a e) = OwnershipSlotKey h" "os_ReplicaID (owner_scope h a e) = a" "os_Epoch (owner_scope h a e) = FormatInt e"
  by (simp_all add: owner_scope_def)

lemma FormatInt_nonempty [simp]: "FormatInt n \<noteq> ''''"
  by (simp add: FormatInt_def)

lemma owner_slot: "slot_role (OwnershipSlotKey h) = [(''slot'', OwnershipSlotKey h)]"
  by (simp add: slot_role_def OwnershipSlotKey_def)

lemma owner_key: "ownerScriptKey h (owner_scope h a e) = Inr (OwnershipSlotKey h)"
  by (simp add: ownerScriptKey_def)

lemmas owner_keys = armWakeKeys_def ackKeys_def releaseKeys_def expireLeaseKeys_def scheduleRetryKeys_def recordSuccessKeys_def
  Let_def owner_key owner_slot bindE_def

abbreviation fenced_off :: "(string \<Rightarrow> rvalue) \<Rightarrow> go_any list option \<Rightarrow> (string \<Rightarrow> rvalue) \<Rightarrow> bool" where
  "fenced_off V r W \<equiv> W = V \<and> (r = None \<or> r = Some [AnyString ''FENCED''])"

lemma wp_deposed:
  assumes "hash_at V slot ''owner_epoch'' \<noteq> Some epoch" and "epoch \<noteq> ''''"
  shows "wp (rbind (owner_fenced slot me epoch) (\<lambda>out. if out then status ''FENCED'' else p)) (fenced_off V) V"
  using assms unfolding owner_fenced_def wp_bind
  by (auto simp del: wp.simps(3) intro!: wp_hget)

lemma scripts_deposed:
  assumes "hash_at V slot ''owner_epoch'' \<noteq> Some epoch" and "epoch \<noteq> ''''"
  shows "lua_at keys 4 = slot \<Longrightarrow> lua_at argv 7 = epoch \<Longrightarrow> wp (arm_wake keys argv) (fenced_off V) V"
    and "lua_at keys 7 = slot \<Longrightarrow> lua_at argv (length argv) = epoch \<Longrightarrow> wp (ack keys argv) (fenced_off V) V"
    and "lua_at keys 5 = slot \<Longrightarrow> lua_at argv 6 = epoch \<Longrightarrow> wp (release keys argv) (fenced_off V) V"
    and "lua_at keys 4 = slot \<Longrightarrow> lua_at argv 4 = epoch \<Longrightarrow> wp (expire_lease keys argv) (fenced_off V) V"
    and "lua_at keys 3 = slot \<Longrightarrow> lua_at argv 7 = epoch \<Longrightarrow> wp (schedule_retry keys argv) (fenced_off V) V"
    and "lua_at keys 3 = slot \<Longrightarrow> lua_at argv 5 = epoch \<Longrightarrow> wp (record_success keys argv) (fenced_off V) V"
  unfolding arm_wake_def ack_def release_def expire_lease_def schedule_retry_def record_success_def Let_def
  using assms by (auto simp only: intro!: wp_deposed)

lemma wp_fenced_run:
  assumes "wp (lua (redisKeys k) args) (fenced_off V) V" and "script_decode ts (RawArray [AnyString ''FENCED'']) = Inr y"
  shows "wp (script_run ts lua k args) (\<lambda>r W. W = V \<and> (\<forall>x. r = Some (Inr x) \<longrightarrow> x = y)) V"
  using assms(1) unfolding script_run_def
  by (auto simp: wp_bind assms(2) split: sum.split elim!: wp_mono)

lemma decode_fenced:
  "script_decode armWakeScript (RawArray [AnyString ''FENCED'']) = Inr armWakeFenced"
  "script_decode expireLeaseScript (RawArray [AnyString ''FENCED'']) = Inr expireLeaseFenced"
  "script_decode recordSuccessScript (RawArray [AnyString ''FENCED'']) = Inr recordSuccessFenced"
  "script_decode scheduleRetryScript (RawArray [AnyString ''FENCED'']) = Inr scheduleRetryFenced"
  by code_simp+

lemma wp_fenced_return:
  assumes "wp m (\<lambda>r W. W = V \<and> (\<forall>x. r = Some (Inr x) \<longrightarrow> x = y)) V"
  shows "wp (ebind m (\<lambda>x. Ret (Inr (f x)))) (\<lambda>r W. W = V \<and> (\<forall>x. r = Some (Inr x) \<longrightarrow> x = f y)) V"
  using assms by (rule wp_then_return) simp

lemma ebind_Ret [simp]: "ebind (Ret (Inr x)) f = f x"
  by (simp add: ebind_def)

lemma epoch_field:
  assumes "counter_at V (OwnershipSlotKey (slotOf sid)) ''owner_epoch'' = Some n" and "e \<noteq> n"
  shows "hash_at V (OwnershipSlotKey (slotOf sid)) ''owner_epoch'' \<noteq> Some (FormatInt e)"
  using assms by (auto simp: counter_at_iff)

lemma armWake_deposed:
  assumes "counter_at V (OwnershipSlotKey (slotOf sid)) ''owner_epoch'' = Some n" and "e \<noteq> n"
  shows "wp (armWake st sid now ttl lease wake (owner_scope (slotOf sid) a e))
     (\<lambda>r W. W = V \<and> (\<forall>res err. r = Some (res, err) \<longrightarrow> ar_Fenced res \<or> err \<noteq> None)) V"
proof -
  obtain k where k: "armWakeKeys sid (owner_scope (slotOf sid) a e) = Inr k" by (auto simp: owner_keys)
  have "wp (script_run armWakeScript arm_wake k [x1, x2, x3, x4, x5, a, FormatInt e]) (\<lambda>r W. W = V \<and> (\<forall>x. r = Some (Inr x) \<longrightarrow> x = armWakeFenced)) V"
    for x1 x2 x3 x4 x5
    using k by (intro wp_fenced_run scripts_deposed(1) [OF epoch_field [OF assms]]) (auto simp: owner_keys decode_fenced)
  then have "wp (runMaybePinned st armWakeScript arm_wake k [x1, x2, x3, x4, x5, a, FormatInt e])
      (\<lambda>r W. W = V \<and> (\<forall>x. r = Some (Inr x) \<longrightarrow> x = armWakeFenced)) V" for x1 x2 x3 x4 x5
    by (simp add: runMaybePinned_def)
  then show ?thesis unfolding armWake_def wp_bind owner_scope_sel k ebind_Ret
    by (rule wp_mono) (auto simp: arm_result_def split: option.split sum.splits armWakeReply.splits)
qed

lemma ackShard_deposed:
  assumes "counter_at V (OwnershipSlotKey (slotOf sid)) ''owner_epoch'' = Some n" and "e \<noteq> n"
  shows "wp (ackShard sid g rg rw tg d acks now ttl (owner_scope (slotOf sid) a e)) (\<lambda>r W. W = V \<and> (\<forall>x. r = Some (Inr x) \<longrightarrow> x = ''FENCED'')) V"
proof -
  obtain k where k: "ackKeys sid g (owner_scope (slotOf sid) a e) = Inr k" by (auto simp: owner_keys)
  have "wp (script_run ackScript ack k (xs @ ys @ [a, FormatInt e])) (\<lambda>r W. W = V \<and> (\<forall>x. r = Some (Inr x) \<longrightarrow> x = ackFenced)) V" for xs ys
    using k by (intro wp_fenced_run scripts_deposed(2) [OF epoch_field [OF assms]]) (auto simp: owner_keys decode_refusals lua_at_def nth_append)
  note run = wp_fenced_return [OF this]
  show ?thesis unfolding ackShard_def k ebind_Ret owner_scope_sel by (rule wp_mono [OF run]) simp
qed

lemma release_deposed:
  assumes "counter_at V (OwnershipSlotKey (slotOf sid)) ''owner_epoch'' = Some n" and "e \<noteq> n"
  shows "wp (store_release sid rg rw tg (owner_scope (slotOf sid) a e)) (\<lambda>r W. W = V \<and> (\<forall>x. r = Some (Inr x) \<longrightarrow> x = ''FENCED'')) V"
proof -
  obtain k where k: "releaseKeys sid (owner_scope (slotOf sid) a e) = Inr k" by (auto simp: owner_keys)
  have "wp (script_run releaseScript release k ([x1, x2, x3, x4, a, FormatInt e])) (\<lambda>r W. W = V \<and> (\<forall>x. r = Some (Inr x) \<longrightarrow> x = releaseFenced)) V" for x1 x2 x3 x4
    using k by (intro wp_fenced_run scripts_deposed(3) [OF epoch_field [OF assms]]) (auto simp: owner_keys decode_refusals)
  note run = wp_fenced_return [OF this]
  show ?thesis unfolding store_release_def k ebind_Ret owner_scope_sel by (rule wp_mono [OF run]) simp
qed

lemma expireLease_deposed:
  assumes "counter_at V (OwnershipSlotKey (slotOf sid)) ''owner_epoch'' = Some n" and "e \<noteq> n"
  shows "wp (expireLease sid now (owner_scope (slotOf sid) a e)) (\<lambda>r W. W = V \<and> (\<forall>x. r = Some (Inr x) \<longrightarrow> x = ''FENCED'')) V"
proof -
  obtain k where k: "expireLeaseKeys sid (owner_scope (slotOf sid) a e) = Inr k" by (auto simp: owner_keys)
  have "wp (script_run expireLeaseScript expire_lease k ([x1, x2, a, FormatInt e])) (\<lambda>r W. W = V \<and> (\<forall>x. r = Some (Inr x) \<longrightarrow> x = expireLeaseFenced)) V" for x1 x2
    using k by (intro wp_fenced_run scripts_deposed(4) [OF epoch_field [OF assms]]) (auto simp: owner_keys decode_fenced)
  note run = wp_fenced_return [OF this]
  show ?thesis unfolding expireLease_def k ebind_Ret owner_scope_sel by (rule wp_mono [OF run]) simp
qed

lemma recordSuccess_deposed:
  assumes "counter_at V (OwnershipSlotKey (slotOf sid)) ''owner_epoch'' = Some n" and "e \<noteq> n"
  shows "wp (recordSuccess sid gen wake (owner_scope (slotOf sid) a e)) (\<lambda>r W. W = V \<and> (\<forall>x. r = Some (Inr x) \<longrightarrow> x = ''FENCED'')) V"
proof -
  obtain k where k: "recordSuccessKeys sid (owner_scope (slotOf sid) a e) = Inr k" by (auto simp: owner_keys)
  have "wp (script_run recordSuccessScript record_success k ([x1, x2, x3, a, FormatInt e])) (\<lambda>r W. W = V \<and> (\<forall>x. r = Some (Inr x) \<longrightarrow> x = recordSuccessFenced)) V" for x1 x2 x3
    using k by (intro wp_fenced_run scripts_deposed(6) [OF epoch_field [OF assms]]) (auto simp: owner_keys decode_fenced)
  note run = wp_fenced_return [OF this]
  show ?thesis unfolding recordSuccess_def k ebind_Ret owner_scope_sel by (rule wp_mono [OF run]) simp
qed

end
