(* ===== verification/Webhook_Demo.thy ===== *)
theory Webhook_Demo
  imports Webhook_Owners Redis_Memory "HOL-Library.Code_Target_Nat"
begin

text \<open>
  A run of the control plane evaluated on the executable server: a subscription is created and
  claimed twice, and a slot changes hands.  The theorems about all runs are applied to it.  A program
  is evaluated command by command; the congruence rule keeps the simplifier out of continuations
  whose reply is not known yet.
\<close>

lemma Call_weak_cong: "c = c' \<Longrightarrow> Call c g = Call c' g"
  by simp

lemmas on_server = mem_call_def mem_put_def Let_def lua_num_def ebind_def reply_field_def script_run_def runMaybePinned_def

section \<open>A slot that changes hands\<close>

abbreviation demo_ns :: "int \<Rightarrow> gotime" where
  "demo_ns n \<equiv> \<lparr>tm_sec = 0, tm_nsec = n\<rparr>"

lemma demo_numbers:
  "nsArg (demo_ns 1) = ''1''" "nsArg (demo_ns 2000000) = ''2000000''" "FormatInt 0 = ''0''" "FormatInt 1 = ''1''" "FormatInt 2 = ''2''"
  "parse_double ''0'' = Some 0" "parse_double ''1'' = Some 1" "parse_double ''2000000'' = Some 2000000" "parse_double ''1000001'' = Some 1000001"
  by code_simp+

lemma demo_deadlines: "deadline 1 1 = 1000001" "deadline 2000000 1 = 3000000"
  by (simp_all add: lua_add_def lua_mult_def to_double_exact)

lemma demo_prints: "lua_tostring 1000001 = ''1000001''" "lua_tostring 3000000 = ''3000000''" "lua_tostring 1 = ''1''" "lua_tostring 2 = ''2''"
proof -
  have "FormatInt 1000001 = ''1000001''" "FormatInt 3000000 = ''3000000''" by code_simp+
  then show "lua_tostring 1000001 = ''1000001''" "lua_tostring 3000000 = ''3000000''" "lua_tostring 1 = ''1''" "lua_tostring 2 = ''2''"
    by (simp_all add: lua_tostring_small demo_numbers)
qed

lemma demo_counters: "counter_value None = Some 0" "counter_value (Some ''0'') = Some 0" "counter_value (Some ''1'') = Some 1"
    "is_i64 1" "is_i64 2"
  by code_simp+

lemmas demo_arith = demo_numbers demo_deadlines demo_prints demo_counters tonumber_or_0_def tonumber_def

abbreviation demo_slot_key :: string where
  "demo_slot_key \<equiv> ''ds:{__ds:44}:ownership:slot:44''"

lemma demo_slot_keys: "OwnershipSlotKey 44 = demo_slot_key"
  by code_simp

abbreviation demo_take :: "string \<Rightarrow> int \<Rightarrow> (script_error + SlotClaim) rprog" where
  "demo_take replica now \<equiv> claim_slot (OwnershipSlotKey 44) replica (demo_ns now) 1"

abbreviation demo_owner :: "string \<Rightarrow> int64 \<Rightarrow> int64 \<Rightarrow> SlotClaim" where
  "demo_owner replica epoch expiry \<equiv> \<lparr>sc_Status = SlotClaimed, sc_Owner = replica, sc_Epoch = epoch, sc_ExpiryNs = expiry\<rparr>"

definition demo_held :: "string \<Rightarrow> string \<Rightarrow> string \<Rightarrow> (string \<times> string) list" where
  "demo_held replica epoch expiry = [(''lease_expiry_ns'', expiry), (''owner_id'', replica), (''owner_epoch'', epoch)]"

definition demo_o1 :: mem where
  "demo_o1 = [(demo_slot_key, MHash (demo_held ''r1'' ''1'' ''1000001''))]"

definition demo_o2 :: mem where
  "demo_o2 = [(demo_slot_key, MHash (demo_held ''r2'' ''2'' ''3000000'' @ demo_held ''r1'' ''1'' ''1000001''))]"

lemma demo_slot_calls:
  "validateCall (ts_abi claimShardScript) (newClaimShardKeys demo_slot_key) (map AnyString [''r1'', ''1'', ''1'']) = Inr ()"
  "validateCall (ts_abi claimShardScript) (newClaimShardKeys demo_slot_key) (map AnyString [''r2'', ''2000000'', ''1'']) = Inr ()"
  by code_simp+

lemma demo_slot_replies:
  "script_decode claimShardScript (RawArray [AnyString ''CLAIMED'', AnyString ''r1'', AnyString ''1'', AnyString ''1000001'']) =
     Inr (slotClaimClaimed ''r1'' 1 1000001)"
  "script_decode claimShardScript (RawArray [AnyString ''CLAIMED'', AnyString ''r2'', AnyString ''2'', AnyString ''3000000'']) =
     Inr (slotClaimClaimed ''r2'' 2 3000000)"
  by code_simp+

lemma demo_taken: "rexec mem_redis (demo_take ''r1'' 1) [] = (Some (Inr (demo_owner ''r1'' 1 1000001)), demo_o1)"
  unfolding claim_slot_def demo_slot_keys demo_numbers script_run_def demo_slot_calls sum.case
  by (simp add: on_server demo_arith demo_slot_replies claim_shard_def newClaimShardKeys_def demo_o1_def demo_held_def
      cong: Call_weak_cong)

lemma demo_retaken: "rexec mem_redis (demo_take ''r2'' 2000000) demo_o1 = (Some (Inr (demo_owner ''r2'' 2 3000000)), demo_o2)"
  unfolding claim_slot_def demo_slot_keys demo_numbers script_run_def demo_slot_calls sum.case
  by (simp add: on_server demo_arith demo_slot_replies claim_shard_def newClaimShardKeys_def demo_o1_def demo_o2_def demo_held_def
      cong: Call_weak_cong)

lemma demo_slots:
  "took_slot mem_redis 44 ''r1'' (cp_run mem_redis [] []) (demo_owner ''r1'' 1 1000001) demo_o1"
  "took_slot mem_redis 44 ''r2'' (cp_run mem_redis demo_o1 []) (demo_owner ''r2'' 2 3000000) demo_o2"
  using demo_taken demo_retaken by (auto simp: Granted_def intro: took_slot.intros)

section \<open>A subscription claimed twice\<close>

definition demo_store :: RedisStore where
  "demo_store = \<lparr>rs_durPlan = DurabilityFor TierA 0 0, rs_pinned = False, rs_wait = None\<rparr>"

definition demo_config :: Config where
  "demo_config =
     \<lparr>cf_Type = ''pull-wake'', cf_Pattern = '''', cf_Streams = [''s''], cf_WebhookURL = '''', cf_WakeStream = ''w'',
      cf_LeaseTTLMs = 1000, cf_Description = ''''\<rparr>"

abbreviation demo_links :: "StreamLink list" where
  "demo_links \<equiv> [\<lparr>sl_Path = ''s'', sl_LinkType = ''explicit'', sl_AckedOffset = ''-1''\<rparr>]"

definition demo_create :: cp_op where
  "demo_create = Op_create (\<lambda>_. ''h'') ''a'' demo_config demo_links (demo_ns 1) ''o''"

definition demo_expectation :: SubscriptionExpectation where
  "demo_expectation = \<lparr>se_Incarnation = ''1'', se_OwnerSubject = ''o'', se_CfgHash = ''68'', se_Paths = [''s'']\<rparr>"

abbreviation demo_claim :: "string \<Rightarrow> string \<Rightarrow> int \<Rightarrow> (ClaimResult \<times> script_error option) rprog" where
  "demo_claim worker wake now \<equiv> claimShardAuthorized demo_store ''a'' 0 worker wake demo_expectation (demo_ns now) 1"

abbreviation demo_grant :: "int64 \<Rightarrow> string \<Rightarrow> string \<Rightarrow> ClaimResult" where
  "demo_grant n wake worker \<equiv> zero_claim\<lparr>cr_Claimed := True, cr_Generation := n, cr_WakeID := wake, cr_Holder := worker\<rparr>"

text \<open>The values the run goes through.\<close>

definition demo_record :: "(string \<times> string) list" where
  "demo_record =
     [(''next_attempt_ns'', ''0''), (''first_fail_ns'', ''0''), (''retry_count'', ''0''), (''lease_until_ns'', ''0''),
      (''holder_worker'', ''''), (''holder'', ''0''), (''wake_id'', ''''), (''generation'', ''0''), (''phase'', ''idle''),
      (''status'', ''active''), (''incarnation'', ''1''), (''owner'', ''o''), (''description'', ''''), (''lease_ttl_ms'', ''1000''),
      (''wake_stream'', ''w''), (''webhook_url'', ''''), (''pattern'', ''''), (''type'', ''pull-wake''),
      (''created_ns'', ''1''), (''cfg_hash'', ''68''), (''id'', ''a'')]"

definition demo_mem :: "(string \<times> string) list \<Rightarrow> mem" where
  "demo_mem fvs =
     [(''ds:{__ds:44}:sub:a:incarnation'', MString ''1''),
      (''ds:{__ds:44}:sub:a'', MHash (fvs @ demo_record)),
      (''ds:{__ds:44}:subs'', MSet [''a'']),
      (''ds:{__ds:44}:sub:a:links'', MHash [(''s'', ''explicit:-1'')]),
      (''ds:{__ds:44}:stream:s'', MSet [''a'']),
      (''ds:{__ds-occ}:streamslots:s'', MString [CHR 0x00, CHR 0x00, CHR 0x00, CHR 0x00, CHR 0x00, CHR 0x08])]"

definition demo_lease :: "string \<Rightarrow> string \<Rightarrow> string \<Rightarrow> string \<Rightarrow> (string \<times> string) list" where
  "demo_lease gen wake worker until =
     [(''incarnation'', ''1''), (''lease_until_ns'', until), (''holder_worker'', worker), (''holder'', ''1''), (''phase'', ''live''),
      (''wake_id'', wake), (''generation'', gen)]"

definition demo_s1 :: mem where
  "demo_s1 = demo_mem (demo_lease ''1'' ''k1'' ''w1'' ''1000001'') @ [(''ds:{__ds:44}:sched:lease'', MZSet [(''a'', 1000001)])]"

definition demo_s2 :: mem where
  "demo_s2 =
     demo_mem (demo_lease ''2'' ''k2'' ''w2'' ''3000000'' @ demo_lease ''1'' ''k1'' ''w1'' ''1000001'')
     @ [(''ds:{__ds:44}:sched:lease'', MZSet [(''a'', 3000000), (''a'', 1000001)])]"

lemmas demo_states = demo_s1_def demo_s2_def demo_mem_def demo_lease_def demo_record_def

lemma demo_keys:
  "slotOf ''a'' = 44" "streamSubsKey 44 ''s'' = ''ds:{__ds:44}:stream:s''" "streamSlotsKey ''s'' = ''ds:{__ds-occ}:streamslots:s''"
  "newCreateSubKeys ''a'' =
     [(''sub'', ''ds:{__ds:44}:sub:a''), (''subs_set'', ''ds:{__ds:44}:subs''), (''links'', ''ds:{__ds:44}:sub:a:links''),
      (''incarnation_counter'', ''ds:{__ds:44}:sub:a:incarnation'')]"
  "claimKeys ''a'' 0 =
     [(''sub_config'', ''ds:{__ds:44}:sub:a''), (''shardstate'', ''ds:{__ds:44}:sub:a''), (''lease_zset'', ''ds:{__ds:44}:sched:lease''),
      (''incarnation_counter'', ''ds:{__ds:44}:sub:a:incarnation''), (''shard_registry'', ''ds:{__ds:44}:sub:a:shards''),
      (''links'', ''ds:{__ds:44}:sub:a:links'')]"
  "set_bit_in '''' 44 = [CHR 0x00, CHR 0x00, CHR 0x00, CHR 0x00, CHR 0x00, CHR 0x08]"
  by code_simp+

abbreviation demo_create_args :: "string list" where
  "demo_create_args \<equiv>
     [''a'', ''68'', ''1'', ''pull-wake'', '''', '''', ''w'', ''1000'', '''', ''o'', ''1'', ''s'', ''explicit'', ''-1'']"

abbreviation demo_claim_args :: "string \<Rightarrow> string \<Rightarrow> string \<Rightarrow> string list" where
  "demo_claim_args worker wake now \<equiv> [''a'', worker, now, ''1'', wake, ''0'', ''o'', ''1'', ''68'', ''1'', ''s'']"

lemma demo_args:
  "create_args (\<lambda>_. ''h'') ''a'' (NormalizeConfig demo_config) demo_links (demo_ns 1) ''o'' = demo_create_args"
  "appendSubscriptionExpectation [shardMember ''a'' 0, ''w1'', nsArg (demo_ns 1), FormatInt 1, ''k1'', FormatInt 0] demo_expectation =
     Inr (demo_claim_args ''w1'' ''k1'' ''1'')"
  "appendSubscriptionExpectation [shardMember ''a'' 0, ''w2'', nsArg (demo_ns 2000000), FormatInt 1, ''k2'', FormatInt 0] demo_expectation =
     Inr (demo_claim_args ''w2'' ''k2'' ''2000000'')"
  by code_simp+

lemma demo_calls:
  "validateCall (ts_abi createSubScript) (newCreateSubKeys ''a'') (map AnyString demo_create_args) = Inr ()"
  "validateCall (ts_abi claimScript) (claimKeys ''a'' 0) (map AnyString (demo_claim_args ''w1'' ''k1'' ''1'')) = Inr ()"
  "validateCall (ts_abi claimScript) (claimKeys ''a'' 0) (map AnyString (demo_claim_args ''w2'' ''k2'' ''2000000'')) = Inr ()"
  by code_simp+

lemma demo_replies:
  "script_decode createSubScript (RawArray [AnyString ''CREATED'', AnyString ''o'']) = Inr (createSubCreated ''o'')"
  "script_decode claimScript (RawArray [AnyString ''CLAIMED'', AnyString ''1'', AnyString ''k1'', AnyString ''w1'']) =
     Inr (claimClaimed 1 ''k1'' ''w1'')"
  "script_decode claimScript (RawArray [AnyString ''CLAIMED'', AnyString ''2'', AnyString ''k2'', AnyString ''w2'']) =
     Inr (claimClaimed 2 ''k2'' ''w2'')"
  "claim_result demo_store (Inr (claimClaimed n wake worker)) = (demo_grant n wake worker, None)" for n wake worker
  by (code_simp, code_simp, code_simp, simp add: claim_result_def after_mint_def awaitDurableOn_def demo_store_def DurabilityFor_def)

lemma demo_tier: "\<not> dp_Wait (rs_durPlan demo_store)"
  by (simp add: demo_store_def DurabilityFor_def)

lemma demo_created: "cp_run mem_redis [] [demo_create] = demo_mem []"
  unfolding cp_run.simps demo_create_def op_prog.simps CreateOrConfirmOwned_def demo_args script_run_def demo_calls sum.case
  by (simp add: on_server demo_arith demo_replies demo_keys create_sub_def indexStream_def demo_states
      cong: Call_weak_cong)

lemmas demo_claim_defs = claim_def claim_body_def claim_grant_def claim_finish_def subscription_expectation_status_def paths_from_def

lemma demo_first: "rexec mem_redis (demo_claim ''w1'' ''k1'' 1) (demo_mem []) = (Some (demo_grant 1 ''k1'' ''w1'', None), demo_s1)"
  unfolding claimShardAuthorized_def demo_args ebind_Ret runMaybePinned_def script_run_def demo_calls sum.case
  by (simp add: on_server demo_arith demo_replies demo_keys demo_tier demo_claim_defs demo_states cong: Call_weak_cong)

lemma demo_second: "rexec mem_redis (demo_claim ''w2'' ''k2'' 2000000) demo_s1 = (Some (demo_grant 2 ''k2'' ''w2'', None), demo_s2)"
  unfolding claimShardAuthorized_def demo_args ebind_Ret runMaybePinned_def script_run_def demo_calls sum.case
  by (simp add: on_server demo_arith demo_replies demo_keys demo_tier demo_claim_defs demo_states cong: Call_weak_cong)

lemma demo_grants:
  "granted mem_redis ''a'' 0 (cp_run mem_redis [] [demo_create]) (demo_grant 1 ''k1'' ''w1'') demo_s1"
  "granted mem_redis ''a'' 0 (cp_run mem_redis demo_s1 []) (demo_grant 2 ''k2'' ''w2'') demo_s2"
  unfolding demo_created using demo_first demo_second by (auto intro: granted.intros)

lemma demo_ids: "plain_id ''a''" "op_ids_ok demo_create"
  by (simp_all add: plain_id_def demo_create_def)

end
