(* ===== verification/Webhook_Safety.thy ===== *)
theory Webhook_Safety
  imports Webhook_Demo
begin

text \<open>
  Fencing over whole executions of the control plane, on any server that behaves as Redis
  documents: the claims of a shard have increasing generations, a superseded claim can no longer
  acknowledge, release or write, and a deposed owner of a slot can no longer act for it.
\<close>

section \<open>Claims\<close>

lemma fresh_canonical:
  assumes "redis_server R" and "plain_id sid" and "rd_val R s (subShardKey sid g) = RNone" and "\<forall>op \<in> set ops. op_ids_ok op"
  shows "canonical_at ''generation'' (rd_val R (cp_run R s ops)) (subShardKey sid g)"
  using redis_server.run_canonical [OF assms(1,2,4)] assms(3) by (simp add: canonical_at_def hash_at_def)



lemma wp_outcome:
  assumes "redis_server R" and "wp m (\<lambda>r W. W = V \<and> (\<forall>x. r = Some (Inr x) \<longrightarrow> P x)) (rd_val R s)" and "V = rd_val R s"
  shows "rd_val R (snd (rexec R m s)) = rd_val R s" and "fst (rexec R m s) = Some (Inr x) \<Longrightarrow> P x"
  using redis_server.rexec_wp [OF assms(1,2) surjective_pairing [of "rexec R m s"]] assms(3) by auto

lemma check_write_fence_status:
  assumes "counter_at V (subShardKey sid g) ''generation'' = Some m" and "gen \<noteq> m"
  shows "wp (CheckWriteFence sid g inc gen wake holder now) (\<lambda>r W. W = V \<and> (\<forall>x. r = Some (Inr x) \<longrightarrow> x \<noteq> ''OK'')) V"
  unfolding CheckWriteFence_def using write_fence_refused [OF assms] by (rule wp_then_return)



section \<open>Slots\<close>

lemma fresh_slot_canonical:
  assumes "redis_server R" and "rd_val R s (OwnershipSlotKey h) = RNone"
  shows "canonical_at ''owner_epoch'' (rd_val R (cp_run R s ops)) (OwnershipSlotKey h)"
  using redis_server.run_slot_canonical [OF assms(1)] assms(2) by (simp add: canonical_at_def hash_at_def)

text \<open>C5: When a slot passes to another replica, its epoch strictly increases, and an operation that
is scoped to the former owner's epoch is fenced for good: after any further operations, arming a
wake, acknowledging, releasing, expiring a lease or recording a delivery under it reports FENCED or an
error and changes nothing on the server.\<close>

theorem deposed_owner_fenced:
  fixes R :: "'s redis" and after :: "cp_op list"
  assumes "redis_server R" and "rd_val R s (OwnershipSlotKey (slotOf sid)) = RNone"
    and "took_slot R (slotOf sid) a (cp_run R s before) c1 s1"
    and "took_slot R (slotOf sid) b (cp_run R s1 between) c2 s2" and "a \<noteq> b"
  defines "deposed \<equiv> owner_scope (slotOf sid) a (sc_Epoch c1)" and "t \<equiv> cp_run R s2 after"
  shows "sc_Epoch c1 < sc_Epoch c2 \<and>
    (\<forall>res err. fst (rexec R (armWake st sid now ttl lease wake deposed) t) = Some (res, err) \<longrightarrow> ar_Fenced res \<or> err \<noteq> None) \<and>
    rd_val R (snd (rexec R (armWake st sid now ttl lease wake deposed) t)) = rd_val R t \<and>
    (\<forall>op \<in> {ackShard sid g gen wake tokenGen isDone acks now ttl deposed, store_release sid gen wake tokenGen deposed,
             expireLease sid now deposed, recordSuccess sid gen wake deposed}.
       (\<forall>x. fst (rexec R op t) = Some (Inr x) \<longrightarrow> x = ''FENCED'') \<and> rd_val R (snd (rexec R op t)) = rd_val R t)"
proof -
  note d = redis_server.deposed [OF assms(1) fresh_slot_canonical [OF assms(1,2)] assms(3-5)]
  obtain n where n: "counter_at (rd_val R t) (OwnershipSlotKey (slotOf sid)) ''owner_epoch'' = Some n" "sc_Epoch c1 \<noteq> n"
    using d(2) [of after] by (auto simp: t_def)
  have arm: "(\<forall>res err. fst (rexec R (armWake st sid now ttl lease wake deposed) t) = Some (res, err) \<longrightarrow> ar_Fenced res \<or> err \<noteq> None) \<and>
      rd_val R (snd (rexec R (armWake st sid now ttl lease wake deposed) t)) = rd_val R t"
    using redis_server.rexec_wp [OF assms(1) armWake_deposed [OF n] surjective_pairing] unfolding deposed_def by blast
  note w = wp_outcome [OF assms(1) ackShard_deposed [OF n] refl] wp_outcome [OF assms(1) release_deposed [OF n] refl]
    wp_outcome [OF assms(1) expireLease_deposed [OF n] refl] wp_outcome [OF assms(1) recordSuccess_deposed [OF n] refl]
  show ?thesis using d(1) arm w unfolding deposed_def by auto
qed

theorem deposed_owner_fenced_witness:
  "(1 :: int) < 2 \<and> rd_val mem_redis (snd (rexec mem_redis (expireLease ''a'' (demo_ns 3) (owner_scope 44 ''r1'' 1)) demo_o2)) = rd_val mem_redis demo_o2"
  using deposed_owner_fenced [OF mem.redis_server_axioms _ demo_slots [folded demo_keys(1)], where after = "[]"] by (simp add: demo_keys)

end
