(* ===== verification/Spec2Isabelle.thy ===== *)
theory Spec2Isabelle
  imports Stream_Offset Redis_Demo Stream_Types Auth_Fence Durable_Externalization Producer Write_Fence
    Json_Frames Store_Replace Store_Wakeups Webhook_Glob Webhook_Slots Webhook_State Webhook_Safety
begin

text \<open>
  Chronicle is a durable-streams server: append-only byte or JSON streams addressed by path,
  with idempotent producers, forks, expiry, closure, write fencing by leased claims and
  long-poll or SSE reads.  (Header completed as the theories are added.)
\<close>

section \<open>Offsets\<close>

text \<open>
  C18: Parsing the printed form of an offset gives the offset back, and below the sixteen
  digits the format pads to, the printed forms sort as strings exactly as the offsets do.
\<close>
theorem offset_wire_format:
  "ParseOffset (offset_String a) = Inr a \<and>
   (narrow_offset a \<and> narrow_offset b \<longrightarrow> (offset_String a < offset_String b \<longleftrightarrow> a < b))"
  by (simp add: ParseOffset_offset_String offset_String_less_iff)

theorem offset_wire_format_witness:
  "offset_String (Offset 0 9) < offset_String (Offset 0 10) \<longleftrightarrow> Offset 0 9 < Offset 0 10"
  using offset_wire_format [of "Offset 0 9" "Offset 0 10"] by (simp add: narrow_offset_def)

section \<open>Histories\<close>

text \<open>
  C1: Over any interleaving of store operations, a stream that is still the same incarnation has
  the messages it had, followed by messages that continue its offsets to the new tail; a closed
  stream has gained nothing, stays closed and keeps its producers.
\<close>
theorem append_only_history:
  assumes "log_init i" and "log_machine.run i ops1 x" and "log_machine.run x ops2 y"
    and "ms_streams (fst x) p = Some a" and "ms_streams (fst y) p = Some b"
    and "sm_Incarnation (st_metadata b) = sm_Incarnation (st_metadata a)"
  shows "\<exists>new. st_messages b = st_messages a @ new \<and>
    chain (sm_CurrentOffset (st_metadata a)) new (sm_CurrentOffset (st_metadata b)) \<and>
    (sm_Closed (st_metadata a) \<longrightarrow>
       new = [] \<and> sm_Closed (st_metadata b) \<and> sm_Producers (st_metadata b) = sm_Producers (st_metadata a)) \<and>
    sm_LastSeq (st_metadata a) \<le> sm_LastSeq (st_metadata b)"
proof -
  from reachable_extends [OF assms] have e: "extends a b" and ok: "stream_ok a" "stream_ok b" by auto
  from e obtain new where new: "st_messages b = st_messages a @ new" by (auto simp: extends_def)
  have "sm_ForkOffset (st_metadata b) = sm_ForkOffset (st_metadata a)"
    using e by (simp add: extends_def identity_of_def Let_def)
  with ok new have "chain (sm_CurrentOffset (st_metadata a)) new (sm_CurrentOffset (st_metadata b))"
    by (auto simp: stream_ok_def chain_append dest: chain_unique)
  with new e show ?thesis by (auto simp: extends_def)
qed

theorem append_only_history_witness:
  "\<exists>new. st_messages stream_ay = st_messages (upd_meta (sm_RefCount_update (\<lambda>_. 1)) stream_a) @ new \<and>
     chain (Offset 0 1) new (Offset 0 2)"
  using append_only_history [OF log_demo log_demo_ab log_demo_aby, of "''/a''"
      "upd_meta (sm_RefCount_update (\<lambda>_. 1)) stream_a" stream_ay]
  by auto

text \<open>
  C2: An append with producer headers takes effect at most once: after it was accepted, whatever
  ran in between, a request with the same producer, epoch and sequence number on the same stream
  adds nothing and is answered with an error or as a duplicate.
\<close>
theorem exactly_once_append:
  assumes "log_init i" and "log_machine.run i ops1 (s, U)"
    and "Append env path data opts s = (r, s1)" and "snd r = None"
    and "ar_ProducerResult (fst r) = ProducerResultAccepted"
    and "log_machine.run (s1, U) ops2 (t, V)"
    and "ms_streams s1 path = Some a" and "ms_streams t path = Some b"
    and "sm_Incarnation (st_metadata b) = sm_Incarnation (st_metadata a)"
    and "Append env' path data' opts' t = (r', t1)" and "HasAllProducerHeaders opts'"
    and "ao_ProducerId opts' = ao_ProducerId opts"
    and "ao_ProducerEpoch opts' = ao_ProducerEpoch opts" and "ao_ProducerSeq opts' = ao_ProducerSeq opts"
  shows "(snd r' \<noteq> None \<or> ar_ProducerResult (fst r') = ProducerResultDuplicate) \<and>
    (\<exists>c. ms_streams t1 path = Some c \<and> st_messages c = st_messages b)"
proof -
  from Append_accepted_producer [OF assms(3-5)] assms(7) obtain p where
    p: "sm_Producers (st_metadata a) (ao_ProducerId opts) = Some p"
      "ps_Epoch p = the (ao_ProducerEpoch opts)" "ps_LastSeq p = the (ao_ProducerSeq opts)" by auto
  have "log_step (s, U) (env, Op_Append path data opts) (s1, U)" using assms(3) by (simp add: log_step_def)
  with log_machine.init_run_inv [OF assms(1,2)] have "log_inv (s1, U)" by (rule log_step_props [THEN conjunct1])
  with log_run_rel [OF assms(6)] assms(7-9) have "extends a b"
    by (fastforce simp: log_rel_def log_inv_def)
  then obtain q where q: "sm_Producers (st_metadata b) (ao_ProducerId opts) = Some q" "producer_le p q"
    using p(1) by (auto simp: extends_def producers_le_def)
  let ?n = "\<lparr>ps_Epoch = the (ao_ProducerEpoch opts'), ps_LastSeq = the (ao_ProducerSeq opts'), ps_LastUpdated = 0\<rparr>"
  have le: "producer_le ?n q" using p q assms(13,14) by (simp add: producer_le_def)
  have "\<exists>c. ms_streams t1 path = Some c \<and> st_messages c = st_messages b"
    using Append_not_beyond [OF assms(10,8,11) _ le] q(1) assms(12) by auto
  moreover have "snd r' \<noteq> None \<or> ar_ProducerResult (fst r') = ProducerResultDuplicate"
    using assms(10)
  proof (cases rule: Append_cases)
    case (accepted st ps off st1 u)
    then have "producer_accepts (Some q) (the (ao_ProducerEpoch opts')) (the (ao_ProducerSeq opts'))"
      using assms(8,11,12) q(1) by (simp add: append_accepts_def producer_step_def)
    with le have False by (auto simp: producer_accepts_def producer_le_def)
    then show ?thesis ..
  qed auto
  ultimately show ?thesis by blast
qed

theorem exactly_once_append_witness:
  "ar_ProducerResult (fst (fst (Append (env_at 3 []) ''/a'' ''again'' append_opts demo_aby))) = ProducerResultDuplicate \<and>
   (\<exists>c. ms_streams (snd (Append (env_at 3 []) ''/a'' ''again'' append_opts demo_aby)) ''/a'' = Some c \<and>
        st_messages c = st_messages stream_ay)"
proof -
  have acc: "Append (env_at 2 []) ''/a'' ''y'' append_opts demo_ab = ((accepted_result append_opts (Offset 0 2), None), demo_aby)"
    using append_demo(1) by (simp add: demo_aby_def prod_eq_iff)
  have h: "HasAllProducerHeaders append_opts" by (simp add: append_opts_def append_with_def HasAllProducerHeaders_def)
  have res: "snd (fst (Append (env_at 3 []) ''/a'' ''again'' append_opts demo_aby)) = None"
    by (simp add: demo_eval append_demo demo_streams append_opts_def append_with_def Append_def append_open_def
        HasProducerHeaders_def HasAllProducerHeaders_def fenceRung_def validateProducer_def ValidateProducer_def
        getProducerLock_def AppendResult0_def WriteFenceOutcome0_def)
  obtain r t where run: "Append (env_at 3 []) ''/a'' ''again'' append_opts demo_aby = (r, t)" by fastforce
  from exactly_once_append [OF log_demo log_demo_ab acc _ _ log_machine.run_Nil demo_lookup(3) demo_lookup(3) refl run h]
  show ?thesis using res run h by (simp add: accepted_result_def)
qed
text \<open>
  C13: Closing is final: whatever runs after a successful close, the stream (same incarnation) stays
  closed, its tail is the reported final offset and its messages are those at the close.
\<close>
theorem close_is_final:
  assumes "log_init i" and "log_machine.run i ops1 (s, U)"
    and "CloseStream env path s = ((Some res, None), s1)" and "log_machine.run (s1, U) ops2 (t, V)"
    and "ms_streams s path = Some a" and "ms_streams t path = Some b"
    and "sm_Incarnation (st_metadata b) = sm_Incarnation (st_metadata a)"
  shows "sm_Closed (st_metadata b) \<and> sm_CurrentOffset (st_metadata b) = cr_FinalOffset res \<and>
    st_messages b = st_messages a"
proof -
  let ?a = "upd_meta (sm_Closed_update (\<lambda>_. True)) a"
  from assms(3,5) closeStream_cases [of env path None s "(Some res, None)" s1]
  have a1: "ms_streams s1 path = Some ?a" and res: "cr_FinalOffset res = sm_CurrentOffset (st_metadata a)"
    by (auto simp: CloseStream_def)
  have "log_step (s, U) (env, Op_CloseStream path) (s1, U)" using assms(3) by (simp add: log_step_def)
  with log_machine.init_run_inv [OF assms(1,2)] have "log_inv (s1, U)" by (rule log_step_props [THEN conjunct1])
  with log_run_rel [OF assms(4)] assms(6,7) a1 have "extends ?a b"
    by (fastforce simp: log_rel_def log_inv_def)
  with res show ?thesis by (simp add: extends_def)
qed

theorem close_is_final_witness:
  "\<exists>b. ms_streams (snd (CloseStream (env_at 3 []) ''/b'' demo_aby)) ''/b'' = Some b \<and>
     sm_Closed (st_metadata b) \<and> st_messages b = st_messages stream_b"
proof -
  let ?s1 = "snd (CloseStream (env_at 3 []) ''/b'' demo_aby)"
  let ?b = "upd_meta (sm_Closed_update (\<lambda>_. True)) stream_b"
  have c: "CloseStream (env_at 3 []) ''/b'' demo_aby =
      ((Some (CloseResult0\<lparr>cr_FinalOffset := Offset 0 1, cr_AlreadyClosed := False\<rparr>), None), ?s1)" "ms_streams ?s1 ''/b'' = Some ?b"
    by (simp_all add: CloseStream_def closeStream_def fenceRung_def isExpired_def IsExpiredAt_def WriteFenceOutcome0_def
        demo_streams empty_stream_def new_metadata_def opts_with_def Let_def)
  have run: "log_machine.run (NewMemoryStore, {}) [(env_at 0 ''A'', Op_Create ''/a'' (opts_with None ''x'' '''')),
      (env_at 1 ''B'', Op_Create ''/b'' (opts_with None '''' ''/a'')),
      (env_at 2 [], Op_Append ''/a'' ''y'' append_opts)] (demo_aby, {''42'', ''41''})"
    by (intro safe_run_log store_machine.run_Cons [OF step_demo_a] store_machine.run_Cons [OF step_demo_ab]
        store_machine.run_Cons [OF step_demo_aby] store_machine.run_Nil)
  from close_is_final [OF log_demo run c(1) log_machine.run_Nil demo_lookup(4) c(2)] c(2) show ?thesis by simp
qed

section \<open>Content across forks\<close>











section \<open>Write fencing\<close>

text \<open>
  C7: A sealed generation stays out: after a seal was reported, whatever runs, no append and no close
  under that generation or an older one of the same authority takes effect, and no grant gives it back.
\<close>
theorem sealed_generation_refused:
  assumes "log_init i" and "log_machine.run i ops1 (s, U)"
    and "SealAppendFence env path f s = (Inr res, s1)" and "sr_Outcome res \<in> {SealSealed, SealAlready}"
    and "log_machine.run (s1, U) ops2 (t, V)"
    and "ms_streams s1 path = Some a" and "ms_streams t path = Some b"
    and "sm_Incarnation (st_metadata b) = sm_Incarnation (st_metadata a)"
    and "FenceAuthority g = FenceAuthority f" and "af_Generation g \<le> af_Generation f"
  shows "(ao_Fence opts = Some g \<longrightarrow> snd (fst (Append env' path data opts t)) \<noteq> None \<and>
            ms_streams (snd (Append env' path data opts t)) = ms_streams t) \<and>
    snd (fst (CloseStreamFenced env' path g t)) \<noteq> None \<and>
    ms_streams (snd (CloseStreamFenced env' path g t)) = ms_streams t \<and>
    \<not> fst (fst (GrantAppendFence env' path g t))"
proof -
  have st: "log_step (s, U) (env, Op_SealAppendFence path f) (s1, U)" using assms(3) by (simp add: log_step_def)
  from reachable_extends [OF assms(1) log_machine.run_snoc [OF assms(2) st] assms(5), of path a b] assms(6-8) have e: "extends a b" "stream_ok b" by auto
  have "sealed_at a (FenceAuthority f) (af_Generation f)"
    using SealAppendFence_sealed [OF assms(3)] assms(4,6) by auto
  from sealed_at_extends [OF this e] have b: "sealed_at b (FenceAuthority g) (af_Generation g)"
    using assms(9,10) by (simp add: sealed_at_def)
  have "\<not> fst (fst (GrantAppendFence env' path g t))"
    using GrantAppendFence_sealed [OF assms(7) b, of env'] assms(7)
    by (cases "sm_Incarnation (st_metadata b) = ''''") (simp_all add: GrantAppendFence_def Let_def)
  moreover have "snd (fst (CloseStreamFenced env' path g t)) \<noteq> None \<and>
      ms_streams (snd (CloseStreamFenced env' path g t)) = ms_streams t"
    by (rule CloseStreamFenced_sealed [OF _ assms(7) b]) simp
  moreover have "ao_Fence opts = Some g \<longrightarrow> snd (fst (Append env' path data opts t)) \<noteq> None \<and>
      ms_streams (snd (Append env' path data opts t)) = ms_streams t"
    using Append_sealed [OF _ assms(7) _ b, of env' data opts "fst (Append env' path data opts t)"
        "snd (Append env' path data opts t)"] by simp
  ultimately show ?thesis by blast
qed

theorem sealed_generation_refused_witness:
  "snd (fst (Append (env_at 2 []) ''/f'' ''z'' fenced_opts demo_sealed)) \<noteq> None \<and>
   \<not> fst (fst (GrantAppendFence (env_at 2 []) ''/f'' fence_demo demo_sealed))"
proof -
  have sl: "SealAppendFence (env_at 1 []) ''/f'' fence_demo demo_f =
      (Inr \<lparr>sr_Outcome = SealSealed, sr_Generation = 1, sr_FinalOffset = ZeroOffset\<rparr>, demo_sealed)"
    using seal_demo by (simp add: demo_sealed_def prod_eq_iff)
  have l: "\<exists>a. ms_streams demo_sealed ''/f'' = Some a"
    by (simp add: demo_sealed_def SealAppendFence_def fence_eval)
  have o': "ao_Fence fenced_opts = Some fence_demo" by (simp add: fenced_opts_def append_with_def)
  from l obtain a where a: "ms_streams demo_sealed ''/f'' = Some a" ..
  from sealed_generation_refused [OF log_demo log_demo_f sl _ log_machine.run_Nil a a refl refl order_refl,
      of fenced_opts "env_at 2 []" "''z''"] o'
  show ?thesis by simp
qed

text \<open>
  C14: A fenced append that is committed was covered by a grant: the stream's marker for its authority
  is live, of its generation, wake and holder, within its lease and for this incarnation; on a fenced
  stream the producer epoch is the generation.
\<close>
theorem fenced_append_covered:
  assumes "Append env path data opts s = (r, t)" and "snd r = None"
    and "ar_ProducerResult (fst r) \<noteq> ProducerResultDuplicate" and "ao_Fence opts = Some g"
  shows "\<exists>m st. ms_markers s path (FenceAuthority g) = Some m \<and> ms_streams s path = Some st \<and>
    wm_State (mm_marker m) = WriteFenceMarkerLive \<and> wm_Generation (mm_marker m) = af_Generation g \<and>
    wm_WakeID (mm_marker m) = af_WakeID g \<and> wm_Holder (mm_marker m) = af_Holder g \<and>
    time_unix_nano (env_now env) < wm_LeaseUntilNs (mm_marker m) \<and>
    wm_StreamIncarnation (mm_marker m) = sm_Incarnation (st_metadata st) \<and>
    (sm_WriteFence (st_metadata st) \<longrightarrow> ao_ProducerEpoch opts = Some (af_Generation g))"
  using Append_marker [OF assms] by blast

theorem fenced_append_covered_witness:
  "\<exists>m. ms_markers demo_granted ''/f'' (FenceAuthority fence_demo) = Some m \<and>
     wm_State (mm_marker m) = WriteFenceMarkerLive \<and> 2000000000 < wm_LeaseUntilNs (mm_marker m)"
proof -
  obtain r t where run: "Append (env_at 2 []) ''/f'' ''z'' fenced_opts demo_granted = (r, t)" by fastforce
  from run fenced_append_demo have "snd r = None" "ar_ProducerResult (fst r) \<noteq> ProducerResultDuplicate" by auto
  from fenced_append_covered [OF run this, of fence_demo] show ?thesis
    by (auto simp: fenced_opts_def append_with_def env_at_def time_unix_nano_def i64_def wrap_signed_def)
qed

text \<open>
  C20: The authority string of a fence determines its subscription, the subscription's incarnation
  and the shard, so two claims never share a marker or a seal by accident.
\<close>
theorem fence_authority_injective:
  assumes "nul_free (af_SubscriptionID f)" and "nul_free (af_SubscriptionID g)"
    and "is_i64 (af_Shard f)" and "is_i64 (af_Shard g)"
  shows "FenceAuthority f = FenceAuthority g \<longleftrightarrow>
    af_SubscriptionID f = af_SubscriptionID g \<and>
    af_SubscriptionIncarnation f = af_SubscriptionIncarnation g \<and> af_Shard f = af_Shard g"
  by (rule FenceAuthority_inject [OF assms])

theorem fence_authority_injective_witness:
  "FenceAuthority fence_demo \<noteq> FenceAuthority (fence_demo\<lparr>af_Shard := 1\<rparr>)"
proof -
  have "nul_free ''s''" by code_simp
  then show ?thesis
    using fence_authority_injective [of fence_demo "fence_demo\<lparr>af_Shard := 1\<rparr>"] by (simp add: fence_demo_def is_i64_def)
qed

section \<open>Waiting readers\<close>

text \<open>
  C12: No wake-up is lost: while a reader is registered on a path, over any operations of others, it
  stays registered and keeps a pending token; if there is no token, the stream it waits for shows
  what it showed before (messages, tail and closed flag), or the path now holds another stream.
\<close>
theorem no_lost_wakeup:
  assumes "log_init i" and "log_machine.run i ops1 x" and "wait_machine.run ch x ops2 y"
    and "waiting path ch (fst x)"
    and "ms_streams (fst x) path = Some a" and "ms_streams (fst y) path = Some b"
    and "sm_Incarnation (st_metadata b) = sm_Incarnation (st_metadata a)"
  shows "waiting path ch (fst y) \<and> (token ch (fst x) \<longrightarrow> token ch (fst y)) \<and>
    (token ch (fst y) \<or>
     st_messages b = st_messages a \<and> sm_CurrentOffset (st_metadata b) = sm_CurrentOffset (st_metadata a) \<and>
     sm_Closed (st_metadata b) = sm_Closed (st_metadata a))"
proof -
  have I: "log_inv x" by (rule log_machine.init_run_inv [OF assms(1,2)])
  then have "sm_Incarnation (st_metadata b) \<in> snd x" using assms(5,7) by (auto simp: log_inv_def)
  with wait_run_rel [OF assms(3) I, of path] assms(4-6) show ?thesis
    unfolding wait_rel_def same_view_def by fastforce
qed

theorem no_lost_wakeup_witness:
  "let s = register ''/a'' 7 demo_ab; t = snd (Append (env_at 2 []) ''/a'' ''y'' append_opts s)
   in token 7 t"
proof -
  let ?s = "register ''/a'' 7 demo_ab"
  let ?t = "snd (Append (env_at 2 []) ''/a'' ''y'' append_opts ?s)"
  let ?a = "upd_meta (sm_RefCount_update (\<lambda>_. 1)) stream_a"
  have "log_step (demo_ab, {''42'', ''41''}) (env_at 2 [], Op_register ''/a'' 7) (?s, {''42'', ''41''})"
    by (simp add: log_step_def)
  note run = log_machine.run_snoc [OF log_demo_ab this]
  have "wait_step 7 (?s, {''42'', ''41''}) (env_at 2 [], Op_Append ''/a'' ''y'' append_opts) (?t, {''42'', ''41''})"
    by (simp add: wait_step_def log_step_def)
  note wrun = wait_machine.run_Cons [OF this wait_machine.run_Nil]
  have w: "waiting ''/a'' 7 ?s" by (simp add: waiting_def register_def lp_register_def)
  have a: "ms_streams ?s ''/a'' = Some ?a" by (simp add: register_def)
  have b: "\<exists>b. ms_streams ?t ''/a'' = Some b \<and> sm_Incarnation (st_metadata b) = ''41'' \<and> st_messages b \<noteq> st_messages ?a"
    by (simp add: register_def demo_ab_def demo_eval demo_streams append_opts_def append_with_def Append_def append_open_def
      append_data_def append_commit_def commit_stream_def HasProducerHeaders_def HasAllProducerHeaders_def
      fenceRung_def validateProducer_def ValidateProducer_def stream_bind_def getProducerLock_def accepted_result_def
      notify_def AppendResult0_def WriteFenceOutcome0_def Add_def)
  then obtain b where "ms_streams ?t ''/a'' = Some b" "sm_Incarnation (st_metadata b) = ''41''" "st_messages b \<noteq> st_messages ?a" by blast
  with no_lost_wakeup [OF log_demo run wrun, of "''/a''" ?a b] w a show ?thesis by (simp add: Let_def)
qed

section \<open>Rules of the stream types\<close>

text \<open>
  C19: Expiry is decided as if time were unbounded: the code's guard against overflow in last access
  plus time to live never changes the answer, for every clock reading and every stored time to live.
\<close>
theorem expiry_exact:
  assumes "is_i64 (tm_sec (sm_LastAccessedAt m))" and "is_i64 (tm_sec now)"
    and "\<And>ttl. sm_TTLSeconds m = Some ttl \<Longrightarrow> 0 \<le> ttl \<and> is_i64 ttl"
  shows "IsExpiredAt m now \<longleftrightarrow>
     (\<exists>t. sm_ExpiresAt m = Some t \<and> time_after now t) \<or>
     (\<exists>ttl. sm_TTLSeconds m = Some ttl \<and>
        time_after now \<lparr>tm_sec = tm_sec (sm_LastAccessedAt m) + ttl, tm_nsec = tm_nsec (sm_LastAccessedAt m)\<rparr>)"
  using IsExpiredAt_spec [of m now] assms by (auto simp: meta_times_ok_def expired_spec_def split: option.splits)

theorem expiry_exact_witness:
  "\<not> IsExpiredAt ((demo_meta 5 ''/a'' ''41'')\<lparr>sm_TTLSeconds := Some 9223372036854775807\<rparr>) \<lparr>tm_sec = 6, tm_nsec = 0\<rparr>"
  using expiry_exact [of "(demo_meta 5 ''/a'' ''41'')\<lparr>sm_TTLSeconds := Some 9223372036854775807\<rparr>" "\<lparr>tm_sec = 6, tm_nsec = 0\<rparr>"]
  by (simp add: demo_meta_def new_metadata_def opts_with_def env_at_def is_i64_def time_after_def)

text \<open>
  C16: For any sequence of requests to a fresh producer, the accepted (epoch, sequence) pairs are
  without gap or repetition: each continues the one before it or starts a higher epoch at zero, and
  with a pair every smaller sequence number of its epoch was accepted.
\<close>
theorem producer_gapless:
  assumes "requests_ok reqs" and "producer_run None reqs = (acc, fin)"
  shows "gapless_from None acc \<and> distinct acc \<and>
    (\<forall>e q r. (e, q) \<in> set acc \<and> 0 \<le> r \<and> r \<le> q \<longrightarrow> (e, r) \<in> set acc)"
proof -
  have g: "gapless_from None acc"
    using producer_run_gapless [of reqs None acc fin] assms by (simp add: state_pair_def)
  then show ?thesis
    using gapless_distinct [OF g] gapless_initial_segment [OF g] by blast
qed

theorem producer_gapless_witness:
  "distinct (fst (producer_run None [(0, 0, 1), (0, 0, 2), (0, 2, 3), (0, 1, 4), (1, 0, 5)]))"
proof -
  obtain acc fin where r: "producer_run None [(0, 0, 1), (0, 0, 2), (0, 2, 3), (0, 1, 4), (1, 0, 5)] = (acc, fin)" by fastforce
  from producer_gapless [OF _ this] show ?thesis unfolding r by (simp add: requests_ok_def is_i64_def)
qed

text \<open>
  C17: A JSON response can be appended again: processing the body that a read returns gives back
  exactly its frames, for frames of less than the nesting limit.
\<close>
theorem json_response_round_trip:
  assumes "ms \<noteq> []" and "\<forall>m \<in> set ms. json_frame (maxNestingDepth - 1) (msg_Data m)"
  shows "ProcessJSONAppend (FormatJSONResponse ms) allow = Inr (map msg_Data ms)"
  by (rule ProcessJSONAppend_Format [OF assms])

theorem json_response_round_trip_witness:
  "ProcessJSONAppend (FormatJSONResponse
     [\<lparr>msg_Data = ''[1,2]'', msg_Offset = Offset 0 1\<rparr>, \<lparr>msg_Data = ''null'', msg_Offset = Offset 0 2\<rparr>]) False =
   Inr [''[1,2]'', ''null'']"
  using json_response_round_trip [of "[\<lparr>msg_Data = ''[1,2]'', msg_Offset = Offset 0 1\<rparr>, \<lparr>msg_Data = ''null'', msg_Offset = Offset 0 2\<rparr>]" False]
  by (simp add: json_frame_def json_valid_upto_def step_BeginValue_def pushParseState_def isSpace_def is_digit_def
      step_EndValue_def popParseState_def expect_def scan_eof_def step_EndTop_def maxNestingDepth_def step_0_def)


section \<open>The Redis stream store\<close>

text \<open>
  C36: On a stored stream with a non-empty body, the append of the Redis store (reading the tail, running
  append.lua, decoding its reply) answers what the in-memory store answers, with the same result and
  error, and unless the stream is expired leaves stored what the in-memory store leaves; a server that
  executes every well-typed command makes it return.  The clock is the double the script reads, the
  comparisons of expiry and lease with it come out as on integers, and a given tail hint is the tail.
\<close>

theorem redis_append_refines:
  assumes "redis_server R" and "append_ready (rd_val R t) env path data opts st s"
    and "time_unix_nano (env_now env) = to_double (time_unix_nano (clock 0))"
    and "ao_TailHint opts = None \<or> ao_TailHint opts = Some (sm_CurrentOffset (st_metadata st))"
  shows "(reliable R \<longrightarrow> fst (rexec R (redis_Append clock path data opts) t) \<noteq> None) \<and>
    (\<forall>out t'. rexec R (redis_Append clock path data opts) t = (Some out, t') \<longrightarrow>
      out = append_outcome (fst (Append env path data opts s)) \<and>
      (\<not> isExpired env (st_metadata st) \<longrightarrow>
       stream_stored (rd_val R t') path (the (ms_streams (snd (Append env path data opts s)) path))))"
proof -
  let ?Q = "\<lambda>out W. out = append_outcome (fst (Append env path data opts s)) \<and>
    (\<not> isExpired env (st_metadata st) \<longrightarrow> stream_stored W path (the (ms_streams (snd (Append env path data opts s)) path)))"
  have "twp (redis_Append clock path data opts) ?Q (rd_val R t)"
    by (rule redis_Append_twp [where Q = ?Q and clock = clock and V = "rd_val R t", OF assms(2,3,4)]) auto
  from twp_returns [OF assms(1) _ this] redis_server.rexec_wp [OF assms(1) twp_wp [OF this]] show ?thesis by fastforce
qed

theorem redis_append_refines_witness:
  "case rexec mem_redis (redis_Append (\<lambda>n. \<lparr>tm_sec = int n, tm_nsec = 0\<rparr>) ''/a'' ''y'' append_opts) demo_redis of
     (None, _) \<Rightarrow> False
   | (Some out, t') \<Rightarrow>
       out = append_outcome (fst (Append (env_at 0 []) ''/a'' ''y'' append_opts demo_a)) \<and>
       stream_stored (rd_val mem_redis t') ''/a'' (the (ms_streams (snd (Append (env_at 0 []) ''/a'' ''y'' append_opts demo_a)) ''/a''))"
proof -
  have c: "time_unix_nano (env_now (env_at 0 [])) = to_double (time_unix_nano \<lparr>tm_sec = int 0, tm_nsec = 0\<rparr>)"
    by (simp add: env_at_def time_unix_nano_def i64_id is_i64_def)
  have "ao_TailHint append_opts = None" by (simp add: append_opts_def append_with_def)
  moreover have "\<not> isExpired (env_at 0 []) (st_metadata stream_a)"
    by (simp add: isExpired_def IsExpiredAt_def stream_a_def demo_meta_def new_metadata_def opts_with_def Let_def)
  ultimately show ?thesis
    using redis_append_refines [OF mem.redis_server_axioms demo_redis_ready, where clock = "\<lambda>n. \<lparr>tm_sec = int n, tm_nsec = 0\<rparr>", OF c] mem_reliable
    by (auto split: prod.split option.split)
qed

end
